(* ===== verification/Prelude.thy ===== *)
theory Prelude
  imports Main "HOL-Library.Word" "HOL-Library.List_Lexorder" "HOL-Library.Product_Lexorder"
begin

unbundle bit_operations_syntax

text \<open>
  Shared vocabulary of the development: the strings of the two languages, the decimal
  rendering and parsing of integers, the insertion-ordered map of the browser, the
  interface every key/value store of the system offers, and the generic lemmas the
  component theories use.

  A JavaScript string is a sequence of 16-bit code units (\<open>jsstring\<close>), a Go string is
  a sequence of bytes (\<open>gostring\<close>), and the text both of them carry is a sequence of
  Unicode code points (\<open>utext\<close>), which is what JSON and the database transport.
\<close>

named_theorems kv_simps \<open>the laws of the key/value stores\<close>
named_theorems status_simps \<open>how the operations of a component change its status fields\<close>
named_theorems view_simps \<open>the definitions of the derived view values\<close>

type_synonym jsstring = "16 word list"
type_synonym gostring = "8 word list"
type_synonym utext = "nat list"

section \<open>String literals\<close>

text \<open>An ASCII literal of the source as a sequence of code units, bytes or code points.\<close>

definition js :: "string \<Rightarrow> jsstring" where
  "js s = map of_char s"

definition go :: "string \<Rightarrow> gostring" where
  "go s = map of_char s"

definition ascii :: "string \<Rightarrow> utext" where
  "ascii s = map of_char s"

lemma of_char_word_inj:
  assumes "8 \<le> LENGTH('a::len)"
  shows "(of_char c :: 'a word) = of_char d \<longleftrightarrow> c = d"
proof
  assume eq: "(of_char c :: 'a word) = of_char d"
  have small: "(of_char x :: nat) < 2 ^ LENGTH('a)" for x
  proof -
    have "(of_char x :: nat) mod 256 < 256" by (rule mod_less_divisor) simp
    then have "(of_char x :: nat) < 2 ^ 8" by simp
    also have "(2::nat) ^ 8 \<le> 2 ^ LENGTH('a)" using assms by (rule power_increasing) simp
    finally show ?thesis .
  qed
  have "unat (of_nat (of_char x) :: 'a word) = of_char x" for x
    using small [of x] by (simp only: unat_of_nat take_bit_nat_def mod_less)
  with eq have "(of_char c :: nat) = of_char d"
    by (metis of_nat_of_char)
  then show "c = d" by simp
qed simp

lemma js_eq_iff [simp]: "js s = js t \<longleftrightarrow> s = t"
proof -
  have "inj (of_char :: char \<Rightarrow> 16 word)"
    by (rule injI) (simp add: of_char_word_inj)
  then show ?thesis by (simp add: js_def inj_map_eq_map)
qed

lemma go_eq_iff [simp]: "go s = go t \<longleftrightarrow> s = t"
proof -
  have "inj (of_char :: char \<Rightarrow> 8 word)"
    by (rule injI) (simp add: of_char_word_inj)
  then show ?thesis by (simp add: go_def inj_map_eq_map)
qed

lemma ascii_eq_iff [simp]: "ascii s = ascii t \<longleftrightarrow> s = t"
proof -
  have "inj (of_char :: char \<Rightarrow> nat)" by (rule injI) simp
  then show ?thesis by (simp add: ascii_def inj_map_eq_map)
qed

lemma js_append [simp]: "js (s @ t) = js s @ js t"
  by (simp add: js_def)

lemma length_js [simp]: "length (js s) = length s"
  by (simp add: js_def)

lemma js_Nil_iff [simp]: "js s = [] \<longleftrightarrow> s = []"
  by (simp add: js_def)

section \<open>Decimal integers\<close>

text \<open>
  \<open>js_num i\<close> is the text of an integer-valued JavaScript number in a template literal
  (and of Go's \<^verbatim>\<open>%d\<close>); \<open>parseInt\<close> is \<^verbatim>\<open>parseInt(s, 10)\<close>: leading white space is
  skipped, an optional sign and the longest run of digits are read, and a string with no
  digit there gives \<open>NaN\<close>, here \<open>None\<close>. Config versions stay far below
  \<^verbatim>\<open>2^53\<close>, where doubles are exact, so numbers are \<open>int\<close>.
\<close>

definition digit :: "nat \<Rightarrow> 16 word" where
  "digit d = of_nat (48 + d)"

fun nat_digits :: "nat \<Rightarrow> jsstring" where
  "nat_digits n = (if n < 10 then [digit n] else nat_digits (n div 10) @ [digit (n mod 10)])"

declare nat_digits.simps [simp del]

definition js_num :: "int \<Rightarrow> jsstring" where
  "js_num i = (if i < 0 then 45 # nat_digits (nat (- i)) else nat_digits (nat i))"

text \<open>The code units \<^verbatim>\<open>String.prototype.trim\<close> and \<^verbatim>\<open>parseInt\<close> treat as white space.\<close>

definition is_space :: "16 word \<Rightarrow> bool" where
  "is_space c \<longleftrightarrow> c \<in> set [0x9, 0xA, 0xB, 0xC, 0xD, 0x20, 0xA0, 0x1680, 0x2028, 0x2029,
      0x202F, 0x205F, 0x3000, 0xFEFF] \<or> 0x2000 \<le> c \<and> c \<le> 0x200A"

definition trim :: "jsstring \<Rightarrow> jsstring" where
  "trim s = rev (dropWhile is_space (rev (dropWhile is_space s)))"

definition is_digit :: "16 word \<Rightarrow> bool" where
  "is_digit c \<longleftrightarrow> 48 \<le> c \<and> c \<le> 57"

definition digits_value :: "jsstring \<Rightarrow> nat" where
  "digits_value ds = foldl (\<lambda>a c. 10 * a + (unat c - 48)) 0 ds"

definition parseInt :: "jsstring \<Rightarrow> int option" where
  "parseInt s =
     (let s1 = dropWhile is_space s;
          neg = (case s1 of c # _ \<Rightarrow> c = 45 | [] \<Rightarrow> False);
          s2 = (case s1 of c # r \<Rightarrow> if c = 45 \<or> c = 43 then r else s1 | [] \<Rightarrow> []);
          ds = takeWhile is_digit s2
      in if ds = [] then None
         else Some (if neg then - int (digits_value ds) else int (digits_value ds)))"

lemma unat_digit: "d < 10 \<Longrightarrow> unat (digit d) = 48 + d"
  by (simp add: digit_def unat_of_nat take_bit_nat_def del: of_nat_add)

lemma is_digit_digit [simp]: "d < 10 \<Longrightarrow> is_digit (digit d)"
  by (simp add: is_digit_def word_le_nat_alt unat_digit)

lemma is_digit_not_space: "is_digit c \<Longrightarrow> \<not> is_space c \<and> c \<noteq> 45 \<and> c \<noteq> 43"
  by (auto simp: is_digit_def is_space_def word_le_nat_alt)

lemma nat_digits_are_digits: "\<forall>c \<in> set (nat_digits n). is_digit c"
proof (induction n rule: nat_digits.induct)
  case (1 n)
  then show ?case by (cases "n < 10") (simp_all add: nat_digits.simps [of n])
qed

lemma nat_digits_nonempty: "nat_digits n \<noteq> []"
  by (subst nat_digits.simps) simp

lemma digits_value_append:
  "digits_value (xs @ [c]) = 10 * digits_value xs + (unat c - 48)"
  by (simp add: digits_value_def)

lemma digits_value_nat_digits [simp]: "digits_value (nat_digits n) = n"
proof (induction n rule: nat_digits.induct)
  case (1 n)
  show ?case
  proof (cases "n < 10")
    case True
    then show ?thesis by (simp add: nat_digits.simps [of n] digits_value_def unat_digit)
  next
    case False
    with 1 show ?thesis
      by (simp add: nat_digits.simps [of n] digits_value_append unat_digit)
  qed
qed

lemma dropWhile_space_digits:
  "dropWhile is_space (nat_digits n) = nat_digits n"
  using nat_digits_are_digits [of n] by (cases "nat_digits n") (auto simp: is_digit_not_space)

lemma nat_digits_hd_digit: "\<exists>c cs. nat_digits n = c # cs \<and> is_digit c"
  using nat_digits_are_digits [of n] nat_digits_nonempty [of n] by (cases "nat_digits n") auto

lemma takeWhile_digits: "takeWhile is_digit (nat_digits n) = nat_digits n"
  using nat_digits_are_digits by (simp add: takeWhile_eq_all_conv)

lemma parseInt_nat_digits: "parseInt (nat_digits n) = Some (int n)"
proof -
  obtain c cs where n: "nat_digits n = c # cs" and c: "is_digit c"
    using nat_digits_hd_digit by blast
  have "dropWhile is_space (c # cs) = c # cs" "takeWhile is_digit (c # cs) = c # cs"
    using dropWhile_space_digits [of n] takeWhile_digits [of n] n by simp_all
  moreover have "digits_value (c # cs) = n" by (metis n digits_value_nat_digits)
  ultimately show ?thesis
    using is_digit_not_space [OF c] by (simp add: n parseInt_def Let_def)
qed

lemma parseInt_neg_digits: "parseInt (45 # nat_digits n) = Some (- int n)"
proof -
  have "\<not> is_space 45" by (simp add: is_space_def word_le_nat_alt)
  then have "dropWhile is_space (45 # nat_digits n) = 45 # nat_digits n" by simp
  then show ?thesis
    by (simp add: parseInt_def Let_def takeWhile_digits nat_digits_nonempty)
qed

lemma parseInt_js_num [simp]: "parseInt (js_num i) = Some i"
  by (simp add: js_num_def parseInt_nat_digits parseInt_neg_digits)

lemma js_num_inj [simp]: "js_num i = js_num j \<longleftrightarrow> i = j"
  by (metis option.inject parseInt_js_num)

lemma js_num_nonempty [simp]: "js_num i \<noteq> []"
  by (simp add: js_num_def nat_digits_nonempty)

lemma trim_idem [simp]: "trim (trim s) = trim s"
proof -
  have drop_idem: "dropWhile P (dropWhile P xs) = dropWhile P xs" for P and xs :: "jsstring"
    by (induction xs) auto
  have keep: "dropWhile P (rev (dropWhile P (rev xs))) = rev (dropWhile P (rev xs))"
    if "dropWhile P xs = xs" for P and xs :: "jsstring"
  proof (cases xs)
    case (Cons x r)
    with that have "\<not> P x" by (metis dropWhile_eq_Cons_conv list.inject)
    then have "\<exists>ys. dropWhile P (rev r @ [x]) = ys @ [x]"
      by (induction "rev r") (auto simp: dropWhile_append)
    then obtain ys where "dropWhile P (rev r @ [x]) = ys @ [x]" by blast
    with Cons \<open>\<not> P x\<close> show ?thesis by simp
  qed simp
  show ?thesis
    by (simp add: trim_def keep drop_idem)
qed

section \<open>Splitting and joining\<close>

text \<open>\<^verbatim>\<open>s.split(c)\<close> and \<^verbatim>\<open>xs.join(c)\<close> for a separator of one unit.\<close>

fun split_on :: "'a \<Rightarrow> 'a list \<Rightarrow> 'a list list" where
  "split_on c [] = [[]]"
| "split_on c (x # xs) =
     (if x = c then [] # split_on c xs
      else (case split_on c xs of s # ss \<Rightarrow> (x # s) # ss | [] \<Rightarrow> [[x]]))"

fun join_with :: "'a \<Rightarrow> 'a list list \<Rightarrow> 'a list" where
  "join_with c [] = []"
| "join_with c [s] = s"
| "join_with c (s # ss) = s @ c # join_with c ss"

lemma split_on_nonempty [simp]: "split_on c s \<noteq> []"
  by (cases s) (auto split: list.split)

lemma split_on_notin: "c \<notin> set t \<Longrightarrow> split_on c t = [t]"
  by (induction t) auto

lemma split_on_append: "c \<notin> set t \<Longrightarrow> split_on c (t @ c # u) = t # split_on c u"
  by (induction t) auto

lemma join_with_Cons: "ss \<noteq> [] \<Longrightarrow> join_with c (s # ss) = s @ c # join_with c ss"
  by (cases ss) simp_all

lemma join_split [simp]: "join_with c (split_on c s) = s"
proof (induction s)
  case (Cons x xs)
  obtain t ts where t: "split_on c xs = t # ts" using split_on_nonempty [of c xs] by (cases "split_on c xs") auto
  with Cons have "join_with c (t # ts) = xs" by simp
  then have "join_with c ((x # t) # ts) = x # xs" by (cases ts) simp_all
  with t Cons show ?case by (simp add: join_with_Cons)
qed simp

section \<open>Generic facts on lists\<close>

lemma find_distinct_iff:
  assumes "distinct (map g xs)"
  shows "find (\<lambda>x. g x = k) xs = Some x \<longleftrightarrow> x \<in> set xs \<and> g x = k"
  using assms by (induction xs) auto

lemma find_None_key: "find (\<lambda>x. g x = k) xs = None \<longleftrightarrow> k \<notin> g ` set xs"
  by (auto simp: find_None_iff)

lemma option_eqI_iff: "(\<And>y. a = Some y \<longleftrightarrow> b = Some y) \<Longrightarrow> a = b"
  by (cases a; cases b) auto

lemma sorted_wrt_snoc: "sorted_wrt P (xs @ [x]) \<longleftrightarrow> sorted_wrt P xs \<and> (\<forall>y \<in> set xs. P y x)"
  by (auto simp: sorted_wrt_append)

lemma sort_key_sorted_id: "sorted (map f xs) \<Longrightarrow> sort_key f xs = xs"
  by (simp add: sort_key_id_if_sorted)

lemma filter_greater_suffix:
  fixes g :: "'a \<Rightarrow> int"
  assumes "sorted_wrt (<) (map g xs)"
  shows "\<exists>n. filter (\<lambda>x. g x > c) xs = drop n xs \<and> (\<forall>x \<in> set (take n xs). g x \<le> c)"
proof -
  let ?n = "length (takeWhile (\<lambda>x. g x \<le> c) xs)"
  have "dropWhile (\<lambda>x. g x \<le> c) xs = filter (\<lambda>x. g x > c) xs"
    using assms by (induction xs) (auto simp: filter_id_conv intro!: filter_True [symmetric])
  moreover have "take ?n xs = takeWhile (\<lambda>x. g x \<le> c) xs"
    by (metis takeWhile_eq_take)
  ultimately show ?thesis
    by (metis dropWhile_eq_drop set_takeWhileD)
qed

end
