(* ===== verification/Json.thy ===== *)
theory Json
  imports Prelude
begin

text \<open>
  Fetched JSON as the page reads it: the values, field access with missing fields, the
  \<^verbatim>\<open>typeof\<close> tests, truthiness and \<^verbatim>\<open>??\<close>. Numbers that the page uses as integers are \<open>int\<close>.
\<close>

section \<open>JSON values\<close>

datatype json =
    JNull
  | JBool bool
  | JNum int
  | JStr jsstring
  | JArr "json list"
  | JObj "(string \<times> json) list"

text \<open>\<^verbatim>\<open>data.name\<close>: reading a field of \<^verbatim>\<open>null\<close> throws (callers test for it), a missing one is \<open>None\<close>.\<close>

fun field :: "string \<Rightarrow> json \<Rightarrow> json option" where
  "field n (JObj fs) = map_of fs n"
| "field n _ = None"

fun as_number :: "json option \<Rightarrow> int option" where
  "as_number (Some (JNum n)) = Some n"
| "as_number _ = None"

fun as_string :: "json option \<Rightarrow> jsstring option" where
  "as_string (Some (JStr s)) = Some s"
| "as_string _ = None"

text \<open>\<^verbatim>\<open>a ?? b\<close>\<close>

fun nullish :: "json option \<Rightarrow> json \<Rightarrow> json" where
  "nullish None d = d"
| "nullish (Some JNull) d = d"
| "nullish (Some j) d = j"

text \<open>\<^verbatim>\<open>!!x\<close>\<close>

fun truthy :: "json option \<Rightarrow> bool" where
  "truthy None = False"
| "truthy (Some JNull) = False"
| "truthy (Some (JBool b)) = b"
| "truthy (Some (JNum n)) = (n \<noteq> 0)"
| "truthy (Some (JStr s)) = (s \<noteq> [])"
| "truthy (Some (JArr xs)) = True"
| "truthy (Some (JObj fs)) = True"

end
