(* ===== verification/Stores.thy ===== *)
theory Stores
  imports Prelude
begin

text \<open>
  Key/value stores. Three parts of the system keep flags by key: the browser SDK in an
  insertion-ordered JavaScript \<^verbatim>\<open>Map\<close>, the Go SDK in a Go \<^verbatim>\<open>map\<close>, and the server in
  the \<^verbatim>\<open>feature_flags\<close> table. The interface \<open>kv_store\<close> says what a lookup returns after
  an insertion or a removal; what a replayed list of changes leaves in a store is proved
  once from these laws, and holds for every store that interprets them.
\<close>

section \<open>Changes and their net effect\<close>

datatype ('k, 'v) change = Put 'k 'v | Del 'k

fun change_key :: "('k, 'v) change \<Rightarrow> 'k" where
  "change_key (Put k v) = k"
| "change_key (Del k) = k"

fun change_value :: "('k, 'v) change \<Rightarrow> 'v option" where
  "change_value (Put k v) = Some v"
| "change_value (Del k) = None"

text \<open>
  What a list of changes does to one key: \<open>None\<close> leaves it alone, otherwise the value of
  the last change that names the key.
\<close>

fun net :: "('k, 'v) change list \<Rightarrow> 'k \<Rightarrow> 'v option option" where
  "net [] k = None"
| "net (c # cs) k =
     (case net cs k of
        Some r \<Rightarrow> Some r
      | None \<Rightarrow> if change_key c = k then Some (change_value c) else None)"

fun apply_change :: "('k \<Rightarrow> 'v \<Rightarrow> 'm \<Rightarrow> 'm) \<Rightarrow> ('k \<Rightarrow> 'm \<Rightarrow> 'm) \<Rightarrow> 'm \<Rightarrow> ('k, 'v) change \<Rightarrow> 'm" where
  "apply_change st dl m (Put k v) = st k v m"
| "apply_change st dl m (Del k) = dl k m"

abbreviation overlay :: "'v option option \<Rightarrow> 'v option \<Rightarrow> 'v option" where
  "overlay r old \<equiv> (case r of None \<Rightarrow> old | Some v \<Rightarrow> v)"

lemma net_append: "net (cs @ ds) k = (case net ds k of None \<Rightarrow> net cs k | Some r \<Rightarrow> Some r)"
  by (induction cs) (auto split: option.splits)

lemma net_snoc:
  "net (cs @ [c]) k = (if change_key c = k then Some (change_value c) else net cs k)"
  by (simp add: net_append)

lemma net_untouched: "k \<notin> change_key ` set cs \<longleftrightarrow> net cs k = None"
  by (induction cs) (auto split: option.splits)

section \<open>The interface of a store\<close>

locale kv_store =
  fixes kempty :: "'m"
    and kget :: "'m \<Rightarrow> 'k \<Rightarrow> 'v option"
    and kset :: "'k \<Rightarrow> 'v \<Rightarrow> 'm \<Rightarrow> 'm"
    and kdel :: "'k \<Rightarrow> 'm \<Rightarrow> 'm"
  assumes get_empty: "kget kempty k = None"
    and get_set: "kget (kset k v m) k' = (if k' = k then Some v else kget m k')"
    and get_del: "kget (kdel k m) k' = (if k' = k then None else kget m k')"
begin

lemmas kv_laws = get_empty get_set get_del

lemma get_apply_change:
  "kget (apply_change kset kdel m c) k =
     (if change_key c = k then change_value c else kget m k)"
  by (cases c) (simp_all add: get_set get_del)

lemma get_replay:
  "kget (foldl (apply_change kset kdel) m cs) k = overlay (net cs k) (kget m k)"
  by (induction cs rule: rev_induct)
    (auto simp: get_apply_change net_snoc split: option.splits)

lemma get_replay_agree:
  assumes "\<forall>k. kget m k = tbl k"
  shows "kget (foldl (apply_change kset kdel) m cs) k = overlay (net cs k) (tbl k)"
  using assms by (simp add: get_replay split: option.split)

lemma set_set_same: "kget (kset k v (kset k w m)) = kget (kset k v m)"
  by (rule ext) (simp add: get_set)

lemma set_del_commute:
  "k \<noteq> k' \<Longrightarrow> kget (kset k v (kdel k' m)) = kget (kdel k' (kset k v m))"
  by (rule ext) (simp add: get_set get_del)

end

section \<open>The JavaScript Map\<close>

text \<open>
  \<^verbatim>\<open>Map.set\<close> overwrites in place and appends a new key at the end, so iteration follows
  insertion order; \<^verbatim>\<open>Map.delete\<close> removes the entry.
\<close>

type_synonym ('k, 'v) jsmap = "('k \<times> 'v) list"

fun map_set :: "'k \<Rightarrow> 'v \<Rightarrow> ('k, 'v) jsmap \<Rightarrow> ('k, 'v) jsmap" where
  "map_set k v [] = [(k, v)]"
| "map_set k v ((k', v') # m) = (if k = k' then (k', v) # m else (k', v') # map_set k v m)"

definition map_delete :: "'k \<Rightarrow> ('k, 'v) jsmap \<Rightarrow> ('k, 'v) jsmap" where
  "map_delete k m = filter (\<lambda>e. fst e \<noteq> k) m"

abbreviation map_get :: "('k, 'v) jsmap \<Rightarrow> 'k \<Rightarrow> 'v option" where
  "map_get \<equiv> map_of"

definition map_keys :: "('k, 'v) jsmap \<Rightarrow> 'k list" where
  "map_keys m = map fst m"

definition map_values :: "('k, 'v) jsmap \<Rightarrow> 'v list" where
  "map_values m = map snd m"

text \<open>Every \<^verbatim>\<open>Map\<close> has each key once; the operations keep it so.\<close>

definition map_wf :: "('k, 'v) jsmap \<Rightarrow> bool" where
  "map_wf m \<longleftrightarrow> distinct (map fst m)"

lemma map_get_set: "map_get (map_set k v m) k' = (if k' = k then Some v else map_get m k')"
  by (induction m) auto

lemma map_get_delete: "map_get (map_delete k m) k' = (if k' = k then None else map_get m k')"
  by (induction m) (auto simp: map_delete_def)

lemma keys_map_set:
  "map fst (map_set k v m) = (if k \<in> fst ` set m then map fst m else map fst m @ [k])"
  by (induction m) force+

lemma map_wf_empty [simp]: "map_wf []"
  by (simp add: map_wf_def)

lemma map_wf_set [simp]: "map_wf m \<Longrightarrow> map_wf (map_set k v m)"
  by (simp add: map_wf_def keys_map_set)

lemma map_wf_delete [simp]: "map_wf m \<Longrightarrow> map_wf (map_delete k m)"
  by (simp add: map_wf_def map_delete_def distinct_map_filter)

lemma map_set_existing_order: "map_get m k \<noteq> None \<Longrightarrow> map_keys (map_set k v m) = map_keys m"
  by (auto simp: map_keys_def keys_map_set map_of_eq_None_iff)

lemma map_set_new_order: "map_get m k = None \<Longrightarrow> map_keys (map_set k v m) = map_keys m @ [k]"
  by (simp add: map_keys_def keys_map_set map_of_eq_None_iff)

interpretation jsmap: kv_store "[]" map_get map_set map_delete
  by unfold_locales (simp_all add: map_get_set map_get_delete)

section \<open>Go maps and tables\<close>

text \<open>A Go \<^verbatim>\<open>map\<close> has no order; it is a partial function.\<close>

definition gomap_set :: "'k \<Rightarrow> 'v \<Rightarrow> ('k \<rightharpoonup> 'v) \<Rightarrow> ('k \<rightharpoonup> 'v)" where
  "gomap_set k v m = m(k \<mapsto> v)"

definition gomap_delete :: "'k \<Rightarrow> ('k \<rightharpoonup> 'v) \<Rightarrow> ('k \<rightharpoonup> 'v)" where
  "gomap_delete k m = m(k := None)"

interpretation gomap: kv_store "Map.empty" "\<lambda>m. m" gomap_set gomap_delete
  by unfold_locales (simp_all add: gomap_set_def gomap_delete_def)

declare jsmap.kv_laws [kv_simps] gomap.kv_laws [kv_simps]

end
