(* ===== verification/Encoding.thy ===== *)
theory Encoding
  imports Prelude
begin

text \<open>
  How one text is spelled by the two runtimes: UTF-16 code units in the browser
  (\<^verbatim>\<open>charCodeAt\<close>, \<^verbatim>\<open>length\<close>) and UTF-8 bytes in Go (\<^verbatim>\<open>[]byte(s)\<close>, \<^verbatim>\<open>len\<close>). The two
  agree, unit for byte, exactly on ASCII text.
\<close>

definition scalar :: "nat \<Rightarrow> bool" where
  "scalar c \<longleftrightarrow> c < 0xD800 \<or> 0xE000 \<le> c \<and> c < 0x110000"

abbreviation valid_text :: "utext \<Rightarrow> bool" where
  "valid_text t \<equiv> list_all scalar t"

definition utf16_char :: "nat \<Rightarrow> jsstring" where
  "utf16_char c =
     (if c < 0x10000 then [of_nat c]
      else [of_nat (0xD800 + (c - 0x10000) div 0x400), of_nat (0xDC00 + (c - 0x10000) mod 0x400)])"

definition utf16 :: "utext \<Rightarrow> jsstring" where
  "utf16 t = concat (map utf16_char t)"

definition utf8_char :: "nat \<Rightarrow> gostring" where
  "utf8_char c =
     (if c < 0x80 then [of_nat c]
      else if c < 0x800 then [of_nat (0xC0 + c div 0x40), of_nat (0x80 + c mod 0x40)]
      else if c < 0x10000 then
        [of_nat (0xE0 + c div 0x1000), of_nat (0x80 + c div 0x40 mod 0x40), of_nat (0x80 + c mod 0x40)]
      else
        [of_nat (0xF0 + c div 0x40000), of_nat (0x80 + c div 0x1000 mod 0x40),
         of_nat (0x80 + c div 0x40 mod 0x40), of_nat (0x80 + c mod 0x40)])"

definition utf8 :: "utext \<Rightarrow> gostring" where
  "utf8 t = concat (map utf8_char t)"

abbreviation ascii_text :: "utext \<Rightarrow> bool" where
  "ascii_text t \<equiv> list_all (\<lambda>c. c < 0x80) t"

lemma utf16_Nil [simp]: "utf16 [] = []" and utf8_Nil [simp]: "utf8 [] = []"
  by (simp_all add: utf16_def utf8_def)

lemma utf16_append [simp]: "utf16 (s @ t) = utf16 s @ utf16 t"
  by (simp add: utf16_def)

lemma utf8_append [simp]: "utf8 (s @ t) = utf8 s @ utf8 t"
  by (simp add: utf8_def)

lemma utf16_Cons: "utf16 (c # t) = utf16_char c @ utf16 t"
  by (simp add: utf16_def)

lemma utf8_Cons: "utf8 (c # t) = utf8_char c @ utf8 t"
  by (simp add: utf8_def)

lemma utf16_ascii: "ascii_text t \<Longrightarrow> utf16 t = map of_nat t"
  by (induction t) (simp_all add: utf16_Cons utf16_char_def)

lemma utf8_ascii: "ascii_text t \<Longrightarrow> utf8 t = map of_nat t"
  by (induction t) (simp_all add: utf8_Cons utf8_char_def)

text \<open>Every byte of a multi-byte sequence, and every unit of a non-ASCII text, is above ASCII.\<close>

lemma unat_of_nat16: "n < 65536 \<Longrightarrow> unat (of_nat n :: 16 word) = n"
  by (simp add: unat_of_nat take_bit_nat_def)

lemma unat_of_nat8: "n < 256 \<Longrightarrow> unat (of_nat n :: 8 word) = n"
  by (simp add: unat_of_nat take_bit_nat_def)

lemma utf8_char_ascii_iff:
  assumes "scalar c"
  shows "list_all (\<lambda>b. unat b < 0x80) (utf8_char c) \<longleftrightarrow> c < 0x80"
proof -
  have "c < 0x110000" using assms by (auto simp: scalar_def)
  then have "c div 0x40000 < 5" by (simp add: div_less_iff_less_mult)
  then show ?thesis
    by (auto simp: utf8_char_def unat_of_nat8 div_less_iff_less_mult simp del: of_nat_add)
qed

lemma utf16_char_ascii_iff:
  assumes "scalar c"
  shows "list_all (\<lambda>u. unat u < 0x80) (utf16_char c) \<longleftrightarrow> c < 0x80"
proof -
  have "c < 0x110000" using assms by (auto simp: scalar_def)
  then have "(c - 0x10000) div 0x400 < 0x400" by (simp add: div_less_iff_less_mult)
  then show ?thesis
    by (auto simp: utf16_char_def unat_of_nat16 simp del: of_nat_add)
qed

lemma utf8_ascii_iff:
  "valid_text t \<Longrightarrow> list_all (\<lambda>b. unat b < 0x80) (utf8 t) \<longleftrightarrow> ascii_text t"
  by (induction t) (auto simp: utf8_Cons utf8_char_ascii_iff)

lemma utf16_ascii_iff:
  "valid_text t \<Longrightarrow> list_all (\<lambda>u. unat u < 0x80) (utf16 t) \<longleftrightarrow> ascii_text t"
  by (induction t) (auto simp: utf16_Cons utf16_char_ascii_iff)

lemma utf16_char_nonempty [simp]: "utf16_char c \<noteq> []"
  by (simp add: utf16_char_def)

lemma utf8_char_nonempty [simp]: "utf8_char c \<noteq> []"
  by (simp add: utf8_char_def)

lemma utf16_Nil_iff [simp]: "utf16 t = [] \<longleftrightarrow> t = []"
  by (cases t) (simp_all add: utf16_Cons)

lemma utf8_Nil_iff [simp]: "utf8 t = [] \<longleftrightarrow> t = []"
  by (cases t) (simp_all add: utf8_Cons)

section \<open>Decoding UTF-16\<close>

fun utf16_decode :: "jsstring \<Rightarrow> utext" where
  "utf16_decode [] = []"
| "utf16_decode [u] = [unat u]"
| "utf16_decode (u # v # r) =
     (if 0xD800 \<le> u \<and> u < 0xDC00 \<and> 0xDC00 \<le> v \<and> v < 0xE000
      then (0x10000 + (unat u - 0xD800) * 0x400 + (unat v - 0xDC00)) # utf16_decode r
      else unat u # utf16_decode (v # r))"

lemma utf16_decode_bmp:
  assumes "\<not> (0xD800 \<le> unat u \<and> unat u < 0xDC00)"
  shows "utf16_decode (u # r) = unat u # utf16_decode r"
  using assms by (cases r) (auto simp: word_le_nat_alt word_less_nat_alt)

lemma utf16_decode_char:
  assumes "scalar c"
  shows "utf16_decode (utf16_char c @ r) = c # utf16_decode r"
proof (cases "c < 0x10000")
  case True
  have "unat (of_nat c :: 16 word) = c" using True by (simp add: unat_of_nat16)
  with True assms show ?thesis
    using utf16_decode_bmp [of "of_nat c" r] by (auto simp: utf16_char_def scalar_def)
next
  case False
  let ?d = "c - 0x10000"
  have lt: "?d div 0x400 < 0x400" using assms False
    by (simp add: scalar_def div_less_iff_less_mult)
  have hi: "unat (of_nat (0xD800 + ?d div 0x400) :: 16 word) = 0xD800 + ?d div 0x400"
    using lt by (intro unat_of_nat16) simp
  have lo: "unat (of_nat (0xDC00 + ?d mod 0x400) :: 16 word) = 0xDC00 + ?d mod 0x400"
    by (intro unat_of_nat16) (simp add: trans_less_add1)
  have "?d div 0x400 * 0x400 + ?d mod 0x400 = ?d" by (rule div_mult_mod_eq)
  then show ?thesis
    using False lt hi lo
    by (simp add: utf16_char_def word_le_nat_alt word_less_nat_alt del: of_nat_add)
qed

lemma utf16_decode_utf16 [simp]: "valid_text t \<Longrightarrow> utf16_decode (utf16 t) = t"
  by (induction t) (simp_all add: utf16_Cons utf16_decode_char)

lemma utf16_inj: "valid_text s \<Longrightarrow> valid_text t \<Longrightarrow> utf16 s = utf16 t \<longleftrightarrow> s = t"
  by (metis utf16_decode_utf16)

end
