(* ===== verification/FlagTypes.thy ===== *)
theory FlagTypes
  imports Stores Encoding
begin

text \<open>
  The data the parts exchange (\<^verbatim>\<open>types/flag.ts\<close>, \<^verbatim>\<open>internal/model/flag.go\<close>). The records
  extend one another the way the structural types of the source do: everything the
  evaluator needs (\<open>EvaluableFlag\<close>), what an SDK keeps (\<open>FlagConfig\<close>), what the
  admin API and the database hold (\<open>Flag\<close>). They are parametrised over the type of
  their strings, \<open>jsstring\<close> in the browser and \<open>utext\<close> on the server. A time stamp is a
  number; its formatting is not modelled.
\<close>

record 's EvaluableFlag =
  key :: 's
  enabled :: bool
  rollout_percentage :: int
  targeted_users :: "'s list"

record 's FlagConfig = "'s EvaluableFlag" +
  flag_id :: 's
  description :: 's
  version :: int

record 's Flag = "'s FlagConfig" +
  created_at :: int
  updated_at :: int

text \<open>
  One row of the append-only event log. The payload of a \<^verbatim>\<open>created\<close> or \<^verbatim>\<open>updated\<close> event
  is the flag as it was after the write, the payload of a \<^verbatim>\<open>deleted\<close> event is
  \<^verbatim>\<open>{id, key}\<close>: the log has exactly these three writers.
\<close>

datatype 's payload = Created "'s Flag" | Updated "'s Flag" | Deleted 's 's

datatype event_kind = EvCreated | EvUpdated | EvDeleted

record 's FlagEvent =
  ev_version :: int
  flag_key :: 's
  payload :: "'s payload"
  ev_created_at :: int

fun payload_type :: "'s payload \<Rightarrow> event_kind" where
  "payload_type (Created f) = EvCreated"
| "payload_type (Updated f) = EvUpdated"
| "payload_type (Deleted i k) = EvDeleted"

fun payload_flag :: "'s payload \<Rightarrow> 's Flag option" where
  "payload_flag (Created f) = Some f"
| "payload_flag (Updated f) = Some f"
| "payload_flag (Deleted i k) = None"

definition event_type :: "'s FlagEvent \<Rightarrow> event_kind" where
  "event_type e = payload_type (payload e)"

record 's CreateFlagInput =
  c_key :: 's
  c_description :: 's
  c_enabled :: bool
  c_rollout_percentage :: int
  c_targeted_users :: "'s list"

record 's UpdateFlagInput =
  u_description :: "'s option"
  u_enabled :: "bool option"
  u_rollout_percentage :: "int option"
  u_targeted_users :: "'s list option"

record 's FlagsResponse =
  flags :: "'s Flag list"
  config_version :: int

text \<open>The view of a flag that SDK code reads, with the fields of \<open>FlagConfig\<close> only.\<close>

definition as_config :: "('s, 'z) FlagConfig_scheme \<Rightarrow> 's FlagConfig" where
  "as_config f = \<lparr>key = key f, enabled = enabled f, rollout_percentage = rollout_percentage f,
     targeted_users = targeted_users f, flag_id = flag_id f, description = description f,
     version = version f\<rparr>"

lemma as_config_sel [simp]:
  "key (as_config f) = key f" "enabled (as_config f) = enabled f"
  "rollout_percentage (as_config f) = rollout_percentage f"
  "targeted_users (as_config f) = targeted_users f" "flag_id (as_config f) = flag_id f"
  "description (as_config f) = description f" "version (as_config f) = version f"
  by (simp_all add: as_config_def)

text \<open>What one log entry does to a store of flag configurations.\<close>

definition event_change :: "'s FlagEvent \<Rightarrow> ('s, 's FlagConfig) change" where
  "event_change e =
     (case payload_flag (payload e) of
        Some f \<Rightarrow> Put (flag_key e) (as_config f)
      | None \<Rightarrow> Del (flag_key e))"

lemma change_key_event [simp]: "change_key (event_change e) = flag_key e"
  by (simp add: event_change_def split: option.split)

lemma payload_type_deleted: "payload_type p = EvDeleted \<longleftrightarrow> payload_flag p = None"
  by (cases p) simp_all

lemma event_type_deleted: "event_type e = EvDeleted \<longleftrightarrow> payload_flag (payload e) = None"
  by (simp add: event_type_def payload_type_deleted)

end
