(* ===== verification/Repository.thy ===== *)
theory Repository
  imports FlagTypes
begin

text \<open>
  The durable store of the control plane (\<^verbatim>\<open>internal/repository/flag_repository.go\<close> on
  the schema of \<^verbatim>\<open>backend/migrations\<close>): the \<^verbatim>\<open>feature_flags\<close> table, the append-only
  \<^verbatim>\<open>flag_events\<close> log and the \<^verbatim>\<open>config_version_seq\<close> sequence. Each method is one
  transaction. Drawing a version from the sequence is not undone by a rollback, so a
  failed write still advances \<open>seq\<close>. The model takes the clock and a fresh id as
  arguments, ids as values of the uuid type, and over-long strings as rejected.

  Every write is written as the draw of a version followed by the rest of the
  transaction for that version, so that the same parts serve the sequential operations
  here and the interleaved ones of theory \<open>Interleaving\<close>.
\<close>

record db =
  rows :: "utext Flag list"
  events :: "utext FlagEvent list"
  seq :: int
  up :: bool

datatype db_error =
    ConnError | UniqueViolation | CheckViolation | StringTooLong | ErrVersionConflict | FlagNotFound

record 's UpdateFlagRequest = "'s UpdateFlagInput" +
  ExpectedVersion :: "int option"

section \<open>Constraints of the schema\<close>

definition constraint_error :: "utext Flag \<Rightarrow> db_error option" where
  "constraint_error f =
     (if length (key f) > 64 \<or> length (description f) > 256 then Some StringTooLong
      else if rollout_percentage f < 0 \<or> rollout_percentage f > 100 then Some CheckViolation
      else None)"

definition row_by_id :: "db \<Rightarrow> utext \<Rightarrow> utext Flag option" where
  "row_by_id d i = find (\<lambda>f. flag_id f = i) (rows d)"

definition row_by_key :: "db \<Rightarrow> utext \<Rightarrow> utext Flag option" where
  "row_by_key d k = find (\<lambda>f. key f = k) (rows d)"

section \<open>Parts of a transaction\<close>

definition nextVersion :: "db \<Rightarrow> int \<times> db" where
  "nextVersion d = (seq d + 1, d\<lparr>seq := seq d + 1\<rparr>)"

definition appendEvent :: "int \<Rightarrow> utext \<Rightarrow> utext payload \<Rightarrow> int \<Rightarrow> db \<Rightarrow> db" where
  "appendEvent v k p now d =
     d\<lparr>events := events d @ [\<lparr>ev_version = v, flag_key = k, payload = p, ev_created_at = now\<rparr>]\<rparr>"

definition create_tx :: "int \<Rightarrow> utext \<Rightarrow> int \<Rightarrow> utext CreateFlagInput \<Rightarrow> db \<Rightarrow> (db_error + utext Flag) \<times> db" where
  "create_tx now uuid v req d =
     (let flag = \<lparr>key = c_key req, enabled = c_enabled req,
                  rollout_percentage = c_rollout_percentage req,
                  targeted_users = c_targeted_users req, flag_id = uuid,
                  description = c_description req, version = v,
                  created_at = now, updated_at = now\<rparr>
      in case constraint_error flag of
           Some e \<Rightarrow> (Inl e, d)
         | None \<Rightarrow>
             if row_by_key d (c_key req) \<noteq> None \<or> row_by_id d uuid \<noteq> None then (Inl UniqueViolation, d)
             else (Inr flag, appendEvent v (key flag) (Created flag) now (d\<lparr>rows := rows d @ [flag]\<rparr>)))"

definition replace_row :: "utext Flag \<Rightarrow> db \<Rightarrow> db" where
  "replace_row f d = d\<lparr>rows := map (\<lambda>g. if flag_id g = flag_id f then f else g) (rows d)\<rparr>"

definition set_fields :: "utext UpdateFlagRequest \<Rightarrow> utext Flag \<Rightarrow> utext Flag" where
  "set_fields req f =
     f\<lparr>description := (case u_description req of Some s \<Rightarrow> s | None \<Rightarrow> description f),
       enabled := (case u_enabled req of Some b \<Rightarrow> b | None \<Rightarrow> enabled f),
       rollout_percentage := (case u_rollout_percentage req of Some p \<Rightarrow> p | None \<Rightarrow> rollout_percentage f),
       targeted_users := (case u_targeted_users req of Some us \<Rightarrow> us | None \<Rightarrow> targeted_users f)\<rparr>"

definition update_tx :: "int \<Rightarrow> utext \<Rightarrow> int \<Rightarrow> utext UpdateFlagRequest \<Rightarrow> db \<Rightarrow> (db_error + utext Flag option) \<times> db" where
  "update_tx now i v req d =
     (case row_by_id d i of
        None \<Rightarrow> (Inr None, d)
      | Some f \<Rightarrow>
          if (case ExpectedVersion req of Some e \<Rightarrow> version f \<noteq> e | None \<Rightarrow> False)
          then (Inl ErrVersionConflict, d)
          else let flag = (set_fields req f)\<lparr>version := v, updated_at := now\<rparr>
               in case constraint_error flag of
                    Some e \<Rightarrow> (Inl e, d)
                  | None \<Rightarrow> (Inr (Some flag),
                      appendEvent v (key flag) (Updated flag) now (replace_row flag d)))"

definition toggle_tx :: "int \<Rightarrow> utext \<Rightarrow> int \<Rightarrow> db \<Rightarrow> (db_error + utext Flag option) \<times> db" where
  "toggle_tx now i v d =
     (case row_by_id d i of
        None \<Rightarrow> (Inr None, d)
      | Some f \<Rightarrow>
          let flag = f\<lparr>enabled := \<not> enabled f, version := v, updated_at := now\<rparr>
          in (Inr (Some flag), appendEvent v (key flag) (Updated flag) now (replace_row flag d)))"

definition delete_tx :: "int \<Rightarrow> utext \<Rightarrow> utext \<Rightarrow> int \<Rightarrow> db \<Rightarrow> db" where
  "delete_tx now i k v d =
     appendEvent v k (Deleted i k) now (d\<lparr>rows := filter (\<lambda>f. flag_id f \<noteq> i) (rows d)\<rparr>)"

section \<open>The methods of the repository\<close>

definition Create :: "int \<Rightarrow> utext \<Rightarrow> utext CreateFlagInput \<Rightarrow> db \<Rightarrow> (db_error + utext Flag) \<times> db" where
  "Create now uuid req d =
     (if \<not> up d then (Inl ConnError, d)
      else let (v, d1) = nextVersion d in create_tx now uuid v req d1)"

definition GetByID :: "utext \<Rightarrow> db \<Rightarrow> db_error + utext Flag option" where
  "GetByID i d = (if \<not> up d then Inl ConnError else Inr (row_by_id d i))"

definition GetByKey :: "utext \<Rightarrow> db \<Rightarrow> db_error + utext Flag option" where
  "GetByKey k d = (if \<not> up d then Inl ConnError else Inr (row_by_key d k))"

definition List_flags :: "db \<Rightarrow> db_error + utext Flag list" where
  "List_flags d = (if \<not> up d then Inl ConnError else Inr (sort_key (\<lambda>f. - created_at f) (rows d)))"

definition no_fields :: "utext UpdateFlagRequest \<Rightarrow> bool" where
  "no_fields req \<longleftrightarrow> u_description req = None \<and> u_enabled req = None \<and>
     u_rollout_percentage req = None \<and> u_targeted_users req = None"

definition Update :: "int \<Rightarrow> utext \<Rightarrow> utext UpdateFlagRequest \<Rightarrow> db \<Rightarrow> (db_error + utext Flag option) \<times> db" where
  "Update now i req d =
     (if no_fields req then (GetByID i d, d)
      else if \<not> up d then (Inl ConnError, d)
      else let (v, d1) = nextVersion d in update_tx now i v req d1)"

definition Toggle :: "int \<Rightarrow> utext \<Rightarrow> db \<Rightarrow> (db_error + utext Flag option) \<times> db" where
  "Toggle now i d =
     (if \<not> up d then (Inl ConnError, d)
      else let (v, d1) = nextVersion d in toggle_tx now i v d1)"

definition Delete :: "int \<Rightarrow> utext \<Rightarrow> db \<Rightarrow> (db_error + int) \<times> db" where
  "Delete now i d =
     (if \<not> up d then (Inl ConnError, d)
      else case row_by_id d i of
             None \<Rightarrow> (Inl FlagNotFound, d)
           | Some f \<Rightarrow>
               let (v, d1) = nextVersion d in (Inr v, delete_tx now i (key f) v d1))"

definition GetLatestVersion :: "db \<Rightarrow> db_error + int" where
  "GetLatestVersion d =
     (if \<not> up d then Inl ConnError
      else Inr (if events d = [] then 0 else Max (ev_version ` set (events d))))"

definition ListEventsByFlag :: "utext \<Rightarrow> int \<Rightarrow> db \<Rightarrow> db_error + utext FlagEvent list" where
  "ListEventsByFlag k limit0 d =
     (let limit1 = (if limit0 \<le> 0 then 50 else limit0);
          limit = (if limit1 > 200 then 200 else limit1)
      in if \<not> up d then Inl ConnError
         else Inr (take (nat limit)
                (sort_key (\<lambda>e. - ev_version e) (filter (\<lambda>e. flag_key e = k) (events d)))))"

definition ListEventsSince :: "int \<Rightarrow> int \<Rightarrow> db \<Rightarrow> db_error + utext FlagEvent list" where
  "ListEventsSince since limit0 d =
     (let limit1 = (if limit0 \<le> 0 then 500 else limit0);
          limit = (if limit1 > 1000 then 1000 else limit1)
      in if \<not> up d then Inl ConnError
         else Inr (take (nat limit)
                (sort_key ev_version (filter (\<lambda>e. ev_version e > since) (events d)))))"

definition empty_db :: db where
  "empty_db = \<lparr>rows = [], events = [], seq = 0, up = True\<rparr>"

section \<open>The invariant: the log determines the table\<close>

definition flag_change :: "'s FlagEvent \<Rightarrow> ('s, 's Flag) change" where
  "flag_change e =
     (case payload_flag (payload e) of Some f \<Rightarrow> Put (flag_key e) f | None \<Rightarrow> Del (flag_key e))"

text \<open>What replaying the whole log from nothing leaves under a key.\<close>

definition log_state :: "utext FlagEvent list \<Rightarrow> utext \<Rightarrow> utext Flag option" where
  "log_state es k = overlay (net (map flag_change es) k) None"

definition keys_ok :: "db \<Rightarrow> bool" where
  "keys_ok d \<longleftrightarrow> distinct (map flag_id (rows d)) \<and> distinct (map key (rows d))"

definition versions_ok :: "db \<Rightarrow> bool" where
  "versions_ok d \<longleftrightarrow> 0 \<le> seq d \<and> sorted_wrt (<) (map ev_version (events d)) \<and>
     (\<forall>e \<in> set (events d). 0 < ev_version e \<and> ev_version e \<le> seq d)"

text \<open>An event names the key and the version of the flag it carries.\<close>

definition event_ok :: "utext FlagEvent \<Rightarrow> bool" where
  "event_ok e \<longleftrightarrow>
     (\<forall>f. payload_flag (payload e) = Some f \<longrightarrow> key f = flag_key e \<and> version f = ev_version e)"

definition db_wf :: "db \<Rightarrow> bool" where
  "db_wf d \<longleftrightarrow> keys_ok d \<and> versions_ok d \<and> (\<forall>e \<in> set (events d). event_ok e) \<and>
     (\<forall>k. row_by_key d k = log_state (events d) k)"

lemma change_key_flag [simp]: "change_key (flag_change e) = flag_key e"
  by (simp add: flag_change_def split: option.split)

lemma change_value_flag: "change_value (flag_change e) = payload_flag (payload e)"
  by (simp add: flag_change_def split: option.split)

lemma log_state_snoc:
  "log_state (es @ [e]) k = (if flag_key e = k then payload_flag (payload e) else log_state es k)"
  by (simp add: log_state_def net_snoc change_value_flag)

lemma log_state_Nil [simp]: "log_state [] k = None"
  by (simp add: log_state_def)

lemma log_state_Some:
  "log_state es k = Some f \<Longrightarrow> \<exists>e \<in> set es. payload_flag (payload e) = Some f \<and> flag_key e = k"
  by (induction es rule: rev_induct) (auto simp: log_state_snoc split: if_splits)

lemma row_by_id_Some:
  "keys_ok d \<Longrightarrow> row_by_id d i = Some f \<longleftrightarrow> f \<in> set (rows d) \<and> flag_id f = i"
  by (simp add: row_by_id_def keys_ok_def find_distinct_iff)

lemma row_by_key_Some:
  "keys_ok d \<Longrightarrow> row_by_key d k = Some f \<longleftrightarrow> f \<in> set (rows d) \<and> key f = k"
  by (simp add: row_by_key_def keys_ok_def find_distinct_iff)

lemma row_by_key_None: "row_by_key d k = None \<longleftrightarrow> k \<notin> key ` set (rows d)"
  by (simp add: row_by_key_def find_None_key)

lemma row_by_id_None: "row_by_id d i = None \<longleftrightarrow> i \<notin> flag_id ` set (rows d)"
  by (simp add: row_by_id_def find_None_key)

lemma same_key_row:
  "keys_ok d \<Longrightarrow> f \<in> set (rows d) \<Longrightarrow> g \<in> set (rows d) \<Longrightarrow> key f = key g \<Longrightarrow> f = g"
  by (metis keys_ok_def distinct_map inj_onD)

lemma same_id_row:
  "keys_ok d \<Longrightarrow> f \<in> set (rows d) \<Longrightarrow> g \<in> set (rows d) \<Longrightarrow> flag_id f = flag_id g \<Longrightarrow> f = g"
  by (metis keys_ok_def distinct_map inj_onD)

subsection \<open>What the three kinds of write do to the table\<close>

lemma keys_ok_append:
  assumes "keys_ok d" "row_by_key d (key f) = None" "row_by_id d (flag_id f) = None"
  shows "keys_ok (d\<lparr>rows := rows d @ [f]\<rparr>)"
  using assms by (simp add: keys_ok_def row_by_key_None row_by_id_None)

lemma row_by_key_append:
  assumes "keys_ok d" "row_by_key d (key f) = None" "row_by_id d (flag_id f) = None"
  shows "row_by_key (d\<lparr>rows := rows d @ [f]\<rparr>) k = (if key f = k then Some f else row_by_key d k)"
proof (rule option_eqI_iff)
  fix g
  have "g \<in> set (rows d) \<Longrightarrow> key g \<noteq> key f" using assms(2) by (auto simp: row_by_key_None image_iff)
  then show "row_by_key (d\<lparr>rows := rows d @ [f]\<rparr>) k = Some g \<longleftrightarrow>
      (if key f = k then Some f else row_by_key d k) = Some g"
    by (auto simp: row_by_key_Some [OF assms(1)] row_by_key_Some [OF keys_ok_append [OF assms]])
qed

lemma keys_replace_row:
  assumes "keys_ok d" "f \<in> set (rows d)" "flag_id f' = flag_id f" "key f' = key f"
  shows "map key (rows (replace_row f' d)) = map key (rows d)"
    and "map flag_id (rows (replace_row f' d)) = map flag_id (rows d)"
  using assms same_id_row [OF assms(1) _ assms(2)]
  by (auto simp: replace_row_def)

lemma keys_ok_replace_row:
  assumes "keys_ok d" "f \<in> set (rows d)" "flag_id f' = flag_id f" "key f' = key f"
  shows "keys_ok (replace_row f' d)"
  using assms(1) by (simp only: keys_ok_def keys_replace_row [OF assms])

lemma row_by_key_replace_row:
  assumes "keys_ok d" "f \<in> set (rows d)" "flag_id f' = flag_id f" "key f' = key f"
  shows "row_by_key (replace_row f' d) k = (if key f' = k then Some f' else row_by_key d k)"
proof (rule option_eqI_iff)
  fix g
  have "g \<in> set (rows (replace_row f' d)) \<longleftrightarrow> g = f' \<or> g \<in> set (rows d) \<and> flag_id g \<noteq> flag_id f"
    using assms(2,3) by (auto simp: replace_row_def image_iff)
  moreover have "g \<in> set (rows d) \<Longrightarrow> flag_id g \<noteq> flag_id f \<longleftrightarrow> key g \<noteq> key f"
    using assms(1,2) same_id_row same_key_row by metis
  ultimately show "row_by_key (replace_row f' d) k = Some g \<longleftrightarrow>
      (if key f' = k then Some f' else row_by_key d k) = Some g"
    using assms(4) by (auto simp: row_by_key_Some [OF assms(1)]
        row_by_key_Some [OF keys_ok_replace_row [OF assms]])
qed

lemma keys_ok_remove:
  "keys_ok d \<Longrightarrow> keys_ok (d\<lparr>rows := filter (\<lambda>g. flag_id g \<noteq> i) (rows d)\<rparr>)"
  by (simp add: keys_ok_def distinct_map_filter)

lemma row_by_key_remove:
  assumes "keys_ok d" "f \<in> set (rows d)"
  shows "row_by_key (d\<lparr>rows := filter (\<lambda>g. flag_id g \<noteq> flag_id f) (rows d)\<rparr>) k =
     (if key f = k then None else row_by_key d k)"
  using assms(2) same_id_row [OF assms(1)] same_key_row [OF assms(1)]
  by (intro option_eqI_iff)
    (auto simp: row_by_key_Some [OF assms(1)] row_by_key_Some [OF keys_ok_remove [OF assms(1)]])

lemma keys_ok_cong [simp]:
  "keys_ok (d\<lparr>events := es\<rparr>) = keys_ok d" "keys_ok (d\<lparr>seq := n\<rparr>) = keys_ok d"
  by (simp_all add: keys_ok_def)

lemma row_by_key_cong [simp]:
  "row_by_key (d\<lparr>events := es\<rparr>) k = row_by_key d k" "row_by_key (d\<lparr>seq := n\<rparr>) k = row_by_key d k"
  by (simp_all add: row_by_key_def)

lemma row_by_id_cong [simp]:
  "row_by_id (d\<lparr>events := es\<rparr>) i = row_by_id d i" "row_by_id (d\<lparr>seq := n\<rparr>) i = row_by_id d i"
  by (simp_all add: row_by_id_def)

subsection \<open>A committed event keeps the invariant when its version is new\<close>

definition fresh_version :: "db \<Rightarrow> int \<Rightarrow> bool" where
  "fresh_version d v \<longleftrightarrow> 0 < v \<and> v \<le> seq d \<and> (\<forall>e \<in> set (events d). ev_version e < v)"

lemma db_wf_commit:
  assumes "db_wf d" "fresh_version d v"
    and "keys_ok d'" "events d' = events d" "seq d' = seq d"
    and "\<forall>f. payload_flag p = Some f \<longrightarrow> key f = k \<and> version f = v"
    and "\<forall>k'. row_by_key d' k' = (if k = k' then payload_flag p else row_by_key d k')"
  shows "db_wf (appendEvent v k p now d')"
  using assms
  by (simp add: db_wf_def versions_ok_def fresh_version_def appendEvent_def sorted_wrt_snoc
      event_ok_def log_state_snoc)

lemma create_tx_wf:
  assumes "db_wf d" "fresh_version d v"
  shows "db_wf (snd (create_tx now uuid v req d))"
proof -
  have "keys_ok d" using assms(1) by (simp add: db_wf_def)
  then show ?thesis
    using assms
    by (auto simp: create_tx_def Let_def row_by_key_append intro!: db_wf_commit keys_ok_append
        split: option.splits)
qed

lemma row_by_id_in: "row_by_id d i = Some f \<Longrightarrow> f \<in> set (rows d) \<and> flag_id f = i"
  by (auto simp: row_by_id_def find_Some_iff)

lemma replace_commit_wf:
  assumes "db_wf d" "fresh_version d v" "row_by_id d i = Some f"
    and "flag_id f' = flag_id f" "key f' = key f" "version f' = v" "k = key f"
  shows "db_wf (appendEvent v k (Updated f') now (replace_row f' d))"
proof -
  have ok: "keys_ok d" using assms(1) by (simp add: db_wf_def)
  note row = ok row_by_id_in [OF assms(3), THEN conjunct1] assms(4,5)
  have "events (replace_row f' d) = events d" "seq (replace_row f' d) = seq d"
    by (simp_all add: replace_row_def)
  with assms show ?thesis
    using row_by_key_replace_row [OF row]
    by (intro db_wf_commit [OF assms(1,2) keys_ok_replace_row [OF row]]) (auto simp del: row_by_key_cong)
qed

lemma set_fields_sel [simp]:
  "key (set_fields req f) = key f" "flag_id (set_fields req f) = flag_id f"
  "created_at (set_fields req f) = created_at f"
  by (simp_all add: set_fields_def)

lemma update_tx_wf:
  assumes "db_wf d" "fresh_version d v"
  shows "db_wf (snd (update_tx now i v req d))"
proof (cases "row_by_id d i")
  case (Some f)
  then show ?thesis
    using assms replace_commit_wf [OF assms Some, of "(set_fields req f)\<lparr>version := v, updated_at := now\<rparr>" "key f" now]
    by (simp add: update_tx_def Let_def split: option.split)
qed (simp add: update_tx_def assms)

lemma toggle_tx_wf:
  assumes "db_wf d" "fresh_version d v"
  shows "db_wf (snd (toggle_tx now i v d))"
proof (cases "row_by_id d i")
  case (Some f)
  then show ?thesis
    using replace_commit_wf [OF assms Some, of "f\<lparr>enabled := \<not> enabled f, version := v, updated_at := now\<rparr>" "key f" now]
    by (simp add: toggle_tx_def Let_def)
qed (simp add: toggle_tx_def assms)

lemma delete_tx_wf:
  assumes "db_wf d" "fresh_version d v" "row_by_id d i = Some f"
  shows "db_wf (delete_tx now i (key f) v d)"
proof -
  have k: "keys_ok d" using assms(1) by (simp add: db_wf_def)
  note row = row_by_id_in [OF assms(3)]
  have "\<forall>k'. row_by_key (d\<lparr>rows := filter (\<lambda>g. flag_id g \<noteq> i) (rows d)\<rparr>) k' =
      (if key f = k' then None else row_by_key d k')"
    using row_by_key_remove [OF k row [THEN conjunct1]] row by blast
  then show ?thesis
    unfolding delete_tx_def
    by (intro db_wf_commit [OF assms(1,2)]) (simp_all add: keys_ok_remove k)
qed

lemma nextVersion_fresh:
  assumes "db_wf d"
  shows "db_wf (snd (nextVersion d))" "fresh_version (snd (nextVersion d)) (fst (nextVersion d))"
  using assms by (force simp: nextVersion_def db_wf_def versions_ok_def fresh_version_def)+

lemma Create_wf: "db_wf d \<Longrightarrow> db_wf (snd (Create now uuid req d))"
  by (simp add: Create_def case_prod_beta nextVersion_fresh create_tx_wf)

lemma Update_wf: "db_wf d \<Longrightarrow> db_wf (snd (Update now i req d))"
  by (simp add: Update_def case_prod_beta nextVersion_fresh update_tx_wf)

lemma Toggle_wf: "db_wf d \<Longrightarrow> db_wf (snd (Toggle now i d))"
  by (simp add: Toggle_def case_prod_beta nextVersion_fresh toggle_tx_wf)

lemma row_by_id_nextVersion [simp]: "row_by_id (snd (nextVersion d)) i = row_by_id d i"
  by (simp add: nextVersion_def)

lemma Delete_wf: "db_wf d \<Longrightarrow> db_wf (snd (Delete now i d))"
  by (simp add: Delete_def case_prod_beta nextVersion_fresh delete_tx_wf split: option.split)

lemma empty_db_wf: "db_wf empty_db"
  by (simp add: db_wf_def keys_ok_def versions_ok_def empty_db_def log_state_def row_by_key_def)

end
