(* ===== verification/Service.thy ===== *)
theory Service
  imports Repository "HOL-Library.Multiset"
begin

text \<open>
  The control plane above the repository: the service (\<^verbatim>\<open>internal/service\<close>), which
  validates, commits and then announces a change on Redis, and the HTTP handlers
  (\<^verbatim>\<open>internal/handler\<close>), which map results to status codes. A service error is a value;
  the handlers of the source recognise the same errors by their message.
\<close>

datatype envelope = EnvUpdated int "utext Flag" | EnvDeleted int utext

fun env_version :: "envelope \<Rightarrow> int" where
  "env_version (EnvUpdated v f) = v"
| "env_version (EnvDeleted v k) = v"

record server =
  sdb :: db
  bus :: "envelope list"
  redis_up :: bool
  publish_errors :: nat
  sse_clients :: nat
  node_id :: utext

datatype svc_error = KeyLength | KeyChars | RolloutRange | DuplicateKey | NotFound | Repo db_error

section \<open>Announcing a change\<close>

text \<open>Publishing is best effort: a failure is counted, never reported to the writer.\<close>

definition Publish :: "envelope \<Rightarrow> server \<Rightarrow> server" where
  "Publish env s =
     (if redis_up s then s\<lparr>bus := bus s @ [env]\<rparr>
      else s\<lparr>publish_errors := Suc (publish_errors s)\<rparr>)"

definition publishFlagUpdate :: "utext Flag \<Rightarrow> server \<Rightarrow> server" where
  "publishFlagUpdate flag s = Publish (EnvUpdated (version flag) flag) s"

definition publishFlagDelete :: "utext \<Rightarrow> int \<Rightarrow> server \<Rightarrow> server" where
  "publishFlagDelete k v s = Publish (EnvDeleted v k) s"

section \<open>The service\<close>

text \<open>\<^verbatim>\<open>^[a-zA-Z0-9-]+$\<close> on the bytes of the key.\<close>

definition key_byte :: "8 word \<Rightarrow> bool" where
  "key_byte b \<longleftrightarrow> 97 \<le> b \<and> b \<le> 122 \<or> 65 \<le> b \<and> b \<le> 90 \<or> 48 \<le> b \<and> b \<le> 57 \<or> b = 45"

definition keyRegex :: "gostring \<Rightarrow> bool" where
  "keyRegex s \<longleftrightarrow> s \<noteq> [] \<and> list_all key_byte s"

definition create_error :: "utext CreateFlagInput \<Rightarrow> svc_error option" where
  "create_error req =
     (let k = utf8 (c_key req)
      in if k = [] \<or> length k > 64 then Some KeyLength
         else if \<not> keyRegex k then Some KeyChars
         else if c_rollout_percentage req < 0 \<or> c_rollout_percentage req > 100 then Some RolloutRange
         else None)"

definition CreateFlag ::
  "int \<Rightarrow> utext \<Rightarrow> utext CreateFlagInput \<Rightarrow> server \<Rightarrow> (svc_error + utext Flag) \<times> server" where
  "CreateFlag now uuid req s =
     (case create_error req of
        Some e \<Rightarrow> (Inl e, s)
      | None \<Rightarrow>
          (case GetByKey (c_key req) (sdb s) of
             Inl e \<Rightarrow> (Inl (Repo e), s)
           | Inr (Some _) \<Rightarrow> (Inl DuplicateKey, s)
           | Inr None \<Rightarrow>
               (let (r, d) = Create now uuid req (sdb s); s1 = s\<lparr>sdb := d\<rparr>
                in case r of
                     Inl e \<Rightarrow> (Inl (Repo e), s1)
                   | Inr flag \<Rightarrow> (Inr flag, publishFlagUpdate flag s1))))"

definition UpdateFlag ::
  "int \<Rightarrow> utext \<Rightarrow> utext UpdateFlagRequest \<Rightarrow> server \<Rightarrow> (svc_error + utext Flag option) \<times> server" where
  "UpdateFlag now i req s =
     (if (case u_rollout_percentage req of Some p \<Rightarrow> p < 0 \<or> p > 100 | None \<Rightarrow> False)
      then (Inl RolloutRange, s)
      else let (r, d) = Update now i req (sdb s); s1 = s\<lparr>sdb := d\<rparr>
           in case r of
                Inl e \<Rightarrow> (Inl (Repo e), s1)
              | Inr None \<Rightarrow> (Inr None, s1)
              | Inr (Some flag) \<Rightarrow> (Inr (Some flag), publishFlagUpdate flag s1))"

definition DeleteFlag :: "int \<Rightarrow> utext \<Rightarrow> server \<Rightarrow> (svc_error + unit) \<times> server" where
  "DeleteFlag now i s =
     (case GetByID i (sdb s) of
        Inl e \<Rightarrow> (Inl (Repo e), s)
      | Inr None \<Rightarrow> (Inl NotFound, s)
      | Inr (Some flag) \<Rightarrow>
          (let (r, d) = Delete now i (sdb s); s1 = s\<lparr>sdb := d\<rparr>
           in case r of
                Inl e \<Rightarrow> (Inl (Repo e), s1)
              | Inr v \<Rightarrow> (Inr (), publishFlagDelete (key flag) v s1)))"

definition ToggleFlag :: "int \<Rightarrow> utext \<Rightarrow> server \<Rightarrow> (svc_error + utext Flag option) \<times> server" where
  "ToggleFlag now i s =
     (let (r, d) = Toggle now i (sdb s); s1 = s\<lparr>sdb := d\<rparr>
      in case r of
           Inl e \<Rightarrow> (Inl (Repo e), s1)
         | Inr None \<Rightarrow> (Inr None, s1)
         | Inr (Some flag) \<Rightarrow> (Inr (Some flag), publishFlagUpdate flag s1))"

definition GetFlagHistory :: "utext \<Rightarrow> int \<Rightarrow> server \<Rightarrow> db_error + utext FlagEvent list option" where
  "GetFlagHistory i limit s =
     (case GetByID i (sdb s) of
        Inl e \<Rightarrow> Inl e
      | Inr None \<Rightarrow> Inr None
      | Inr (Some flag) \<Rightarrow>
          (case ListEventsByFlag (key flag) limit (sdb s) of Inl e \<Rightarrow> Inl e | Inr es \<Rightarrow> Inr (Some es)))"

section \<open>The handlers\<close>

datatype body =
    BFlag "utext Flag" | BFlags "utext Flag list" int | BEvents "utext FlagEvent list"
  | BBacklog "utext FlagEvent list" int | BSnapshot "utext FlagConfig list" int
  | BVersion utext int nat | BError string string | BEmpty

record reply =
  code :: int
  rbody :: body

abbreviation http :: "int \<Rightarrow> body \<Rightarrow> reply" where
  "http n b \<equiv> \<lparr>code = n, rbody = b\<rparr>"

text \<open>\<^verbatim>\<open>strconv.ParseInt(s, 10, 64)\<close>: an optional sign, digits to the end, within 64 bits.\<close>

definition go_parse_int64 :: "jsstring \<Rightarrow> int option" where
  "go_parse_int64 s =
     (let ds = (case s of c # r \<Rightarrow> if c = 45 \<or> c = 43 then r else s | [] \<Rightarrow> []);
          v = (if s \<noteq> [] \<and> hd s = 45 then - int (digits_value ds) else int (digits_value ds))
      in if ds = [] \<or> \<not> list_all is_digit ds \<or> v < - (2 ^ 63) \<or> v \<ge> 2 ^ 63 then None else Some v)"

text \<open>\<^verbatim>\<open>strings.Trim(h, "\"")\<close>\<close>

definition trim_quotes :: "jsstring \<Rightarrow> jsstring" where
  "trim_quotes s = rev (dropWhile (\<lambda>c. c = 34) (rev (dropWhile (\<lambda>c. c = 34) s)))"

definition expected_version :: "jsstring option \<Rightarrow> int option" where
  "expected_version header =
     (case header of
        None \<Rightarrow> None
      | Some h \<Rightarrow> let ifMatch = trim_quotes h in if ifMatch = [] then None else go_parse_int64 ifMatch)"

definition h_CreateFlag :: "int \<Rightarrow> utext \<Rightarrow> utext CreateFlagInput option \<Rightarrow> server \<Rightarrow> reply \<times> server" where
  "h_CreateFlag now uuid body0 s =
     (case body0 of
        None \<Rightarrow> (http 400 (BError ''invalid_request'' ''Invalid request body''), s)
      | Some req \<Rightarrow>
          (let (r, s1) = CreateFlag now uuid req s
           in (case r of
                 Inl DuplicateKey \<Rightarrow> http 409 (BError ''duplicate_key'' ''A flag with this key already exists'')
               | Inl KeyLength \<Rightarrow> http 400 (BError ''validation_error'' ''key is required and must be at most 64 characters'')
               | Inl KeyChars \<Rightarrow> http 400 (BError ''validation_error'' ''key must be alphanumeric with hyphens only'')
               | Inl RolloutRange \<Rightarrow> http 400 (BError ''validation_error'' ''rollout_percentage must be between 0 and 100'')
               | Inl _ \<Rightarrow> http 500 (BError ''internal_error'' ''Failed to create flag'')
               | Inr flag \<Rightarrow> http 201 (BFlag flag), s1)))"

text \<open>
  Three handlers ask the database twice, outside a transaction; \<open>s\<close> is the state at the
  first query and \<open>s'\<close> the state at the second.
\<close>

definition h_ListFlags :: "server \<Rightarrow> server \<Rightarrow> reply" where
  "h_ListFlags s s' =
     (case List_flags (sdb s) of
        Inl _ \<Rightarrow> http 500 (BError ''internal_error'' ''Failed to list flags'')
      | Inr fs \<Rightarrow>
          (case GetLatestVersion (sdb s') of
             Inl _ \<Rightarrow> http 500 (BError ''internal_error'' ''Failed to list flags'')
           | Inr v \<Rightarrow> http 200 (BFlags fs v)))"

definition h_GetFlagHistory :: "utext \<Rightarrow> server \<Rightarrow> reply" where
  "h_GetFlagHistory i s =
     (case GetFlagHistory i 50 s of
        Inl _ \<Rightarrow> http 500 (BError ''internal_error'' ''Failed to get flag history'')
      | Inr None \<Rightarrow> http 404 (BError ''not_found'' ''Flag not found'')
      | Inr (Some es) \<Rightarrow> http 200 (BEvents es))"

definition h_GetFlag :: "utext \<Rightarrow> server \<Rightarrow> reply" where
  "h_GetFlag i s =
     (case GetByID i (sdb s) of
        Inl _ \<Rightarrow> http 500 (BError ''internal_error'' ''Failed to get flag'')
      | Inr None \<Rightarrow> http 404 (BError ''not_found'' ''Flag not found'')
      | Inr (Some flag) \<Rightarrow> http 200 (BFlag flag))"

definition with_expected :: "utext UpdateFlagInput \<Rightarrow> int option \<Rightarrow> utext UpdateFlagRequest" where
  "with_expected req e =
     \<lparr>u_description = u_description req, u_enabled = u_enabled req,
      u_rollout_percentage = u_rollout_percentage req, u_targeted_users = u_targeted_users req,
      ExpectedVersion = e\<rparr>"

definition h_UpdateFlag ::
  "int \<Rightarrow> utext \<Rightarrow> utext UpdateFlagInput option \<Rightarrow> jsstring option \<Rightarrow> server \<Rightarrow> reply \<times> server" where
  "h_UpdateFlag now i body0 header s =
     (case body0 of
        None \<Rightarrow> (http 400 (BError ''invalid_request'' ''Invalid request body''), s)
      | Some req \<Rightarrow>
          (let (r, s1) = UpdateFlag now i (with_expected req (expected_version header)) s
           in (case r of
                 Inl (Repo ErrVersionConflict) \<Rightarrow>
                   http 409 (BError ''version_conflict'' ''This flag was changed by someone else. Reload and try again.'')
               | Inl RolloutRange \<Rightarrow> http 400 (BError ''validation_error'' ''rollout_percentage must be between 0 and 100'')
               | Inl _ \<Rightarrow> http 500 (BError ''internal_error'' ''Failed to update flag'')
               | Inr None \<Rightarrow> http 404 (BError ''not_found'' ''Flag not found'')
               | Inr (Some flag) \<Rightarrow> http 200 (BFlag flag), s1)))"

definition h_DeleteFlag :: "int \<Rightarrow> utext \<Rightarrow> server \<Rightarrow> reply \<times> server" where
  "h_DeleteFlag now i s =
     (let (r, s1) = DeleteFlag now i s
      in (case r of
            Inl NotFound \<Rightarrow> http 404 (BError ''not_found'' ''Flag not found'')
          | Inl (Repo FlagNotFound) \<Rightarrow> http 404 (BError ''not_found'' ''Flag not found'')
          | Inl _ \<Rightarrow> http 500 (BError ''internal_error'' ''Failed to delete flag'')
          | Inr _ \<Rightarrow> http 204 BEmpty, s1))"

definition h_ToggleFlag :: "int \<Rightarrow> utext \<Rightarrow> server \<Rightarrow> reply \<times> server" where
  "h_ToggleFlag now i s =
     (let (r, s1) = ToggleFlag now i s
      in (case r of
            Inl _ \<Rightarrow> http 500 (BError ''internal_error'' ''Failed to toggle flag'')
          | Inr None \<Rightarrow> http 404 (BError ''not_found'' ''Flag not found'')
          | Inr (Some flag) \<Rightarrow> http 200 (BFlag flag), s1))"

definition h_GetAllFlags :: "server \<Rightarrow> server \<Rightarrow> reply" where
  "h_GetAllFlags s s' =
     (case List_flags (sdb s) of
        Inl _ \<Rightarrow> http 500 (BError ''internal_error'' ''Failed to get flags'')
      | Inr fs \<Rightarrow>
          (case GetLatestVersion (sdb s') of
             Inl _ \<Rightarrow> http 500 (BError ''internal_error'' ''Failed to get flags'')
           | Inr v \<Rightarrow> http 200 (BSnapshot (map as_config fs) v)))"

definition h_Reconcile :: "jsstring \<Rightarrow> server \<Rightarrow> server \<Rightarrow> reply" where
  "h_Reconcile q s s' =
     (case (if q = [] then Some 0 else go_parse_int64 q) of
        None \<Rightarrow> http 400 (BError ''invalid_since'' ''since must be a non-negative integer'')
      | Some since \<Rightarrow>
          if since < 0 then http 400 (BError ''invalid_since'' ''since must be a non-negative integer'')
          else case ListEventsSince since 0 (sdb s) of
                 Inl _ \<Rightarrow> http 500 (BError ''internal_error'' ''Failed to get events'')
               | Inr es \<Rightarrow>
                   (case GetLatestVersion (sdb s') of
                      Inl _ \<Rightarrow> http 500 (BError ''internal_error'' ''Failed to get version'')
                    | Inr v \<Rightarrow> http 200 (BBacklog es v)))"

definition h_Version :: "server \<Rightarrow> reply" where
  "h_Version s =
     (case GetLatestVersion (sdb s) of
        Inl _ \<Rightarrow> http 500 (BError ''internal_error'' ''Failed to get version'')
      | Inr v \<Rightarrow> http 200 (BVersion (node_id s) v (sse_clients s)))"

section \<open>The log only grows, and every announcement is in the log\<close>

text \<open>The change requests of the admin API, and the outages that may happen around them.\<close>

datatype op =
    OpCreate int utext "utext CreateFlagInput"
  | OpUpdate int utext "utext UpdateFlagRequest"
  | OpToggle int utext
  | OpDelete int utext
  | OpDatabase bool
  | OpRedis bool

fun run_op :: "op \<Rightarrow> server \<Rightarrow> server" where
  "run_op (OpCreate now uuid req) s = snd (CreateFlag now uuid req s)"
| "run_op (OpUpdate now i req) s = snd (UpdateFlag now i req s)"
| "run_op (OpToggle now i) s = snd (ToggleFlag now i s)"
| "run_op (OpDelete now i) s = snd (DeleteFlag now i s)"
| "run_op (OpDatabase b) s = s\<lparr>sdb := (sdb s)\<lparr>up := b\<rparr>\<rparr>"
| "run_op (OpRedis b) s = s\<lparr>redis_up := b\<rparr>"

definition extends :: "db \<Rightarrow> db \<Rightarrow> bool" where
  "extends d d' \<longleftrightarrow> (\<exists>new. events d' = events d @ new)"

definition env_logged :: "db \<Rightarrow> envelope \<Rightarrow> bool" where
  "env_logged d env \<longleftrightarrow>
     (\<exists>e \<in> set (events d). ev_version e = env_version env \<and>
        (case env of
           EnvUpdated v f \<Rightarrow> payload_flag (payload e) = Some f \<and> flag_key e = key f
         | EnvDeleted v k \<Rightarrow> payload_flag (payload e) = None \<and> flag_key e = k))"

definition server_inv :: "server \<Rightarrow> bool" where
  "server_inv s \<longleftrightarrow> db_wf (sdb s) \<and> (\<forall>env \<in> set (bus s). env_logged (sdb s) env)"

lemma extends_refl [simp, intro]: "extends d d"
  by (simp add: extends_def)

lemma extends_trans: "extends a b \<Longrightarrow> extends b c \<Longrightarrow> extends a c"
  by (auto simp: extends_def)

lemma env_logged_extends: "extends d d' \<Longrightarrow> env_logged d env \<Longrightarrow> env_logged d' env"
  by (auto simp: extends_def env_logged_def)

lemma extends_append [simp]: "extends d (appendEvent v k p now d') = extends d d'"
  if "events d' = events d"
  using that by (simp add: extends_def appendEvent_def)

lemma tx_extends [simp]:
  "extends d (snd (create_tx now uuid v req (d\<lparr>seq := n\<rparr>)))"
  "extends d (snd (update_tx now i v ureq (d\<lparr>seq := n\<rparr>)))"
  "extends d (snd (toggle_tx now i v (d\<lparr>seq := n\<rparr>)))"
  "extends d (delete_tx now i k v (d\<lparr>seq := n\<rparr>))"
  by (auto simp: extends_def create_tx_def update_tx_def toggle_tx_def delete_tx_def appendEvent_def
      replace_row_def Let_def split: option.split)

lemma repo_extends [simp]:
  "extends d (snd (Create now uuid req d))" "extends d (snd (Update now i ureq d))"
  "extends d (snd (Toggle now i d))" "extends d (snd (Delete now i d))"
  by (simp_all add: Create_def Update_def Toggle_def Delete_def nextVersion_def split: option.split)

subsection \<open>What a successful write announces\<close>

lemma row_logged:
  assumes "db_wf d" "f \<in> set (rows d)"
  shows "env_logged d (EnvUpdated (version f) f)"
proof -
  have "log_state (events d) (key f) = Some f"
    using assms by (metis db_wf_def row_by_key_Some)
  then obtain e where e: "e \<in> set (events d)" "payload_flag (payload e) = Some f"
    using log_state_Some by blast
  moreover have "event_ok e" using assms(1) e by (simp add: db_wf_def)
  ultimately show ?thesis by (auto simp: env_logged_def event_ok_def intro!: bexI [of _ e])
qed

lemma replace_row_in: "row_by_id d i = Some f \<Longrightarrow> flag_id f' = flag_id f \<Longrightarrow> f' \<in> set (rows (replace_row f' d))"
  using row_by_id_in [of d i f] by (auto simp: replace_row_def image_iff)

lemma rows_append [simp]: "rows (appendEvent v k p now d) = rows d"
  by (simp add: appendEvent_def)

lemma Create_row: "fst (Create now uuid req d) = Inr f \<Longrightarrow> f \<in> set (rows (snd (Create now uuid req d)))"
  by (auto simp: Create_def create_tx_def Let_def nextVersion_def split: if_splits option.splits)

lemma Update_row: "fst (Update now i req d) = Inr (Some f) \<Longrightarrow> f \<in> set (rows (snd (Update now i req d)))"
  using row_by_id_in [of d i]
  by (auto simp: Update_def GetByID_def update_tx_def Let_def nextVersion_def replace_row_in
      split: if_splits option.splits)

lemma Toggle_row: "fst (Toggle now i d) = Inr (Some f) \<Longrightarrow> f \<in> set (rows (snd (Toggle now i d)))"
  by (auto simp: Toggle_def toggle_tx_def Let_def nextVersion_def replace_row_in
      split: if_splits option.splits)

lemma Delete_logged:
  "row_by_id d i = Some f \<Longrightarrow> fst (Delete now i d) = Inr v \<Longrightarrow>
   env_logged (snd (Delete now i d)) (EnvDeleted v (key f))"
  by (auto simp: Delete_def nextVersion_def delete_tx_def appendEvent_def env_logged_def
      split: if_splits option.splits)

lemma server_inv_db:
  assumes "server_inv s" "db_wf d" "extends (sdb s) d"
  shows "server_inv (s\<lparr>sdb := d\<rparr>)"
  using assms env_logged_extends by (auto simp: server_inv_def)

lemma server_inv_Publish:
  "server_inv s \<Longrightarrow> env_logged (sdb s) env \<Longrightarrow> server_inv (Publish env s)"
  by (auto simp: server_inv_def Publish_def)

lemma sdb_Publish [simp]: "sdb (Publish env s) = sdb s"
  by (simp add: Publish_def)

lemmas publish_defs = publishFlagUpdate_def publishFlagDelete_def

lemma server_inv_update:
  assumes "server_inv s" "db_wf d" "extends (sdb s) d" "f \<in> set (rows d)"
  shows "server_inv (publishFlagUpdate f (s\<lparr>sdb := d\<rparr>))"
  using assms by (auto simp: publish_defs intro!: server_inv_Publish server_inv_db row_logged)

lemma CreateFlag_inv: "server_inv s \<Longrightarrow> server_inv (snd (CreateFlag now uuid req s))"
  using Create_wf [of "sdb s" now uuid req] Create_row [of now uuid req "sdb s"]
  by (auto simp: CreateFlag_def case_prod_beta Let_def server_inv_def [of s]
      intro!: server_inv_db server_inv_update split: option.split sum.split)

lemma UpdateFlag_inv: "server_inv s \<Longrightarrow> server_inv (snd (UpdateFlag now i req s))"
  using Update_wf [of "sdb s" now i req] Update_row [of now i req "sdb s"]
  by (auto simp: UpdateFlag_def case_prod_beta Let_def server_inv_def [of s]
      intro!: server_inv_db server_inv_update split: option.split sum.split)

lemma ToggleFlag_inv: "server_inv s \<Longrightarrow> server_inv (snd (ToggleFlag now i s))"
  using Toggle_wf [of "sdb s" now i] Toggle_row [of now i "sdb s"]
  by (auto simp: ToggleFlag_def case_prod_beta Let_def server_inv_def [of s]
      intro!: server_inv_db server_inv_update split: option.split sum.split)

lemma DeleteFlag_inv: "server_inv s \<Longrightarrow> server_inv (snd (DeleteFlag now i s))"
  using Delete_wf [of "sdb s" now i] Delete_logged [of "sdb s" i _ now]
  by (auto simp: DeleteFlag_def GetByID_def case_prod_beta Let_def publish_defs server_inv_def [of s]
      intro!: server_inv_db server_inv_Publish split: option.split sum.split)

lemma db_wf_up [simp]: "db_wf (d\<lparr>up := b\<rparr>) = db_wf d"
  by (simp add: db_wf_def keys_ok_def versions_ok_def row_by_key_def)

lemma extends_up [simp]: "extends d (d\<lparr>up := b\<rparr>)"
  by (simp add: extends_def)

lemma run_op_inv: "server_inv s \<Longrightarrow> server_inv (run_op w s)"
proof (cases w)
  case (OpDatabase b)
  assume "server_inv s"
  then show ?thesis by (simp add: OpDatabase server_inv_db server_inv_def [THEN iffD1])
qed (auto simp: CreateFlag_inv UpdateFlag_inv ToggleFlag_inv DeleteFlag_inv server_inv_def [of "_\<lparr>redis_up := _\<rparr>"]
     server_inv_def [of s])

lemma run_op_extends: "extends (sdb s) (sdb (run_op w s))"
  by (cases w) (auto simp: CreateFlag_def UpdateFlag_def ToggleFlag_def DeleteFlag_def case_prod_beta
      Let_def publish_defs split: option.split sum.split)

section \<open>The version in If-Match\<close>

lemma js_num_chars: "c \<in> set (js_num v) \<Longrightarrow> is_digit c \<or> c = 45"
  using nat_digits_are_digits [of "nat v"] nat_digits_are_digits [of "nat (- v)"]
  by (auto simp: js_num_def list_all_iff split: if_splits)

lemma js_num_no_quote: "34 \<notin> set (js_num v)"
  using js_num_chars [of 34 v] by (auto simp: is_digit_def word_le_nat_alt)

lemma trim_quotes_quoted:
  assumes "34 \<notin> set s"
  shows "trim_quotes (34 # s @ [34]) = s"
proof -
  have drop: "dropWhile (\<lambda>c. c = 34) (t @ u) = t @ u" if "34 \<notin> set t" "t \<noteq> []" for t u :: jsstring
    using that by (cases t) auto
  show ?thesis
  proof (cases "s = []")
    case False
    then have "dropWhile (\<lambda>c. c = 34) (34 # s @ [34]) = s @ [34]" using drop [of s "[34]"] assms by simp
    then show ?thesis using drop [of "rev s" "[]"] assms False by (simp add: trim_quotes_def)
  qed (simp add: trim_quotes_def)
qed

lemma go_parse_int64_js_num:
  "go_parse_int64 (js_num v) = (if - (2 ^ 63) \<le> v \<and> v < 2 ^ 63 then Some v else None)"
proof (cases "v < 0")
  case True
  then show ?thesis
    using nat_digits_are_digits [of "nat (- v)"] nat_digits_nonempty [of "nat (- v)"]
    by (auto simp: go_parse_int64_def js_num_def list_all_iff)
next
  case False
  obtain c cs where n: "nat_digits (nat v) = c # cs" "is_digit c" using nat_digits_hd_digit by blast
  then have "\<not> (c = 45 \<or> c = 43)" using is_digit_not_space by blast
  moreover have "list_all is_digit (c # cs)" "digits_value (c # cs) = nat v"
    using nat_digits_are_digits [of "nat v"] digits_value_nat_digits [of "nat v"] n by (simp_all add: list_all_iff)
  ultimately show ?thesis
    using False n by (auto simp: go_parse_int64_def js_num_def Let_def)
qed

lemma expected_version_quoted:
  "expected_version (Some (34 # js_num v @ [34])) = (if - (2 ^ 63) \<le> v \<and> v < 2 ^ 63 then Some v else None)"
  by (simp add: expected_version_def trim_quotes_quoted js_num_no_quote go_parse_int64_js_num)

section \<open>Optimistic concurrency\<close>

lemma UpdateFlag_stale:
  assumes "up (sdb s)" "\<not> no_fields req" "row_by_id (sdb s) i = Some f"
    and "ExpectedVersion req = Some v" "version f \<noteq> v"
    and "\<forall>p. u_rollout_percentage req = Some p \<longrightarrow> 0 \<le> p \<and> p \<le> 100"
  shows "UpdateFlag now i req s = (Inl (Repo ErrVersionConflict), s\<lparr>sdb := (sdb s)\<lparr>seq := seq (sdb s) + 1\<rparr>\<rparr>)"
  using assms
  by (auto simp: UpdateFlag_def Update_def update_tx_def nextVersion_def Let_def split: option.split)

lemma constraint_error_stamp [simp]:
  "constraint_error (f\<lparr>version := v, updated_at := now\<rparr>) = constraint_error f"
  by (simp add: constraint_error_def)

lemma UpdateFlag_current:
  assumes "up (sdb s)" "\<not> no_fields req" "row_by_id (sdb s) i = Some f"
    and "ExpectedVersion req = None \<or> ExpectedVersion req = Some (version f)"
    and "\<forall>p. u_rollout_percentage req = Some p \<longrightarrow> 0 \<le> p \<and> p \<le> 100"
    and "constraint_error (set_fields req f) = None"
  shows "fst (UpdateFlag now i req s) =
      Inr (Some ((set_fields req f)\<lparr>version := seq (sdb s) + 1, updated_at := now\<rparr>))"
  using assms
  by (auto simp: UpdateFlag_def Update_def update_tx_def nextVersion_def Let_def split: option.split)

section \<open>Properties of the control plane\<close>

definition empty_server :: server where
  "empty_server = \<lparr>sdb = empty_db, bus = [], redis_up = True, publish_errors = 0, sse_clients = 0,
     node_id = ascii ''node-1''\<rparr>"

lemma empty_server_inv: "server_inv empty_server"
  by (simp add: server_inv_def empty_server_def empty_db_wf)

lemma run_ops_inv: "server_inv s \<Longrightarrow> server_inv (foldl (\<lambda>s w. run_op w s) s ws)"
  by (induction ws arbitrary: s) (simp_all add: run_op_inv)

lemma run_ops_extends: "extends (sdb s) (sdb (foldl (\<lambda>s w. run_op w s) s ws))"
  by (induction ws arbitrary: s) (auto intro: extends_trans [OF run_op_extends])

text \<open>C3: After any sequence of creates, updates, toggles, deletes and outages, successful or
  not, replaying the event log from nothing gives exactly the table; the log's versions
  strictly increase; the log has only grown; and every announcement on the bus is in it.\<close>

theorem log_determines_table:
  fixes ws :: "op list"
  assumes "server_inv s"
  defines "s' \<equiv> foldl (\<lambda>s w. run_op w s) s ws"
  shows "(\<forall>k. row_by_key (sdb s') k = log_state (events (sdb s')) k) \<and>
         sorted_wrt (<) (map ev_version (events (sdb s'))) \<and>
         (\<exists>new. events (sdb s') = events (sdb s) @ new) \<and>
         list_all (env_logged (sdb s')) (bus s')"
  using run_ops_inv [OF assms(1), of ws] run_ops_extends [of s ws]
  by (auto simp: s'_def server_inv_def db_wf_def versions_ok_def extends_def list_all_iff)

theorem log_determines_table_witness:
  "(let s' = foldl (\<lambda>s w. run_op w s) empty_server
      [OpRedis False, OpToggle 1 (ascii ''x''), OpCreate 2 (ascii ''u'')
        \<lparr>c_key = ascii ''a'', c_description = [], c_enabled = True, c_rollout_percentage = 5, c_targeted_users = []\<rparr>]
    in row_by_key (sdb s') (ascii ''a'') = log_state (events (sdb s')) (ascii ''a''))"
  unfolding Let_def using log_determines_table [OF empty_server_inv] by blast

lemma CreateFlag_redis:
  "fst (CreateFlag now i req (s\<lparr>redis_up := b\<rparr>)) = fst (CreateFlag now i req s) \<and>
   sdb (snd (CreateFlag now i req (s\<lparr>redis_up := b\<rparr>))) = sdb (snd (CreateFlag now i req s))"
  by (cases "fst (Create now i req (sdb s))")
    (simp_all add: CreateFlag_def publish_defs case_prod_beta Let_def split: option.split sum.split)

lemma UpdateFlag_redis:
  "fst (UpdateFlag now i req (s\<lparr>redis_up := b\<rparr>)) = fst (UpdateFlag now i req s) \<and>
   sdb (snd (UpdateFlag now i req (s\<lparr>redis_up := b\<rparr>))) = sdb (snd (UpdateFlag now i req s))"
  by (cases "fst (Update now i req (sdb s))")
    (simp_all add: UpdateFlag_def publish_defs case_prod_beta Let_def split: option.split)

lemma ToggleFlag_redis:
  "fst (ToggleFlag now i (s\<lparr>redis_up := b\<rparr>)) = fst (ToggleFlag now i s) \<and>
   sdb (snd (ToggleFlag now i (s\<lparr>redis_up := b\<rparr>))) = sdb (snd (ToggleFlag now i s))"
  by (cases "fst (Toggle now i (sdb s))")
    (simp_all add: ToggleFlag_def publish_defs case_prod_beta Let_def split: option.split)

lemma DeleteFlag_redis:
  "fst (DeleteFlag now i (s\<lparr>redis_up := b\<rparr>)) = fst (DeleteFlag now i s) \<and>
   sdb (snd (DeleteFlag now i (s\<lparr>redis_up := b\<rparr>))) = sdb (snd (DeleteFlag now i s))"
  by (cases "fst (Delete now i (sdb s))"; cases "GetByID i (sdb s)")
    (simp_all add: DeleteFlag_def publish_defs case_prod_beta Let_def split: option.split)

text \<open>Losing Redis never changes what a write does: the result returned to the caller and
  the database after it are the same whether or not the announcement goes out.\<close>

theorem redis_outage_harmless:
  "fst (CreateFlag now i creq (s\<lparr>redis_up := b\<rparr>)) = fst (CreateFlag now i creq s) \<and>
   sdb (snd (CreateFlag now i creq (s\<lparr>redis_up := b\<rparr>))) = sdb (snd (CreateFlag now i creq s)) \<and>
   fst (UpdateFlag now i req (s\<lparr>redis_up := b\<rparr>)) = fst (UpdateFlag now i req s) \<and>
   sdb (snd (UpdateFlag now i req (s\<lparr>redis_up := b\<rparr>))) = sdb (snd (UpdateFlag now i req s)) \<and>
   fst (ToggleFlag now i (s\<lparr>redis_up := b\<rparr>)) = fst (ToggleFlag now i s) \<and>
   sdb (snd (ToggleFlag now i (s\<lparr>redis_up := b\<rparr>))) = sdb (snd (ToggleFlag now i s)) \<and>
   fst (DeleteFlag now i (s\<lparr>redis_up := b\<rparr>)) = fst (DeleteFlag now i s) \<and>
   sdb (snd (DeleteFlag now i (s\<lparr>redis_up := b\<rparr>))) = sdb (snd (DeleteFlag now i s))"
  using CreateFlag_redis [of now i creq b s] UpdateFlag_redis [of now i req b s]
    ToggleFlag_redis [of now i b s] DeleteFlag_redis [of now i b s] by blast

lemma history_newest_first:
  assumes "sorted_wrt (<) (map ev_version es)"
  shows "sort_key (\<lambda>e. - ev_version e) es = rev es"
proof -
  have "inj_on (\<lambda>e. - ev_version e) (set es)"
    using assms by (auto simp: strict_sorted_iff distinct_map inj_on_def)
  moreover have "sorted (map (\<lambda>e. - ev_version e) (rev es))"
    using assms by (induction es) (auto simp: sorted_append)
  ultimately show ?thesis
    by (intro sort_key_inj_key_eq [of es "rev es" "\<lambda>e. - ev_version e"]) simp_all
qed

text \<open>The history of a flag that exists is its own events only, newest first, and its length
  is the limit clamped to between 1 and 200 (50 when none is given).\<close>

theorem history_of_existing_flag:
  assumes "server_inv s" "up (sdb s)" "row_by_id (sdb s) i = Some f"
  shows "GetFlagHistory i limit s =
     Inr (Some (take (nat (min 200 (if limit \<le> 0 then 50 else limit)))
       (rev (filter (\<lambda>e. flag_key e = key f) (events (sdb s))))))"
proof -
  have "sorted_wrt (<) (map ev_version (filter (\<lambda>e. flag_key e = key f) (events (sdb s))))"
    using assms(1) by (simp add: server_inv_def db_wf_def versions_ok_def sorted_wrt_map sorted_wrt_filter)
  then show ?thesis
    using assms(2,3)
    by (simp add: GetFlagHistory_def GetByID_def ListEventsByFlag_def Let_def history_newest_first min_def)
qed

text \<open>A server with one flag, created and switched on once.\<close>

definition flag_on :: "utext Flag" where
  "flag_on = \<lparr>key = ascii ''checkout'', enabled = True, rollout_percentage = 100, targeted_users = [],
     flag_id = ascii ''1'', description = [], version = 2, created_at = 0, updated_at = 5\<rparr>"

definition demo_server :: server where
  "demo_server = foldl (\<lambda>s w. run_op w s) empty_server
     [OpCreate 0 (ascii ''1'') \<lparr>c_key = ascii ''checkout'', c_description = [], c_enabled = False,
        c_rollout_percentage = 100, c_targeted_users = []\<rparr>,
      OpToggle 5 (ascii ''1'')]"

lemma demo_server_inv: "server_inv demo_server"
  unfolding demo_server_def by (rule run_ops_inv [OF empty_server_inv])

lemma demo_server_db: "up (sdb demo_server) \<and> rows (sdb demo_server) = [flag_on]"
proof -
  have "utf8 (ascii ''checkout'') = go ''checkout''"
    by (simp add: ascii_def go_def utf8_def utf8_char_def)
  moreover have "keyRegex (go ''checkout'')" by code_simp
  ultimately show ?thesis
    by (simp add: demo_server_def empty_server_def empty_db_def CreateFlag_def create_error_def Let_def
        GetByKey_def row_by_key_def Create_def create_tx_def nextVersion_def constraint_error_def row_by_id_def
        appendEvent_def publish_defs Publish_def ToggleFlag_def Toggle_def toggle_tx_def replace_row_def
        flag_on_def go_def) (simp add: ascii_def)
qed

lemma demo_server_row: "row_by_id (sdb demo_server) (ascii ''1'') = Some flag_on"
  using demo_server_db by (simp add: row_by_id_def flag_on_def)

theorem history_of_existing_flag_witness:
  "GetFlagHistory (ascii ''1'') 0 demo_server =
     Inr (Some (take 50 (rev (filter (\<lambda>e. flag_key e = ascii ''checkout'') (events (sdb demo_server))))))"
proof -
  have "up (sdb demo_server)" "key flag_on = ascii ''checkout''"
    using demo_server_db by (simp_all add: flag_on_def)
  then show ?thesis
    using history_of_existing_flag [OF demo_server_inv _ demo_server_row, of 0] by simp
qed

text \<open>Once a delete has succeeded the history of that flag is reported as not found, so
  the deleted entry that the log keeps can never be shown by the history view.\<close>

theorem history_after_delete:
  assumes "fst (DeleteFlag now i s) = Inr ()"
  shows "GetFlagHistory i limit (snd (DeleteFlag now i s)) = Inr None"
proof -
  obtain f where f: "up (sdb s)" "row_by_id (sdb s) i = Some f"
    using assms by (auto simp: DeleteFlag_def GetByID_def split: if_splits option.splits)
  then have "row_by_id (sdb (snd (DeleteFlag now i s))) i = None" "up (sdb (snd (DeleteFlag now i s)))"
    by (auto simp: DeleteFlag_def GetByID_def Delete_def nextVersion_def delete_tx_def appendEvent_def
        publish_defs row_by_id_None)
  then show ?thesis by (simp add: GetFlagHistory_def GetByID_def)
qed

theorem history_after_delete_witness:
  "GetFlagHistory (ascii ''1'') 50 (snd (DeleteFlag 9 (ascii ''1'') demo_server)) = Inr None"
proof -
  have "fst (DeleteFlag 9 (ascii ''1'') demo_server) = Inr ()"
    using demo_server_db demo_server_row by (simp add: DeleteFlag_def GetByID_def Delete_def nextVersion_def)
  then show ?thesis by (rule history_after_delete)
qed

text \<open>An If-Match header that is not a decimal version, such as a weak ETag, is silently
  dropped: the write goes through unconditionally instead of being refused.\<close>

theorem malformed_if_match_ignored:
  assumes "go_parse_int64 (trim_quotes h) = None"
  shows "h_UpdateFlag now i b (Some h) s = h_UpdateFlag now i b None s"
proof -
  have "expected_version (Some h) = expected_version None"
    using assms by (simp add: expected_version_def Let_def)
  then show ?thesis by (simp only: h_UpdateFlag_def)
qed

theorem malformed_if_match_ignored_witness:
  "h_UpdateFlag 7 (ascii ''1'') (Some \<lparr>u_description = None, u_enabled = Some False, u_rollout_percentage = None, u_targeted_users = None\<rparr>)
     (Some (js ''W/'' @ [34] @ js ''1'' @ [34])) demo_server =
   h_UpdateFlag 7 (ascii ''1'') (Some \<lparr>u_description = None, u_enabled = Some False, u_rollout_percentage = None, u_targeted_users = None\<rparr>)
     None demo_server"
proof -
  have "trim_quotes (js ''W/'' @ [34] @ js ''1'' @ [34]) = [87, 47, 34, 49]"
    by (simp add: trim_quotes_def js_def)
  then have "go_parse_int64 (trim_quotes (js ''W/'' @ [34] @ js ''1'' @ [34])) = None"
    by (simp add: go_parse_int64_def is_digit_def)
  then show ?thesis by (rule malformed_if_match_ignored)
qed

text \<open>A description that passes every check of the service but does not fit the column is
  answered with 500 internal_error rather than a validation error.\<close>

theorem long_description_is_internal_error:
  assumes "create_error req = None" "up (sdb s)" "row_by_key (sdb s) (c_key req) = None"
    and "length (c_description req) > 256"
  shows "code (fst (h_CreateFlag now uuid (Some req) s)) = 500"
  using assms
  by (simp add: h_CreateFlag_def CreateFlag_def GetByKey_def Create_def create_tx_def nextVersion_def
      constraint_error_def Let_def)

definition long_text :: utext where
  "long_text = replicate 257 97"

theorem long_description_is_internal_error_witness:
  "code (fst (h_CreateFlag 0 (ascii ''2'') (Some \<lparr>c_key = ascii ''a'', c_description = long_text,
      c_enabled = True, c_rollout_percentage = 5, c_targeted_users = []\<rparr>) empty_server)) = 500"
proof (rule long_description_is_internal_error)
  have "utf8 (ascii ''a'') = go ''a''" by (simp add: ascii_def go_def utf8_def utf8_char_def)
  moreover have "keyRegex (go ''a'')" by code_simp
  ultimately show "create_error \<lparr>c_key = ascii ''a'', c_description = long_text,
      c_enabled = True, c_rollout_percentage = 5, c_targeted_users = []\<rparr> = None"
    by (simp add: create_error_def go_def)
  have "length long_text = 257" by (simp only: long_text_def length_replicate)
  then show "256 < length (c_description \<lparr>c_key = ascii ''a'', c_description = long_text,
      c_enabled = True, c_rollout_percentage = 5, c_targeted_users = []\<rparr>)" by simp
qed (simp_all add: empty_server_def empty_db_def row_by_key_def)

end
