(* ===== verification/SseWire.thy ===== *)
theory SseWire
  imports Service
begin

text \<open>
  Server-sent events on the wire: the text the broker's handler writes for an event
  (\<^verbatim>\<open>internal/sse/broker.go\<close>) and what the Go client reads back from it
  (\<^verbatim>\<open>pkg/ffclient/stream.go\<close>): \<^verbatim>\<open>bufio.Scanner\<close> with its limit of one MiB per line, the switch over
  the lines, and the frames that an empty line completes. Text is a list of UTF-16 units, as for
  header fields; the limit counts UTF-8 bytes.
\<close>

section \<open>Writing\<close>

record sse_event =
  ev_name :: jsstring
  ev_data :: jsstring
  ev_id :: int

abbreviation newline :: jsstring where
  "newline \<equiv> [10]"

definition write_event :: "sse_event \<Rightarrow> jsstring" where
  "write_event e =
     (if ev_id e > 0 then js ''id: '' @ js_num (ev_id e) @ newline else []) @
     js ''event: '' @ ev_name e @ newline @ js ''data: '' @ ev_data e @ newline @ newline"

datatype wire_item = Event sse_event | Heartbeat

fun write_item :: "wire_item \<Rightarrow> jsstring" where
  "write_item (Event e) = write_event e"
| "write_item Heartbeat = js '': heartbeat'' @ newline @ newline"

text \<open>What one connection carries: the greeting, then events and heartbeats.\<close>

definition write_stream :: "wire_item list \<Rightarrow> jsstring" where
  "write_stream is = js '': connected'' @ newline @ newline @ concat (map write_item is)"

section \<open>Reading\<close>

text \<open>\<^verbatim>\<open>strings.TrimSpace\<close>: the Unicode white space of Go, which differs from JavaScript's.\<close>

definition go_space :: "16 word \<Rightarrow> bool" where
  "go_space c \<longleftrightarrow> c \<in> set [0x9, 0xA, 0xB, 0xC, 0xD, 0x20, 0x85, 0xA0, 0x1680, 0x2028, 0x2029,
      0x202F, 0x205F, 0x3000] \<or> 0x2000 \<le> c \<and> c \<le> 0x200A"

definition TrimSpace :: "jsstring \<Rightarrow> jsstring" where
  "TrimSpace s = rev (dropWhile go_space (rev (dropWhile go_space s)))"

text \<open>\<^verbatim>\<open>strings.HasPrefix\<close> and the slice behind the prefix.\<close>

fun strip_prefix :: "'a list \<Rightarrow> 'a list \<Rightarrow> 'a list option" where
  "strip_prefix [] s = Some s"
| "strip_prefix (p # ps) s =
     (case s of [] \<Rightarrow> None | c # cs \<Rightarrow> if c = p then strip_prefix ps cs else None)"

text \<open>The bytes of a unit in UTF-8; a surrogate pair has four.\<close>

definition unit_bytes :: "16 word \<Rightarrow> nat" where
  "unit_bytes u =
     (if u < 0x80 then 1 else if u < 0x800 then 2 else if 0xD800 \<le> u \<and> u < 0xE000 then 2 else 3)"

definition byte_length :: "jsstring \<Rightarrow> nat" where
  "byte_length s = sum_list (map unit_bytes s)"

definition MAX_LINE :: nat where
  "MAX_LINE = 1024 * 1024"

definition drop_cr :: "jsstring \<Rightarrow> jsstring" where
  "drop_cr l = (if l \<noteq> [] \<and> last l = 13 then butlast l else l)"

text \<open>
  The lines \<^verbatim>\<open>sc.Scan\<close> yields from a text that has ended: what is behind the last line break counts if it is
  not empty; a line that does not fit into the buffer ends the scan.
\<close>

definition scan_lines :: "jsstring \<Rightarrow> jsstring list" where
  "scan_lines s =
     (let parts = split_on 10 s;
          parts = (if last parts = [] then butlast parts else parts)
      in map drop_cr (takeWhile (\<lambda>l. byte_length l < MAX_LINE) parts))"

text \<open>The local variables of \<^verbatim>\<open>stream\<close>, and the frames it has dispatched.\<close>

record sse_reader =
  rd_type :: jsstring
  rd_data :: jsstring
  rd_id :: jsstring
  rd_frames :: "(jsstring \<times> jsstring \<times> jsstring) list"

definition reader_start :: sse_reader where
  "reader_start = \<lparr>rd_type = [], rd_data = [], rd_id = [], rd_frames = []\<rparr>"

definition read_line :: "sse_reader \<Rightarrow> jsstring \<Rightarrow> sse_reader" where
  "read_line r l =
     (if l = [] then
        \<lparr>rd_type = [], rd_data = [], rd_id = [],
         rd_frames = (if rd_data r \<noteq> [] then rd_frames r @ [(rd_type r, rd_data r, rd_id r)] else rd_frames r)\<rparr>
      else if strip_prefix (js '':'') l \<noteq> None then r
      else case strip_prefix (js ''event:'') l of
             Some s \<Rightarrow> r\<lparr>rd_type := TrimSpace s\<rparr>
           | None \<Rightarrow>
      (case strip_prefix (js ''data:'') l of
             Some s \<Rightarrow> r\<lparr>rd_data := rd_data r @ TrimSpace s\<rparr>
           | None \<Rightarrow>
      (case strip_prefix (js ''id:'') l of
             Some s \<Rightarrow> r\<lparr>rd_id := TrimSpace s\<rparr>
           | None \<Rightarrow> r)))"

definition read_stream :: "jsstring \<Rightarrow> (jsstring \<times> jsstring \<times> jsstring) list" where
  "read_stream s = rd_frames (foldl read_line reader_start (scan_lines s))"

definition parseSSEVersion :: "jsstring \<Rightarrow> int option" where
  "parseSSEVersion i = (let i = TrimSpace i in if i = [] then None else go_parse_int64 i)"

section \<open>Lines\<close>

definition unlines :: "jsstring list \<Rightarrow> jsstring" where
  "unlines ls = concat (map (\<lambda>l. l @ newline) ls)"

lemma unlines_simps [simp]:
  "unlines [] = []" "unlines (l # ls) = l @ 10 # unlines ls" "unlines (xs @ ys) = unlines xs @ unlines ys"
  by (simp_all add: unlines_def)

definition good_line :: "jsstring \<Rightarrow> bool" where
  "good_line l \<longleftrightarrow> 10 \<notin> set l \<and> byte_length l < MAX_LINE \<and> (l \<noteq> [] \<longrightarrow> hd l \<noteq> 13 \<and> last l \<noteq> 13)"

lemma split_unlines:
  "\<forall>l \<in> set ls. good_line l \<Longrightarrow> 10 \<notin> set p \<Longrightarrow> split_on 10 (unlines ls @ p) = ls @ [p]"
  by (induction ls) (simp_all add: good_line_def split_on_append split_on_notin)

lemma byte_length_take: "byte_length (take n l) \<le> byte_length l"
proof -
  have "byte_length l = byte_length (take n l) + byte_length (drop n l)"
    by (metis append_take_drop_id byte_length_def map_append sum_list_append)
  then show ?thesis by simp
qed

text \<open>What is scanned from whole lines and a piece of one more.\<close>

lemma scan_unlines:
  assumes "\<forall>l \<in> set ls. good_line l" "10 \<notin> set p" "byte_length p < MAX_LINE"
  shows "scan_lines (unlines ls @ p) = ls @ (if p = [] then [] else [drop_cr p])"
proof -
  have id: "map drop_cr ls = ls" using assms(1) by (intro map_idI) (auto simp: good_line_def drop_cr_def)
  have fit: "takeWhile (\<lambda>l. byte_length l < MAX_LINE) ls = ls"
    using assms(1) by (simp add: takeWhile_eq_all_conv good_line_def)
  have fit': "takeWhile (\<lambda>l. byte_length l < MAX_LINE) (ls @ [p]) = ls @ [p]"
    using assms(1,3) by (simp add: takeWhile_eq_all_conv good_line_def)
  show ?thesis by (simp add: scan_lines_def split_unlines [OF assms(1,2)] id fit fit' del: takeWhile_append)
qed

lemma take_unlines:
  "\<exists>j. \<exists>p. take n (unlines ls) = unlines (take j ls) @ p \<and>
     (p = [] \<or> j < length ls \<and> (\<exists>m. p = take m (ls ! j)))"
proof (induction ls arbitrary: n)
  case (Cons l ls)
  show ?case
  proof (cases "n \<le> length l")
    case True
    then show ?thesis by (intro exI [of _ 0] exI [of _ "take n l"]) auto
  next
    case False
    obtain j p where jp: "take (n - Suc (length l)) (unlines ls) = unlines (take j ls) @ p"
      "p = [] \<or> j < length ls \<and> (\<exists>m. p = take m (ls ! j))"
      using Cons.IH by blast
    have "take n (unlines (l # ls)) = l @ 10 # take (n - Suc (length l)) (unlines ls)"
      using False by (cases "n - length l") (simp_all add: diff_Suc)
    then show ?thesis using jp by (intro exI [of _ "Suc j"] exI [of _ p]) auto
  qed
qed simp

section \<open>Frames\<close>

text \<open>Reading only ever appends frames, and only at an empty line.\<close>

lemma read_line_grows: "\<exists>fs. rd_frames (read_line r l) = rd_frames r @ fs"
  by (auto simp: read_line_def split: option.split)

lemma read_lines_grow: "\<exists>fs. rd_frames (foldl read_line r ls) = rd_frames r @ fs"
proof (induction ls arbitrary: r)
  case (Cons l ls)
  then show ?case using read_line_grows [of r l] by (metis append.assoc foldl_Cons)
qed simp

lemma read_line_same: "l \<noteq> [] \<Longrightarrow> rd_frames (read_line r l) = rd_frames r"
  by (simp add: read_line_def split: option.split)

lemma read_take:
  "\<exists>k. rd_frames (foldl read_line r (take j ls)) = take k (rd_frames (foldl read_line r ls))"
proof -
  have "foldl read_line r ls = foldl read_line (foldl read_line r (take j ls)) (drop j ls)"
    by (metis append_take_drop_id foldl_append)
  then obtain fs where "rd_frames (foldl read_line r ls) = rd_frames (foldl read_line r (take j ls)) @ fs"
    using read_lines_grow by metis
  then have "rd_frames (foldl read_line r (take j ls)) =
      take (length (rd_frames (foldl read_line r (take j ls)))) (rd_frames (foldl read_line r ls))" by simp
  then show ?thesis ..
qed

text \<open>A text cut off anywhere yields the frames completed before the cut, and nothing else.\<close>

lemma read_cut:
  assumes "\<forall>l \<in> set ls. good_line l"
  shows "\<exists>k. read_stream (take n (unlines ls)) = take k (read_stream (unlines ls))"
proof -
  obtain j p where jp: "take n (unlines ls) = unlines (take j ls) @ p"
    "p = [] \<or> j < length ls \<and> (\<exists>m. p = take m (ls ! j))"
    using take_unlines by blast
  have good: "\<forall>l \<in> set (take j ls). good_line l" using assms by (auto dest: in_set_takeD)
  have all: "scan_lines (unlines ls) = ls" using scan_unlines [OF assms, of "[]"] by (simp add: byte_length_def MAX_LINE_def)
  obtain k where k: "rd_frames (foldl read_line reader_start (take j ls)) =
      take k (rd_frames (foldl read_line reader_start ls))" using read_take by blast
  show ?thesis
  proof (cases "p = []")
    case True
    then show ?thesis
      using jp(1) k all scan_unlines [OF good, of "[]"] by (auto simp: read_stream_def byte_length_def MAX_LINE_def)
  next
    case False
    then obtain m where m: "p = take m (ls ! j)" "good_line (ls ! j)" using jp(2) assms by auto
    then have p: "10 \<notin> set p" "byte_length p < MAX_LINE" "hd p \<noteq> 13"
      using False le_less_trans [OF byte_length_take] by (auto simp: good_line_def hd_take dest: in_set_takeD)
    have "drop_cr p \<noteq> []" using p(3) False by (cases p) (auto simp: drop_cr_def)
    then show ?thesis
      using jp(1) k all scan_unlines [OF good p(1,2)] False by (auto simp: read_stream_def read_line_same)
  qed
qed

section \<open>What is written is read\<close>

fun item_lines :: "wire_item \<Rightarrow> jsstring list" where
  "item_lines (Event e) =
     (if ev_id e > 0 then [js ''id: '' @ js_num (ev_id e)] else []) @
     [js ''event: '' @ ev_name e, js ''data: '' @ ev_data e, []]"
| "item_lines Heartbeat = [js '': heartbeat'', []]"

lemma write_item_lines: "write_item i = unlines (item_lines i)"
  by (cases i) (simp_all add: write_event_def)

lemma write_stream_lines:
  "write_stream is = unlines (js '': connected'' # [] # concat (map item_lines is))"
proof -
  have "concat (map write_item is) = unlines (concat (map item_lines is))"
    by (induction "is") (simp_all add: write_item_lines)
  then show ?thesis by (simp add: write_stream_def)
qed

text \<open>
  Names and data a frame can carry: one line, without white space at either end, within the
  limit; JSON texts and the event names of the program are of this kind.
\<close>

definition wire_text :: "jsstring \<Rightarrow> bool" where
  "wire_text s \<longleftrightarrow> s \<noteq> [] \<and> 10 \<notin> set s \<and> TrimSpace s = s \<and> byte_length s + 7 < MAX_LINE"

fun item_ok :: "wire_item \<Rightarrow> bool" where
  "item_ok (Event e) \<longleftrightarrow> wire_text (ev_name e) \<and> wire_text (ev_data e) \<and> ev_id e < 2 ^ 63"
| "item_ok Heartbeat \<longleftrightarrow> True"

lemma strip_prefix_append [simp]: "strip_prefix p (p @ s) = Some s"
  by (induction p) simp_all

lemma TrimSpace_last:
  assumes "TrimSpace s = s" "s \<noteq> []"
  shows "\<not> go_space (hd s)" "\<not> go_space (last s)"
proof -
  let ?t = "dropWhile go_space s"
  have r: "rev s = dropWhile go_space (rev ?t)" using assms(1) by (metis TrimSpace_def rev_rev_ident)
  then have "\<not> go_space (hd (rev s))" using assms(2) by (metis hd_dropWhile rev_is_Nil_conv)
  then show "\<not> go_space (last s)" by (simp add: hd_rev)
  have "length s \<le> length ?t" using r by (metis length_dropWhile_le length_rev)
  moreover have "length (takeWhile go_space s) + length ?t = length s"
    by (metis length_append takeWhile_dropWhile_id)
  ultimately have "length (takeWhile go_space s) = 0" by linarith
  then have "takeWhile go_space s = []" by simp
  then have "?t = s" by (metis append_Nil takeWhile_dropWhile_id)
  then show "\<not> go_space (hd s)" using assms(2) by (metis hd_dropWhile)
qed

lemma TrimSpace_id: "s = [] \<or> \<not> go_space (hd s) \<and> \<not> go_space (last s) \<Longrightarrow> TrimSpace s = s"
proof -
  assume s: "s = [] \<or> \<not> go_space (hd s) \<and> \<not> go_space (last s)"
  then have "dropWhile go_space s = s" by (cases s) auto
  moreover have "dropWhile go_space (rev s) = rev s" using s by (cases s rule: rev_cases) auto
  ultimately show ?thesis by (simp add: TrimSpace_def)
qed

lemma TrimSpace_blank: "TrimSpace s = s \<Longrightarrow> TrimSpace (32 # s) = s"
proof -
  assume "TrimSpace s = s"
  moreover have "go_space 32" by (simp add: go_space_def)
  ultimately show ?thesis by (simp add: TrimSpace_def)
qed

lemma js_num_trim [simp]: "TrimSpace (js_num v) = js_num v"
proof (rule TrimSpace_id)
  have "\<not> go_space c" if "c \<in> set (js_num v)" for c
    using js_num_chars [OF that] by (auto simp: go_space_def is_digit_def word_le_nat_alt)
  then show "js_num v = [] \<or> \<not> go_space (hd (js_num v)) \<and> \<not> go_space (last (js_num v))" by auto
qed

text \<open>Each kind of line, recognised.\<close>

lemma read_id: "TrimSpace s = s \<Longrightarrow> read_line r (js ''id: '' @ s) = r\<lparr>rd_id := s\<rparr>"
  using TrimSpace_blank [of s] by (simp add: read_line_def js_def)

lemma read_event: "TrimSpace s = s \<Longrightarrow> read_line r (js ''event: '' @ s) = r\<lparr>rd_type := s\<rparr>"
  using TrimSpace_blank [of s] by (simp add: read_line_def js_def)

lemma read_data: "TrimSpace s = s \<Longrightarrow> read_line r (js ''data: '' @ s) = r\<lparr>rd_data := rd_data r @ s\<rparr>"
  using TrimSpace_blank [of s] by (simp add: read_line_def js_def)

lemma read_comment: "read_line r (js '':'' @ s) = r"
  by (simp add: read_line_def js_def)

fun item_frames :: "wire_item \<Rightarrow> (jsstring \<times> jsstring \<times> jsstring) list" where
  "item_frames (Event e) = [(ev_name e, ev_data e, if ev_id e > 0 then js_num (ev_id e) else [])]"
| "item_frames Heartbeat = []"

abbreviation clean :: "(jsstring \<times> jsstring \<times> jsstring) list \<Rightarrow> sse_reader" where
  "clean fs \<equiv> \<lparr>rd_type = [], rd_data = [], rd_id = [], rd_frames = fs\<rparr>"

lemma heartbeat_comment: "js '': heartbeat'' = js '':'' @ js '' heartbeat''" "js '': connected'' = js '':'' @ js '' connected''"
  by (simp_all flip: js_append)

lemma read_item: "item_ok i \<Longrightarrow> foldl read_line (clean fs) (item_lines i) = clean (fs @ item_frames i)"
  by (cases i) (auto simp: heartbeat_comment read_comment read_id read_event read_data wire_text_def read_line_def [of _ "[]"])

lemma read_items:
  "list_all item_ok is \<Longrightarrow>
     foldl read_line (clean fs) (concat (map item_lines is)) = clean (fs @ concat (map item_frames is))"
  by (induction "is" arbitrary: fs) (simp_all add: read_item)

lemma byte_length_simps [simp]:
  "byte_length [] = 0" "byte_length (c # s) = unit_bytes c + byte_length s"
  "byte_length (s @ t) = byte_length s + byte_length t"
  by (simp_all add: byte_length_def)

lemma byte_length_le: "byte_length s \<le> 3 * length s"
  by (induction s) (auto simp: unit_bytes_def)

lemma length_nat_digits: "n < 10 ^ Suc k \<Longrightarrow> length (nat_digits n) \<le> Suc k"
proof (induction n arbitrary: k rule: nat_digits.induct)
  case (1 n)
  show ?case
  proof (cases "n < 10")
    case False
    then obtain k' where k: "k = Suc k'" using 1(2) by (cases k) auto
    then have "n div 10 < 10 ^ Suc k'" using 1(2) by (simp add: div_less_iff_less_mult)
    then have "length (nat_digits (n div 10)) \<le> Suc k'" using 1(1) [OF False] by blast
    then show ?thesis using False k by (simp add: nat_digits.simps [of n])
  qed (simp add: nat_digits.simps [of n])
qed

lemma id_line_short:
  assumes "0 < v" "v < 2 ^ 63"
  shows "byte_length (js ''id: '' @ js_num v) < MAX_LINE"
proof -
  have "nat v < 10 ^ Suc 18" using assms by simp
  then have "length (js_num v) \<le> 19" using length_nat_digits [of "nat v" 18] assms(1) by (simp add: js_num_def)
  then show ?thesis
    using byte_length_le [of "js ''id: '' @ js_num v"] by (simp add: MAX_LINE_def del: byte_length_simps)
qed

lemma good_lineI:
  assumes "10 \<notin> set s" "byte_length (js p @ s) < MAX_LINE" "s \<noteq> []" "last s \<noteq> 13"
    "p \<noteq> []" "10 \<notin> set (js p)" "hd (js p) \<noteq> 13"
  shows "good_line (js p @ s)"
  using assms by (auto simp: good_line_def)

lemma item_lines_good:
  assumes "item_ok i" "l \<in> set (item_lines i)"
  shows "good_line l"
proof -
  have lit: "10 \<notin> set (js ''id: '')" "hd (js ''id: '') \<noteq> 13" "10 \<notin> set (js ''event: '')" "hd (js ''event: '') \<noteq> 13"
    "10 \<notin> set (js ''data: '')" "hd (js ''data: '') \<noteq> 13"
    "byte_length (js ''event: '') = 7" "byte_length (js ''data: '') = 6"
    by (simp_all add: js_def unit_bytes_def)
  have last: "last s \<noteq> 13" if "wire_text s" for s
    using TrimSpace_last(2) [of s] that by (auto simp: wire_text_def go_space_def)
  have num: "10 \<notin> set (js_num v)" "last (js_num v) \<noteq> 13" for v
    using js_num_chars [of 10 v] js_num_chars [of "last (js_num v)" v] by (auto simp: is_digit_def word_le_nat_alt)
  have beat: "good_line (js '': heartbeat'')" "good_line []"
    by (simp_all add: good_line_def js_def unit_bytes_def MAX_LINE_def)
  show ?thesis
  proof (cases i)
    case (Event e)
    have "good_line (js ''event: '' @ ev_name e)" "good_line (js ''data: '' @ ev_data e)"
      using assms(1) Event lit by (auto intro!: good_lineI last simp: wire_text_def)
    moreover have "good_line (js ''id: '' @ js_num (ev_id e))" if "0 < ev_id e"
      using assms(1) Event lit that id_line_short num by (auto intro!: good_lineI)
    ultimately show ?thesis using assms(2) Event beat by (auto split: if_splits)
  qed (use assms(2) beat in auto)
qed

lemma stream_lines_good:
  assumes "list_all item_ok is"
  shows "\<forall>l \<in> set (js '': connected'' # [] # concat (map item_lines is)). good_line l"
proof -
  have "good_line (js '': connected'')" "good_line []"
    by (simp_all add: good_line_def js_def unit_bytes_def MAX_LINE_def)
  then show ?thesis using assms item_lines_good by (fastforce simp: list_all_iff)
qed

lemma read_written:
  assumes "list_all item_ok is"
  shows "read_stream (write_stream is) = concat (map item_frames is)"
proof -
  note good = stream_lines_good [OF assms]
  have "scan_lines (write_stream is) = js '': connected'' # [] # concat (map item_lines is)"
    using scan_unlines [OF good, of "[]"] unfolding write_stream_lines by (simp add: MAX_LINE_def)
  moreover have "read_line (read_line reader_start (js '': connected'')) [] = clean []"
    by (simp add: heartbeat_comment read_comment) (simp add: read_line_def reader_start_def)
  ultimately show ?thesis using read_items [OF assms, of "[]"] by (simp add: read_stream_def)
qed

section \<open>Property of the wire\<close>

text \<open>A frame as \<^verbatim>\<open>stream\<close> hands it on: type, data, and the version its id parses to.\<close>

definition dispatched :: "jsstring \<Rightarrow> (jsstring \<times> jsstring \<times> int option) list" where
  "dispatched s = map (\<lambda>(t, d, i). (t, d, parseSSEVersion i)) (read_stream s)"

fun sent :: "wire_item list \<Rightarrow> (jsstring \<times> jsstring \<times> int option) list" where
  "sent [] = []"
| "sent (Event e # is) =
     (ev_name e, ev_data e, if ev_id e > 0 then Some (ev_id e) else None) # sent is"
| "sent (Heartbeat # is) = sent is"

lemma parse_version_id:
  "v < 2 ^ 63 \<Longrightarrow> parseSSEVersion (if v > 0 then js_num v else []) = (if v > 0 then Some v else None)"
  by (simp add: parseSSEVersion_def go_parse_int64_js_num TrimSpace_def [of "[]"])

lemma sent_frames:
  "list_all item_ok is \<Longrightarrow> map (\<lambda>(t, d, i). (t, d, parseSSEVersion i)) (concat (map item_frames is)) = sent is"
  by (induction "is" rule: sent.induct) (simp_all only: list.pred_inject list.map concat.simps item_frames.simps
      item_ok.simps sent.simps append.simps prod.case parse_version_id simp_thms)


definition sample_stream :: "wire_item list" where
  "sample_stream = [Heartbeat,
     Event \<lparr>ev_name = js ''flag_deleted'', ev_data = [0x7B, 0x22, 0x6B, 0x22, 0x3A, 0x31, 0x7D], ev_id = 42\<rparr>]"


end
