(* ===== verification/JsonText.thy ===== *)
theory JsonText
  imports Json SseWire
begin

text \<open>
  JSON as text: what \<^verbatim>\<open>encoding/json\<close> writes for a value, without white space and with its escapes, and a
  reader for texts that also keeps the text of each member, as \<^verbatim>\<open>json.RawMessage\<close> does. Numbers are
  whole, which is all the program sends; a reader of names outside Latin-1 gets a name nobody asks for.
\<close>

section \<open>Writing\<close>

definition low_hex :: "nat \<Rightarrow> 16 word" where
  "low_hex n = (if n < 10 then of_nat (48 + n) else of_nat (87 + n))"

definition hex4 :: "16 word \<Rightarrow> jsstring" where
  "hex4 c = (let n = unat c in [low_hex (n div 4096), low_hex (n div 256 mod 16), low_hex (n div 16 mod 16), low_hex (n mod 16)])"

definition escape_unit :: "16 word \<Rightarrow> jsstring" where
  "escape_unit c =
     (if c = 34 \<or> c = 92 then [92, c]
      else if c = 8 then [92, 98]
      else if c = 12 then [92, 102]
      else if c = 10 then [92, 110]
      else if c = 13 then [92, 114]
      else if c = 9 then [92, 116]
      else if c < 32 \<or> c \<in> {38, 60, 62, 0x2028, 0x2029} then [92, 117] @ hex4 c
      else [c])"

definition string_text :: "jsstring \<Rightarrow> jsstring" where
  "string_text s = 34 # concat (map escape_unit s) @ [34]"

fun json_text :: "json \<Rightarrow> jsstring" where
  "json_text JNull = js ''null''"
| "json_text (JBool b) = js (if b then ''true'' else ''false'')"
| "json_text (JNum n) = js_num n"
| "json_text (JStr s) = string_text s"
| "json_text (JArr vs) = 91 # join_with 44 (map json_text vs) @ [93]"
| "json_text (JObj fs) = 123 # join_with 44 (map (\<lambda>(k, v). string_text (js k) @ 58 # json_text v) fs) @ [125]"

section \<open>Reading\<close>

definition json_space :: "16 word \<Rightarrow> bool" where
  "json_space c \<longleftrightarrow> c = 32 \<or> c = 9 \<or> c = 10 \<or> c = 13"

abbreviation skip :: "jsstring \<Rightarrow> jsstring" where
  "skip s \<equiv> dropWhile json_space s"

definition hex_of :: "16 word \<Rightarrow> nat option" where
  "hex_of c =
     (if 48 \<le> c \<and> c \<le> 57 then Some (unat c - 48)
      else if 97 \<le> c \<and> c \<le> 102 then Some (unat c - 87)
      else if 65 \<le> c \<and> c \<le> 70 then Some (unat c - 55) else None)"

definition short_escape :: "16 word \<Rightarrow> 16 word option" where
  "short_escape c =
     (if c = 34 \<or> c = 92 \<or> c = 47 then Some c
      else if c = 98 then Some 8
      else if c = 102 then Some 12
      else if c = 110 then Some 10
      else if c = 114 then Some 13
      else if c = 116 then Some 9 else None)"

text \<open>A string behind its opening quote.\<close>

fun read_string :: "jsstring \<Rightarrow> (jsstring \<times> jsstring) option" where
  "read_string [] = None"
| "read_string (c # r) =
     (if c = 34 then Some ([], r)
      else if c = 92 then
        (case r of
           [] \<Rightarrow> None
         | e # r' \<Rightarrow>
             if e = 117
             then (case r' of
                     h1 # h2 # h3 # h4 # r'' \<Rightarrow>
                       (case (hex_of h1, hex_of h2, hex_of h3, hex_of h4) of
                          (Some a, Some b, Some x, Some y) \<Rightarrow>
                            map_option (apfst ((#) (of_nat (4096 * a + 256 * b + 16 * x + y)))) (read_string r'')
                        | _ \<Rightarrow> None)
                   | _ \<Rightarrow> None)
             else (case short_escape e of
                     Some u \<Rightarrow> map_option (apfst ((#) u)) (read_string r')
                   | None \<Rightarrow> None))
      else if c < 32 then None
      else map_option (apfst ((#) c)) (read_string r))"

definition read_number :: "jsstring \<Rightarrow> (json \<times> jsstring) option" where
  "read_number s =
     (let neg = (s \<noteq> [] \<and> hd s = 45);
          t = (if neg then tl s else s);
          ds = takeWhile is_digit t;
          r = dropWhile is_digit t
      in if ds = [] \<or> (hd ds = 48 \<and> length ds > 1) \<or> (r \<noteq> [] \<and> hd r \<in> {46, 69, 101}) then None
         else Some (JNum (if neg then - int (digits_value ds) else int (digits_value ds)), r))"

definition read_word :: "jsstring \<Rightarrow> (json \<times> jsstring) option" where
  "read_word s =
     (case strip_prefix (js ''null'') s of Some r \<Rightarrow> Some (JNull, r) | None \<Rightarrow>
     (case strip_prefix (js ''true'') s of Some r \<Rightarrow> Some (JBool True, r) | None \<Rightarrow>
     (case strip_prefix (js ''false'') s of Some r \<Rightarrow> Some (JBool False, r) | None \<Rightarrow> None)))"

definition name_of :: "jsstring \<Rightarrow> string" where
  "name_of s = (if list_all (\<lambda>u. u < 256) s then map (\<lambda>u. char_of (unat u)) s else [CHR 0x00])"

text \<open>A value, the elements of an array, the members of an object with the text of each value; \<open>n\<close> is fuel.\<close>

fun read_value :: "nat \<Rightarrow> jsstring \<Rightarrow> (json \<times> jsstring) option"
  and read_elems :: "nat \<Rightarrow> jsstring \<Rightarrow> (json list \<times> jsstring) option"
  and read_members :: "nat \<Rightarrow> jsstring \<Rightarrow> ((string \<times> json \<times> jsstring) list \<times> jsstring) option" where
  "read_value 0 s = None"
| "read_value (Suc n) s =
     (case skip s of
        [] \<Rightarrow> None
      | c # r \<Rightarrow>
          if c = 34 then map_option (apfst JStr) (read_string r)
          else if c = 91 then
            (case skip r of
               [] \<Rightarrow> None
             | d # r' \<Rightarrow> if d = 93 then Some (JArr [], r') else map_option (apfst JArr) (read_elems n r))
          else if c = 123 then
            (case skip r of
               [] \<Rightarrow> None
             | d # r' \<Rightarrow> if d = 125 then Some (JObj [], r')
                        else map_option (apfst (\<lambda>ms. JObj (map (\<lambda>(k, v, t). (k, v)) ms))) (read_members n r))
          else if is_digit c \<or> c = 45 then read_number (c # r)
          else read_word (c # r))"
| "read_elems 0 s = None"
| "read_elems (Suc n) s =
     (case read_value n s of
        None \<Rightarrow> None
      | Some (v, r) \<Rightarrow>
          (case skip r of
             [] \<Rightarrow> None
           | c # r' \<Rightarrow> if c = 93 then Some ([v], r')
                      else if c = 44 then map_option (apfst ((#) v)) (read_elems n r')
                      else None))"
| "read_members 0 s = None"
| "read_members (Suc n) s =
     (case skip s of
        [] \<Rightarrow> None
      | q # r0 \<Rightarrow>
          if q \<noteq> 34 then None
          else case read_string r0 of
                 None \<Rightarrow> None
               | Some (k, r1) \<Rightarrow>
                   (case skip r1 of
                      [] \<Rightarrow> None
                    | c # r2 \<Rightarrow>
                        if c \<noteq> 58 then None
                        else case read_value n r2 of
                               None \<Rightarrow> None
                             | Some (v, r3) \<Rightarrow>
                                 let m = (name_of k, v, skip (take (length r2 - length r3) r2))
                                 in case skip r3 of
                                      [] \<Rightarrow> None
                                    | d # r4 \<Rightarrow>
                                        if d = 125 then Some ([m], r4)
                                        else if d = 44 then map_option (apfst ((#) m)) (read_members n r4)
                                        else None))"

definition parse_json :: "jsstring \<Rightarrow> json option" where
  "parse_json s =
     (case read_value (Suc (length s)) s of
        Some (v, r) \<Rightarrow> if skip r = [] then Some v else None
      | None \<Rightarrow> None)"

text \<open>The members of an object with their texts; \<open>None\<close> for a text that is no object.\<close>

definition raw_members :: "jsstring \<Rightarrow> (string \<times> json \<times> jsstring) list option" where
  "raw_members s =
     (case skip s of
        c # r \<Rightarrow>
          if c \<noteq> 123 then None
          else (case skip r of
                  d # r' \<Rightarrow>
                    if d = 125 then (if skip r' = [] then Some [] else None)
                    else (case read_members (length s) r of
                            Some (ms, r'') \<Rightarrow> if skip r'' = [] then Some ms else None
                          | None \<Rightarrow> None)
                | [] \<Rightarrow> None)
      | [] \<Rightarrow> None)"

section \<open>Strings and numbers\<close>

lemma hex_of_low: "n < 16 \<Longrightarrow> hex_of (low_hex n) = Some n"
proof -
  have "\<forall>n < 16. hex_of (low_hex n) = Some n"
    by (simp add: All_less_Suc numeral_eq_Suc) (simp add: hex_of_def low_hex_def)
  then show "n < 16 \<Longrightarrow> hex_of (low_hex n) = Some n" by blast
qed

lemma hex4_value:
  "4096 * (n div 4096) + 256 * (n div 256 mod 16) + 16 * (n div 16 mod 16) + n mod 16 = (n::nat)"
proof -
  have "4096 * (n div 256 div 16) + 256 * (n div 256 mod 16) = 256 * (n div 256)"
    using div_mult_mod_eq [of "n div 256" 16] by linarith
  moreover have "256 * (n div 16 div 16) + 16 * (n div 16 mod 16) = 16 * (n div 16)"
    using div_mult_mod_eq [of "n div 16" 16] by linarith
  moreover have "16 * (n div 16) + n mod 16 = n" by simp
  moreover have "n div 16 div 16 = n div 256" "n div 256 div 16 = n div 4096"
    by (simp_all add: div_mult2_eq [symmetric])
  ultimately show ?thesis by simp
qed

lemma read_escaped: "read_string (escape_unit c @ r) = map_option (apfst ((#) c)) (read_string r)"
proof -
  consider (long) "escape_unit c = [92, 117] @ hex4 c" | (short) e where "escape_unit c = [92, e]" "short_escape e = Some c" "e \<noteq> 117"
    | (itself) "escape_unit c = [c]" "c \<noteq> 34" "c \<noteq> 92" "\<not> c < 32"
  proof (cases "c \<in> {34, 92, 8, 12, 10, 13, 9}")
    case True
    then have "\<exists>e. escape_unit c = [92, e] \<and> short_escape e = Some c \<and> e \<noteq> 117"
      by (elim insertE) (simp_all add: escape_unit_def short_escape_def)
    then show ?thesis using short by blast
  next
    case False
    then show ?thesis
      using long itself by (cases "c < 32 \<or> c \<in> {38, 60, 62, 0x2028, 0x2029}") (auto simp: escape_unit_def)
  qed
  then show ?thesis
  proof cases
    case long
    have lt: "unat c div 4096 < 16" using unsigned_less [of c] by (simp add: div_less_iff_less_mult)
    have "of_nat (4096 * (unat c div 4096) + 256 * (unat c div 256 mod 16) + 16 * (unat c div 16 mod 16) + unat c mod 16) = c"
      by (simp only: hex4_value) simp
    then show ?thesis
      using lt by (simp add: long hex4_def Let_def hex_of_low del: of_nat_add of_nat_mult)
  qed simp_all
qed

lemma read_string_text: "read_string (concat (map escape_unit s) @ 34 # r) = Some (s, r)"
  by (induction s) (simp_all add: read_escaped)

lemma name_of_js [simp]: "name_of (js k) = k"
proof -
  have "unat (of_char c :: 16 word) = of_char c" for c :: char
    using unat_of_nat16 [of "of_char c"] less_trans [OF nat_of_char_less_256 [of c], of 65536]
    by (simp add: of_nat_of_char)
  then have "list_all (\<lambda>u. u < 256) (js k)" "map (\<lambda>u. char_of (unat u)) (js k) = k"
    by (induction k) (simp_all add: js_def word_less_nat_alt)
  then show ?thesis by (simp add: name_of_def)
qed

lemma nat_digits_no_zero: "0 < n \<Longrightarrow> hd (nat_digits n) \<noteq> 48"
proof (induction n rule: nat_digits.induct)
  case (1 n)
  show ?case
  proof (cases "n < 10")
    case True
    then have "unat (digit n) \<noteq> 48" using 1(2) by (simp add: unat_digit)
    then show ?thesis using True by (auto simp: nat_digits.simps [of n])
  next
    case False
    then show ?thesis using 1(1) nat_digits_nonempty [of "n div 10"] by (simp add: nat_digits.simps [of n])
  qed
qed

lemma nat_digits_zero: "nat_digits 0 = [48]"
  by (simp add: nat_digits.simps digit_def)

text \<open>What may follow a value: nothing, a comma or a closing bracket.\<close>

definition stops :: "jsstring \<Rightarrow> bool" where
  "stops r \<longleftrightarrow> r = [] \<or> hd r \<in> {44, 93, 125}"

lemma digit_units: "is_digit c \<Longrightarrow> c \<notin> {44, 45, 46, 69, 93, 101, 125} \<and> \<not> json_space c \<and> c \<noteq> 34 \<and> c \<noteq> 91 \<and> c \<noteq> 123"
  by (auto simp: is_digit_def json_space_def word_le_nat_alt)

lemma stops_digits:
  assumes "stops r"
  shows "takeWhile is_digit (nat_digits n @ r) = nat_digits n" "dropWhile is_digit (nat_digits n @ r) = r"
proof -
  have r: "takeWhile is_digit r = []" "dropWhile is_digit r = r"
    using assms by (cases r; auto simp: stops_def is_digit_def word_le_nat_alt)+
  show "takeWhile is_digit (nat_digits n @ r) = nat_digits n" "dropWhile is_digit (nat_digits n @ r) = r"
    using nat_digits_are_digits [of n] r by (simp_all add: takeWhile_append2 dropWhile_append2)
qed

lemma read_number_text:
  assumes "stops r"
  shows "read_number (js_num n @ r) = Some (JNum n, r)"
proof -
  have ok: "\<not> (hd (nat_digits m) = 48 \<and> length (nat_digits m) > 1)" for m
    using nat_digits_no_zero [of m] by (cases "m = 0") (simp_all add: nat_digits_zero)
  have r: "\<not> (r \<noteq> [] \<and> hd r \<in> {46, 69, 101})" using assms by (auto simp: stops_def)
  show ?thesis
  proof (cases "n < 0")
    case True
    then show ?thesis
      using ok [of "nat (- n)"] r assms
      by (simp add: js_num_def read_number_def Let_def stops_digits nat_digits_nonempty del: dropWhile_eq_Nil_conv)
  next
    case False
    obtain c cs where c: "nat_digits (nat n) = c # cs" "is_digit c" using nat_digits_hd_digit by blast
    then have "hd (nat_digits (nat n) @ r) \<noteq> 45" using digit_units [of c] by simp
    then show ?thesis
      using False ok [of "nat n"] r assms
      by (simp add: js_num_def read_number_def Let_def stops_digits nat_digits_nonempty del: dropWhile_eq_Nil_conv)
  qed
qed

section \<open>What is written is read\<close>

text \<open>The fuel a value needs, and the first unit of its text.\<close>

fun needs :: "json \<Rightarrow> nat" where
  "needs (JArr vs) = Suc (foldr (\<lambda>v n. Suc (max (needs v) n)) vs 0)"
| "needs (JObj fs) = Suc (foldr (\<lambda>(k, v) n. Suc (max (needs v) n)) fs 0)"
| "needs _ = 1"

lemma needs_obj: "needs (JObj fs) = Suc (foldr (\<lambda>v n. Suc (max (needs v) n)) (map snd fs) 0)"
  by (induction fs) auto

lemma json_text_hd:
  "\<exists>c r. json_text v = c # r \<and> \<not> json_space c \<and> c \<noteq> 93 \<and> c \<noteq> 125"
proof (cases v)
  case (JNum n)
  obtain c cs where "nat_digits (nat n) = c # cs" "is_digit c" using nat_digits_hd_digit by blast
  then show ?thesis using JNum digit_units [of c] by (cases "n < 0") (auto simp: js_num_def json_space_def)
qed (auto simp: js_def string_text_def json_space_def)

lemma skip_json_text [simp]: "skip (json_text v @ r) = json_text v @ r"
  using json_text_hd [of v] by auto

lemma skip_json_text_end [simp]: "skip (json_text v) = json_text v"
  using skip_json_text [of v "[]"] by simp

lemma skip_quote [simp]: "skip (string_text s @ r) = string_text s @ r"
  by (simp add: string_text_def json_space_def)

lemma skip_stops: "stops r \<Longrightarrow> skip r = r"
  by (cases r) (auto simp: stops_def json_space_def)

definition member_text :: "string \<times> json \<Rightarrow> jsstring" where
  "member_text = (\<lambda>(k, v). string_text (js k) @ 58 # json_text v)"

definition raw_member :: "string \<times> json \<Rightarrow> string \<times> json \<times> jsstring" where
  "raw_member = (\<lambda>(k, v). (k, v, json_text v))"

abbreviation enough :: "nat \<Rightarrow> json list \<Rightarrow> bool" where
  "enough n vs \<equiv> foldr (\<lambda>v n. Suc (max (needs v) n)) vs 0 \<le> n"

definition reads :: "json \<Rightarrow> bool" where
  "reads v \<longleftrightarrow> (\<forall>n r. needs v \<le> n \<and> stops r \<longrightarrow> read_value n (json_text v @ r) = Some (v, r))"

lemma read_elems_text:
  assumes "\<forall>v \<in> set vs. reads v" "vs \<noteq> []" "enough n vs"
  shows "read_elems n (join_with 44 (map json_text vs) @ 93 # r) = Some (vs, r)"
  using assms
proof (induction vs arbitrary: n)
  case (Cons v vs)
  obtain m where n: "n = Suc m" "needs v \<le> m" "enough m vs" using Cons.prems(3) by (cases n) auto
  have v: "read_value m (json_text v @ t) = Some (v, t)" if "stops t" for t
    using Cons.prems(1) n(2) that by (simp add: reads_def)
  show ?case
  proof (cases vs)
    case Nil
    then show ?thesis using v [of "93 # r"] by (simp add: n(1) stops_def json_space_def)
  next
    case (Cons w ws)
    have "read_elems m (join_with 44 (map json_text vs) @ 93 # r) = Some (vs, r)"
      using Cons.IH Cons.prems n Cons by simp
    then show ?thesis
      using v [of "44 # join_with 44 (map json_text vs) @ 93 # r"] Cons
      by (simp add: n(1) stops_def json_space_def)
  qed
qed simp

lemma read_members_text:
  assumes "\<forall>f \<in> set fs. reads (snd f)" "fs \<noteq> []" "enough n (map snd fs)"
  shows "read_members n (join_with 44 (map member_text fs) @ 125 # r) = Some (map raw_member fs, r)"
  using assms
proof (induction fs arbitrary: n)
  case (Cons f fs)
  obtain k v where f: "f = (k, v)" by (cases f)
  obtain m where n: "n = Suc m" "needs v \<le> m" "enough m (map snd fs)" using Cons.prems(3) f by (cases n) auto
  have v: "read_value m (json_text v @ t) = Some (v, t)" if "stops t" for t
    using Cons.prems(1) n(2) that f by (simp add: reads_def)
  have key: "read_string (concat (map escape_unit (js k)) @ 34 # 58 # t) = Some (js k, 58 # t)" for t
    by (rule read_string_text)
  show ?case
  proof (cases fs)
    case Nil
    then show ?thesis
      using v [of "125 # r"] key f
      by (simp add: n(1) member_text_def raw_member_def string_text_def stops_def json_space_def)
  next
    case (Cons g gs)
    have "read_members m (join_with 44 (map member_text fs) @ 125 # r) = Some (map raw_member fs, r)"
      using Cons.IH Cons.prems n Cons by simp
    then show ?thesis
      using v [of "44 # join_with 44 (map member_text fs) @ 125 # r"] key f Cons
      by (simp add: n(1) member_text_def raw_member_def string_text_def stops_def json_space_def)
  qed
qed simp

lemma json_text_obj: "json_text (JObj fs) = 123 # join_with 44 (map member_text fs) @ [125]"
  by (simp add: member_text_def)

lemma member_text_hd: "\<exists>r. member_text f = 34 # r"
  by (cases f) (simp add: member_text_def string_text_def)

lemma join_hd: "\<exists>r. s = c # r \<Longrightarrow> \<exists>r. join_with d (s # ss) = c # r"
  by (cases ss) auto

lemma reads_all: "reads v"
proof (induction v)
  case (JNum n)
  have "read_value (Suc m) (js_num n @ r) = read_number (js_num n @ r)" if "stops r" for m r
  proof -
    obtain c cs where c: "js_num n = c # cs" by (cases "js_num n") simp_all
    have "is_digit c \<or> c = 45"
      using c nat_digits_hd_digit [of "nat n"] by (auto simp: js_num_def split: if_splits)
    then show ?thesis using digit_units [of c] by (auto simp: c json_space_def)
  qed
  then show ?case using read_number_text by (auto simp: reads_def gr0_conv_Suc Suc_le_eq)
next
  case (JStr s)
  then show ?case
    by (auto simp: reads_def gr0_conv_Suc Suc_le_eq string_text_def json_space_def read_string_text)
next
  case (JArr vs)
  show ?case
    unfolding reads_def
  proof (intro allI impI, elim conjE)
    fix n r assume "needs (JArr vs) \<le> n" "stops r"
    then obtain m where n: "n = Suc m" "enough m vs" by (cases n) auto
    show "read_value n (json_text (JArr vs) @ r) = Some (JArr vs, r)"
    proof (cases vs)
      case Nil
      then show ?thesis by (simp add: n(1) json_space_def)
    next
      case (Cons w ws)
      obtain c t where c: "join_with 44 (map json_text vs) = c # t" "\<not> json_space c" "c \<noteq> 93"
        using json_text_hd [of w] join_hd [of "json_text w" _ 44 "map json_text ws"] Cons by fastforce
      have "read_elems m (join_with 44 (map json_text vs) @ 93 # r) = Some (vs, r)"
        using read_elems_text [OF _ _ n(2)] JArr Cons by simp
      then show ?thesis using c by (simp add: n(1) json_space_def)
    qed
  qed
next
  case (JObj fs)
  show ?case
    unfolding reads_def
  proof (intro allI impI, elim conjE)
    fix n r assume "needs (JObj fs) \<le> n" "stops r"
    then obtain m where n: "n = Suc m" "enough m (map snd fs)" unfolding needs_obj by (cases n) auto
    show "read_value n (json_text (JObj fs) @ r) = Some (JObj fs, r)"
    proof (cases fs)
      case Nil
      then show ?thesis by (simp add: n(1) json_space_def)
    next
      case (Cons g gs)
      obtain t where t: "join_with 44 (map member_text fs) = 34 # t"
        using member_text_hd [of g] join_hd [of "member_text g" 34 44 "map member_text gs"] Cons by auto
      have "read_members m (join_with 44 (map member_text fs) @ 125 # r) = Some (map raw_member fs, r)"
        using read_members_text [OF _ _ n(2)] JObj Cons by (auto simp: snds.simps)
      moreover have "map ((\<lambda>(k, v, t). (k, v)) \<circ> raw_member) fs = fs"
        by (simp add: comp_def raw_member_def case_prod_beta)
      ultimately show ?thesis using t unfolding json_text_obj by (simp add: n(1) json_space_def)
    qed
  qed
qed (auto simp: reads_def gr0_conv_Suc Suc_le_eq json_space_def is_digit_def read_word_def js_def)

text \<open>The text of a value is long enough to be its own fuel.\<close>

lemma enough_join:
  assumes "\<forall>v \<in> set vs. needs v \<le> length (t v)"
  shows "foldr (\<lambda>v n. Suc (max (needs v) n)) vs 0 \<le> Suc (length (join_with c (map t vs)))"
  using assms
proof (induction vs)
  case (Cons v vs)
  then show ?case by (cases vs) (auto simp: le_SucI)
qed simp

lemma needs_text: "needs v \<le> length (json_text v)"
proof (induction v)
  case (JArr vs)
  then show ?case using enough_join [of vs json_text 44] by simp
next
  case (JObj fs)
  have "foldr (\<lambda>v n. Suc (max (needs v) n)) (map snd fs) 0 \<le> Suc (length (join_with 44 (map member_text fs)))"
  proof -
    have "\<forall>f \<in> set fs. needs (snd f) \<le> length (member_text f)"
      using JObj by (fastforce simp: member_text_def case_prod_beta snds.simps)
    then show ?thesis
    proof (induction fs)
      case (Cons f fs)
      then show ?case by (cases fs) (auto simp: le_SucI)
    qed simp
  qed
  then show ?case unfolding json_text_obj needs_obj by simp
qed (simp_all add: js_def string_text_def Suc_le_eq)

theorem parse_json_text: "parse_json (json_text v) = Some v"
proof -
  have "read_value (Suc (length (json_text v))) (json_text v @ []) = Some (v, [])"
    using needs_text [of v]
    by (intro reads_all [unfolded reads_def, rule_format] conjI) (simp_all add: stops_def)
  then show ?thesis by (simp add: parse_json_def)
qed

theorem raw_members_text: "raw_members (json_text (JObj fs)) = Some (map raw_member fs)"
proof (cases fs)
  case Nil
  then show ?thesis by (simp add: raw_members_def json_space_def)
next
  case (Cons g gs)
  obtain t where t: "join_with 44 (map member_text fs) = 34 # t"
    using member_text_hd [of g] join_hd [of "member_text g" 34 44 "map member_text gs"] Cons by auto
  have "needs (JObj fs) \<le> length (json_text (JObj fs))" by (rule needs_text)
  then have "enough (length (json_text (JObj fs))) (map snd fs)" unfolding needs_obj by linarith
  then have "read_members (length (json_text (JObj fs))) (join_with 44 (map member_text fs) @ 125 # []) =
      Some (map raw_member fs, [])"
    using Cons reads_all by (intro read_members_text) auto
  then show ?thesis using t unfolding json_text_obj by (simp add: raw_members_def json_space_def)
qed

section \<open>One line\<close>

lemma hex_units: "n < 16 \<Longrightarrow> 32 < low_hex n \<and> \<not> go_space (low_hex n)"
proof -
  have "\<forall>n < 16. 32 < low_hex n \<and> \<not> go_space (low_hex n)"
    by (simp add: All_less_Suc numeral_eq_Suc) (simp add: low_hex_def go_space_def)
  then show "n < 16 \<Longrightarrow> 32 < low_hex n \<and> \<not> go_space (low_hex n)" by blast
qed

lemma escape_units: "d \<in> set (escape_unit c) \<Longrightarrow> 32 \<le> d"
proof -
  have "unat c div 4096 < 16" using unsigned_less [of c] by (simp add: div_less_iff_less_mult)
  then have "d \<in> set (hex4 c) \<Longrightarrow> 32 \<le> d" using hex_units by (auto simp: hex4_def Let_def intro: less_imp_le)
  then show "d \<in> set (escape_unit c) \<Longrightarrow> 32 \<le> d" by (auto simp: escape_unit_def not_less split: if_splits)
qed

lemma join_units: "d \<in> set (join_with c ss) \<Longrightarrow> d = c \<or> (\<exists>s \<in> set ss. d \<in> set s)"
  by (induction c ss rule: join_with.induct) auto

lemma string_units: "d \<in> set (string_text s) \<Longrightarrow> 32 \<le> d"
  using escape_units by (auto simp: string_text_def)

lemma json_text_units: "d \<in> set (json_text v) \<Longrightarrow> 32 \<le> d"
proof (induction v)
  case (JNum n)
  then show ?case using js_num_chars [of d n] by (auto simp: is_digit_def word_le_nat_alt)
next
  case (JArr vs)
  then show ?case using join_units [of d 44 "map json_text vs"] by auto
next
  case (JObj fs)
  then show ?case
    using join_units [of d 44 "map member_text fs"] string_units unfolding json_text_obj
    by (auto simp: member_text_def snds.simps)
qed (auto simp: js_def string_units split: if_splits)

text \<open>No line break, no white space at either end: a value's text fits on a line of its own.\<close>

lemma json_text_last: "\<not> go_space (hd (json_text v)) \<and> \<not> go_space (last (json_text v)) \<and> json_text v \<noteq> []"
proof (cases v)
  case (JNum n)
  have "\<not> go_space c" if "c \<in> set (js_num n)" for c
    using js_num_chars [OF that] by (auto simp: go_space_def is_digit_def word_le_nat_alt)
  then show ?thesis using JNum by simp
qed (auto simp: js_def go_space_def string_text_def)

lemma json_text_wire: "byte_length (json_text v) + 7 < MAX_LINE \<Longrightarrow> wire_text (json_text v)"
proof -
  have "10 \<notin> set (json_text v)" using json_text_units [of 10 v] by auto
  moreover have "TrimSpace (json_text v) = json_text v" using json_text_last [of v] by (intro TrimSpace_id) simp
  ultimately show "byte_length (json_text v) + 7 < MAX_LINE \<Longrightarrow> wire_text (json_text v)"
    using json_text_last [of v] by (simp add: wire_text_def)
qed

end
