(* ===== verification/Rollout.thy ===== *)
theory Rollout
  imports Encoding
begin

text \<open>
  Percentage rollouts: the FNV-1a hash of the browser SDK
  (\<^verbatim>\<open>sdk/FeatureFlagClient.ts\<close>), written as the source writes it with JavaScript's
  32-bit number operators, the bucket of \<^verbatim>\<open>lib/evaluate.ts\<close>, and the two Go versions
  (\<^verbatim>\<open>internal/hash/rollout.go\<close>, \<^verbatim>\<open>pkg/ffclient\<close>), which use \<^verbatim>\<open>hash/fnv\<close> on bytes.
\<close>

section \<open>JavaScript's 32-bit operators on numbers\<close>

text \<open>
  \<^verbatim>\<open>a ^ b\<close> and \<^verbatim>\<open>Math.imul(a, b)\<close> convert their operands to 32-bit integers and give a
  signed result; \<^verbatim>\<open>a >>> 0\<close> reads the 32 bits as an unsigned number.
\<close>

definition js_xor :: "int \<Rightarrow> int \<Rightarrow> int" where
  "js_xor a b = sint ((word_of_int a :: 32 word) XOR word_of_int b)"

definition math_imul :: "int \<Rightarrow> int \<Rightarrow> int" where
  "math_imul a b = sint ((word_of_int a :: 32 word) * word_of_int b)"

definition ushr0 :: "int \<Rightarrow> int" where
  "ushr0 a = uint (word_of_int a :: 32 word)"

section \<open>The hash of the browser SDK\<close>

definition fnv1a32_step :: "int \<Rightarrow> 16 word \<Rightarrow> int" where
  "fnv1a32_step hash code =
     (let hash = js_xor hash (uint code);
          hash = math_imul hash 0x01000193;
          hash = ushr0 hash
      in hash)"

definition fnv1a32 :: "jsstring \<Rightarrow> int" where
  "fnv1a32 input = foldl fnv1a32_step 0x811c9dc5 input"

definition rolloutBucket :: "jsstring \<Rightarrow> jsstring \<Rightarrow> int" where
  "rolloutBucket flagKey userId = fnv1a32 (flagKey @ js '':'' @ userId) mod 100"

definition isInRollout :: "jsstring \<Rightarrow> jsstring \<Rightarrow> int \<Rightarrow> bool" where
  "isInRollout flagKey userId percentage =
     (if percentage \<le> 0 then False
      else if percentage \<ge> 100 then True
      else let hash = fnv1a32 (flagKey @ js '':'' @ userId)
           in hash mod 100 < percentage)"

section \<open>The hash of the Go side\<close>

text \<open>\<^verbatim>\<open>fnv.New32a\<close>: xor the byte in, multiply by the prime, wrap at 32 bits.\<close>

definition fnv_New32a :: "gostring \<Rightarrow> 32 word" where
  "fnv_New32a bs = foldl (\<lambda>h b. (h XOR ucast b) * 16777619) 2166136261 bs"

definition IsUserInRollout :: "gostring \<Rightarrow> gostring \<Rightarrow> int \<Rightarrow> bool" where
  "IsUserInRollout flagKey userID percentage =
     (if percentage \<le> 0 then False
      else if percentage \<ge> 100 then True
      else let hashValue = fnv_New32a (flagKey @ go '':'' @ userID);
               bucket = hashValue mod 100
           in uint bucket < percentage)"

definition inRollout :: "gostring \<Rightarrow> gostring \<Rightarrow> int \<Rightarrow> bool" where
  "inRollout flagKey userID percentage =
     (if percentage \<le> 0 then False
      else if percentage \<ge> 100 then True
      else uint (fnv_New32a (flagKey @ go '':'' @ userID) mod 100) < percentage)"

section \<open>The signed detour computes the plain 32-bit hash\<close>

definition fnv_word :: "'a::len word list \<Rightarrow> 32 word" where
  "fnv_word us = foldl (\<lambda>h u. (h XOR ucast u) * 16777619) 2166136261 us"

lemma word_of_int_uint_ucast: "word_of_int (uint (u :: 'a::len word)) = (ucast u :: 32 word)"
  by (simp only: ucast_eq)

lemma fnv1a32_step_word:
  "fnv1a32_step (uint (h :: 32 word)) c = uint ((h XOR ucast c) * 16777619)"
  unfolding fnv1a32_step_def js_xor_def math_imul_def ushr0_def Let_def
  by (simp only: scast_id word_of_int_uint of_int_sint word_of_int_uint_ucast word_of_int_numeral)

lemma foldl_fnv1a32_step:
  "foldl fnv1a32_step (uint (h :: 32 word)) s = uint (foldl (\<lambda>h u. (h XOR ucast u) * 16777619) h s)"
  by (induction s arbitrary: h) (simp_all add: fnv1a32_step_word)

lemma fnv1a32_word: "fnv1a32 s = uint (fnv_word s)"
proof -
  have "(0x811c9dc5 :: int) = uint (2166136261 :: 32 word)" by simp
  then show ?thesis by (simp only: fnv1a32_def fnv_word_def foldl_fnv1a32_step)
qed

lemma fnv_New32a_word: "fnv_New32a bs = fnv_word bs"
  by (simp add: fnv_New32a_def fnv_word_def)

lemma fnv1a32_range: "0 \<le> fnv1a32 s \<and> fnv1a32 s < 2 ^ 32"
  using uint_lt2p [of "fnv_word s"] by (simp add: fnv1a32_word)

lemma rolloutBucket_range: "0 \<le> rolloutBucket k u \<and> rolloutBucket k u < 100"
  by (simp add: rolloutBucket_def)

lemma isInRollout_bucket: "isInRollout k u p \<longleftrightarrow> rolloutBucket k u < p"
  using rolloutBucket_range [of k u]
  by (auto simp: isInRollout_def Let_def rolloutBucket_def)

lemma uint_mod100: "uint ((w :: 32 word) mod 100) = uint w mod 100"
  by (simp add: uint_mod)

definition go_bucket :: "gostring \<Rightarrow> gostring \<Rightarrow> int" where
  "go_bucket k u = uint (fnv_New32a (k @ go '':'' @ u)) mod 100"

lemma IsUserInRollout_bucket: "IsUserInRollout k u p \<longleftrightarrow> go_bucket k u < p"
  using pos_mod_bound [of 100 "uint (fnv_New32a (k @ go '':'' @ u))"]
    pos_mod_sign [of 100 "uint (fnv_New32a (k @ go '':'' @ u))"]
  by (auto simp: IsUserInRollout_def Let_def go_bucket_def uint_mod100)

lemma inRollout_IsUserInRollout: "inRollout k u p = IsUserInRollout k u p"
  by (simp add: inRollout_def IsUserInRollout_def Let_def)

section \<open>The two spellings of one text\<close>

lemma ucast_ascii:
  assumes "n < 0x80"
  shows "ucast (of_nat n :: 16 word) = (of_nat n :: 32 word)"
    and "ucast (of_nat n :: 8 word) = (of_nat n :: 32 word)"
proof -
  have "unat (of_nat n :: 16 word) = n" "unat (of_nat n :: 8 word) = n"
    using assms by (simp_all add: unat_of_nat16 unat_of_nat8)
  then show "ucast (of_nat n :: 16 word) = (of_nat n :: 32 word)"
    and "ucast (of_nat n :: 8 word) = (of_nat n :: 32 word)"
    by (metis of_nat_unat)+
qed

lemma fnv_word_ascii:
  assumes "ascii_text t"
  shows "fnv_word (map of_nat t :: 16 word list) = fnv_word (map of_nat t :: 8 word list)"
proof -
  have "foldl (\<lambda>h u. (h XOR ucast u) * 16777619) h (map of_nat t :: 16 word list) =
        foldl (\<lambda>h u. (h XOR ucast u) * 16777619) h (map of_nat t :: 8 word list)" for h :: "32 word"
    using assms by (induction t arbitrary: h) (simp_all add: ucast_ascii)
  then show ?thesis by (simp add: fnv_word_def)
qed

lemma colon_js: "js '':'' = utf16 (ascii '':'')" and colon_go: "go '':'' = utf8 (ascii '':'')"
  by (simp_all add: js_def go_def ascii_def utf16_def utf8_def utf16_char_def utf8_char_def)

lemma bucket_ascii:
  assumes "ascii_text k" "ascii_text u"
  shows "rolloutBucket (utf16 k) (utf16 u) = go_bucket (utf8 k) (utf8 u)"
proof -
  let ?t = "k @ ascii '':'' @ u"
  have t: "ascii_text ?t" using assms by (simp add: ascii_def)
  have "utf16 k @ js '':'' @ utf16 u = utf16 ?t" "utf8 k @ go '':'' @ utf8 u = utf8 ?t"
    by (simp_all add: colon_js colon_go)
  then show ?thesis
    using fnv_word_ascii [OF t]
    by (simp only: rolloutBucket_def go_bucket_def fnv1a32_word fnv_New32a_word
        utf16_ascii [OF t] utf8_ascii [OF t])
qed

section \<open>Properties of rollouts\<close>

text \<open>C36: The browser's hash, which detours through signed 32-bit numbers, is the plain FNV-1a
  fold over unsigned 32-bit words, so it is always in the 32-bit range.\<close>

theorem fnv1a32_is_fnv1a:
  "fnv1a32 s = uint (foldl (\<lambda>h u. (h XOR ucast u) * 16777619) (2166136261 :: 32 word) s) \<and>
   0 \<le> fnv1a32 s \<and> fnv1a32 s < 2 ^ 32"
  using fnv1a32_word [of s] fnv1a32_range [of s] by (simp add: fnv_word_def)

text \<open>Raising a rollout percentage never takes the feature away from a user who had it:
  the cohort at the lower percentage is contained in the cohort at the higher one, is
  empty at 0 and everyone at 100.\<close>

theorem rollout_cohort_grows:
  assumes "p \<le> q" "isInRollout k u p"
  shows "isInRollout k u q \<and> \<not> isInRollout k' u' 0 \<and> isInRollout k' u' 100"
  using assms rolloutBucket_range [of k' u'] by (simp add: isInRollout_bucket)

theorem rollout_cohort_grows_witness:
  "isInRollout (js ''checkout'') (js ''user-2'') 90"
proof -
  have "isInRollout (js ''checkout'') (js ''user-2'') 20" by code_simp
  then show ?thesis using rollout_cohort_grows [of 20 90 "js ''checkout''" "js ''user-2''"] by simp
qed

text \<open>For ASCII keys and user ids the browser SDK and both Go implementations put every
  user on the same side of every rollout.\<close>

theorem browser_and_go_agree:
  assumes "ascii_text k" "ascii_text u"
  shows "isInRollout (utf16 k) (utf16 u) p = IsUserInRollout (utf8 k) (utf8 u) p \<and>
         inRollout (utf8 k) (utf8 u) p = IsUserInRollout (utf8 k) (utf8 u) p"
  using bucket_ascii [OF assms]
  by (simp add: isInRollout_bucket IsUserInRollout_bucket inRollout_IsUserInRollout)

theorem browser_and_go_agree_witness:
  "isInRollout (utf16 (ascii ''beta'')) (utf16 (ascii ''u_1024'')) 73 =
   IsUserInRollout (utf8 (ascii ''beta'')) (utf8 (ascii ''u_1024'')) 73"
proof -
  have "ascii_text (ascii ''beta'')" "ascii_text (ascii ''u_1024'')" by code_simp+
  then show ?thesis using browser_and_go_agree [of "ascii ''beta''" "ascii ''u_1024''" 73] by simp
qed

text \<open>Outside ASCII the two sides hash different units (UTF-16 code units against UTF-8
  bytes): for user id \<open>jos + U+00E9\<close> and flag \<open>checkout\<close> at 30 percent the Go side says on
  and the browser says off.\<close>

theorem browser_and_go_disagree_outside_ascii:
  "\<not> isInRollout (utf16 (ascii ''checkout'')) (utf16 (ascii ''jos'' @ [0xE9])) 30 \<and>
   IsUserInRollout (utf8 (ascii ''checkout'')) (utf8 (ascii ''jos'' @ [0xE9])) 30"
proof -
  have "utf16 (ascii ''checkout'') = js ''checkout''" "utf8 (ascii ''checkout'') = go ''checkout''"
    "utf16 (ascii ''jos'' @ [0xE9]) = js ''jos'' @ [0xE9]" "utf8 (ascii ''jos'' @ [0xE9]) = go ''jos'' @ [0xC3, 0xA9]"
    by (simp_all add: ascii_def js_def go_def utf16_def utf16_char_def utf8_def utf8_char_def)
  moreover have "\<not> isInRollout (js ''checkout'') (js ''jos'' @ [0xE9]) 30" by code_simp
  moreover have "IsUserInRollout (go ''checkout'') (go ''jos'' @ [0xC3, 0xA9]) 30" by code_simp
  ultimately show ?thesis by simp
qed

end
