(* ===== verification/SdkClient.thy ===== *)
theory SdkClient
  imports Evaluate
begin

text \<open>
  The browser SDK (\<^verbatim>\<open>sdk/FeatureFlagClient.ts\<close>) as a state machine. The record holds the
  private fields of the class and, beside them, what the class does to the outside: the
  event sources and interval timers it has open, the calls it made to its listeners (in order) and the
  asynchronous calls that are waiting for a response. An \<^verbatim>\<open>async\<close> method is cut at its
  \<^verbatim>\<open>await\<close>s: the part up to the first one runs when the method is called, each following
  part when the response arrives, and anything else may happen in between.

  Flag keys are of any type, so that the same machine runs on \<open>jsstring\<close> (evaluation)
  and on \<open>utext\<close> (against the model of the server).
\<close>

datatype ConnectionStatus = Connecting | Live | Reconnecting | Reconciling | Offline

datatype 's call =
    UpdateCall nat "('s, 's FlagConfig) jsmap"
  | StatusCall nat ConnectionStatus

text \<open>A suspended \<^verbatim>\<open>reconcile\<close>: its local variables at the \<^verbatim>\<open>fetch\<close> it waits for.\<close>

record frame =
  prevStatus :: ConnectionStatus
  changed :: bool
  guard :: nat

record 's client =
  cflags :: "('s, 's FlagConfig) jsmap"
  eventSource :: "nat option"
  listeners :: "nat list"
  statusListeners :: "nat list"
  refreshTimer :: "nat option"
  configVersion :: int
  status :: ConnectionStatus
  reconciling :: bool
  manuallyClosed :: bool
  refreshInterval :: "int option"
  streams :: "nat list"
  nextStream :: nat
  timers :: "nat list"
  nextTimer :: nat
  calls :: "'s call list"
  rframe :: "frame option"
  inits :: nat

definition constructor :: "int option \<Rightarrow> 's client" where
  "constructor interval =
     \<lparr>cflags = [], eventSource = None, listeners = [], statusListeners = [], refreshTimer = None,
      configVersion = 0, status = Offline, reconciling = False, manuallyClosed = False,
      refreshInterval = interval, streams = [], nextStream = 0, timers = [], nextTimer = 0,
      calls = [], rframe = None, inits = 0\<rparr>"

section \<open>Synchronous methods\<close>

definition notifyListeners :: "'s client \<Rightarrow> 's client" where
  "notifyListeners c = c\<lparr>calls := calls c @ map (\<lambda>l. UpdateCall l (cflags c)) (listeners c)\<rparr>"

definition setStatus :: "ConnectionStatus \<Rightarrow> 's client \<Rightarrow> 's client" where
  "setStatus st c =
     (if status c = st then c
      else c\<lparr>status := st, calls := calls c @ map (\<lambda>l. StatusCall l st) (statusListeners c)\<rparr>)"

definition isEnabled :: "jsstring \<Rightarrow> jsstring \<Rightarrow> jsstring client \<Rightarrow> bool" where
  "isEnabled flagKey userId c =
     (case map_get (cflags c) flagKey of
        None \<Rightarrow> False
      | Some flag \<Rightarrow>
          if \<not> enabled flag then False
          else if userId \<in> set (targeted_users flag) then True
          else isInRollout flagKey userId (rollout_percentage flag))"

definition getAllFlags :: "'s client \<Rightarrow> ('s, 's FlagConfig) jsmap" where
  "getAllFlags c = cflags c"

definition getConfigVersion :: "'s client \<Rightarrow> int" where
  "getConfigVersion c = configVersion c"

definition isStale :: "int \<Rightarrow> 's client \<Rightarrow> bool" where
  "isStale serverVersion c \<longleftrightarrow> serverVersion > configVersion c"

definition getStatus :: "'s client \<Rightarrow> ConnectionStatus" where
  "getStatus c = status c"

definition set_add :: "'a \<Rightarrow> 'a list \<Rightarrow> 'a list" where
  "set_add x xs = (if x \<in> set xs then xs else xs @ [x])"

definition onUpdate :: "nat \<Rightarrow> 's client \<Rightarrow> 's client" where
  "onUpdate l c = c\<lparr>listeners := set_add l (listeners c)\<rparr>"

definition offUpdate :: "nat \<Rightarrow> 's client \<Rightarrow> 's client" where
  "offUpdate l c = c\<lparr>listeners := removeAll l (listeners c)\<rparr>"

definition onStatus :: "nat \<Rightarrow> 's client \<Rightarrow> 's client" where
  "onStatus l c = c\<lparr>statusListeners := set_add l (statusListeners c)\<rparr>"

definition offStatus :: "nat \<Rightarrow> 's client \<Rightarrow> 's client" where
  "offStatus l c = c\<lparr>statusListeners := removeAll l (statusListeners c)\<rparr>"

definition closeStream :: "'s client \<Rightarrow> 's client" where
  "closeStream c =
     (case eventSource c of
        None \<Rightarrow> c
      | Some es \<Rightarrow> c\<lparr>eventSource := None, streams := removeAll es (streams c)\<rparr>)"

definition connectSSE :: "'s client \<Rightarrow> 's client" where
  "connectSSE c0 =
     (let c = closeStream c0; es = nextStream c
      in c\<lparr>eventSource := Some es, streams := es # streams c, nextStream := Suc es\<rparr>)"

definition disconnect :: "'s client \<Rightarrow> 's client" where
  "disconnect c = setStatus Offline (closeStream (c\<lparr>manuallyClosed := True\<rparr>))"

definition reconnect :: "'s client \<Rightarrow> 's client" where
  "reconnect c = connectSSE (setStatus Reconnecting (c\<lparr>manuallyClosed := False\<rparr>))"

definition destroy :: "'s client \<Rightarrow> 's client" where
  "destroy c =
     (let c = closeStream (c\<lparr>manuallyClosed := True\<rparr>);
          c = (case refreshTimer c of
                 Some t \<Rightarrow> c\<lparr>timers := removeAll t (timers c), refreshTimer := None\<rparr>
               | None \<Rightarrow> c);
          c = c\<lparr>listeners := [], statusListeners := []\<rparr>
      in setStatus Offline c)"

section \<open>Replaying the backlog\<close>

text \<open>The body of the inner loop of \<^verbatim>\<open>reconcile\<close>; the flag says whether it advanced.\<close>

definition reconcile_event :: "'s client \<times> bool \<Rightarrow> 's FlagEvent \<Rightarrow> 's client \<times> bool" where
  "reconcile_event ca ev =
     (let (c, advanced) = ca
      in if ev_version ev \<le> configVersion c then (c, advanced)
         else (c\<lparr>cflags := (case payload_flag (payload ev) of
                              None \<Rightarrow> map_delete (flag_key ev) (cflags c)
                            | Some f \<Rightarrow> map_set (flag_key ev) (as_config f) (cflags c)),
                 configVersion := ev_version ev\<rparr>, True))"

definition reconcile_page :: "'s FlagEvent list \<Rightarrow> 's client \<Rightarrow> 's client \<times> bool" where
  "reconcile_page evs c = foldl reconcile_event (c, False) evs"

text \<open>What \<^verbatim>\<open>fetch\<close> and \<^verbatim>\<open>res.json()\<close> may give: an exception, a status that is not ok, data.\<close>

datatype 'a response = Throws | NotOk int | Ok 'a

section \<open>reconcile, cut at its fetch\<close>

definition reconcile :: "'s client \<Rightarrow> 's client" where
  "reconcile c =
     (if reconciling c then c
      else let prev = status c;
               c1 = setStatus Reconciling (c\<lparr>reconciling := True\<rparr>)
           in c1\<lparr>rframe := Some \<lparr>prevStatus = prev, changed = False, guard = 0\<rparr>\<rparr>)"

definition reconcile_return :: "'s client \<Rightarrow> 's client" where
  "reconcile_return c = c\<lparr>reconciling := False, rframe := None\<rparr>"

definition reconcile_done :: "bool \<Rightarrow> 's client \<Rightarrow> 's client" where
  "reconcile_done ch c =
     (let c = setStatus Live c; c = (if ch then notifyListeners c else c) in reconcile_return c)"

definition reconcile_response :: "'s FlagEvent list response \<Rightarrow> 's client \<Rightarrow> 's client" where
  "reconcile_response resp c =
     (case rframe c of
        None \<Rightarrow> c
      | Some fr \<Rightarrow>
          (case resp of
             Throws \<Rightarrow> reconcile_return (setStatus Reconnecting c)
           | NotOk _ \<Rightarrow>
               reconcile_return
                 (setStatus (if prevStatus fr = Reconciling then Reconnecting else prevStatus fr) c)
           | Ok evs \<Rightarrow>
               if evs = [] then reconcile_done (changed fr) c
               else let (c1, advanced) = reconcile_page evs c;
                        ch = (changed fr \<or> advanced);
                        g = Suc (guard fr)
                    in if \<not> advanced then reconcile_done ch c1
                       else if g < 10000 then c1\<lparr>rframe := Some (fr\<lparr>changed := ch, guard := g\<rparr>)\<rparr>
                       else reconcile_done ch c1))"

section \<open>Live events\<close>

definition eventVersion :: "jsstring \<Rightarrow> 's client \<Rightarrow> int" where
  "eventVersion lastEventId c =
     (case parseInt lastEventId of Some v \<Rightarrow> v | None \<Rightarrow> configVersion c + 1)"

definition applyEvent ::
  "int \<Rightarrow> (('s, 's FlagConfig) jsmap \<Rightarrow> ('s, 's FlagConfig) jsmap) \<Rightarrow> 's client \<Rightarrow> 's client" where
  "applyEvent v mutate c =
     (if v \<le> configVersion c then c
      else if v > configVersion c + 1 then reconcile c
      else notifyListeners (setStatus Live (c\<lparr>cflags := mutate (cflags c), configVersion := v\<rparr>)))"

definition on_flag_updated :: "jsstring \<Rightarrow> 's FlagConfig \<Rightarrow> 's client \<Rightarrow> 's client" where
  "on_flag_updated lastEventId flag c =
     applyEvent (eventVersion lastEventId c) (map_set (key flag) flag) c"

definition on_flag_deleted :: "jsstring \<Rightarrow> 's \<Rightarrow> 's client \<Rightarrow> 's client" where
  "on_flag_deleted lastEventId k c =
     applyEvent (eventVersion lastEventId c) (map_delete k) c"

definition closeStreamIfClosed :: "nat \<Rightarrow> bool \<Rightarrow> 's client \<Rightarrow> 's client" where
  "closeStreamIfClosed es readyStateClosed c =
     (if readyStateClosed \<and> eventSource c = Some es then c\<lparr>eventSource := None\<rparr> else c)"

definition on_error :: "nat \<Rightarrow> bool \<Rightarrow> 's client \<Rightarrow> 's client" where
  "on_error es readyStateClosed c =
     (if manuallyClosed c then c
      else setStatus Reconnecting (closeStreamIfClosed es readyStateClosed c))"

section \<open>init, cut at its bootstrap\<close>

definition init :: "'s client \<Rightarrow> 's client" where
  "init c = (setStatus Connecting c)\<lparr>inits := Suc (inits c)\<rparr>"

definition bootstrap_flags :: "'s FlagConfig list \<Rightarrow> ('s, 's FlagConfig) jsmap" where
  "bootstrap_flags fs = foldl (\<lambda>m f. map_set (key f) f m) [] fs"

definition bootstrap_response ::
  "('s FlagConfig list \<times> int option) response \<Rightarrow> 's client \<Rightarrow> 's client" where
  "bootstrap_response resp c0 =
     (let c = c0\<lparr>inits := inits c0 - 1\<rparr>
      in case resp of
           Throws \<Rightarrow> c
         | NotOk _ \<Rightarrow> c
         | Ok (fs, ver) \<Rightarrow>
             let c = c\<lparr>cflags := bootstrap_flags fs\<rparr>;
                 c = (case ver of Some v \<Rightarrow> c\<lparr>configVersion := v\<rparr> | None \<Rightarrow> c);
                 c = connectSSE c
             in (case refreshInterval c of
                   Some i \<Rightarrow>
                     if i = 0 then c
                     else c\<lparr>refreshTimer := Some (nextTimer c), timers := nextTimer c # timers c,
                             nextTimer := Suc (nextTimer c)\<rparr>
                 | None \<Rightarrow> c))"

section \<open>The SDK decides what the evaluator explains\<close>

text \<open>C11: For a client whose flags are stored under their own keys, \<^verbatim>\<open>isEnabled\<close> is the verdict of
  the traced evaluator on the flag it holds, for every key and user, the missing flag included.\<close>

theorem isEnabled_is_evaluate:
  assumes "\<forall>f. map_get (cflags c) k = Some f \<longrightarrow> key f = k"
  shows "isEnabled k u c = t_on (evaluate (map_get (cflags c) k) u)"
  using assms
  by (cases "map_get (cflags c) k") (auto simp: isEnabled_def evaluate_on isInRollout_bucket)

definition sample_flag :: "jsstring FlagConfig" where
  "sample_flag = \<lparr>key = js ''beta'', enabled = True, rollout_percentage = 50, targeted_users = [js ''alice''],
     flag_id = js ''1'', description = [], version = 1\<rparr>"

theorem isEnabled_is_evaluate_witness:
  "isEnabled (js ''beta'') (js ''bob'') ((constructor None)\<lparr>cflags := [(js ''beta'', sample_flag)]\<rparr>) =
   t_on (evaluate (Some sample_flag) (js ''bob''))"
  using isEnabled_is_evaluate [of "(constructor None)\<lparr>cflags := [(js ''beta'', sample_flag)]\<rparr>" "js ''beta''" "js ''bob''"]
  by (simp add: sample_flag_def)

end
