(* ===== verification/SdkMachine.thy ===== *)
theory SdkMachine
  imports SdkClient
begin

text \<open>
  The runs of the browser SDK: which inputs the page, the browser and the network can
  give it and when, the states that are reachable, and what holds in all of them. A
  stream delivers frames only while it is open, a response arrives only for a request
  that was sent; everything else is free, so every interleaving of the asynchronous
  parts is a run.
\<close>

datatype 's input =
    Init
  | BootstrapResp "('s FlagConfig list \<times> int option) response"
  | Disconnect
  | Reconnect
  | Destroy
  | StreamOpen nat
  | StreamUpdated nat jsstring "'s FlagConfig"
  | StreamDeleted nat jsstring 's
  | StreamError nat bool
  | TimerTick nat
  | EventsResp "'s FlagEvent list response"
  | Subscribe nat
  | Unsubscribe nat
  | SubscribeStatus nat
  | UnsubscribeStatus nat

definition possible :: "'s input \<Rightarrow> 's client \<Rightarrow> bool" where
  "possible i c =
     (case i of
        BootstrapResp _ \<Rightarrow> inits c > 0
      | StreamOpen es \<Rightarrow> es \<in> set (streams c)
      | StreamUpdated es _ _ \<Rightarrow> es \<in> set (streams c)
      | StreamDeleted es _ _ \<Rightarrow> es \<in> set (streams c)
      | StreamError es _ \<Rightarrow> es \<in> set (streams c)
      | TimerTick t \<Rightarrow> t \<in> set (timers c)
      | EventsResp _ \<Rightarrow> rframe c \<noteq> None
      | _ \<Rightarrow> True)"

text \<open>
  One input. When the browser gives a stream up (\<^verbatim>\<open>readyState\<close> is \<^verbatim>\<open>CLOSED\<close>) it is no
  longer open; the handler runs after that.
\<close>

fun handle :: "'s input \<Rightarrow> 's client \<Rightarrow> 's client" where
  "handle Init c = init c"
| "handle (BootstrapResp r) c = bootstrap_response r c"
| "handle Disconnect c = disconnect c"
| "handle Reconnect c = reconnect c"
| "handle Destroy c = destroy c"
| "handle (StreamOpen es) c = reconcile c"
| "handle (StreamUpdated es i f) c = on_flag_updated i f c"
| "handle (StreamDeleted es i k) c = on_flag_deleted i k c"
| "handle (StreamError es closed) c =
     on_error es closed (if closed then c\<lparr>streams := removeAll es (streams c)\<rparr> else c)"
| "handle (TimerTick t) c = reconcile c"
| "handle (EventsResp r) c = reconcile_response r c"
| "handle (Subscribe l) c = onUpdate l c"
| "handle (Unsubscribe l) c = offUpdate l c"
| "handle (SubscribeStatus l) c = onStatus l c"
| "handle (UnsubscribeStatus l) c = offStatus l c"

inductive sdk_step :: "'s client \<Rightarrow> 's input \<Rightarrow> 's client \<Rightarrow> bool" where
  sdk_stepI: "possible i c \<Longrightarrow> sdk_step c i (handle i c)"

inductive_simps sdk_step_iff: "sdk_step c i c'"

inductive sdk_reach :: "'s client \<Rightarrow> bool" where
  sdk_start: "sdk_reach (constructor interval)"
| sdk_next: "sdk_reach c \<Longrightarrow> sdk_step c i c' \<Longrightarrow> sdk_reach c'"

fun sdk_run :: "'s client \<Rightarrow> 's input list \<Rightarrow> 's client option" where
  "sdk_run c [] = Some c"
| "sdk_run c (i # is) = (if possible i c then sdk_run (handle i c) is else None)"

lemma sdk_run_reach: "sdk_reach c \<Longrightarrow> sdk_run c is = Some c' \<Longrightarrow> sdk_reach c'"
  by (induction "is" arbitrary: c) (auto split: if_splits intro: sdk_next sdk_stepI)

section \<open>Field by field: what each operation changes\<close>

lemma setStatus_sel [simp, status_simps]:
  "status (setStatus st c) = st" "cflags (setStatus st c) = cflags c"
  "eventSource (setStatus st c) = eventSource c" "configVersion (setStatus st c) = configVersion c"
  "reconciling (setStatus st c) = reconciling c" "manuallyClosed (setStatus st c) = manuallyClosed c"
  "streams (setStatus st c) = streams c" "nextStream (setStatus st c) = nextStream c"
  "rframe (setStatus st c) = rframe c" "inits (setStatus st c) = inits c"
  "listeners (setStatus st c) = listeners c" "statusListeners (setStatus st c) = statusListeners c"
  "refreshTimer (setStatus st c) = refreshTimer c" "timers (setStatus st c) = timers c"
  "nextTimer (setStatus st c) = nextTimer c" "refreshInterval (setStatus st c) = refreshInterval c"
  by (simp_all add: setStatus_def)

lemma notifyListeners_sel [simp, status_simps]:
  "status (notifyListeners c) = status c" "cflags (notifyListeners c) = cflags c"
  "eventSource (notifyListeners c) = eventSource c" "configVersion (notifyListeners c) = configVersion c"
  "reconciling (notifyListeners c) = reconciling c" "manuallyClosed (notifyListeners c) = manuallyClosed c"
  "streams (notifyListeners c) = streams c" "nextStream (notifyListeners c) = nextStream c"
  "rframe (notifyListeners c) = rframe c" "inits (notifyListeners c) = inits c"
  "listeners (notifyListeners c) = listeners c" "statusListeners (notifyListeners c) = statusListeners c"
  "refreshTimer (notifyListeners c) = refreshTimer c" "timers (notifyListeners c) = timers c"
  "nextTimer (notifyListeners c) = nextTimer c" "refreshInterval (notifyListeners c) = refreshInterval c"
  by (simp_all add: notifyListeners_def)

lemma closeStream_sel [simp]:
  "status (closeStream c) = status c" "cflags (closeStream c) = cflags c"
  "eventSource (closeStream c) = None" "configVersion (closeStream c) = configVersion c"
  "reconciling (closeStream c) = reconciling c" "manuallyClosed (closeStream c) = manuallyClosed c"
  "nextStream (closeStream c) = nextStream c" "rframe (closeStream c) = rframe c"
  "inits (closeStream c) = inits c" "listeners (closeStream c) = listeners c"
  "statusListeners (closeStream c) = statusListeners c" "refreshTimer (closeStream c) = refreshTimer c"
  "timers (closeStream c) = timers c" "nextTimer (closeStream c) = nextTimer c"
  "refreshInterval (closeStream c) = refreshInterval c"
  "set (streams (closeStream c)) = set (streams c) - set_option (eventSource c)"
  by (auto simp: closeStream_def split: option.split)

lemma connectSSE_sel [simp]:
  "status (connectSSE c) = status c" "cflags (connectSSE c) = cflags c"
  "configVersion (connectSSE c) = configVersion c" "eventSource (connectSSE c) = Some (nextStream c)"
  "reconciling (connectSSE c) = reconciling c" "manuallyClosed (connectSSE c) = manuallyClosed c"
  "nextStream (connectSSE c) = Suc (nextStream c)" "rframe (connectSSE c) = rframe c"
  "inits (connectSSE c) = inits c" "listeners (connectSSE c) = listeners c"
  "statusListeners (connectSSE c) = statusListeners c" "refreshTimer (connectSSE c) = refreshTimer c"
  "timers (connectSSE c) = timers c" "nextTimer (connectSSE c) = nextTimer c"
  "refreshInterval (connectSSE c) = refreshInterval c"
  "set (streams (connectSSE c)) = insert (nextStream c) (set (streams c) - set_option (eventSource c))"
  by (auto simp: connectSSE_def Let_def)

section \<open>A page of the backlog\<close>

text \<open>The events of a page that are newer than what was applied before them.\<close>

fun applied :: "int \<Rightarrow> 's FlagEvent list \<Rightarrow> 's FlagEvent list" where
  "applied v [] = []"
| "applied v (e # es) = (if ev_version e \<le> v then applied v es else e # applied (ev_version e) es)"

definition last_version :: "int \<Rightarrow> 's FlagEvent list \<Rightarrow> int" where
  "last_version v es = (if es = [] then v else ev_version (last es))"

abbreviation replay :: "('s, 's FlagConfig) jsmap \<Rightarrow> 's FlagEvent list \<Rightarrow> ('s, 's FlagConfig) jsmap" where
  "replay m es \<equiv> foldl (apply_change map_set map_delete) m (map event_change es)"

lemma reconcile_event_new:
  "configVersion c < ev_version e \<Longrightarrow>
   reconcile_event (c, a) e = (c\<lparr>cflags := replay (cflags c) [e], configVersion := ev_version e\<rparr>, True)"
  by (simp add: reconcile_event_def event_change_def split: option.split)

lemma reconcile_event_old:
  "ev_version e \<le> configVersion c \<Longrightarrow> reconcile_event (c, a) e = (c, a)"
  by (simp add: reconcile_event_def)

lemma last_version_Cons: "last_version v (e # es) = last_version (ev_version e) es"
  by (simp add: last_version_def)

lemma foldl_reconcile_event:
  "foldl reconcile_event (c, a) evs =
     (c\<lparr>cflags := replay (cflags c) (applied (configVersion c) evs),
        configVersion := last_version (configVersion c) (applied (configVersion c) evs)\<rparr>,
      a \<or> applied (configVersion c) evs \<noteq> [])"
proof (induction evs arbitrary: c a)
  case Nil
  then show ?case by (simp add: last_version_def)
next
  case (Cons e es)
  show ?case
  proof (cases "ev_version e \<le> configVersion c")
    case True
    then show ?thesis by (simp add: reconcile_event_old Cons.IH)
  next
    case False
    then show ?thesis by (simp add: reconcile_event_new Cons.IH last_version_Cons)
  qed
qed

lemma reconcile_page_eq:
  "reconcile_page evs c =
     (c\<lparr>cflags := replay (cflags c) (applied (configVersion c) evs),
        configVersion := last_version (configVersion c) (applied (configVersion c) evs)\<rparr>,
      applied (configVersion c) evs \<noteq> [])"
  by (simp add: reconcile_page_def foldl_reconcile_event)

lemma applied_greater: "e \<in> set (applied v es) \<Longrightarrow> v < ev_version e"
  by (induction v es rule: applied.induct) (force split: if_splits)+

lemma last_version_mono: "v \<le> last_version v (applied v es)"
  using applied_greater [of "last (applied v es)" v es] by (fastforce simp: last_version_def)

lemma last_version_same: "last_version v (applied v es) = v \<longleftrightarrow> applied v es = []"
  using applied_greater [of "last (applied v es)" v es] by (force simp: last_version_def)

lemma applied_sorted:
  "sorted_wrt (<) (map ev_version es) \<Longrightarrow> \<forall>e \<in> set es. v < ev_version e \<Longrightarrow> applied v es = es"
  by (induction es arbitrary: v) auto

lemma map_wf_replay [simp]: "map_wf m \<Longrightarrow> map_wf (replay m es)"
  by (induction es rule: rev_induct) (auto simp: event_change_def split: option.splits)

section \<open>The invariant of the client\<close>

definition client_inv :: "'s client \<Rightarrow> bool" where
  "client_inv c \<longleftrightarrow>
     set (streams c) \<subseteq> set_option (eventSource c) \<and> distinct (streams c) \<and>
     (\<forall>es. eventSource c = Some es \<longrightarrow> es < nextStream c) \<and>
     (reconciling c \<longleftrightarrow> rframe c \<noteq> None) \<and>
     (status c = Reconciling \<longrightarrow> reconciling c) \<and>
     (\<forall>fr. rframe c = Some fr \<longrightarrow> prevStatus fr \<noteq> Reconciling) \<and>
     map_wf (cflags c)"

lemmas sync_defs = init_def disconnect_def reconnect_def destroy_def onUpdate_def offUpdate_def
  onStatus_def offStatus_def on_error_def closeStreamIfClosed_def

lemmas async_defs = reconcile_def reconcile_return_def reconcile_done_def applyEvent_def
  on_flag_updated_def on_flag_deleted_def

lemma streams_closed [simp]: "client_inv c \<Longrightarrow> streams (closeStream c) = []"
proof -
  assume "client_inv c"
  then have "set (streams (closeStream c)) = {}"
    by (simp only: closeStream_sel client_inv_def Diff_eq_empty_iff)
  then show "streams (closeStream c) = []" by (simp only: set_empty)
qed

lemma client_inv_closeStream: "client_inv c \<Longrightarrow> client_inv (closeStream c)"
  using streams_closed [of c] by (auto simp: client_inv_def)

lemma client_inv_connectSSE: "client_inv c \<Longrightarrow> client_inv (connectSSE c)"
  using streams_closed [of c] by (auto simp: client_inv_def connectSSE_def Let_def)

lemma client_inv_setStatus: "client_inv c \<Longrightarrow> st \<noteq> Reconciling \<Longrightarrow> client_inv (setStatus st c)"
  by (simp add: client_inv_def)

lemma client_inv_frame [simp]:
  "client_inv (c\<lparr>manuallyClosed := b\<rparr>) = client_inv c"
  "client_inv (c\<lparr>listeners := ls\<rparr>) = client_inv c"
  "client_inv (c\<lparr>statusListeners := ls\<rparr>) = client_inv c"
  "client_inv (c\<lparr>inits := n\<rparr>) = client_inv c"
  "client_inv (c\<lparr>timers := ts\<rparr>) = client_inv c"
  "client_inv (c\<lparr>refreshTimer := t\<rparr>) = client_inv c"
  "client_inv (c\<lparr>nextTimer := k\<rparr>) = client_inv c"
  "client_inv (c\<lparr>configVersion := v\<rparr>) = client_inv c"
  "client_inv (notifyListeners c) = client_inv c"
  by (simp_all add: client_inv_def)

lemma client_inv_flags: "client_inv c \<Longrightarrow> map_wf m \<Longrightarrow> client_inv (c\<lparr>cflags := m\<rparr>)"
  by (auto simp: client_inv_def)

lemma client_inv_reconcile: "client_inv c \<Longrightarrow> client_inv (reconcile c)"
  by (auto simp: client_inv_def reconcile_def Let_def)

lemma client_inv_return:
  "client_inv c \<Longrightarrow> status c \<noteq> Reconciling \<Longrightarrow> client_inv (reconcile_return c)"
  by (simp add: client_inv_def reconcile_return_def)

lemma client_inv_done: "client_inv c \<Longrightarrow> client_inv (reconcile_done ch c)"
  by (auto simp: reconcile_done_def Let_def intro!: client_inv_return client_inv_setStatus)

lemma client_inv_page: "client_inv c \<Longrightarrow> client_inv (fst (reconcile_page evs c))"
proof -
  assume "client_inv c"
  moreover from this have "map_wf (cflags c)" by (simp add: client_inv_def)
  ultimately show ?thesis by (simp add: reconcile_page_eq client_inv_flags)
qed

lemma client_inv_rframe:
  assumes "client_inv c" "reconciling c" "prevStatus fr \<noteq> Reconciling"
  shows "client_inv (c\<lparr>rframe := Some fr\<rparr>)"
  using assms by (simp add: client_inv_def)

lemma reconcile_page_keeps [simp]:
  "reconciling (fst (reconcile_page evs c)) = reconciling c"
  "rframe (fst (reconcile_page evs c)) = rframe c"
  "status (fst (reconcile_page evs c)) = status c"
  by (simp_all add: reconcile_page_eq)

lemma client_inv_response:
  assumes "client_inv c"
  shows "client_inv (reconcile_response resp c)"
proof (cases "rframe c")
  case None
  with assms show ?thesis by (simp add: reconcile_response_def)
next
  case (Some fr)
  then have fr: "reconciling c" "prevStatus fr \<noteq> Reconciling"
    using assms by (auto simp: client_inv_def)
  show ?thesis
  proof (cases resp)
    case (Ok evs)
    show ?thesis
      using Some Ok assms fr client_inv_page [OF assms, of evs]
      by (auto simp: reconcile_response_def case_prod_beta Let_def client_inv_done
          intro!: client_inv_rframe)
  qed (use Some assms fr in \<open>auto simp: reconcile_response_def
      intro!: client_inv_return client_inv_setStatus\<close>)
qed

lemma client_inv_applyEvent:
  assumes "client_inv c" "\<And>m. map_wf m \<Longrightarrow> map_wf (mutate m)"
  shows "client_inv (applyEvent v mutate c)"
proof -
  have "map_wf (cflags c)" using assms(1) by (simp add: client_inv_def)
  then show ?thesis
    using assms by (auto simp: applyEvent_def intro!: client_inv_setStatus client_inv_flags client_inv_reconcile)
qed

lemma map_wf_bootstrap [simp]: "map_wf (bootstrap_flags fs)"
proof -
  have "map_wf (foldl (\<lambda>m f. map_set (key f) f m) m fs)" if "map_wf m" for m
    using that by (induction fs arbitrary: m) simp_all
  then show ?thesis by (simp add: bootstrap_flags_def)
qed

lemma client_inv_bootstrap: "client_inv c \<Longrightarrow> client_inv (bootstrap_response r c)"
  by (auto simp: bootstrap_response_def Let_def intro!: client_inv_connectSSE client_inv_flags
      split: response.split option.split)

lemma client_inv_error:
  assumes "client_inv c"
  shows "client_inv (handle (StreamError es closed) c)"
proof -
  have "client_inv (c\<lparr>streams := removeAll es (streams c)\<rparr>)"
    using assms by (auto simp: client_inv_def distinct_removeAll)
  moreover have "eventSource c = Some es \<Longrightarrow>
      client_inv (c\<lparr>streams := removeAll es (streams c), eventSource := None\<rparr>)"
    using assms by (auto simp: client_inv_def distinct_removeAll)
  ultimately show ?thesis
    using assms by (auto simp: on_error_def closeStreamIfClosed_def intro!: client_inv_setStatus)
qed

lemma client_inv_handle: "client_inv c \<Longrightarrow> client_inv (handle i c)"
proof (cases i)
  case (StreamError es closed)
  assume "client_inv c"
  then show ?thesis unfolding StreamError by (rule client_inv_error)
qed (auto simp: init_def disconnect_def reconnect_def destroy_def Let_def onUpdate_def offUpdate_def
    onStatus_def offStatus_def on_flag_updated_def on_flag_deleted_def
    intro!: client_inv_setStatus client_inv_closeStream client_inv_connectSSE client_inv_reconcile
      client_inv_response client_inv_bootstrap client_inv_applyEvent split: option.split)

lemma client_inv_reach: "sdk_reach c \<Longrightarrow> client_inv c"
proof (induction rule: sdk_reach.induct)
  case (sdk_start interval)
  show ?case by (simp add: client_inv_def constructor_def)
next
  case (sdk_next c i c')
  then show ?case by (auto simp: sdk_step_iff client_inv_handle)
qed

section \<open>The client never goes back\<close>

lemma configVersion_ops [simp]:
  "configVersion (reconcile c) = configVersion c"
  "configVersion (reconcile_done ch c) = configVersion c"
  "configVersion (reconcile_return c) = configVersion c"
  "cflags (reconcile c) = cflags c"
  "cflags (reconcile_done ch c) = cflags c"
  "cflags (reconcile_return c) = cflags c"
  by (simp_all add: reconcile_def reconcile_done_def reconcile_return_def Let_def)

lemma applyEvent_cases:
  "configVersion (applyEvent v mutate c) = (if v = configVersion c + 1 then v else configVersion c)"
  "cflags (applyEvent v mutate c) = (if v = configVersion c + 1 then mutate (cflags c) else cflags c)"
  by (simp_all add: applyEvent_def)

lemma response_version:
  "configVersion (reconcile_response r c) =
     (case rframe c of None \<Rightarrow> configVersion c | Some fr \<Rightarrow>
        (case r of Ok evs \<Rightarrow> configVersion (fst (reconcile_page evs c)) | _ \<Rightarrow> configVersion c))"
  by (auto simp: reconcile_response_def case_prod_beta Let_def reconcile_page_def
      split: option.split response.split)

lemma response_flags:
  "cflags (reconcile_response r c) =
     (case rframe c of None \<Rightarrow> cflags c | Some fr \<Rightarrow>
        (case r of Ok evs \<Rightarrow> cflags (fst (reconcile_page evs c)) | _ \<Rightarrow> cflags c))"
  by (auto simp: reconcile_response_def case_prod_beta Let_def reconcile_page_def
      split: option.split response.split)

fun is_bootstrap :: "'s input \<Rightarrow> bool" where
  "is_bootstrap (BootstrapResp r) = True"
| "is_bootstrap i = False"

lemma handle_version_mono:
  "\<not> is_bootstrap i \<Longrightarrow> configVersion c \<le> configVersion (handle i c)"
  by (cases i) (auto simp: init_def disconnect_def reconnect_def destroy_def Let_def onUpdate_def
      offUpdate_def onStatus_def offStatus_def on_flag_updated_def on_flag_deleted_def on_error_def
      closeStreamIfClosed_def applyEvent_cases response_version reconcile_page_eq last_version_mono
      split: option.split response.split)

lemma handle_flags_same_version:
  "\<not> is_bootstrap i \<Longrightarrow> configVersion (handle i c) = configVersion c \<Longrightarrow> cflags (handle i c) = cflags c"
  by (cases i) (auto simp: init_def disconnect_def reconnect_def destroy_def Let_def onUpdate_def
      offUpdate_def onStatus_def offStatus_def on_flag_updated_def on_flag_deleted_def on_error_def
      closeStreamIfClosed_def applyEvent_cases response_version response_flags reconcile_page_eq
      last_version_same split: option.splits response.splits if_splits)

section \<open>Properties of the client\<close>

text \<open>C15: In every reachable state the client has at most one stream open, and it is the one
  it holds; a reconcile is running exactly when one is waiting for a response, so two never
  overlap; and every flag key occurs once.\<close>

theorem sdk_one_stream_one_reconcile:
  assumes "sdk_reach c"
  shows "length (streams c) \<le> 1 \<and> set (streams c) \<subseteq> set_option (eventSource c) \<and>
         (reconciling c \<longleftrightarrow> rframe c \<noteq> None) \<and> (status c = Reconciling \<longrightarrow> reconciling c) \<and>
         distinct (map fst (cflags c))"
proof -
  have inv: "client_inv c" using assms by (rule client_inv_reach)
  have "length (streams c) = card (set (streams c))"
    using inv by (simp add: client_inv_def distinct_card)
  also have "\<dots> \<le> card (set_option (eventSource c))"
    using inv by (intro card_mono) (simp_all add: client_inv_def)
  also have "\<dots> \<le> 1" by (cases "eventSource c") simp_all
  finally show ?thesis using inv by (auto simp: client_inv_def map_wf_def)
qed

definition sample_sdk :: "nat client" where
  "sample_sdk = reconcile (bootstrap_response (Ok ([], Some 3)) (init (constructor None)))"

lemma sample_sdk_reach: "sdk_reach sample_sdk"
proof (rule sdk_run_reach [OF sdk_start])
  show "sdk_run (constructor None) [Init, BootstrapResp (Ok ([], Some 3)), StreamOpen 0] = Some sample_sdk"
    by (simp add: sample_sdk_def possible_def init_def setStatus_def constructor_def bootstrap_response_def
        connectSSE_def closeStream_def Let_def)
qed

lemma sample_sdk_frame: "rframe sample_sdk = Some \<lparr>prevStatus = Connecting, changed = False, guard = 0\<rparr>"
  by (simp add: sample_sdk_def reconcile_def init_def setStatus_def constructor_def
      bootstrap_response_def connectSSE_def closeStream_def Let_def)

theorem sdk_one_stream_one_reconcile_witness:
  "length (streams sample_sdk) \<le> 1 \<and> (reconciling sample_sdk \<longleftrightarrow> rframe sample_sdk \<noteq> None)"
  using sdk_one_stream_one_reconcile [OF sample_sdk_reach] by simp

text \<open>C16: Apart from a new bootstrap, no input ever moves the client's version back, and an
  input that leaves the version alone leaves the flags alone: nothing is applied that is
  not newer than what the client has.\<close>

theorem sdk_never_goes_back:
  assumes "sdk_step c i c'" "\<not> is_bootstrap i"
  shows "configVersion c \<le> configVersion c' \<and> (configVersion c' = configVersion c \<longrightarrow> cflags c' = cflags c)"
  using assms handle_version_mono [of i c] handle_flags_same_version [of i c] by (auto simp: sdk_step_iff)

theorem sdk_never_goes_back_witness:
  "configVersion sample_sdk \<le> configVersion (handle (EventsResp (Ok [])) sample_sdk)"
proof -
  have "sdk_step sample_sdk (EventsResp (Ok [])) (handle (EventsResp (Ok [])) sample_sdk)"
    by (rule sdk_stepI)
      (simp add: possible_def sample_sdk_def reconcile_def init_def setStatus_def constructor_def
        bootstrap_response_def connectSSE_def closeStream_def Let_def)
  then show ?thesis using sdk_never_goes_back [of sample_sdk "EventsResp (Ok [])"] by simp
qed

text \<open>A frame that carries its version is applied at most once: handling it a second time
  changes nothing at all, whether it was applied, ignored as stale, or started a reconcile.\<close>

theorem sdk_duplicate_frame:
  "handle (StreamUpdated es (js_num v) f) (handle (StreamUpdated es (js_num v) f) c) =
     handle (StreamUpdated es (js_num v) f) c \<and>
   handle (StreamDeleted es (js_num v) k) (handle (StreamDeleted es (js_num v) k) c) =
     handle (StreamDeleted es (js_num v) k) c"
  by (simp add: on_flag_updated_def on_flag_deleted_def eventVersion_def applyEvent_def reconcile_def Let_def)

lemma reconcile_response_frame:
  assumes "rframe c = Some fr"
  shows "rframe (reconcile_response r c) = None \<and> \<not> reconciling (reconcile_response r c) \<or>
         (\<exists>fr'. rframe (reconcile_response r c) = Some fr' \<and> guard fr' = Suc (guard fr) \<and> Suc (guard fr) < 10000)"
proof (cases r)
  case (Ok evs)
  then show ?thesis
    using assms by (auto simp: reconcile_response_def reconcile_done_def reconcile_return_def case_prod_beta Let_def)
qed (use assms in \<open>simp_all add: reconcile_response_def reconcile_return_def\<close>)

lemma no_frame_ignores:
  "rframe c = None \<Longrightarrow> foldl (\<lambda>c r. reconcile_response r c) c rs = c"
  by (induction rs) (simp_all add: reconcile_response_def)

text \<open>C14: A reconcile ends whatever the server answers: after at most 10000 responses, of any
  kind and with any events, none is pending and the client can reconcile again.\<close>

theorem sdk_reconcile_terminates:
  assumes "rframe c = Some fr" "10000 \<le> guard fr + length rs" "rs \<noteq> []"
  defines "c' \<equiv> foldl (\<lambda>c r. handle (EventsResp r) c) c rs"
  shows "rframe c' = None \<and> \<not> reconciling c'"
  unfolding c'_def using assms(1-3)
proof (induction rs arbitrary: c fr)
  case (Cons r rs)
  consider "rframe (reconcile_response r c) = None \<and> \<not> reconciling (reconcile_response r c)"
    | fr' where "rframe (reconcile_response r c) = Some fr'" "guard fr' = Suc (guard fr)" "Suc (guard fr) < 10000"
    using reconcile_response_frame [OF Cons.prems(1)] by blast
  then show ?case
  proof cases
    case 1
    then show ?thesis by (simp add: no_frame_ignores)
  next
    case 2
    with Cons.prems(2) have "rs \<noteq> []" "10000 \<le> guard fr' + length rs" by auto
    then show ?thesis using Cons.IH [OF 2(1)] by simp
  qed
qed simp

theorem sdk_reconcile_terminates_witness:
  "rframe (foldl (\<lambda>c r. handle (EventsResp r) c) sample_sdk (replicate 10000 (Ok []))) = None"
  by (rule sdk_reconcile_terminates [OF sample_sdk_frame, THEN conjunct1]) simp_all



text \<open>Destroying a client while its bootstrap is in flight does not stop it: when the
  response arrives the client opens a stream again, with no owner left to close it.\<close>

theorem sdk_destroy_during_init_leaks:
  "streams (handle (BootstrapResp (Ok r)) (handle Destroy c)) \<noteq> []"
proof -
  obtain fs ver where r: "r = (fs, ver)" by (cases r)
  show ?thesis
    by (auto simp: r bootstrap_response_def connectSSE_def Let_def split: option.split)
qed

text \<open>A reconcile that is in flight when the caller disconnects still reports the client as
  live when its last page arrives, although the stream is closed.\<close>

theorem sdk_live_after_disconnect:
  assumes "rframe c = Some fr"
  shows "status (handle (EventsResp (Ok [])) (handle Disconnect c)) = Live \<and>
         eventSource (handle (EventsResp (Ok [])) (handle Disconnect c)) = None \<and>
         manuallyClosed (handle (EventsResp (Ok [])) (handle Disconnect c))"
  using assms
  by (simp add: disconnect_def reconcile_response_def reconcile_done_def reconcile_return_def Let_def)

theorem sdk_live_after_disconnect_witness:
  "status (handle (EventsResp (Ok [])) (handle Disconnect sample_sdk)) = Live"
  using sdk_live_after_disconnect [OF sample_sdk_frame] by blast

end
