(* ===== verification/Backlog.thy ===== *)
theory Backlog
  imports SdkMachine Service
begin

text \<open>
  The contract between the SDKs and the reconcile endpoint
  (\<^verbatim>\<open>GET /api/client/events?since=V\<close>): pages of a log that is ordered by version. The
  interface \<open>backlog\<close> states it; what a page does to a client that is in step with a
  prefix of the log is proved from the contract alone, and the repository is shown to
  keep it.
\<close>

section \<open>Prefixes of an ordered log\<close>

definition upto_version :: "int \<Rightarrow> 's FlagEvent list \<Rightarrow> 's FlagEvent list" where
  "upto_version v es = filter (\<lambda>e. ev_version e \<le> v) es"

definition after_version :: "int \<Rightarrow> 's FlagEvent list \<Rightarrow> 's FlagEvent list" where
  "after_version v es = filter (\<lambda>e. v < ev_version e) es"

abbreviation ordered :: "'s FlagEvent list \<Rightarrow> bool" where
  "ordered es \<equiv> sorted_wrt (<) (map ev_version es)"

lemma upto_after: "ordered es \<Longrightarrow> upto_version v es @ after_version v es = es"
proof (induction es)
  case (Cons e es)
  have "ev_version e \<le> v \<or> filter (\<lambda>e. ev_version e \<le> v) es = []"
    using Cons.prems by (auto simp: filter_empty_conv)
  then show ?case
    using Cons by (auto simp: upto_version_def after_version_def filter_id_conv filter_empty_conv)
qed (simp add: upto_version_def after_version_def)

lemma ordered_after: "ordered es \<Longrightarrow> ordered (after_version v es)"
  by (simp add: after_version_def sorted_wrt_map sorted_wrt_filter)

lemma ordered_take: "ordered es \<Longrightarrow> ordered (take n es)"
  by (simp add: sorted_wrt_map sorted_wrt_take)

lemma applied_after: "ordered es \<Longrightarrow> applied v es = after_version v es"
proof (induction es arbitrary: v)
  case (Cons e es)
  show ?case
  proof (cases "ev_version e \<le> v")
    case True
    with Cons show ?thesis by (simp add: after_version_def)
  next
    case False
    have "after_version (ev_version e) es = es" "after_version v es = es"
      using Cons.prems False by (force simp: after_version_def filter_id_conv)+
    with Cons False show ?thesis by (simp add: after_version_def)
  qed
qed (simp add: after_version_def)

lemma ordered_last_greatest:
  "ordered es \<Longrightarrow> e \<in> set es \<Longrightarrow> ev_version e \<le> last_version v es"
  by (induction es rule: rev_induct) (auto simp: last_version_def sorted_wrt_append)

text \<open>
  Splitting an ordered log at the end of a segment: everything up to the last event of
  a prefix is exactly that prefix.
\<close>

lemma upto_last_prefix:
  assumes "ordered (xs @ ys)" "\<forall>e \<in> set xs. ev_version e \<le> w" "\<forall>e \<in> set ys. w < ev_version e"
  shows "upto_version w (xs @ ys) = xs"
  using assms(2,3) by (force simp: upto_version_def filter_id_conv filter_empty_conv)

lemma upto_segment:
  assumes "ordered es" "after_version v es = xs @ ys"
  shows "upto_version (last_version v xs) es = upto_version v es @ xs"
proof (cases "xs = []")
  case False
  let ?w = "last_version v xs"
  have es: "es = (upto_version v es @ xs) @ ys" using upto_after [OF assms(1), of v] assms(2) by simp
  have ox: "ordered xs" using assms(1) es by (metis map_append sorted_wrt_append)
  have "v < ?w"
  proof -
    have "last xs \<in> set (after_version v es)" using False assms(2) by simp
    then show ?thesis using False by (simp add: after_version_def last_version_def)
  qed
  then have "\<forall>e \<in> set (upto_version v es @ xs). ev_version e \<le> ?w"
    using ordered_last_greatest [OF ox, of _ v] by (fastforce simp: upto_version_def)
  moreover have "\<forall>e \<in> set ys. ?w < ev_version e"
  proof -
    have "ordered ((upto_version v es @ xs) @ ys)" using assms(1) es by metis
    then show ?thesis using last_in_set [OF False] False by (auto simp: sorted_wrt_append last_version_def)
  qed
  ultimately have "upto_version ?w ((upto_version v es @ xs) @ ys) = upto_version v es @ xs"
    using assms(1) es by (intro upto_last_prefix) simp_all
  with es show ?thesis by simp
qed (simp add: last_version_def)

lemma after_after: "v \<le> w \<Longrightarrow> after_version w (after_version v es) = after_version w es"
  by (auto simp: after_version_def intro!: filter_cong)

lemma after_take:
  assumes "ordered es"
  shows "\<exists>m. after_version w (take n es) = take m (after_version w es)"
proof -
  have "take n es = take n (upto_version w es) @ take (n - length (upto_version w es)) (after_version w es)"
    using upto_after [OF assms, of w] by (metis take_append)
  moreover have "after_version w (take k (upto_version w es)) = []" for k
    by (auto simp: after_version_def upto_version_def filter_empty_conv dest!: in_set_takeD)
  moreover have "after_version w (take k (after_version w es)) = take k (after_version w es)" for k
    by (auto simp: after_version_def filter_id_conv dest!: in_set_takeD)
  ultimately have "after_version w (take n es) = take (n - length (upto_version w es)) (after_version w es)"
    by (metis after_version_def append_Nil filter_append)
  then show ?thesis ..
qed

section \<open>The contract of the reconcile endpoint\<close>

locale backlog =
  fixes elog :: "'d \<Rightarrow> 's FlagEvent list"
    and fetch :: "int \<Rightarrow> 'd \<Rightarrow> 's FlagEvent list"
    and serving :: "'d \<Rightarrow> bool"
    and page_size :: nat
  assumes log_ordered: "serving d \<Longrightarrow> ordered (elog d)"
    and fetch_page: "serving d \<Longrightarrow> fetch v d = take page_size (after_version v (elog d))"
    and page_pos: "0 < page_size"
begin

lemma fetch_ordered: "serving d \<Longrightarrow> ordered (fetch v d)"
  by (simp add: fetch_page ordered_take ordered_after log_ordered)

lemma fetch_empty_iff: "serving d \<Longrightarrow> fetch v d = [] \<longleftrightarrow> after_version v (elog d) = []"
  using page_pos by (simp add: fetch_page)

text \<open>A page asked for at an older version still continues the prefix the client has.\<close>

lemma applied_page_segment:
  assumes "serving d" "since \<le> v"
  shows "\<exists>rest. after_version v (elog d) = applied v (fetch since d) @ rest"
proof -
  have o: "ordered (after_version since (elog d))"
    by (simp add: ordered_after log_ordered assms(1))
  have "applied v (fetch since d) = after_version v (take page_size (after_version since (elog d)))"
    using assms(1) by (simp add: fetch_page applied_after ordered_take o)
  then obtain m where "applied v (fetch since d) = take m (after_version v (elog d))"
    using after_take [OF o, of v page_size] assms(2) by (auto simp: after_after)
  then show ?thesis by (metis append_take_drop_id)
qed

lemma applied_page_prefix:
  assumes "serving d" "since \<le> v"
  shows "upto_version (last_version v (applied v (fetch since d))) (elog d) =
         upto_version v (elog d) @ applied v (fetch since d)"
  using applied_page_segment [OF assms] upto_segment [OF log_ordered [OF assms(1)]] by metis

lemma fetch_all_applied: "serving d \<Longrightarrow> applied v (fetch v d) = fetch v d"
  by (rule applied_sorted [OF fetch_ordered])
    (auto simp: fetch_page after_version_def dest!: in_set_takeD)

text \<open>Each page that is not the last shortens what is left by a full page.\<close>

lemma remaining_after_page:
  assumes "serving d"
  shows "after_version (last_version v (fetch v d)) (elog d) = drop page_size (after_version v (elog d))"
proof -
  let ?w = "last_version v (fetch v d)"
  have split: "after_version v (elog d) = fetch v d @ drop page_size (after_version v (elog d))"
    using assms by (simp add: fetch_page)
  have "upto_version ?w (elog d) = upto_version v (elog d) @ fetch v d"
    by (rule upto_segment [OF log_ordered [OF assms] split])
  then have "(upto_version v (elog d) @ fetch v d) @ after_version ?w (elog d) =
      (upto_version v (elog d) @ fetch v d) @ drop page_size (after_version v (elog d))"
    using upto_after [OF log_ordered [OF assms], of ?w] upto_after [OF log_ordered [OF assms], of v] split
    by (metis append.assoc)
  then show ?thesis by simp
qed

end

end
