(* ===== verification/Replica.thy ===== *)
theory Replica
  imports Backlog
begin

text \<open>
  What every client of the event log does, whatever map it keeps the flags in: it replays pages and
  single events on top of what it has. \<open>holds\<close> says that a lookup function gives the log's state
  at a version; the locale \<open>replica\<close> is a keyed store that flag events are replayed into, and it
  proves once that replaying keeps \<open>holds\<close>. It is interpreted on the browser's map and on Go's.
\<close>

section \<open>The repository serves the backlog\<close>

definition served_events :: "int \<Rightarrow> db \<Rightarrow> utext FlagEvent list" where
  "served_events since d = (case ListEventsSince since 0 d of Inr es \<Rightarrow> es | Inl _ \<Rightarrow> [])"

definition latest_version :: "db \<Rightarrow> int" where
  "latest_version d = last_version 0 (events d)"

lemma ListEventsSince_page:
  assumes "db_wf d" "up d"
  shows "ListEventsSince v 0 d = Inr (take 500 (after_version v (events d)))"
proof -
  have o: "ordered (events d)" using assms(1) by (simp add: db_wf_def versions_ok_def)
  have "sorted (map ev_version (filter (\<lambda>e. v < ev_version e) (events d)))"
    using ordered_after [OF o, of v] by (simp add: after_version_def strict_sorted_imp_sorted)
  then show ?thesis
    using assms(2) by (simp add: ListEventsSince_def after_version_def sort_key_sorted_id)
qed

interpretation repo: backlog events served_events "\<lambda>d. db_wf d \<and> up d" 500
proof
  show "ordered (events d)" if "db_wf d \<and> up d" for d
    using that by (simp add: db_wf_def versions_ok_def)
  show "served_events v d = take 500 (after_version v (events d))" if "db_wf d \<and> up d" for v d
    using that by (simp add: served_events_def ListEventsSince_page)
qed simp

lemma Max_last:
  assumes "ordered es" "es \<noteq> []"
  shows "Max (ev_version ` set es) = last_version 0 es"
proof (rule Max_eqI)
  show "last_version 0 es \<in> ev_version ` set es"
    using assms(2) by (simp add: last_version_def)
qed (use assms ordered_last_greatest in auto)

lemma GetLatestVersion_latest:
  "db_wf d \<Longrightarrow> up d \<Longrightarrow> GetLatestVersion d = Inr (latest_version d)"
  by (simp add: GetLatestVersion_def latest_version_def db_wf_def versions_ok_def Max_last)
    (simp add: last_version_def)

lemma latest_version_bounds:
  assumes "db_wf d"
  shows "0 \<le> latest_version d" "latest_version d \<le> seq d"
proof -
  have "events d = [] \<or> last (events d) \<in> set (events d)" using last_in_set by blast
  then show "0 \<le> latest_version d" "latest_version d \<le> seq d"
    using assms
    by (auto simp: latest_version_def last_version_def db_wf_def versions_ok_def less_imp_le)
qed

lemma upto_latest: "db_wf d \<Longrightarrow> latest_version d \<le> v \<Longrightarrow> upto_version v (events d) = events d"
  using ordered_last_greatest [of "events d" _ 0]
  by (fastforce simp: latest_version_def upto_version_def db_wf_def versions_ok_def filter_id_conv)

section \<open>Changes and the state of the log\<close>

lemma net_event_change:
  "net (map event_change es) k = map_option (map_option as_config) (net (map flag_change es) k)"
  by (induction es) (auto simp: event_change_def flag_change_def split: option.split)

lemma log_state_append:
  "log_state (xs @ ys) k = overlay (net (map flag_change ys) k) (log_state xs k)"
  by (simp add: log_state_def net_append split: option.split)

lemma extends_versions:
  assumes "db_wf d" "events d = events d0 @ new"
  shows "\<forall>e \<in> set new. latest_version d0 < ev_version e"
proof (cases "events d0 = []")
  case True
  with assms show ?thesis by (simp add: latest_version_def last_version_def db_wf_def versions_ok_def)
next
  case False
  then have "last (events d0) \<in> set (events d0)" by simp
  moreover have "ordered (events d0 @ new)" using assms by (simp add: db_wf_def versions_ok_def)
  ultimately show ?thesis
    using False by (auto simp: latest_version_def last_version_def sorted_wrt_append)
qed

lemma latest_version_mono:
  assumes "db_wf d" "extends d0 d"
  shows "latest_version d0 \<le> latest_version d"
proof -
  obtain new where new: "events d = events d0 @ new" using assms(2) by (auto simp: extends_def)
  show ?thesis
  proof (cases "new = []")
    case False
    then have "latest_version d0 < ev_version (last new)" using extends_versions [OF assms(1) new] by simp
    with new False show ?thesis by (simp add: latest_version_def last_version_def)
  qed (simp add: new latest_version_def)
qed

section \<open>Replicas of the log\<close>

definition holds :: "utext FlagEvent list \<Rightarrow> int \<Rightarrow> (utext \<Rightarrow> utext FlagConfig option) \<Rightarrow> bool" where
  "holds es v get \<longleftrightarrow> (\<forall>k. get k = map_option as_config (log_state (upto_version v es) k))"

lemma holds_grow:
  assumes "holds es v get" "\<forall>e \<in> set new. v < ev_version e"
  shows "holds (es @ new) v get"
proof -
  have "upto_version v new = []" using assms(2) by (auto simp: upto_version_def filter_empty_conv)
  then show ?thesis using assms(1) by (simp add: holds_def upto_version_def)
qed

lemma holds_later:
  assumes "holds (events d0) v get" "v \<le> latest_version d0" "db_wf d" "extends d0 d"
  shows "holds (events d) v get"
proof -
  obtain new where new: "events d = events d0 @ new" using assms(4) by (auto simp: extends_def)
  then show ?thesis
    using extends_versions [OF assms(3) new] assms(1,2) unfolding new by (intro holds_grow) force+
qed

lemma holds_same_version:
  "holds es v get \<Longrightarrow> holds es v get' \<Longrightarrow> get k = get' k"
  by (simp add: holds_def)

locale replica = kv_store kempty kget kset kdel
  for kempty :: "'m"
    and kget :: "'m \<Rightarrow> utext \<Rightarrow> utext FlagConfig option"
    and kset :: "utext \<Rightarrow> utext FlagConfig \<Rightarrow> 'm \<Rightarrow> 'm"
    and kdel :: "utext \<Rightarrow> 'm \<Rightarrow> 'm"
begin

abbreviation replayed :: "'m \<Rightarrow> utext FlagEvent list \<Rightarrow> 'm" where
  "replayed m es \<equiv> foldl (apply_change kset kdel) m (map event_change es)"

lemma get_replayed:
  assumes "\<forall>k. kget m k = map_option as_config (log_state xs k)"
  shows "kget (replayed m ys) k = map_option as_config (log_state (xs @ ys) k)"
  using assms by (simp add: get_replay net_event_change log_state_append split: option.split)

lemma holds_segment:
  assumes "holds es v (kget m)" "ordered es" "after_version v es = page @ rest"
  shows "holds es (last_version v page) (kget (replayed m page))"
  using assms get_replayed by (simp add: holds_def upto_segment)

text \<open>A page served by an earlier state of the database, asked for at this version or before.\<close>

lemma holds_page:
  assumes "holds (events d) v (kget m)" "db_wf d" "db_wf d0" "up d0" "extends d0 d" "since \<le> v"
  shows "holds (events d) (last_version v (applied v (served_events since d0)))
           (kget (replayed m (applied v (served_events since d0))))"
proof -
  obtain new where new: "events d = events d0 @ new" using assms(5) by (auto simp: extends_def)
  obtain rest where "after_version v (events d0) = applied v (served_events since d0) @ rest"
    using repo.applied_page_segment [of d0 since v] assms by auto
  then have "after_version v (events d) = applied v (served_events since d0) @ (rest @ after_version v new)"
    by (simp add: new after_version_def)
  moreover have "ordered (events d)" using assms(2) by (simp add: db_wf_def versions_ok_def)
  ultimately show ?thesis using assms(1) by (intro holds_segment)
qed

text \<open>The next event of the log.\<close>

lemma holds_next:
  assumes "holds es v (kget m)" "ordered es" "e \<in> set es" "ev_version e = v + 1"
  shows "holds es (v + 1) (kget (replayed m [e]))"
proof -
  obtain xs ys where es: "es = xs @ e # ys" using assms(3) by (meson split_list)
  have lt: "\<forall>x \<in> set xs. ev_version x < ev_version e" "\<forall>y \<in> set ys. ev_version e < ev_version y"
    using assms(2) es by (auto simp: sorted_wrt_append)
  then have "filter (\<lambda>e. v < ev_version e) xs = []" "filter (\<lambda>e. v < ev_version e) ys = ys"
    using assms(4) by (force simp: filter_empty_conv, force simp: filter_id_conv)
  then have "after_version v es = [e] @ ys" using assms(4) es by (simp add: after_version_def)
  from holds_segment [OF assms(1,2) this] show ?thesis by (simp add: last_version_def assms(4))
qed

end

interpretation jsreplica: replica "[]" map_get map_set map_delete
  by unfold_locales

interpretation goreplica: replica "Map.empty" "\<lambda>m. m" gomap_set gomap_delete
  by unfold_locales

end
