(* ===== verification/Convergence.thy ===== *)
theory Convergence
  imports Replica "HOL-Library.Multiset"
begin

text \<open>
  The browser SDK against the control plane. A client is \<^emph>\<open>in step\<close> with a log when its
  flags are exactly what the log says up to the client's config version. Writes, live
  frames (lost, repeated and reordered in any way), pages of the backlog and snapshots
  keep every client in step; a finished reconcile brings it to the latest version.
\<close>

section \<open>Being in step\<close>

definition in_step :: "utext FlagEvent list \<Rightarrow> utext client \<Rightarrow> bool" where
  "in_step es c \<longleftrightarrow>
     (\<forall>k. map_get (cflags c) k = map_option as_config (log_state (upto_version (configVersion c) es) k))"

lemma in_step_holds: "in_step es c \<longleftrightarrow> holds es (configVersion c) (map_get (cflags c))"
  by (simp add: in_step_def holds_def)

lemma replay_in_step:
  "\<forall>k. map_get m k = map_option as_config (log_state xs k) \<Longrightarrow>
     map_get (replay m ys) k = map_option as_config (log_state (xs @ ys) k)"
  by (rule jsreplica.get_replayed)

text \<open>
  A page keeps a client in step, also when an earlier state of the log served it and
  when it was asked for at an earlier version.
\<close>

lemma in_step_old_page:
  assumes "in_step (events d) c" "db_wf d" "db_wf d0" "up d0" "extends d0 d" "since \<le> configVersion c"
  shows "in_step (events d) (fst (reconcile_page (served_events since d0) c))"
  using jsreplica.holds_page [OF assms(1) [unfolded in_step_holds] assms(2-6)]
  by (simp add: in_step_holds reconcile_page_eq)

lemma in_step_live:
  assumes "in_step es c" "ordered es" "e \<in> set es" "ev_version e = configVersion c + 1"
    and "m = replay (cflags c) [e]"
  shows "in_step es (c\<lparr>cflags := m, configVersion := configVersion c + 1\<rparr>)"
  using jsreplica.holds_next [OF assms(1) [unfolded in_step_holds] assms(2-4)]
  by (simp add: in_step_holds assms(5))

lemma in_step_grow:
  assumes "in_step es c" "\<forall>e \<in> set new. configVersion c < ev_version e"
  shows "in_step (es @ new) c"
  using assms holds_grow by (simp add: in_step_holds)

lemma in_step_cong:
  "cflags c' = cflags c \<Longrightarrow> configVersion c' = configVersion c \<Longrightarrow> in_step es c' = in_step es c"
  by (simp add: in_step_def)

lemma bootstrap_flags_get:
  assumes "distinct (map key fs)"
  shows "map_get (bootstrap_flags fs) k = find (\<lambda>f. key f = k) fs"
proof -
  have "map_get (foldl (\<lambda>m f. map_set (key f) f m) m fs) k =
      (case find (\<lambda>f. key f = k) fs of Some f \<Rightarrow> Some f | None \<Rightarrow> map_get m k)" for m
    using assms
  proof (induction fs arbitrary: m)
    case (Cons f fs)
    then have "find (\<lambda>g. key g = key f) fs = None" by (simp add: find_None_key)
    then show ?case using Cons by (auto simp: map_get_set split: option.split)
  qed simp
  then show ?thesis by (simp add: bootstrap_flags_def split: option.split)
qed

lemma find_perm:
  assumes "distinct (map g xs)" "mset ys = mset xs"
  shows "find (\<lambda>x. g x = k) ys = find (\<lambda>x. g x = k) xs"
proof (rule option_eqI_iff)
  have "mset (map g ys) = mset (map g xs)" using assms(2) by simp
  then have "distinct (map g ys)" "set ys = set xs"
    using assms mset_eq_imp_distinct_iff mset_eq_setD by blast+
  with assms(1) show "find (\<lambda>x. g x = k) ys = Some x \<longleftrightarrow> find (\<lambda>x. g x = k) xs = Some x" for x
    by (simp add: find_distinct_iff)
qed

text \<open>The snapshot of one database state.\<close>

definition snapshot :: "db \<Rightarrow> utext FlagConfig list" where
  "snapshot d = (case List_flags d of Inr fs \<Rightarrow> map as_config fs | Inl _ \<Rightarrow> [])"

lemma find_map_key: "find (\<lambda>c. key c = k) (map as_config fs) = map_option as_config (find (\<lambda>f. key f = k) fs)"
  by (induction fs) auto

lemma snapshot_get:
  assumes "db_wf d" "up d"
  shows "map_get (bootstrap_flags (snapshot d)) k = map_option as_config (log_state (events d) k)"
proof -
  let ?fs = "sort_key (\<lambda>f. - created_at f) (rows d)"
  have d: "distinct (map key (rows d))" using assms(1) by (simp add: db_wf_def keys_ok_def)
  moreover have "mset (map key ?fs) = mset (map key (rows d))" by simp
  ultimately have "distinct (map key ?fs)" using mset_eq_imp_distinct_iff by blast
  then have "distinct (map key (map as_config ?fs))" by (simp add: comp_def)
  then have "map_get (bootstrap_flags (map as_config ?fs)) k = map_option as_config (find (\<lambda>f. key f = k) ?fs)"
    by (simp only: bootstrap_flags_get find_map_key)
  also have "\<dots> = map_option as_config (row_by_key d k)"
    using find_perm [OF d, of ?fs k] by (simp add: row_by_key_def)
  finally show ?thesis
    using assms by (simp add: snapshot_def List_flags_def db_wf_def)
qed

lemma in_step_snapshot:
  assumes "db_wf d0" "up d0" "db_wf d" "extends d0 d"
    and "cflags c = bootstrap_flags (snapshot d0)" "configVersion c = latest_version d0"
  shows "in_step (events d) c"
proof -
  obtain new where new: "events d = events d0 @ new" using assms(4) by (auto simp: extends_def)
  have "in_step (events d0) c"
    using assms(1,2,5,6) by (simp add: in_step_def snapshot_get upto_latest)
  then show ?thesis
    using extends_versions [OF assms(3) new] assms(6) by (simp add: new in_step_grow)
qed

end
