(* ===== verification/System.thy ===== *)
theory System
  imports Convergence
begin

text \<open>
  One browser SDK beside the control plane, with everything in between left free. Writes
  and outages happen at any time. A frame that reaches the client is some announcement
  that was published, in any order, any number of times, or never. A response is what
  the handler answers at some point of the server's past, whenever it arrives. The
  page follows the documented use: it awaits \<^verbatim>\<open>init\<close>, once, before it reconnects.

  In every reachable state the client's flags are what the log says up to the client's
  version. The bootstrap is taken from one state of the database here; theory
  \<open>Interleaving\<close> shows what happens when a write commits between its two queries.
\<close>

record sys =
  srv :: server
  hist :: "server list"
  sdk :: "utext client"
  asked :: "int option"
  booted :: bool

fun deliverable :: "sys \<Rightarrow> utext input \<Rightarrow> bool" where
  "deliverable y Init \<longleftrightarrow> inits (sdk y) = 0 \<and> \<not> booted y"
| "deliverable y Reconnect \<longleftrightarrow> booted y"
| "deliverable y (BootstrapResp (Ok (fs, ver))) \<longleftrightarrow>
     (\<exists>s0 \<in> set (hist y). \<exists>n. ver = Some n \<and> h_GetAllFlags s0 s0 = http 200 (BSnapshot fs n))"
| "deliverable y (StreamUpdated es i f) \<longleftrightarrow>
     (\<exists>v g. EnvUpdated v g \<in> set (bus (srv y)) \<and> i = js_num v \<and> f = as_config g)"
| "deliverable y (StreamDeleted es i k) \<longleftrightarrow>
     (\<exists>v. EnvDeleted v k \<in> set (bus (srv y)) \<and> i = js_num v)"
| "deliverable y (EventsResp (Ok page)) \<longleftrightarrow>
     (\<exists>since s0 s1 n. asked y = Some since \<and> s0 \<in> set (hist y) \<and> s1 \<in> set (hist y) \<and>
        h_Reconcile (js_num since) s0 s1 = http 200 (BBacklog page n))"
| "deliverable y i \<longleftrightarrow> True"

fun bootstraps :: "'s input \<Rightarrow> bool" where
  "bootstraps (BootstrapResp (Ok r)) = True"
| "bootstraps i = False"

text \<open>A new request is on its way exactly when the suspended \<^verbatim>\<open>reconcile\<close> is a new one.\<close>

definition client_input :: "utext input \<Rightarrow> sys \<Rightarrow> sys" where
  "client_input i y =
     (let c = sdk y; c' = handle i c
      in y\<lparr>sdk := c',
           asked := (if rframe c' = None then None
                     else if rframe c' = rframe c then asked y else Some (configVersion c')),
           booted := (booted y \<or> bootstraps i)\<rparr>)"

definition server_op :: "op \<Rightarrow> sys \<Rightarrow> sys" where
  "server_op w y = (let s = run_op w (srv y) in y\<lparr>srv := s, hist := s # hist y\<rparr>)"

inductive sys_step :: "sys \<Rightarrow> sys \<Rightarrow> bool" where
  sys_write: "sys_step y (server_op w y)"
| sys_client: "possible i (sdk y) \<Longrightarrow> deliverable y i \<Longrightarrow> sys_step y (client_input i y)"

definition sys_start :: "server \<Rightarrow> int option \<Rightarrow> sys" where
  "sys_start s interval = \<lparr>srv = s, hist = [s], sdk = constructor interval, asked = None, booted = False\<rparr>"

inductive sys_reach :: "sys \<Rightarrow> bool" where
  sys_init: "server_inv s \<Longrightarrow> sys_reach (sys_start s interval)"
| sys_next: "sys_reach y \<Longrightarrow> sys_step y y' \<Longrightarrow> sys_reach y'"

section \<open>The invariant\<close>

definition hist_ok :: "sys \<Rightarrow> bool" where
  "hist_ok y \<longleftrightarrow> server_inv (srv y) \<and>
     (\<forall>s0 \<in> set (hist y). server_inv s0 \<and> extends (sdb s0) (sdb (srv y)))"

definition unbooted_ok :: "sys \<Rightarrow> bool" where
  "unbooted_ok y \<longleftrightarrow>
     (if booted y then inits (sdk y) = 0
      else inits (sdk y) \<le> 1 \<and> streams (sdk y) = [] \<and> eventSource (sdk y) = None \<and> timers (sdk y) = [] \<and>
        rframe (sdk y) = None \<and> asked y = None)"

definition synced :: "sys \<Rightarrow> bool" where
  "synced y \<longleftrightarrow> in_step (events (sdb (srv y))) (sdk y) \<and>
     configVersion (sdk y) \<le> latest_version (sdb (srv y)) \<and>
     (\<forall>v. asked y = Some v \<longrightarrow> v \<le> configVersion (sdk y))"

lemma hist_ok_op: "hist_ok y \<Longrightarrow> hist_ok (server_op w y)"
  using run_op_extends [of "srv y" w] run_op_inv [of "srv y" w]
  by (auto simp: hist_ok_def server_op_def Let_def intro: extends_trans)

lemma synced_op:
  assumes "hist_ok y" "synced y"
  shows "synced (server_op w y)"
proof -
  let ?d = "sdb (srv y)" and ?d' = "sdb (run_op w (srv y))"
  have wf: "db_wf ?d'" using run_op_inv assms(1) by (simp add: hist_ok_def server_inv_def)
  obtain new where new: "events ?d' = events ?d @ new" using run_op_extends extends_def by blast
  then have "latest_version ?d \<le> latest_version ?d'"
    using latest_version_mono [OF wf] run_op_extends by blast
  moreover have "in_step (events ?d') (sdk y)"
    using assms(2) extends_versions [OF wf new] unfolding new synced_def by (intro in_step_grow) force+
  ultimately show ?thesis using assms(2) by (simp add: synced_def server_op_def Let_def)
qed

lemma unbooted_ok_op: "unbooted_ok y \<Longrightarrow> unbooted_ok (server_op w y)"
  by (auto simp: unbooted_ok_def server_op_def Let_def)

section \<open>What the client receives\<close>

lemma GetAllFlags_snapshot:
  assumes "server_inv s" "h_GetAllFlags s s = http 200 (BSnapshot fs n)"
  shows "up (sdb s)" "fs = snapshot (sdb s)" "n = latest_version (sdb s)"
proof -
  show "up (sdb s)" using assms(2) by (auto simp: h_GetAllFlags_def List_flags_def split: if_splits)
  then show "fs = snapshot (sdb s)" "n = latest_version (sdb s)"
    using assms GetLatestVersion_latest [of "sdb s"]
    by (auto simp: h_GetAllFlags_def snapshot_def server_inv_def split: sum.splits)
qed

lemma Reconcile_page:
  assumes "h_Reconcile (js_num since) s s1 = http 200 (BBacklog page n)"
  shows "up (sdb s)" "page = served_events since (sdb s)"
  using assms
  by (auto simp: h_Reconcile_def go_parse_int64_js_num served_events_def ListEventsSince_def Let_def
      split: if_splits option.splits sum.splits)

lemma live_frame:
  assumes "synced y" "hist_ok y" "e \<in> set (events (sdb (srv y)))" "mutate (cflags (sdk y)) = replay (cflags (sdk y)) [e]"
  shows "in_step (events (sdb (srv y))) (applyEvent (ev_version e) mutate (sdk y))"
    and "configVersion (applyEvent (ev_version e) mutate (sdk y)) \<le> latest_version (sdb (srv y))"
proof -
  have o: "ordered (events (sdb (srv y)))"
    using assms(2) by (simp add: hist_ok_def server_inv_def db_wf_def versions_ok_def)
  show "in_step (events (sdb (srv y))) (applyEvent (ev_version e) mutate (sdk y))"
  proof (cases "ev_version e = configVersion (sdk y) + 1")
    case True
    have "in_step (events (sdb (srv y)))
        ((sdk y)\<lparr>cflags := mutate (cflags (sdk y)), configVersion := configVersion (sdk y) + 1\<rparr>)"
      using assms True o by (intro in_step_live) (auto simp: synced_def)
    then show ?thesis by (rule in_step_cong [THEN iffD1, rotated 2]) (simp_all add: applyEvent_cases True)
  next
    case False
    have "in_step (events (sdb (srv y))) (sdk y)" using assms(1) by (simp add: synced_def)
    then show ?thesis by (rule in_step_cong [THEN iffD1, rotated 2]) (simp_all add: applyEvent_cases False)
  qed
  show "configVersion (applyEvent (ev_version e) mutate (sdk y)) \<le> latest_version (sdb (srv y))"
    using assms(1) ordered_last_greatest [OF o assms(3), of 0]
    by (simp add: applyEvent_cases synced_def latest_version_def)
qed

lemma page_arrives:
  assumes "synced y" "hist_ok y" "s0 \<in> set (hist y)" "asked y = Some since" "up (sdb s0)"
  defines "c' \<equiv> fst (reconcile_page (served_events since (sdb s0)) (sdk y))"
  shows "in_step (events (sdb (srv y))) c'" "configVersion c' \<le> latest_version (sdb (srv y))"
proof -
  let ?d = "sdb (srv y)" and ?v = "configVersion (sdk y)"
  have wf: "db_wf ?d" "db_wf (sdb s0)" "extends (sdb s0) ?d"
    using assms(2,3) by (auto simp: hist_ok_def server_inv_def)
  then show "in_step (events ?d) c'"
    using assms(1,4,5) unfolding c'_def by (intro in_step_old_page) (auto simp: synced_def)
  have "set (applied ?v (served_events since (sdb s0))) \<subseteq> set (events ?d)"
  proof -
    have "\<exists>rest. after_version ?v (events (sdb s0)) = applied ?v (served_events since (sdb s0)) @ rest"
      using wf assms(1,4,5) by (intro repo.applied_page_segment) (auto simp: synced_def)
    then have "set (applied ?v (served_events since (sdb s0))) \<subseteq> set (events (sdb s0))"
      by (metis after_version_def filter_is_subset le_sup_iff set_append subset_trans sup_ge1)
    then show ?thesis using wf(3) by (auto simp: extends_def)
  qed
  moreover have "ordered (events ?d)" using wf(1) by (simp add: db_wf_def versions_ok_def)
  ultimately show "configVersion c' \<le> latest_version ?d"
    using assms(1) ordered_last_greatest [of "events ?d" "last (applied ?v (served_events since (sdb s0)))" 0]
    unfolding c'_def reconcile_page_eq
    by (auto simp: last_version_def [of ?v] synced_def latest_version_def subset_iff)
qed

section \<open>Every input keeps the client in step\<close>

fun quiet :: "'s input \<Rightarrow> bool" where
  "quiet (BootstrapResp (Ok r)) = False"
| "quiet (StreamUpdated es i f) = False"
| "quiet (StreamDeleted es i k) = False"
| "quiet (EventsResp (Ok page)) = False"
| "quiet i = True"

lemma quiet_handle:
  assumes "quiet i"
  shows "cflags (handle i c) = cflags c \<and> configVersion (handle i c) = configVersion c"
proof (cases i)
  case (BootstrapResp r)
  with assms show ?thesis by (cases r) (simp_all add: bootstrap_response_def Let_def)
next
  case (EventsResp r)
  with assms show ?thesis by (cases r) (simp_all add: response_version response_flags split: option.split)
qed (use assms in \<open>simp_all add: sync_defs Let_def split: option.split\<close>)

lemma eventVersion_js_num [simp]: "eventVersion (js_num v) c = v"
  by (simp add: eventVersion_def)

definition sync_at :: "sys \<Rightarrow> utext client \<Rightarrow> bool" where
  "sync_at y c \<longleftrightarrow> in_step (events (sdb (srv y))) c \<and> configVersion c \<le> latest_version (sdb (srv y))"

lemma sync_at_quiet: "synced y \<Longrightarrow> quiet i \<Longrightarrow> sync_at y (handle i (sdk y))"
  using quiet_handle [of i "sdk y"] in_step_cong [of "handle i (sdk y)" "sdk y"]
  by (simp only: sync_at_def synced_def)

lemma sync_at_bootstrap:
  assumes "hist_ok y" "deliverable y (BootstrapResp (Ok (fs, ver)))"
  shows "sync_at y (bootstrap_response (Ok (fs, ver)) c)"
proof -
  obtain s0 where s0: "s0 \<in> set (hist y)" "up (sdb s0)" "fs = snapshot (sdb s0)" "ver = Some (latest_version (sdb s0))"
    using assms GetAllFlags_snapshot by (auto simp: hist_ok_def)
  then have wf: "db_wf (sdb s0)" "db_wf (sdb (srv y))" "extends (sdb s0) (sdb (srv y))"
    using assms(1) by (auto simp: hist_ok_def server_inv_def)
  have "cflags (bootstrap_response (Ok (fs, ver)) c) = bootstrap_flags (snapshot (sdb s0))"
    "configVersion (bootstrap_response (Ok (fs, ver)) c) = latest_version (sdb s0)"
    by (simp_all add: s0 bootstrap_response_def Let_def split: option.split)
  then show ?thesis
    using in_step_snapshot [OF wf(1) s0(2) wf(2,3)] latest_version_mono [OF wf(2,3)] by (simp add: sync_at_def)
qed

lemma bus_logged: "hist_ok y \<Longrightarrow> env \<in> set (bus (srv y)) \<Longrightarrow> env_logged (sdb (srv y)) env"
  by (simp add: hist_ok_def server_inv_def)

lemma sync_at_updated:
  assumes "hist_ok y" "synced y" "deliverable y (StreamUpdated es i f)"
  shows "sync_at y (on_flag_updated i f (sdk y))"
proof -
  obtain v g where env: "EnvUpdated v g \<in> set (bus (srv y))" "i = js_num v" "f = as_config g"
    using assms(3) by auto
  obtain e where "e \<in> set (events (sdb (srv y)))" "ev_version e = v" "payload_flag (payload e) = Some g"
    "flag_key e = key g" using bus_logged [OF assms(1) env(1)] by (auto simp: env_logged_def)
  then show ?thesis
    using live_frame [OF assms(2,1), of e "map_set (key f) f"] env
    by (simp add: sync_at_def on_flag_updated_def event_change_def)
qed

lemma sync_at_deleted:
  assumes "hist_ok y" "synced y" "deliverable y (StreamDeleted es i k)"
  shows "sync_at y (on_flag_deleted i k (sdk y))"
proof -
  obtain v where env: "EnvDeleted v k \<in> set (bus (srv y))" "i = js_num v" using assms(3) by auto
  obtain e where "e \<in> set (events (sdb (srv y)))" "ev_version e = v" "payload_flag (payload e) = None"
    "flag_key e = k" using bus_logged [OF assms(1) env(1)] by (auto simp: env_logged_def)
  then show ?thesis
    using live_frame [OF assms(2,1), of e "map_delete k"] env
    by (simp add: sync_at_def on_flag_deleted_def event_change_def)
qed

lemma sync_at_page:
  assumes "hist_ok y" "synced y" "deliverable y (EventsResp (Ok page))"
  shows "sync_at y (reconcile_response (Ok page) (sdk y))"
proof -
  obtain since s0 where a: "asked y = Some since" "s0 \<in> set (hist y)" "up (sdb s0)" "page = served_events since (sdb s0)"
    using assms(3) Reconcile_page unfolding deliverable.simps by blast
  show ?thesis
  proof (cases "rframe (sdk y)")
    case None
    then show ?thesis using assms(2) by (simp add: sync_at_def synced_def reconcile_response_def)
  next
    case (Some fr)
    then show ?thesis
      using page_arrives [OF assms(2,1) a(2,1,3)]
      by (simp add: sync_at_def a(4) response_version response_flags in_step_def)
  qed
qed

lemma client_in_step:
  assumes "hist_ok y" "synced y" "deliverable y i"
  shows "sync_at y (handle i (sdk y))"
proof (cases "quiet i")
  case False
  then show ?thesis
    using assms
  proof (cases i rule: quiet.cases)
    case (1 r)
    with assms show ?thesis using sync_at_bootstrap [of y "fst r" "snd r"] by simp
  qed (simp_all only: handle.simps quiet.simps sync_at_updated sync_at_deleted sync_at_page not_True_eq_False)
qed (rule sync_at_quiet [OF assms(2)])

lemma response_inits [simp]: "inits (reconcile_response r c) = inits c"
  by (auto simp: reconcile_response_def reconcile_page_eq reconcile_done_def reconcile_return_def Let_def
      split: option.split response.split)

lemma unbooted_ok_input:
  assumes "unbooted_ok y" "possible i (sdk y)" "deliverable y i"
  shows "unbooted_ok (client_input i y)"
proof (cases i)
  case (BootstrapResp r)
  with assms show ?thesis
    by (cases r) (auto simp: unbooted_ok_def client_input_def Let_def possible_def bootstrap_response_def
        split: option.splits if_splits)
qed (use assms in \<open>auto simp: unbooted_ok_def client_input_def Let_def possible_def sync_defs
    closeStream_def async_defs split: if_splits option.splits\<close>)

lemma asked_input:
  assumes "unbooted_ok y" "synced y" "possible i (sdk y)" "asked (client_input i y) = Some v"
  shows "v \<le> configVersion (handle i (sdk y))"
proof (cases "is_bootstrap i")
  case True
  then obtain r where "i = BootstrapResp r" by (cases i) auto
  then have "rframe (sdk y) = None" "rframe (handle i (sdk y)) = rframe (sdk y)"
    using assms(1,3)
    by (auto simp: unbooted_ok_def possible_def bootstrap_response_def Let_def
        split: if_splits response.split option.split)
  then show ?thesis using assms(4) by (simp add: client_input_def Let_def)
next
  case False
  then have "configVersion (sdk y) \<le> configVersion (handle i (sdk y))" by (rule handle_version_mono)
  then show ?thesis
    using assms(2,4) by (auto simp: client_input_def Let_def synced_def split: if_splits)
qed

definition sys_inv :: "sys \<Rightarrow> bool" where
  "sys_inv y \<longleftrightarrow> hist_ok y \<and> unbooted_ok y \<and> synced y \<and> client_inv (sdk y) \<and> 0 \<le> configVersion (sdk y)"

lemma version_nonneg:
  assumes "hist_ok y" "deliverable y i" "0 \<le> configVersion (sdk y)"
  shows "0 \<le> configVersion (handle i (sdk y))"
proof (cases "is_bootstrap i")
  case True
  then obtain r where i: "i = BootstrapResp r" by (cases i) auto
  show ?thesis
  proof (cases r)
    case (Ok p)
    obtain fs ver where p: "p = (fs, ver)" by (cases p)
    obtain s0 where "s0 \<in> set (hist y)" "ver = Some (latest_version (sdb s0))"
      using assms(1,2) GetAllFlags_snapshot by (auto simp: hist_ok_def i Ok p)
    then have "ver = Some (latest_version (sdb s0))" "db_wf (sdb s0)"
      using assms(1) by (auto simp: hist_ok_def server_inv_def)
    then show ?thesis
      using latest_version_bounds(1) by (simp add: i Ok p bootstrap_response_def Let_def split: option.split)
  qed (use assms(3) in \<open>simp_all add: i bootstrap_response_def\<close>)
next
  case False
  then show ?thesis using handle_version_mono [of i "sdk y"] assms(3) by linarith
qed

lemma client_input_sel [simp]:
  "srv (client_input i y) = srv y" "hist (client_input i y) = hist y"
  "sdk (client_input i y) = handle i (sdk y)"
  by (simp_all add: client_input_def Let_def)

lemma sys_inv_input:
  assumes "sys_inv y" "possible i (sdk y)" "deliverable y i"
  shows "sys_inv (client_input i y)"
proof -
  have inv: "hist_ok y" "unbooted_ok y" "synced y" "client_inv (sdk y)"
    using assms(1) by (simp_all add: sys_inv_def)
  have "0 \<le> configVersion (handle i (sdk y))"
    using version_nonneg [OF inv(1) assms(3)] assms(1) by (simp add: sys_inv_def)
  moreover have "synced (client_input i y)"
    using client_in_step [OF inv(1,3) assms(3)] asked_input [OF inv(2,3) assms(2)]
    by (simp add: synced_def sync_at_def)
  moreover have "hist_ok (client_input i y)" using inv(1) by (simp add: hist_ok_def)
  ultimately show ?thesis
    using unbooted_ok_input [OF inv(2) assms(2,3)] client_inv_handle [OF inv(4)]
    by (simp add: sys_inv_def)
qed

lemma sys_inv_reach: "sys_reach y \<Longrightarrow> sys_inv y"
proof (induction rule: sys_reach.induct)
  case (sys_init s interval)
  have "upto_version 0 (events (sdb s)) = []"
    using sys_init by (auto simp: upto_version_def filter_empty_conv server_inv_def db_wf_def versions_ok_def)
  moreover have "client_inv (constructor interval)" by (rule client_inv_reach) (rule sdk_start)
  ultimately show ?case
    using sys_init latest_version_bounds(1) [of "sdb s"]
    by (simp add: sys_inv_def sys_start_def hist_ok_def unbooted_ok_def synced_def in_step_def
        constructor_def server_inv_def)
next
  case (sys_next y y')
  from sys_next(2) show ?case
  proof (cases rule: sys_step.cases)
    case (sys_write w)
    then show ?thesis
      using sys_next(3) by (auto simp: sys_inv_def hist_ok_op synced_op unbooted_ok_op)
        (simp_all add: server_op_def Let_def)
  next
    case (sys_client i)
    then show ?thesis using sys_next(3) by (simp add: sys_inv_input)
  qed
qed

section \<open>A finished reconcile has caught up\<close>

text \<open>
  The loop of \<^verbatim>\<open>reconcile\<close> against a server that answers: each round asks for what comes
  after the client's version. \<open>n\<close> bounds the number of rounds.
\<close>

fun reconcile_loop :: "nat \<Rightarrow> db \<Rightarrow> utext client \<Rightarrow> utext client" where
  "reconcile_loop 0 d c = c"
| "reconcile_loop (Suc n) d c =
     (if rframe c = None then c
      else reconcile_loop n d (reconcile_response (Ok (served_events (configVersion c) d)) c))"

definition backlog_size :: "db \<Rightarrow> int \<Rightarrow> nat" where
  "backlog_size d v = length (after_version v (events d))"

lemma response_page:
  assumes "rframe c = Some fr" "served_events (configVersion c) d \<noteq> []" "db_wf d" "up d" "Suc (guard fr) < 10000"
  shows "reconcile_response (Ok (served_events (configVersion c) d)) c =
     (fst (reconcile_page (served_events (configVersion c) d) c))
       \<lparr>rframe := Some (fr\<lparr>changed := True, guard := Suc (guard fr)\<rparr>)\<rparr>"
  using assms repo.fetch_all_applied [of d "configVersion c"]
  by (simp add: reconcile_response_def reconcile_page_eq Let_def)

lemma latest_version_none:
  assumes "db_wf d" "after_version v (events d) = []" "0 \<le> v" "v \<le> latest_version d"
  shows "latest_version d = v"
proof (cases "events d = []")
  case False
  then have "last (events d) \<in> set (events d)" by simp
  then have "ev_version (last (events d)) \<le> v" using assms(2) by (auto simp: after_version_def filter_empty_conv)
  with False assms(4) show ?thesis by (simp add: latest_version_def last_version_def)
qed (use assms in \<open>simp add: latest_version_def last_version_def\<close>)

definition caught_up :: "db \<Rightarrow> utext client \<Rightarrow> utext client \<Rightarrow> bool" where
  "caught_up d c c' \<longleftrightarrow> rframe c' = None \<and> \<not> reconciling c' \<and> status c' = Live \<and>
     configVersion c' = latest_version d \<and>
     cflags c' = replay (cflags c) (after_version (configVersion c) (events d))"

lemma reconcile_loop_last:
  assumes "rframe c = Some fr" "db_wf d" "up d" "0 \<le> configVersion c" "configVersion c \<le> latest_version d"
    and "served_events (configVersion c) d = []"
  shows "caught_up d c (reconcile_loop (Suc n) d c)"
proof -
  have none: "after_version (configVersion c) (events d) = []"
    using repo.fetch_empty_iff [of d] assms(2,3,6) by simp
  have "reconcile_loop (Suc n) d c = reconcile_loop n d (reconcile_done (changed fr) c)"
    using assms(1,6) by (simp add: reconcile_response_def)
  also have "\<dots> = reconcile_done (changed fr) c"
    by (cases n) (simp_all add: reconcile_done_def reconcile_return_def Let_def)
  finally show ?thesis
    using none latest_version_none [OF assms(2) none assms(4,5)]
    by (simp add: caught_up_def reconcile_done_def reconcile_return_def Let_def)
qed

lemma page_latest:
  assumes "db_wf d" "up d" "served_events v d \<noteq> []"
  shows "v < last_version v (served_events v d)" "last_version v (served_events v d) \<le> latest_version d"
proof -
  let ?e = "last (served_events v d)"
  have "?e \<in> set (take 500 (after_version v (events d)))"
    using assms repo.fetch_page [of d v] last_in_set by metis
  then have e: "?e \<in> set (events d)" "v < ev_version ?e"
    by (auto simp: after_version_def dest!: in_set_takeD)
  show "v < last_version v (served_events v d)" using e(2) assms(3) by (simp add: last_version_def)
  have "ordered (events d)" using assms(1) by (simp add: db_wf_def versions_ok_def)
  then show "last_version v (served_events v d) \<le> latest_version d"
    using ordered_last_greatest [of "events d" ?e 0] e(1) assms(3)
    by (simp add: last_version_def [of v] latest_version_def)
qed

lemma reconcile_loop_ends:
  assumes "rframe c = Some fr" "db_wf d" "up d" "0 \<le> configVersion c" "configVersion c \<le> latest_version d"
    and "backlog_size d (configVersion c) \<le> 500 * m" "guard fr + m < 10000" "m < n"
  shows "caught_up d c (reconcile_loop n d c)"
  using assms(1,4-8)
proof (induction m arbitrary: n c fr)
  case 0
  then obtain n' where n: "n = Suc n'" by (cases n) auto
  have "served_events (configVersion c) d = []"
    using 0 repo.fetch_empty_iff [of d] assms(2,3) by (simp add: backlog_size_def)
  then show ?case unfolding n using 0 assms(2,3) by (intro reconcile_loop_last) auto
next
  case (Suc m)
  then obtain n' where n: "n = Suc n'" "m < n'" by (cases n) auto
  let ?v = "configVersion c"
  let ?page = "served_events ?v d"
  show ?case
  proof (cases "?page = []")
    case True
    then show ?thesis unfolding n using Suc.prems assms(2,3) by (intro reconcile_loop_last) auto
  next
    case False
    define c1 where "c1 = reconcile_response (Ok ?page) c"
    have c1: "rframe c1 = Some (fr\<lparr>changed := True, guard := Suc (guard fr)\<rparr>)"
      "configVersion c1 = last_version ?v ?page" "cflags c1 = replay (cflags c) ?page"
      using response_page [OF Suc.prems(1) False assms(2,3)] Suc.prems(5) repo.fetch_all_applied [of d ?v] assms(2,3)
      by (simp_all add: c1_def reconcile_page_eq)
    have rest: "after_version (configVersion c1) (events d) = drop 500 (after_version ?v (events d))"
      using repo.remaining_after_page [of d ?v] assms(2,3) by (simp add: c1)
    have "caught_up d c1 (reconcile_loop n' d c1)"
      using Suc.prems page_latest [OF assms(2,3) False] n(2)
      by (intro Suc.IH [OF c1(1)]) (simp_all add: c1(2) backlog_size_def rest [unfolded c1(2)])
    moreover have "?page @ drop 500 (after_version ?v (events d)) = after_version ?v (events d)"
      using repo.fetch_page [of d ?v] assms(2,3) by simp
    then have "replay (cflags c1) (after_version (configVersion c1) (events d)) =
        replay (cflags c) (after_version ?v (events d))"
      unfolding rest c1(3) by (metis foldl_append map_append)
    moreover have "reconcile_loop n d c = reconcile_loop n' d c1"
      using Suc.prems(1) by (simp add: n c1_def)
    ultimately show ?thesis by (simp add: caught_up_def)
  qed
qed

lemma caught_up_table:
  assumes "caught_up d c c'" "in_step (events d) c" "db_wf d"
  shows "map_get (cflags c') k = map_option as_config (row_by_key d k)"
proof -
  have "upto_version (configVersion c) (events d) @ after_version (configVersion c) (events d) = events d"
    using assms(3) by (intro upto_after) (simp add: db_wf_def versions_ok_def)
  then show ?thesis
    using assms replay_in_step [of "cflags c" "upto_version (configVersion c) (events d)"]
    by (simp add: caught_up_def in_step_def db_wf_def)
qed

section \<open>The flags of a client\<close>

lemma client_flag_logged:
  assumes "sys_reach y" "map_get (cflags (sdk y)) k = Some f"
  shows "\<exists>e \<in> set (events (sdb (srv y))). ev_version e = version f \<and> ev_version e \<le> configVersion (sdk y) \<and>
           flag_key e = k \<and> key f = k \<and> map_option as_config (payload_flag (payload e)) = Some f"
proof -
  let ?d = "sdb (srv y)"
  have inv: "db_wf ?d" "in_step (events ?d) (sdk y)"
    using sys_inv_reach [OF assms(1)] by (simp_all add: sys_inv_def synced_def hist_ok_def server_inv_def)
  then obtain g where g: "log_state (upto_version (configVersion (sdk y)) (events ?d)) k = Some g" "f = as_config g"
    using assms(2) by (auto simp: in_step_def)
  then obtain e where e: "e \<in> set (upto_version (configVersion (sdk y)) (events ?d))"
    "payload_flag (payload e) = Some g" "flag_key e = k"
    using log_state_Some by blast
  then have "event_ok e" using inv(1) by (auto simp: db_wf_def upto_version_def)
  with e g(2) show ?thesis by (auto simp: upto_version_def event_ok_def intro!: bexI [of _ e])
qed

end
