(* ===== verification/GoClient.thy ===== *)
theory GoClient
  imports Replica SseWire System
begin

text \<open>
  The Go SDK (\<^verbatim>\<open>pkg/ffclient/ffclient.go\<close>, \<^verbatim>\<open>pkg/ffclient/stream.go\<close>): its map of flags and config version,
  the bootstrap, the reconcile loop with its guard, live frames, one connection of the stream, and
  local evaluation. A request is answered by a function of the number of the request and of the
  version asked for; a failed answer is an error value. One goroutine fetches and applies, as
  \<^verbatim>\<open>Start\<close> and the drivers do; readers take the lock and see the fields between two steps.
  Versions are \<^verbatim>\<open>int64\<close> and compared only; the sum with 1 is taken of a version that a server gave, far below
  the limit. Theorems about the client against the server are at the end.
\<close>

section \<open>What encoding/json finds in an object\<close>

datatype 'a member = Missing | Mistyped | Member 'a

text \<open>An absent or null member leaves the zero value of the field; a value of the wrong type is an error.\<close>

fun member_or :: "'a \<Rightarrow> 'a member \<Rightarrow> 'a option" where
  "member_or z Missing = Some z"
| "member_or z Mistyped = None"
| "member_or z (Member x) = Some x"

record go_object =
  o_id :: "utext member"
  o_key :: "utext member"
  o_description :: "utext member"
  o_enabled :: "bool member"
  o_rollout :: "int member"
  o_targeted :: "utext list member"
  o_version :: "int member"

text \<open>\<^verbatim>\<open>json.Unmarshal\<close> into a \<^verbatim>\<open>Flag\<close>, and into a struct with a \<^verbatim>\<open>key\<close> only; \<open>None\<close> is text that is no object.\<close>

definition unmarshal_Flag :: "go_object option \<Rightarrow> utext FlagConfig option" where
  "unmarshal_Flag data =
     Option.bind data (\<lambda>x.
     Option.bind (member_or [] (o_id x)) (\<lambda>i.
     Option.bind (member_or [] (o_key x)) (\<lambda>k.
     Option.bind (member_or [] (o_description x)) (\<lambda>desc.
     Option.bind (member_or False (o_enabled x)) (\<lambda>on.
     Option.bind (member_or 0 (o_rollout x)) (\<lambda>p.
     Option.bind (member_or [] (o_targeted x)) (\<lambda>us.
     Option.bind (member_or 0 (o_version x)) (\<lambda>v.
       Some \<lparr>key = k, enabled = on, rollout_percentage = p, targeted_users = us, flag_id = i,
             description = desc, version = v\<rparr>))))))))"

definition unmarshal_key :: "go_object option \<Rightarrow> utext option" where
  "unmarshal_key data = Option.bind data (\<lambda>x. member_or [] (o_key x))"

text \<open>The objects the server sends: a flag, and what is left of a deleted one.\<close>

definition flag_object :: "utext FlagConfig \<Rightarrow> go_object" where
  "flag_object f =
     \<lparr>o_id = Member (flag_id f), o_key = Member (key f), o_description = Member (description f),
      o_enabled = Member (enabled f), o_rollout = Member (rollout_percentage f),
      o_targeted = Member (targeted_users f), o_version = Member (version f)\<rparr>"

definition deleted_object :: "utext member \<Rightarrow> utext \<Rightarrow> go_object" where
  "deleted_object i k =
     \<lparr>o_id = i, o_key = Member k, o_description = Missing, o_enabled = Missing, o_rollout = Missing,
      o_targeted = Missing, o_version = Missing\<rparr>"

section \<open>The client\<close>

text \<open>
  Beside the fields: the number of requests sent, and the versions given to the hook \<^verbatim>\<open>OnVersion\<close> when the
  configuration has one.
\<close>

record go_client =
  g_flags :: "utext \<rightharpoonup> utext FlagConfig"
  g_version :: int
  g_onVersion :: bool
  g_requests :: nat
  g_observed :: "int list"

record go_event =
  e_version :: int
  e_type :: jsstring
  e_flag_key :: utext
  e_payload :: "go_object option"

text \<open>A request fails, or is answered with a status and a body; \<open>None\<close> is a body that does not decode.\<close>

datatype 'a fetched = NoAnswer | Answer int "'a option"

datatype go_error = RequestFailed | BadStatus int | BadBody

definition New :: "bool \<Rightarrow> go_client" where
  "New hook = \<lparr>g_flags = Map.empty, g_version = 0, g_onVersion = hook, g_requests = 0, g_observed = []\<rparr>"

definition Bootstrap :: "(utext FlagConfig list \<times> int) fetched \<Rightarrow> go_client \<Rightarrow> (go_error + unit) \<times> go_client" where
  "Bootstrap resp c0 =
     (let c = c0\<lparr>g_requests := Suc (g_requests c0)\<rparr>
      in case resp of
           NoAnswer \<Rightarrow> (Inl RequestFailed, c)
         | Answer st body0 \<Rightarrow>
             if st \<noteq> 200 then (Inl (BadStatus st), c)
             else (case body0 of
                     None \<Rightarrow> (Inl BadBody, c)
                   | Some (fs, v) \<Rightarrow>
                       (Inr (), c\<lparr>g_flags := foldl (\<lambda>m f. gomap_set (key f) f m) Map.empty fs,
                                  g_version := v\<rparr>)))"

definition go_IsEnabled :: "utext \<Rightarrow> utext \<Rightarrow> go_client \<Rightarrow> bool" where
  "go_IsEnabled flagKey userID c =
     (case g_flags c flagKey of
        None \<Rightarrow> False
      | Some f \<Rightarrow>
          if \<not> enabled f then False
          else if userID \<in> set (targeted_users f) then True
          else inRollout (utf8 flagKey) (utf8 userID) (rollout_percentage f))"

text \<open>\<^verbatim>\<open>json.Unmarshal\<close> and the store, when the object is a flag with a key.\<close>

definition store_flag :: "go_object option \<Rightarrow> go_client \<Rightarrow> go_client" where
  "store_flag data c =
     (case unmarshal_Flag data of
        None \<Rightarrow> c
      | Some f \<Rightarrow> if key f \<noteq> [] then c\<lparr>g_flags := gomap_set (key f) f (g_flags c)\<rparr> else c)"

definition applyLocked :: "jsstring \<Rightarrow> utext \<Rightarrow> go_object option \<Rightarrow> int \<Rightarrow> go_client \<Rightarrow> go_client" where
  "applyLocked eventType flagKey data ver c =
     (let c = (if eventType = js ''deleted'' then c\<lparr>g_flags := gomap_delete flagKey (g_flags c)\<rparr>
               else store_flag data c)
      in c\<lparr>g_version := ver\<rparr>)"

definition applyLiveEvent :: "jsstring \<Rightarrow> go_object option \<Rightarrow> int \<Rightarrow> go_client \<Rightarrow> bool \<times> go_client" where
  "applyLiveEvent eventType data ver c =
     (if ver \<le> g_version c then (False, c)
      else if ver > g_version c + 1 then (True, c)
      else let c = (if eventType = js ''flag_deleted''
                    then (case unmarshal_key data of
                            None \<Rightarrow> c
                          | Some k \<Rightarrow> c\<lparr>g_flags := gomap_delete k (g_flags c)\<rparr>)
                    else store_flag data c)
           in (False, c\<lparr>g_version := ver\<rparr>))"

section \<open>Reconcile\<close>

definition go_apply :: "go_client \<times> bool \<Rightarrow> go_event \<Rightarrow> go_client \<times> bool" where
  "go_apply ca ev =
     (let (c, advanced) = ca
      in if e_version ev \<le> g_version c then (c, advanced)
         else (applyLocked (e_type ev) (e_flag_key ev) (e_payload ev) (e_version ev) c, True))"

text \<open>One turn of the loop: \<open>Some\<close> result ends it.\<close>

definition Reconcile_round :: "go_event list fetched \<Rightarrow> go_client \<Rightarrow> (go_error + unit) option \<times> go_client" where
  "Reconcile_round resp c0 =
     (let c = c0\<lparr>g_requests := Suc (g_requests c0)\<rparr>
      in case resp of
           NoAnswer \<Rightarrow> (Some (Inl RequestFailed), c)
         | Answer st body0 \<Rightarrow>
             if st \<noteq> 200 then (Some (Inl (BadStatus st)), c)
             else (case body0 of
                     None \<Rightarrow> (Some (Inl BadBody), c)
                   | Some evs \<Rightarrow>
                       if evs = [] then (Some (Inr ()), c)
                       else let (c, advanced) = foldl go_apply (c, False) evs
                            in (if advanced then None else Some (Inr ()), c)))"

fun Reconcile_from ::
  "nat \<Rightarrow> (nat \<Rightarrow> int \<Rightarrow> go_event list fetched) \<Rightarrow> go_client \<Rightarrow> (go_error + unit) \<times> go_client" where
  "Reconcile_from 0 answer c = (Inr (), c)"
| "Reconcile_from (Suc left) answer c =
     (case Reconcile_round (answer (g_requests c) (g_version c)) c of
        (Some r, c) \<Rightarrow> (r, c)
      | (None, c) \<Rightarrow> Reconcile_from left answer c)"

definition MAX_PAGES :: nat where
  "MAX_PAGES = 100000"

definition Reconcile :: "(nat \<Rightarrow> int \<Rightarrow> go_event list fetched) \<Rightarrow> go_client \<Rightarrow> (go_error + unit) \<times> go_client" where
  "Reconcile answer c = Reconcile_from MAX_PAGES answer c"

section \<open>The stream\<close>

text \<open>
  One dispatched frame: its type, its data as text, its id. \<open>decode\<close> gives what \<^verbatim>\<open>json.Unmarshal\<close> finds in a
  text.
\<close>

definition go_frame ::
  "(jsstring \<Rightarrow> go_object option) \<Rightarrow> (nat \<Rightarrow> int \<Rightarrow> go_event list fetched) \<Rightarrow>
   jsstring \<times> jsstring \<times> jsstring \<Rightarrow> go_client \<Rightarrow> (go_error + unit) \<times> go_client" where
  "go_frame decode answer fr c0 =
     (let (eventType, data, i) = fr;
          (ver, c) = (case parseSSEVersion i of
                        None \<Rightarrow> (g_version c0 + 1, c0)
                      | Some v \<Rightarrow>
                          (v, if g_onVersion c0 then c0\<lparr>g_observed := g_observed c0 @ [v]\<rparr> else c0));
          (needsReconcile, c) = applyLiveEvent eventType (decode data) ver c
      in if needsReconcile then Reconcile answer c else (Inr (), c))"

fun go_frames ::
  "(jsstring \<Rightarrow> go_object option) \<Rightarrow> (nat \<Rightarrow> int \<Rightarrow> go_event list fetched) \<Rightarrow>
   (jsstring \<times> jsstring \<times> jsstring) list \<Rightarrow> go_client \<Rightarrow> (go_error + unit) \<times> go_client" where
  "go_frames decode answer [] c = (Inr (), c)"
| "go_frames decode answer (fr # frs) c =
     (case go_frame decode answer fr c of
        (Inl e, c) \<Rightarrow> (Inl e, c)
      | (Inr _, c) \<Rightarrow> go_frames decode answer frs c)"

text \<open>\<^verbatim>\<open>stream\<close>: the request, and the text that arrived until the connection ended.\<close>

definition stream ::
  "(jsstring \<Rightarrow> go_object option) \<Rightarrow> (nat \<Rightarrow> int \<Rightarrow> go_event list fetched) \<Rightarrow>
   jsstring fetched \<Rightarrow> go_client \<Rightarrow> (go_error + unit) \<times> go_client" where
  "stream decode answer resp c0 =
     (let c = c0\<lparr>g_requests := Suc (g_requests c0)\<rparr>
      in case resp of
           NoAnswer \<Rightarrow> (Inl RequestFailed, c)
         | Answer st body0 \<Rightarrow>
             if st \<noteq> 200 then (Inl (BadStatus st), c)
             else go_frames decode answer (case body0 of None \<Rightarrow> [] | Some txt \<Rightarrow> read_stream txt) c)"

text \<open>One turn of \<^verbatim>\<open>streamLoop\<close>, and the pause after it in milliseconds.\<close>

definition stream_turn ::
  "(jsstring \<Rightarrow> go_object option) \<Rightarrow> (nat \<Rightarrow> int \<Rightarrow> go_event list fetched) \<Rightarrow>
   jsstring fetched \<Rightarrow> go_client \<Rightarrow> go_client" where
  "stream_turn decode answer resp c = snd (stream decode answer resp (snd (Reconcile answer c)))"

definition next_backoff :: "nat \<Rightarrow> nat" where
  "next_backoff b = (if b < 5000 then (if b * 2 > 5000 then 5000 else b * 2) else b)"

definition backoff_after :: "nat \<Rightarrow> nat" where
  "backoff_after turns = (next_backoff ^^ turns) 500"

section \<open>What the server sends\<close>

definition wire_event :: "utext FlagEvent \<Rightarrow> go_event" where
  "wire_event e =
     (case payload e of
        Created f \<Rightarrow> \<lparr>e_version = ev_version e, e_type = js ''created'', e_flag_key = flag_key e,
                     e_payload = Some (flag_object (as_config f))\<rparr>
      | Updated f \<Rightarrow> \<lparr>e_version = ev_version e, e_type = js ''updated'', e_flag_key = flag_key e,
                     e_payload = Some (flag_object (as_config f))\<rparr>
      | Deleted i k \<Rightarrow> \<lparr>e_version = ev_version e, e_type = js ''deleted'', e_flag_key = flag_key e,
                       e_payload = Some (deleted_object (Member i) k)\<rparr>)"

definition events_reply :: "reply \<Rightarrow> go_event list fetched" where
  "events_reply r = Answer (code r) (Some (case rbody r of BBacklog es n \<Rightarrow> map wire_event es | _ \<Rightarrow> []))"

definition snapshot_reply :: "reply \<Rightarrow> (utext FlagConfig list \<times> int) fetched" where
  "snapshot_reply r = Answer (code r) (Some (case rbody r of BSnapshot fs v \<Rightarrow> (fs, v) | _ \<Rightarrow> ([], 0)))"

fun env_name :: "envelope \<Rightarrow> jsstring" where
  "env_name (EnvUpdated v f) = js ''flag_updated''"
| "env_name (EnvDeleted v k) = js ''flag_deleted''"

fun env_object :: "envelope \<Rightarrow> go_object" where
  "env_object (EnvUpdated v f) = flag_object (as_config f)"
| "env_object (EnvDeleted v k) = deleted_object Missing k"

text \<open>Every event in the log has a key the service accepts, and lists user ids that are texts.\<close>

definition texts_ok :: "utext FlagEvent \<Rightarrow> bool" where
  "texts_ok e \<longleftrightarrow> event_ok e \<and> ascii_text (flag_key e) \<and> flag_key e \<noteq> [] \<and>
     (\<forall>f. payload_flag (payload e) = Some f \<longrightarrow> list_all valid_text (targeted_users f))"

definition log_texts :: "db \<Rightarrow> bool" where
  "log_texts d \<longleftrightarrow> (\<forall>e \<in> set (events d). texts_ok e)"

section \<open>Applying events is replaying changes\<close>

lemma unmarshal_flag_object [simp]: "unmarshal_Flag (Some (flag_object f)) = Some f"
  by (simp add: unmarshal_Flag_def flag_object_def)

lemma unmarshal_deleted [simp]: "unmarshal_key (Some (deleted_object i k)) = Some k"
  by (simp add: unmarshal_key_def deleted_object_def)

lemma wire_event_version [simp]: "e_version (wire_event e) = ev_version e"
  by (simp add: wire_event_def split: payload.split)

lemma applyLocked_wire:
  assumes "texts_ok e"
  shows "applyLocked (e_type (wire_event e)) (e_flag_key (wire_event e)) (e_payload (wire_event e)) v c =
     c\<lparr>g_flags := goreplica.replayed (g_flags c) [e], g_version := v\<rparr>"
  using assms
  by (cases "payload e")
    (auto simp: applyLocked_def wire_event_def store_flag_def event_change_def texts_ok_def event_ok_def)

lemma go_apply_wire:
  assumes "\<forall>e \<in> set es. texts_ok e"
  shows "foldl go_apply (c, a) (map wire_event es) =
     (c\<lparr>g_flags := goreplica.replayed (g_flags c) (applied (g_version c) es),
        g_version := last_version (g_version c) (applied (g_version c) es)\<rparr>,
      a \<or> applied (g_version c) es \<noteq> [])"
  using assms
proof (induction es arbitrary: c a)
  case (Cons e es)
  then show ?case
    by (simp add: go_apply_def applyLocked_wire last_version_Cons Let_def)
qed (simp add: last_version_def)

lemma live_wire:
  assumes "texts_ok e" "env_version env = ev_version e"
    and "case env of EnvUpdated v f \<Rightarrow> payload_flag (payload e) = Some f \<and> flag_key e = key f
       | EnvDeleted v k \<Rightarrow> payload_flag (payload e) = None \<and> flag_key e = k"
  shows "snd (applyLiveEvent (env_name env) (Some (env_object env)) (env_version env) c) =
     (if ev_version e = g_version c + 1
      then c\<lparr>g_flags := goreplica.replayed (g_flags c) [e], g_version := ev_version e\<rparr> else c)"
  using assms
  by (cases env) (auto simp: applyLiveEvent_def store_flag_def event_change_def texts_ok_def Let_def)

lemma gomap_bootstrap:
  fixes fs :: "utext FlagConfig list"
  shows "foldl (\<lambda>m f. gomap_set (key f) f m) Map.empty fs = map_get (bootstrap_flags fs)"
proof -
  have one: "gomap_set k v (map_get m) = map_get (map_set k v m)" for k v and m :: "(utext, utext FlagConfig) jsmap"
    by (rule ext) (simp add: gomap_set_def map_get_set)
  have "foldl (\<lambda>m f. gomap_set (key f) f m) (map_get m) fs = map_get (foldl (\<lambda>m f. map_set (key f) f m) m fs)" for m
    by (induction fs arbitrary: m) (simp_all only: foldl.simps one)
  from this [of "[]"] show ?thesis by (simp add: bootstrap_flags_def)
qed

section \<open>The client beside the control plane\<close>

text \<open>
  As for the browser in theory \<^verbatim>\<open>System\<close>: writes and outages at any time, answers from any state the
  server has had, frames that were published at some time, in any order, any number of times or never.
  A reconcile is one step per page, so that writes may come in between.
\<close>

record gosys =
  go_srv :: server
  go_hist :: "server list"
  go_cli :: go_client

fun failing :: "'a fetched \<Rightarrow> bool" where
  "failing NoAnswer \<longleftrightarrow> True"
| "failing (Answer st b) \<longleftrightarrow> st \<noteq> 200 \<or> b = None"

definition boot_answer :: "gosys \<Rightarrow> (utext FlagConfig list \<times> int) fetched \<Rightarrow> bool" where
  "boot_answer z resp \<longleftrightarrow> failing resp \<or> (\<exists>s0 \<in> set (go_hist z). resp = snapshot_reply (h_GetAllFlags s0 s0))"

definition page_answer :: "gosys \<Rightarrow> int \<Rightarrow> go_event list fetched \<Rightarrow> bool" where
  "page_answer z since resp \<longleftrightarrow> failing resp \<or>
     (\<exists>s0 \<in> set (go_hist z). \<exists>s1 \<in> set (go_hist z). resp = events_reply (h_Reconcile (js_num since) s0 s1))"

text \<open>The texts of a request body are valid: \<^verbatim>\<open>encoding/json\<close> leaves nothing else in a string.\<close>

fun op_texts :: "op \<Rightarrow> bool" where
  "op_texts (OpCreate now uuid req) \<longleftrightarrow> valid_text (c_key req) \<and> list_all valid_text (c_targeted_users req)"
| "op_texts (OpUpdate now i req) \<longleftrightarrow>
     (case u_targeted_users req of None \<Rightarrow> True | Some us \<Rightarrow> list_all valid_text us)"
| "op_texts _ \<longleftrightarrow> True"

definition go_start :: "server \<Rightarrow> bool \<Rightarrow> gosys" where
  "go_start s hook = \<lparr>go_srv = s, go_hist = [s], go_cli = New hook\<rparr>"

definition go_server_op :: "op \<Rightarrow> gosys \<Rightarrow> gosys" where
  "go_server_op w z = (let s = run_op w (go_srv z) in z\<lparr>go_srv := s, go_hist := s # go_hist z\<rparr>)"

inductive go_reach :: "gosys \<Rightarrow> bool" where
  go_init: "server_inv s \<Longrightarrow> log_texts (sdb s) \<Longrightarrow> go_reach (go_start s hook)"
| go_write: "go_reach z \<Longrightarrow> op_texts w \<Longrightarrow> go_reach (go_server_op w z)"
| go_boot: "go_reach z \<Longrightarrow> boot_answer z resp \<Longrightarrow> go_reach (z\<lparr>go_cli := snd (Bootstrap resp (go_cli z))\<rparr>)"
| go_page: "go_reach z \<Longrightarrow> page_answer z (g_version (go_cli z)) resp \<Longrightarrow>
     go_reach (z\<lparr>go_cli := snd (Reconcile_round resp (go_cli z))\<rparr>)"
| go_live: "go_reach z \<Longrightarrow> env \<in> set (bus (go_srv z)) \<Longrightarrow>
     go_reach (z\<lparr>go_cli := snd (applyLiveEvent (env_name env) (Some (env_object env)) (env_version env) (go_cli z))\<rparr>)"

section \<open>Texts in the log\<close>

lemma row_texts:
  assumes "db_wf d" "log_texts d" "row_by_id d i = Some f"
  shows "ascii_text (key f)" "key f \<noteq> []" "list_all valid_text (targeted_users f)"
proof -
  have "f \<in> set (rows d)" using assms(1,3) by (simp add: db_wf_def row_by_id_Some)
  then have "log_state (events d) (key f) = Some f" using assms(1) by (metis db_wf_def row_by_key_Some)
  then obtain e where "e \<in> set (events d)" "payload_flag (payload e) = Some f" "flag_key e = key f"
    using log_state_Some by blast
  then show "ascii_text (key f)" "key f \<noteq> []" "list_all valid_text (targeted_users f)"
    using assms(2) unfolding log_texts_def texts_ok_def by metis+
qed

text \<open>What a write adds to the log: nothing, or one event about a key, with these users.\<close>

definition adds :: "db \<Rightarrow> db \<Rightarrow> utext \<Rightarrow> utext list \<Rightarrow> bool" where
  "adds d d' k us \<longleftrightarrow> events d' = events d \<or>
     (\<exists>e. events d' = events d @ [e] \<and> flag_key e = k \<and>
        (\<forall>f. payload_flag (payload e) = Some f \<longrightarrow> targeted_users f = us))"

lemma log_texts_adds:
  assumes "adds d d' k us" "log_texts d" "db_wf d'" "ascii_text k" "k \<noteq> []" "list_all valid_text us"
  shows "log_texts d'"
  using assms by (auto simp: adds_def log_texts_def texts_ok_def db_wf_def)

lemma adds_same: "events d' = events d \<Longrightarrow> adds d d' k us"
  by (simp add: adds_def)

lemma adds_event:
  "events d' = events d \<Longrightarrow> \<forall>f. payload_flag p = Some f \<longrightarrow> targeted_users f = us \<Longrightarrow>
     adds d (appendEvent v k p now d') k us"
  by (simp add: adds_def appendEvent_def)

lemma Create_adds: "adds d (snd (Create now uuid req d)) (c_key req) (c_targeted_users req)"
  by (simp add: Create_def create_tx_def nextVersion_def Let_def adds_same adds_event split: option.split)

lemma Update_adds:
  assumes "row_by_id d i = Some f"
  shows "adds d (snd (Update now i req d)) (key f)
     (case u_targeted_users req of None \<Rightarrow> targeted_users f | Some us \<Rightarrow> us)"
  using assms
  by (simp add: Update_def update_tx_def nextVersion_def Let_def adds_same row_by_id_def set_fields_def
      replace_row_def split: option.split)
    (auto intro!: adds_event)

lemma Toggle_adds: "row_by_id d i = Some f \<Longrightarrow> adds d (snd (Toggle now i d)) (key f) (targeted_users f)"
  by (simp add: Toggle_def toggle_tx_def nextVersion_def Let_def adds_same row_by_id_def replace_row_def)
    (auto intro!: adds_event)

lemma Delete_adds: "row_by_id d i = Some f \<Longrightarrow> adds d (snd (Delete now i d)) (key f) []"
  by (simp add: Delete_def delete_tx_def nextVersion_def Let_def adds_same)
    (auto intro!: adds_event)

lemma absent_adds:
  "row_by_id d i = None \<Longrightarrow> events (snd (Update now i req d)) = events d"
  "row_by_id d i = None \<Longrightarrow> events (snd (Toggle now i d)) = events d"
  "row_by_id d i = None \<Longrightarrow> events (snd (Delete now i d)) = events d"
  by (simp_all add: Update_def update_tx_def Toggle_def toggle_tx_def Delete_def nextVersion_def row_by_id_def)

lemma ascii_texts:
  assumes "valid_text k" "keyRegex (utf8 k)"
  shows "ascii_text k" "k \<noteq> []"
  using assms utf8_ascii_iff [of k]
  by (auto simp: keyRegex_def key_byte_def word_le_nat_alt list_all_iff)

lemma Create_texts:
  assumes "db_wf d" "log_texts d" "ascii_text (c_key req)" "c_key req \<noteq> []" "list_all valid_text (c_targeted_users req)"
  shows "log_texts (snd (Create now uuid req d))"
  by (rule log_texts_adds [OF Create_adds assms(2) Create_wf [OF assms(1)] assms(3-5)])

lemma log_texts_cong: "events d' = events d \<Longrightarrow> log_texts d \<Longrightarrow> log_texts d'"
  by (simp add: log_texts_def)

lemma Update_texts:
  assumes "db_wf d" "log_texts d" "op_texts (OpUpdate now i req)"
  shows "log_texts (snd (Update now i req d))"
proof (cases "row_by_id d i")
  case None
  show ?thesis by (rule log_texts_cong [OF absent_adds(1) [OF None] assms(2)])
next
  case (Some f)
  note row = row_texts [OF assms(1,2) Some]
  have "list_all valid_text (case u_targeted_users req of None \<Rightarrow> targeted_users f | Some us \<Rightarrow> us)"
    using assms(3) row(3) by (simp split: option.splits)
  then show ?thesis by (rule log_texts_adds [OF Update_adds [OF Some] assms(2) Update_wf [OF assms(1)] row(1,2)])
qed

lemma Toggle_texts:
  assumes "db_wf d" "log_texts d"
  shows "log_texts (snd (Toggle now i d))"
proof (cases "row_by_id d i")
  case None
  show ?thesis by (rule log_texts_cong [OF absent_adds(2) [OF None] assms(2)])
next
  case (Some f)
  show ?thesis
    by (rule log_texts_adds [OF Toggle_adds [OF Some] assms(2) Toggle_wf [OF assms(1)] row_texts [OF assms Some]])
qed

lemma Delete_texts:
  assumes "db_wf d" "log_texts d"
  shows "log_texts (snd (Delete now i d))"
proof (cases "row_by_id d i")
  case None
  show ?thesis by (rule log_texts_cong [OF absent_adds(3) [OF None] assms(2)])
next
  case (Some f)
  show ?thesis
    by (rule log_texts_adds [OF Delete_adds [OF Some] assms(2) Delete_wf [OF assms(1)] row_texts(1,2) [OF assms Some]])
      simp
qed

lemma CreateFlag_db:
  "sdb (snd (CreateFlag now uuid req s)) = sdb s \<or>
   create_error req = None \<and> sdb (snd (CreateFlag now uuid req s)) = snd (Create now uuid req (sdb s))"
  by (simp add: CreateFlag_def case_prod_beta Let_def publish_defs split: option.split sum.split)

lemma UpdateFlag_db:
  "sdb (snd (UpdateFlag now i req s)) = sdb s \<or>
   sdb (snd (UpdateFlag now i req s)) = snd (Update now i req (sdb s))"
  by (simp add: UpdateFlag_def case_prod_beta Let_def publish_defs split: option.split sum.split)

lemma ToggleFlag_db: "sdb (snd (ToggleFlag now i s)) = snd (Toggle now i (sdb s))"
  by (simp add: ToggleFlag_def case_prod_beta Let_def publish_defs split: option.split sum.split)

lemma DeleteFlag_db:
  "sdb (snd (DeleteFlag now i s)) = sdb s \<or> sdb (snd (DeleteFlag now i s)) = snd (Delete now i (sdb s))"
  by (simp add: DeleteFlag_def case_prod_beta Let_def publish_defs split: option.split sum.split)

lemma log_texts_op:
  assumes "db_wf (sdb s)" "log_texts (sdb s)" "op_texts w"
  shows "log_texts (sdb (run_op w s))"
proof (cases w)
  case (OpCreate now uuid req)
  show ?thesis
  proof (cases "create_error req")
    case None
    then have "keyRegex (utf8 (c_key req))" by (auto simp: create_error_def Let_def split: if_splits)
    then have "ascii_text (c_key req)" "c_key req \<noteq> []" using ascii_texts assms(3) OpCreate by auto
    then show ?thesis
      using CreateFlag_db [of now uuid req s] Create_texts assms OpCreate by auto
  next
    case (Some e)
    then show ?thesis using OpCreate assms(2) by (simp add: CreateFlag_def)
  qed
next
  case (OpUpdate now i req)
  then show ?thesis
    using UpdateFlag_db [of now i req s] Update_texts [OF assms(1,2), of now i req] assms(2,3) by auto
next
  case (OpDelete now i)
  then show ?thesis using DeleteFlag_db [of now i s] Delete_texts [OF assms(1,2), of now i] assms(2) by auto
qed (use assms(2) Toggle_texts [OF assms(1,2)] in \<open>auto simp: ToggleFlag_db intro: log_texts_cong [rotated]\<close>)

section \<open>The invariant\<close>

definition go_synced :: "db \<Rightarrow> go_client \<Rightarrow> bool" where
  "go_synced d c \<longleftrightarrow> holds (events d) (g_version c) (g_flags c) \<and> 0 \<le> g_version c \<and> g_version c \<le> latest_version d"

definition past_ok :: "server \<Rightarrow> server list \<Rightarrow> bool" where
  "past_ok s ss \<longleftrightarrow> (\<forall>s0 \<in> set ss. server_inv s0 \<and> extends (sdb s0) (sdb s))"

definition go_inv :: "gosys \<Rightarrow> bool" where
  "go_inv z \<longleftrightarrow> server_inv (go_srv z) \<and> log_texts (sdb (go_srv z)) \<and> past_ok (go_srv z) (go_hist z) \<and>
     go_synced (sdb (go_srv z)) (go_cli z)"

lemma past_texts: "log_texts d \<Longrightarrow> extends d0 d \<Longrightarrow> log_texts d0"
  by (auto simp: log_texts_def extends_def)

lemma go_synced_cong: "g_flags c' = g_flags c \<Longrightarrow> g_version c' = g_version c \<Longrightarrow> go_synced d c' = go_synced d c"
  by (simp add: go_synced_def)

lemma go_synced_later:
  assumes "go_synced d0 c" "db_wf d" "extends d0 d"
  shows "go_synced d c"
  using assms holds_later [of d0 "g_version c" "g_flags c" d] latest_version_mono [OF assms(2,3)]
  by (auto simp: go_synced_def)

lemma go_inv_start:
  assumes "server_inv s" "log_texts (sdb s)"
  shows "go_inv (go_start s hook)"
proof -
  have wf: "db_wf (sdb s)" using assms(1) by (simp add: server_inv_def)
  then have "upto_version 0 (events (sdb s)) = []"
    by (force simp: upto_version_def filter_empty_conv db_wf_def versions_ok_def)
  then show ?thesis
    using assms latest_version_bounds [OF wf]
    by (simp add: go_inv_def go_start_def go_synced_def past_ok_def New_def holds_def)
qed

lemma go_inv_write:
  assumes "go_inv z" "op_texts w"
  shows "go_inv (go_server_op w z)"
proof -
  let ?s = "run_op w (go_srv z)"
  have s: "server_inv ?s" using assms(1) run_op_inv by (simp add: go_inv_def)
  moreover have "log_texts (sdb ?s)" using assms log_texts_op by (simp add: go_inv_def server_inv_def)
  moreover have "past_ok ?s (?s # go_hist z)"
    using assms(1) s extends_trans [OF _ run_op_extends] by (auto simp: past_ok_def go_inv_def)
  moreover have "go_synced (sdb ?s) (go_cli z)"
    using assms(1) s run_op_extends by (auto simp: go_inv_def server_inv_def intro: go_synced_later)
  ultimately show ?thesis by (simp add: go_inv_def go_server_op_def Let_def)
qed

lemma go_inv_client:
  "go_inv z \<Longrightarrow> go_synced (sdb (go_srv z)) c \<Longrightarrow> go_inv (z\<lparr>go_cli := c\<rparr>)"
  by (simp add: go_inv_def)

text \<open>A snapshot.\<close>

lemma bootstrap_failing:
  "failing resp \<Longrightarrow> g_flags (snd (Bootstrap resp c)) = g_flags c \<and> g_version (snd (Bootstrap resp c)) = g_version c"
  by (cases resp) (auto simp: Bootstrap_def Let_def)

lemma go_synced_snapshot:
  assumes "server_inv s0" "go_synced d c" "db_wf d" "extends (sdb s0) d"
  shows "go_synced d (snd (Bootstrap (snapshot_reply (h_GetAllFlags s0 s0)) c))"
proof (cases "code (h_GetAllFlags s0 s0) = 200")
  case True
  then obtain fs n where r: "h_GetAllFlags s0 s0 = http 200 (BSnapshot fs n)"
    by (auto simp: h_GetAllFlags_def split: sum.splits)
  let ?c = "snd (Bootstrap (snapshot_reply (h_GetAllFlags s0 s0)) c)"
  note snap = GetAllFlags_snapshot [OF assms(1) r]
  have wf: "db_wf (sdb s0)" using assms(1) by (simp add: server_inv_def)
  have c: "g_flags ?c = map_get (bootstrap_flags (snapshot (sdb s0)))" "g_version ?c = latest_version (sdb s0)"
    by (simp_all add: r snap snapshot_reply_def Bootstrap_def gomap_bootstrap)
  then have "go_synced (sdb s0) ?c"
    using snapshot_get [OF wf snap(1)] latest_version_bounds [OF wf]
    by (simp add: go_synced_def holds_def upto_latest [OF wf])
  then show ?thesis using assms(3,4) by (rule go_synced_later)
next
  case False
  then have "failing (snapshot_reply (h_GetAllFlags s0 s0))" by (simp add: snapshot_reply_def)
  then show ?thesis using assms(2) bootstrap_failing go_synced_cong by metis
qed

text \<open>A page.\<close>

lemma round_failing:
  "failing resp \<Longrightarrow> g_flags (snd (Reconcile_round resp c)) = g_flags c \<and>
     g_version (snd (Reconcile_round resp c)) = g_version c"
  by (cases resp) (auto simp: Reconcile_round_def Let_def)

lemma round_page:
  assumes "\<forall>e \<in> set es. texts_ok e"
  shows "Reconcile_round (Answer 200 (Some (map wire_event es))) c =
     (if applied (g_version c) es = [] then Some (Inr ()) else None,
      c\<lparr>g_requests := Suc (g_requests c), g_flags := goreplica.replayed (g_flags c) (applied (g_version c) es),
        g_version := last_version (g_version c) (applied (g_version c) es)\<rparr>)"
  by (cases "es = []") (simp_all add: Reconcile_round_def go_apply_wire [OF assms] last_version_def)

lemma served_texts:
  assumes "db_wf d" "up d" "log_texts d"
  shows "\<forall>e \<in> set (served_events since d). texts_ok e"
  using assms repo.fetch_page [of d since]
  by (auto simp: log_texts_def after_version_def dest!: in_set_takeD)

lemma go_synced_page:
  assumes "server_inv s0" "go_synced d c" "db_wf d" "extends (sdb s0) d" "log_texts d"
  shows "go_synced d (snd (Reconcile_round (events_reply (h_Reconcile (js_num (g_version c)) s0 s1)) c))"
proof (cases "code (h_Reconcile (js_num (g_version c)) s0 s1) = 200")
  case True
  then obtain page n where r: "h_Reconcile (js_num (g_version c)) s0 s1 = http 200 (BBacklog page n)"
    by (auto simp: h_Reconcile_def Let_def split: if_splits option.splits sum.splits)
  let ?v = "g_version c"
  note page = Reconcile_page [OF r]
  have wf: "db_wf (sdb s0)" using assms(1) by (simp add: server_inv_def)
  have "\<forall>e \<in> set page. texts_ok e"
    using page served_texts [OF wf page(1) past_texts [OF assms(5,4)]] by simp
  then have c': "snd (Reconcile_round (events_reply (h_Reconcile (js_num ?v) s0 s1)) c) =
      c\<lparr>g_requests := Suc (g_requests c), g_flags := goreplica.replayed (g_flags c) (applied ?v page),
        g_version := last_version ?v (applied ?v page)\<rparr>"
    by (simp add: r events_reply_def round_page)
  have "holds (events d) (last_version ?v (applied ?v page)) (goreplica.replayed (g_flags c) (applied ?v page))"
    using goreplica.holds_page [of d ?v "g_flags c" "sdb s0" ?v] assms wf page by (simp add: go_synced_def)
  moreover have "last_version ?v (applied ?v page) \<le> latest_version d" "0 \<le> last_version ?v (applied ?v page)"
  proof -
    have "applied ?v page = served_events ?v (sdb s0)" using repo.fetch_all_applied [of "sdb s0" ?v] wf page by simp
    moreover have "last_version ?v (served_events ?v (sdb s0)) \<le> latest_version (sdb s0)"
      if "served_events ?v (sdb s0) \<noteq> []" using page_latest [OF wf page(1) that] by simp
    ultimately show "last_version ?v (applied ?v page) \<le> latest_version d"
      using latest_version_mono [OF assms(3,4)] assms(2)
      by (cases "applied ?v page = []") (auto simp: go_synced_def last_version_def)
    show "0 \<le> last_version ?v (applied ?v page)"
      using last_version_mono [of ?v page] assms(2) by (simp add: go_synced_def)
  qed
  ultimately show ?thesis unfolding c' by (simp add: go_synced_def)
next
  case False
  then have "failing (events_reply (h_Reconcile (js_num (g_version c)) s0 s1))" by (simp add: events_reply_def)
  then show ?thesis using assms(2) round_failing go_synced_cong by metis
qed

text \<open>A live frame.\<close>

lemma go_synced_live:
  assumes "go_synced d c" "db_wf d" "log_texts d" "env_logged d env"
  shows "go_synced d (snd (applyLiveEvent (env_name env) (Some (env_object env)) (env_version env) c))"
proof -
  obtain e where e: "e \<in> set (events d)" "ev_version e = env_version env"
    "case env of EnvUpdated v f \<Rightarrow> payload_flag (payload e) = Some f \<and> flag_key e = key f
     | EnvDeleted v k \<Rightarrow> payload_flag (payload e) = None \<and> flag_key e = k"
    using assms(4) by (auto simp: env_logged_def)
  have ok: "texts_ok e" using assms(3) e(1) by (simp add: log_texts_def)
  note step = live_wire [OF ok e(2) [symmetric] e(3)]
  have o: "ordered (events d)" using assms(2) by (simp add: db_wf_def versions_ok_def)
  show ?thesis
  proof (cases "ev_version e = g_version c + 1")
    case True
    have "holds (events d) (g_version c + 1) (goreplica.replayed (g_flags c) [e])"
      using assms(1) o e(1) True by (intro goreplica.holds_next) (simp_all add: go_synced_def)
    moreover have "ev_version e \<le> latest_version d"
      using ordered_last_greatest [OF o e(1), of 0] by (simp add: latest_version_def)
    ultimately show ?thesis using assms(1) True unfolding step by (simp add: go_synced_def)
  qed (use assms(1) in \<open>simp add: step\<close>)
qed

lemma go_inv_reach: "go_reach z \<Longrightarrow> go_inv z"
proof (induction rule: go_reach.induct)
  case (go_boot z resp)
  from go_boot.hyps(2) consider "failing resp"
    | s0 where "s0 \<in> set (go_hist z)" "resp = snapshot_reply (h_GetAllFlags s0 s0)"
    by (auto simp: boot_answer_def)
  then have "go_synced (sdb (go_srv z)) (snd (Bootstrap resp (go_cli z)))"
  proof cases
    case 1
    with go_boot.IH bootstrap_failing show ?thesis by (metis go_inv_def go_synced_cong)
  next
    case 2
    with go_boot.IH go_synced_snapshot show ?thesis by (auto simp: go_inv_def past_ok_def server_inv_def)
  qed
  with go_boot.IH show ?case by (rule go_inv_client)
next
  case (go_page z resp)
  from go_page.hyps(2) consider "failing resp"
    | s0 s1 where "s0 \<in> set (go_hist z)" "resp = events_reply (h_Reconcile (js_num (g_version (go_cli z))) s0 s1)"
    by (auto simp: page_answer_def)
  then have "go_synced (sdb (go_srv z)) (snd (Reconcile_round resp (go_cli z)))"
  proof cases
    case 1
    with go_page.IH round_failing show ?thesis by (metis go_inv_def go_synced_cong)
  next
    case 2
    with go_page.IH go_synced_page show ?thesis by (auto simp: go_inv_def past_ok_def server_inv_def)
  qed
  with go_page.IH show ?case by (rule go_inv_client)
next
  case (go_live z env)
  then have "go_synced (sdb (go_srv z))
      (snd (applyLiveEvent (env_name env) (Some (env_object env)) (env_version env) (go_cli z)))"
    by (intro go_synced_live) (auto simp: go_inv_def server_inv_def)
  with go_live.IH show ?case by (rule go_inv_client)
qed (auto intro: go_inv_start go_inv_write)

section \<open>Catching up\<close>

text \<open>A server that answers every page from one state.\<close>

definition answers :: "server \<Rightarrow> nat \<Rightarrow> int \<Rightarrow> go_event list fetched" where
  "answers s n since = events_reply (h_Reconcile (js_num since) s s)"

lemma answers_page:
  assumes "server_inv s" "up (sdb s)" "0 \<le> v" "v < 2 ^ 63"
  shows "answers s n v = Answer 200 (Some (map wire_event (served_events v (sdb s))))"
  using assms GetLatestVersion_latest [of "sdb s"]
  by (simp add: answers_def events_reply_def h_Reconcile_def go_parse_int64_js_num served_events_def
      ListEventsSince_page server_inv_def)

lemma answered_round:
  assumes "server_inv s" "up (sdb s)" "log_texts (sdb s)" "0 \<le> g_version c" "g_version c < 2 ^ 63"
  shows "Reconcile_round (answers s (g_requests c) (g_version c)) c =
     (if after_version (g_version c) (events (sdb s)) = [] then Some (Inr ()) else None,
      c\<lparr>g_requests := Suc (g_requests c),
        g_flags := goreplica.replayed (g_flags c) (served_events (g_version c) (sdb s)),
        g_version := last_version (g_version c) (served_events (g_version c) (sdb s))\<rparr>)"
proof -
  let ?v = "g_version c"
  have wf: "db_wf (sdb s)" using assms(1) by (simp add: server_inv_def)
  have "applied ?v (served_events ?v (sdb s)) = served_events ?v (sdb s)"
    using repo.fetch_all_applied [of "sdb s" ?v] wf assms(2) by simp
  moreover have "served_events ?v (sdb s) = [] \<longleftrightarrow> after_version ?v (events (sdb s)) = []"
    using repo.fetch_empty_iff [of "sdb s" ?v] wf assms(2) by simp
  ultimately show ?thesis
    using served_texts [OF wf assms(2,3)] by (simp add: answers_page [OF assms(1,2,4,5)] round_page)
qed

definition go_caught_up :: "db \<Rightarrow> go_client \<Rightarrow> bool" where
  "go_caught_up d c \<longleftrightarrow> g_version c = latest_version d \<and> holds (events d) (latest_version d) (g_flags c)"

lemma caught_up_empty:
  assumes "go_synced d c" "db_wf d" "after_version (g_version c) (events d) = []"
  shows "go_caught_up d c"
  using assms latest_version_none [OF assms(2,3)] by (simp add: go_caught_up_def go_synced_def)

lemma Reconcile_from_ends:
  assumes "server_inv s" "up (sdb s)" "log_texts (sdb s)" "latest_version (sdb s) < 2 ^ 63"
    and "go_synced (sdb s) c" "backlog_size (sdb s) (g_version c) \<le> 500 * m" "m \<le> left"
  shows "fst (Reconcile_from left (answers s) c) = Inr () \<and> go_caught_up (sdb s) (snd (Reconcile_from left (answers s) c)) \<and>
     g_requests (snd (Reconcile_from left (answers s) c)) \<le> g_requests c + m + 1"
  using assms(5-7)
proof (induction left arbitrary: c m)
  case 0
  then have "after_version (g_version c) (events (sdb s)) = []" by (simp add: backlog_size_def)
  then show ?case using 0 caught_up_empty assms(1) by (simp add: server_inv_def)
next
  case (Suc left)
  let ?d = "sdb s" and ?v = "g_version c"
  have wf: "db_wf ?d" using assms(1) by (simp add: server_inv_def)
  have v: "0 \<le> ?v" "?v < 2 ^ 63" using Suc.prems(1) assms(4) by (simp_all add: go_synced_def)
  note round = answered_round [OF assms(1-3) v]
  show ?case
  proof (cases "after_version ?v (events ?d) = []")
    case True
    then have none: "served_events ?v ?d = []" using repo.fetch_empty_iff [of ?d ?v] wf assms(2) by simp
    then have last: "Reconcile_round (answers s (g_requests c) ?v) c =
        (Some (Inr ()), c\<lparr>g_requests := Suc (g_requests c)\<rparr>)"
      by (simp add: round True last_version_def)
    have "go_caught_up ?d (c\<lparr>g_requests := Suc (g_requests c)\<rparr>)"
      using caught_up_empty [OF Suc.prems(1) wf True] by (simp add: go_caught_up_def)
    then show ?thesis by (simp add: last)
  next
    case False
    let ?c = "snd (Reconcile_round (answers s (g_requests c) ?v) c)"
    have page: "served_events ?v ?d \<noteq> []" using False repo.fetch_empty_iff [of ?d ?v] wf assms(2) by simp
    have c: "g_version ?c = last_version ?v (served_events ?v ?d)" "g_requests ?c = Suc (g_requests c)"
      by (simp_all add: round)
    have "go_synced ?d (snd (Reconcile_round (events_reply (h_Reconcile (js_num ?v) s s)) c))"
      using assms(1,3) Suc.prems(1) wf by (intro go_synced_page) auto
    then have sync: "go_synced ?d ?c" by (simp add: answers_def)
    have "after_version (g_version ?c) (events ?d) = drop 500 (after_version ?v (events ?d))"
      using repo.remaining_after_page [of ?d ?v] wf assms(2) by (simp add: c)
    then have "backlog_size ?d (g_version ?c) \<le> 500 * (m - 1)" using Suc.prems(2) by (simp add: backlog_size_def)
    moreover have m: "0 < m" using Suc.prems(2) False by (cases m) (simp_all add: backlog_size_def)
    ultimately have "fst (Reconcile_from left (answers s) ?c) = Inr () \<and> go_caught_up ?d (snd (Reconcile_from left (answers s) ?c)) \<and>
        g_requests (snd (Reconcile_from left (answers s) ?c)) \<le> g_requests ?c + (m - 1) + 1"
      using Suc.prems(3) by (intro Suc.IH [OF sync]) auto
    moreover have "Reconcile_from (Suc left) (answers s) c = Reconcile_from left (answers s) ?c"
      using False by (simp add: round)
    ultimately show ?thesis using m c(2) by simp
  qed
qed

text \<open>Whatever is answered: at most one request per turn, and the version never falls.\<close>

lemma applyLocked_version [simp]: "g_version (applyLocked t k p v c) = v"
  by (simp add: applyLocked_def Let_def)

lemma applyLocked_requests [simp]: "g_requests (applyLocked t k p v c) = g_requests c"
  by (simp add: applyLocked_def store_flag_def Let_def split: option.split)

lemma go_apply_mono:
  "g_version c \<le> g_version (fst (foldl go_apply (c, a) evs)) \<and>
   g_requests (fst (foldl go_apply (c, a) evs)) = g_requests c"
proof (induction evs arbitrary: c a)
  case (Cons ev evs)
  obtain c' a' where one: "go_apply (c, a) ev = (c', a')" by fastforce
  then have "g_version c \<le> g_version c'" "g_requests c' = g_requests c"
    by (auto simp: go_apply_def split: if_splits)
  then show ?case using Cons.IH [of c' a'] by (simp add: one)
qed simp

lemma round_mono:
  "g_version c \<le> g_version (snd (Reconcile_round resp c)) \<and>
   g_requests (snd (Reconcile_round resp c)) = Suc (g_requests c)"
proof (cases resp)
  case (Answer st b)
  then show ?thesis
    using go_apply_mono [of "c\<lparr>g_requests := Suc (g_requests c)\<rparr>" False]
    by (auto simp: Reconcile_round_def case_prod_beta Let_def split: option.split)
qed (simp add: Reconcile_round_def Let_def)

lemma Reconcile_from_mono:
  "g_version c \<le> g_version (snd (Reconcile_from left answer c)) \<and>
   g_requests (snd (Reconcile_from left answer c)) \<le> g_requests c + left"
proof (induction left arbitrary: c)
  case (Suc left)
  let ?r = "Reconcile_round (answer (g_requests c) (g_version c)) c"
  show ?case
  proof (cases "fst ?r")
    case None
    then have "Reconcile_from (Suc left) answer c = Reconcile_from left answer (snd ?r)"
      by (simp add: case_prod_beta)
    then show ?thesis using Suc.IH [of "snd ?r"] round_mono [of c "answer (g_requests c) (g_version c)"] by force
  next
    case (Some r)
    then have "Reconcile_from (Suc left) answer c = (r, snd ?r)" by (simp add: case_prod_beta)
    then show ?thesis using round_mono [of c "answer (g_requests c) (g_version c)"] by simp
  qed
qed simp

section \<open>The two SDKs\<close>

text \<open>The browser's view of the flags that a client of theory \<^verbatim>\<open>System\<close> holds.\<close>

definition browser_flag :: "utext FlagConfig \<Rightarrow> jsstring FlagConfig" where
  "browser_flag f =
     \<lparr>key = utf16 (key f), enabled = enabled f, rollout_percentage = rollout_percentage f,
      targeted_users = map utf16 (targeted_users f), flag_id = utf16 (flag_id f),
      description = utf16 (description f), version = version f\<rparr>"

definition browser_client :: "utext client \<Rightarrow> jsstring client" where
  "browser_client c =
     (constructor (refreshInterval c))\<lparr>cflags := map (\<lambda>(k, f). (utf16 k, browser_flag f)) (cflags c),
       configVersion := configVersion c\<rparr>"

lemma browser_get:
  assumes "\<forall>k' \<in> fst ` set m. valid_text k'" "valid_text k"
  shows "map_get (map (\<lambda>(k, f). (utf16 k, browser_flag f)) m) (utf16 k) = map_option browser_flag (map_get m k)"
  using assms(1)
proof (induction m)
  case (Cons kf m)
  then show ?case using utf16_inj [OF _ assms(2), of "fst kf"] by (cases kf) auto
qed simp

lemma ascii_valid: "ascii_text t \<Longrightarrow> valid_text t"
  by (auto simp: list_all_iff scalar_def)

lemma decide_alike:
  assumes "ascii_text k" "ascii_text u" "list_all valid_text (targeted_users f)"
  shows "(if \<not> enabled (browser_flag f) then False
      else if utf16 u \<in> set (targeted_users (browser_flag f)) then True
      else isInRollout (utf16 k) (utf16 u) (rollout_percentage (browser_flag f))) \<longleftrightarrow>
    (if \<not> enabled f then False else if u \<in> set (targeted_users f) then True
      else inRollout (utf8 k) (utf8 u) (rollout_percentage f))"
proof -
  have "utf16 s = utf16 u \<longleftrightarrow> s = u" if "s \<in> set (targeted_users f)" for s
    using assms(3) that utf16_inj [OF _ ascii_valid [OF assms(2)], of s] by (simp add: list_all_iff)
  then have "utf16 u \<in> set (map utf16 (targeted_users f)) \<longleftrightarrow> u \<in> set (targeted_users f)"
    by (auto simp: image_iff) metis
  moreover have "isInRollout (utf16 k) (utf16 u) p = inRollout (utf8 k) (utf8 u) p" for p
    using bucket_ascii [OF assms(1,2)]
    by (simp add: isInRollout_bucket IsUserInRollout_bucket inRollout_IsUserInRollout)
  ultimately show ?thesis by (simp add: browser_flag_def)
qed

lemma held_texts:
  assumes "log_texts d" "holds (events d) v get" "get k = Some f"
  shows "ascii_text k" "list_all valid_text (targeted_users f)"
proof -
  obtain g where g: "log_state (upto_version v (events d)) k = Some g" "f = as_config g"
    using assms(2,3) by (auto simp: holds_def)
  then obtain e where "e \<in> set (events d)" "payload_flag (payload e) = Some g" "flag_key e = k"
    using log_state_Some by (fastforce simp: upto_version_def)
  then show "ascii_text k" "list_all valid_text (targeted_users f)"
    using assms(1) g(2) by (auto simp: log_texts_def texts_ok_def)
qed

section \<open>Properties of the Go client\<close>


definition ops_run :: "op list \<Rightarrow> gosys \<Rightarrow> gosys" where
  "ops_run ws z = foldl (\<lambda>z w. go_server_op w z) z ws"

lemma ops_run_reach: "go_reach z \<Longrightarrow> \<forall>w \<in> set ws. op_texts w \<Longrightarrow> go_reach (ops_run ws z)"
proof (induction ws arbitrary: z)
  case (Cons w ws)
  then show ?case using go_write [of z w] by (simp add: ops_run_def)
qed (simp add: ops_run_def)

definition two_writes :: gosys where
  "two_writes = ops_run
     [OpCreate 2 (ascii ''u'') \<lparr>c_key = ascii ''a'', c_description = [], c_enabled = True,
        c_rollout_percentage = 5, c_targeted_users = [ascii ''eve'']\<rparr>,
      OpToggle 3 (ascii ''u'')] (go_start empty_server False)"

lemma two_writes_reach: "go_reach two_writes"
  unfolding two_writes_def
  by (intro ops_run_reach go_init empty_server_inv) (auto simp: log_texts_def empty_server_def empty_db_def
      ascii_def scalar_def)



lemma two_writes_db:
  "up (sdb (go_srv two_writes))" "map ev_version (events (sdb (go_srv two_writes))) = [1, 2]"
  "go_cli two_writes = New False"
  by (simp_all add: two_writes_def ops_run_def go_start_def go_server_op_def empty_server_def empty_db_def
      CreateFlag_def create_error_def GetByKey_def row_by_key_def Create_def nextVersion_def create_tx_def
      constraint_error_def row_by_id_def appendEvent_def publish_defs Publish_def ToggleFlag_def Toggle_def
      toggle_tx_def replace_row_def utf8_def utf8_char_def ascii_def keyRegex_def key_byte_def Let_def)


text \<open>Whatever the server answers, a reconcile of the Go client ends after at most 100000
  requests, and the client's version never falls.\<close>

theorem go_reconcile_terminates:
  "g_requests (snd (Reconcile answer c)) \<le> g_requests c + 100000 \<and>
   g_version c \<le> g_version (snd (Reconcile answer c))"
  using Reconcile_from_mono [of c MAX_PAGES answer] by (simp add: Reconcile_def MAX_PAGES_def)


definition one_write :: gosys where
  "one_write = ops_run
     [OpCreate 2 (ascii ''u'') \<lparr>c_key = ascii ''a'', c_description = [], c_enabled = True,
        c_rollout_percentage = 5, c_targeted_users = [ascii ''eve'']\<rparr>] (go_start empty_server False)"

lemma one_write_reach: "go_reach one_write"
  unfolding one_write_def
  by (intro ops_run_reach go_init empty_server_inv) (auto simp: log_texts_def empty_server_def empty_db_def
      ascii_def scalar_def)

lemma one_write_snapshot:
  "\<exists>fs. h_GetAllFlags (go_srv one_write) (go_srv one_write) = http 200 (BSnapshot fs 1)"
  "go_srv one_write \<in> set (go_hist one_write)"
  by (simp_all add: one_write_def ops_run_def go_start_def go_server_op_def empty_server_def empty_db_def
      CreateFlag_def create_error_def GetByKey_def row_by_key_def Create_def nextVersion_def create_tx_def
      constraint_error_def row_by_id_def appendEvent_def publish_defs Publish_def
      utf8_def utf8_char_def ascii_def keyRegex_def key_byte_def Let_def
      h_GetAllFlags_def List_flags_def GetLatestVersion_def)


text \<open>The pauses between connections double from half a second to five, and stay there.\<close>

theorem backoff_bounded:
  "500 \<le> backoff_after n \<and> backoff_after n \<le> 5000 \<and> (4 \<le> n \<longrightarrow> backoff_after n = 5000)"
proof -
  have step: "backoff_after (Suc m) = next_backoff (backoff_after m)" for m
    by (simp add: backoff_after_def)
  have b0: "backoff_after 0 = 500" by (simp add: backoff_after_def)
  have b1: "backoff_after 1 = 1000" using step [of 0] b0 by (simp add: next_backoff_def)
  have b2: "backoff_after 2 = 2000" using step [of 1] b1 by (simp add: next_backoff_def numeral_2_eq_2)
  have b3: "backoff_after 3 = 4000" using step [of 2] b2 by (simp add: next_backoff_def)
  have b4: "backoff_after 4 = 5000" using step [of 3] b3 by (simp add: next_backoff_def)
  have "backoff_after (k + 4) = 5000" for k
    by (induction k) (simp_all only: add_0 add_Suc b4 step, simp add: next_backoff_def)
  then have late: "backoff_after n = 5000" if "4 \<le> n" using that by (metis add.commute le_Suc_ex)
  show ?thesis
  proof (cases "4 \<le> n")
    case False
    then have "n = 0 \<or> n = 1 \<or> n = 2 \<or> n = 3" by auto
    then show ?thesis using b0 b1 b2 b3 by auto
  qed (simp add: late)
qed

end
