(* ===== verification/Broker.thy ===== *)
theory Broker
  imports Prelude
begin

text \<open>
  The fan-out of one backend (\<^verbatim>\<open>internal/sse/broker.go\<close>): one goroutine owns the set of client
  channels, each with a buffer of sixteen events; every connection has a handler that reads its
  channel and writes frames. A send to a full channel drops the client and closes the channel. The
  branches of the \<^verbatim>\<open>select\<close> in \<^verbatim>\<open>Run\<close> are functions on the broker; what the handlers and the rest of
  the program do, in any order, is a step relation. Log lines are left out; the gauge of
  the connected clients is in theory Instruments.
\<close>

section \<open>The broker\<close>

text \<open>Channels are numbers. A closed channel still hands out what is in its buffer.\<close>

record 'e broker =
  br_clients :: "nat list"
  br_chan :: "nat \<Rightarrow> 'e list"
  br_closed :: "nat list"
  br_down :: bool

definition NewBroker :: "'e broker" where
  "NewBroker = \<lparr>br_clients = [], br_chan = (\<lambda>c. []), br_closed = [], br_down = False\<rparr>"

definition CHANNEL_CAP :: nat where
  "CHANNEL_CAP = 16"

definition close_client :: "nat \<Rightarrow> 'e broker \<Rightarrow> 'e broker" where
  "close_client c b = b\<lparr>br_clients := removeAll c (br_clients b), br_closed := br_closed b @ [c]\<rparr>"

definition broker_register :: "nat \<Rightarrow> 'e broker \<Rightarrow> 'e broker" where
  "broker_register c b = b\<lparr>br_clients := br_clients b @ [c]\<rparr>"

definition broker_unregister :: "nat \<Rightarrow> 'e broker \<Rightarrow> 'e broker" where
  "broker_unregister c b = (if \<not> br_down b \<and> c \<in> set (br_clients b) then close_client c b else b)"

definition send_client :: "'e \<Rightarrow> 'e broker \<Rightarrow> nat \<Rightarrow> 'e broker" where
  "send_client e b c =
     (if length (br_chan b c) < CHANNEL_CAP then b\<lparr>br_chan := (br_chan b)(c := br_chan b c @ [e])\<rparr>
      else close_client c b)"

definition Broadcast :: "'e \<Rightarrow> 'e broker \<Rightarrow> 'e broker" where
  "Broadcast e b = (if br_down b then b else foldl (send_client e) b (br_clients b))"

definition Shutdown :: "'e broker \<Rightarrow> 'e broker" where
  "Shutdown b =
     (if br_down b then b else (foldl (\<lambda>b c. close_client c b) b (br_clients b))\<lparr>br_down := True\<rparr>)"

definition ClientCount :: "'e broker \<Rightarrow> nat" where
  "ClientCount b = (if br_down b then 0 else length (br_clients b))"

section \<open>Handlers and runs\<close>

text \<open>
  Beside the broker: the next fresh channel, what each handler has written, the handlers that have
  returned, and, as a history, every event handed to the broker and how many there were when a
  channel was registered.
\<close>

record 'e node =
  nd_broker :: "'e broker"
  nd_next :: nat
  nd_written :: "nat \<Rightarrow> 'e list"
  nd_ended :: "nat list"
  nd_log :: "'e list"
  nd_joined :: "nat \<Rightarrow> nat"

definition node_start :: "'e node" where
  "node_start = \<lparr>nd_broker = NewBroker, nd_next = 0, nd_written = (\<lambda>c. []), nd_ended = [], nd_log = [],
     nd_joined = (\<lambda>c. 0)\<rparr>"

datatype 'e node_input = Connect | Announce 'e | Deliver nat | SeeClosed nat | Quit nat | Stop

definition serving_handler :: "nat \<Rightarrow> 'e node \<Rightarrow> bool" where
  "serving_handler c n \<longleftrightarrow> c < nd_next n \<and> c \<notin> set (nd_ended n)"

fun node_can :: "'e node_input \<Rightarrow> 'e node \<Rightarrow> bool" where
  "node_can (Deliver c) n \<longleftrightarrow> serving_handler c n \<and> br_chan (nd_broker n) c \<noteq> []"
| "node_can (SeeClosed c) n \<longleftrightarrow>
     serving_handler c n \<and> br_chan (nd_broker n) c = [] \<and> c \<in> set (br_closed (nd_broker n))"
| "node_can (Quit c) n \<longleftrightarrow> serving_handler c n"
| "node_can _ n \<longleftrightarrow> True"

definition handler_returns :: "nat \<Rightarrow> 'e node \<Rightarrow> 'e node" where
  "handler_returns c n =
     n\<lparr>nd_ended := c # nd_ended n, nd_broker := broker_unregister c (nd_broker n)\<rparr>"

fun node_do :: "'e node_input \<Rightarrow> 'e node \<Rightarrow> 'e node" where
  "node_do Connect n =
     (let c = nd_next n; n = n\<lparr>nd_next := Suc c\<rparr>
      in if br_down (nd_broker n) then n\<lparr>nd_ended := c # nd_ended n\<rparr>
         else n\<lparr>nd_broker := broker_register c (nd_broker n), nd_joined := (nd_joined n)(c := length (nd_log n))\<rparr>)"
| "node_do (Announce e) n =
     (if br_down (nd_broker n) then n
      else n\<lparr>nd_broker := Broadcast e (nd_broker n), nd_log := nd_log n @ [e]\<rparr>)"
| "node_do (Deliver c) n =
     (let b = nd_broker n
      in n\<lparr>nd_written := (nd_written n)(c := nd_written n c @ [hd (br_chan b c)]),
           nd_broker := b\<lparr>br_chan := (br_chan b)(c := tl (br_chan b c))\<rparr>\<rparr>)"
| "node_do (SeeClosed c) n = handler_returns c n"
| "node_do (Quit c) n = handler_returns c n"
| "node_do Stop n = n\<lparr>nd_broker := Shutdown (nd_broker n)\<rparr>"

inductive node_reach :: "'e node \<Rightarrow> bool" where
  node_init: "node_reach node_start"
| node_next: "node_reach n \<Longrightarrow> node_can i n \<Longrightarrow> node_reach (node_do i n)"

section \<open>What a broadcast and a shutdown do to each channel\<close>

text \<open>The broker visits its clients in any order; each visit touches one channel only.\<close>

lemma close_client_sel [simp]:
  "br_chan (close_client c b) = br_chan b" "br_down (close_client c b) = br_down b"
  "br_clients (close_client c b) = removeAll c (br_clients b)" "br_closed (close_client c b) = br_closed b @ [c]"
  by (simp_all add: close_client_def)

lemma send_all:
  assumes "distinct cs"
  shows "br_chan (foldl (send_client e) b cs) =
           (\<lambda>c. if c \<in> set cs \<and> length (br_chan b c) < CHANNEL_CAP then br_chan b c @ [e] else br_chan b c) \<and>
         br_clients (foldl (send_client e) b cs) =
           filter (\<lambda>c. \<not> (c \<in> set cs \<and> CHANNEL_CAP \<le> length (br_chan b c))) (br_clients b) \<and>
         br_closed (foldl (send_client e) b cs) = br_closed b @ filter (\<lambda>c. CHANNEL_CAP \<le> length (br_chan b c)) cs \<and>
         br_down (foldl (send_client e) b cs) = br_down b"
  using assms
proof (induction cs arbitrary: b)
  case (Cons d cs)
  then have d: "d \<notin> set cs" by simp
  show ?case
  proof (cases "length (br_chan b d) < CHANNEL_CAP")
    case True
    let ?b = "b\<lparr>br_chan := (br_chan b)(d := br_chan b d @ [e])\<rparr>"
    have "filter (\<lambda>c. CHANNEL_CAP \<le> length (br_chan ?b c)) cs = filter (\<lambda>c. CHANNEL_CAP \<le> length (br_chan b c)) cs"
      using d by (intro filter_cong) auto
    moreover have "filter (\<lambda>c. \<not> (c \<in> set cs \<and> CHANNEL_CAP \<le> length (br_chan ?b c))) (br_clients b) =
        filter (\<lambda>c. \<not> (c \<in> set (d # cs) \<and> CHANNEL_CAP \<le> length (br_chan b c))) (br_clients b)"
      using d True by (intro filter_cong) auto
    ultimately show ?thesis using Cons.IH [of ?b] Cons.prems True d
      by (auto simp: send_client_def fun_eq_iff)
  next
    case False
    have "filter (\<lambda>c. \<not> (c \<in> set cs \<and> CHANNEL_CAP \<le> length (br_chan b c))) (removeAll d (br_clients b)) =
        filter (\<lambda>c. \<not> (c \<in> set (d # cs) \<and> CHANNEL_CAP \<le> length (br_chan b c))) (br_clients b)"
      using False by (auto simp: removeAll_filter_not_eq intro!: filter_cong)
    then show ?thesis using Cons.IH [of "close_client d b"] Cons.prems False d
      by (auto simp: send_client_def fun_eq_iff)
  qed
qed simp

lemma close_all:
  "br_chan (foldl (\<lambda>b c. close_client c b) b cs) = br_chan b \<and>
   br_clients (foldl (\<lambda>b c. close_client c b) b cs) = filter (\<lambda>c. c \<notin> set cs) (br_clients b) \<and>
   br_closed (foldl (\<lambda>b c. close_client c b) b cs) = br_closed b @ cs"
  by (induction cs arbitrary: b) (auto simp: removeAll_filter_not_eq intro!: filter_cong)

section \<open>The invariant\<close>

definition behind :: "'e node \<Rightarrow> nat \<Rightarrow> 'e list" where
  "behind n c = nd_written n c @ br_chan (nd_broker n) c"

definition channel_ok :: "'e node \<Rightarrow> nat \<Rightarrow> bool" where
  "channel_ok n c \<longleftrightarrow> nd_joined n c \<le> length (nd_log n) \<and> length (br_chan (nd_broker n) c) \<le> CHANNEL_CAP \<and>
     (\<exists>k. behind n c = take k (drop (nd_joined n c) (nd_log n))) \<and>
     (c \<in> set (br_clients (nd_broker n)) \<longrightarrow> behind n c = drop (nd_joined n c) (nd_log n))"

definition clients_ok :: "'e node \<Rightarrow> bool" where
  "clients_ok n \<longleftrightarrow>
     (let b = nd_broker n
      in distinct (br_clients b) \<and> distinct (br_closed b) \<and> set (br_clients b) \<inter> set (br_closed b) = {} \<and>
         set (br_clients b) \<subseteq> {..<nd_next n} \<and> set (br_closed b) \<subseteq> {..<nd_next n} \<and>
         set (br_clients b) \<inter> set (nd_ended n) = {} \<and> set (nd_ended n) \<subseteq> {..<nd_next n} \<and>
         (br_down b \<longrightarrow> br_clients b = []))"

definition node_inv :: "'e node \<Rightarrow> bool" where
  "node_inv n \<longleftrightarrow> clients_ok n \<and> (\<forall>c \<ge> nd_next n. behind n c = []) \<and> (\<forall>c. channel_ok n c)"

lemma node_invI:
  assumes "clients_ok n" "\<And>c. nd_next n \<le> c \<Longrightarrow> behind n c = []" "\<And>c. channel_ok n c"
  shows "node_inv n"
  using assms by (simp add: node_inv_def)

lemma channel_ok_cong:
  assumes "channel_ok n c" "nd_joined n' c = nd_joined n c" "nd_log n' = nd_log n" "behind n' c = behind n c"
    "length (br_chan (nd_broker n') c) \<le> length (br_chan (nd_broker n) c)"
    "c \<in> set (br_clients (nd_broker n')) \<Longrightarrow> c \<in> set (br_clients (nd_broker n))"
  shows "channel_ok n' c"
  using assms by (auto simp: channel_ok_def)

text \<open>A handler that returns.\<close>

lemma returns_sel:
  assumes "clients_ok n"
  shows "br_clients (nd_broker (handler_returns c n)) = removeAll c (br_clients (nd_broker n))"
    "br_closed (nd_broker (handler_returns c n)) =
       br_closed (nd_broker n) @ (if c \<in> set (br_clients (nd_broker n)) then [c] else [])"
    "br_down (nd_broker (handler_returns c n)) = br_down (nd_broker n)"
    "br_chan (nd_broker (handler_returns c n)) = br_chan (nd_broker n)"
    "nd_next (handler_returns c n) = nd_next n" "nd_log (handler_returns c n) = nd_log n"
    "nd_joined (handler_returns c n) = nd_joined n" "nd_written (handler_returns c n) = nd_written n"
    "nd_ended (handler_returns c n) = c # nd_ended n"
  using assms by (auto simp: handler_returns_def broker_unregister_def clients_ok_def Let_def)

lemma inv_returns:
  assumes "node_inv n" "c < nd_next n"
  shows "node_inv (handler_returns c n)"
proof -
  have ok: "clients_ok n" using assms(1) by (simp add: node_inv_def)
  note sel = returns_sel [OF ok]
  have same: "behind (handler_returns c n) d = behind n d" for d by (simp add: behind_def sel)
  show ?thesis
  proof (rule node_invI)
    show "clients_ok (handler_returns c n)"
      using ok assms(2) unfolding clients_ok_def Let_def sel by (auto simp: distinct_removeAll)
    show "behind (handler_returns c n) d = []" if "nd_next (handler_returns c n) \<le> d" for d
      using that assms(1) by (simp add: same sel node_inv_def)
    show "channel_ok (handler_returns c n) d" for d
      by (rule channel_ok_cong [of n d]) (use assms(1) in \<open>simp_all add: same sel node_inv_def\<close>)
  qed
qed

lemma inv_deliver:
  assumes "node_inv n" "br_chan (nd_broker n) c \<noteq> []"
  shows "node_inv (node_do (Deliver c) n)"
proof -
  let ?n = "node_do (Deliver c) n"
  have same: "behind ?n d = behind n d" for d
    using assms(2) by (simp add: behind_def Let_def)
  show ?thesis
  proof (rule node_invI)
    show "clients_ok ?n" using assms(1) by (simp add: node_inv_def clients_ok_def Let_def)
    show "behind ?n d = []" if "nd_next ?n \<le> d" for d
      using that assms(1) unfolding same by (simp add: node_inv_def Let_def)
    show "channel_ok ?n d" for d
      by (rule channel_ok_cong [of n d]) (use assms(1) in \<open>simp_all only: same, simp_all add: Let_def node_inv_def\<close>)
  qed
qed

lemma inv_connect:
  assumes "node_inv n"
  shows "node_inv (node_do Connect n)"
proof -
  let ?n = "node_do Connect n"
  have ok: "clients_ok n" and new: "behind n (nd_next n) = []" using assms by (simp_all add: node_inv_def)
  have sel: "nd_log ?n = nd_log n" "nd_written ?n = nd_written n" "br_chan (nd_broker ?n) = br_chan (nd_broker n)"
    "nd_next ?n = Suc (nd_next n)"
    by (simp_all add: Let_def broker_register_def)
  have same: "behind ?n d = behind n d" for d by (simp only: behind_def sel)
  show ?thesis
  proof (rule node_invI)
    show "clients_ok ?n"
      using ok by (cases "br_down (nd_broker n)") (auto simp: clients_ok_def broker_register_def Let_def)
    show "behind ?n d = []" if "nd_next ?n \<le> d" for d
      using that assms unfolding same sel by (simp add: node_inv_def)
    show "channel_ok ?n d" for d
    proof (cases "d = nd_next n \<and> \<not> br_down (nd_broker n)")
      case True
      then have j: "nd_joined ?n d = length (nd_log n)" and d: "d = nd_next n" by (simp_all add: Let_def)
      have "br_chan (nd_broker n) d = []" using True new by (simp add: behind_def)
      then show ?thesis using True new unfolding channel_ok_def same sel j by simp
    next
      case False
      then have j: "nd_joined ?n d = nd_joined n d"
        and c: "d \<in> set (br_clients (nd_broker ?n)) \<Longrightarrow> d \<in> set (br_clients (nd_broker n))"
        by (auto simp: Let_def broker_register_def split: if_splits)
      have "channel_ok n d" using assms by (simp add: node_inv_def)
      then show ?thesis by (rule channel_ok_cong) (simp_all only: j sel(1) same sel(3) c order_refl)
    qed
  qed
qed

lemma inv_stop:
  assumes "node_inv n"
  shows "node_inv (node_do Stop n)"
proof (cases "br_down (nd_broker n)")
  case False
  let ?b = "nd_broker n" let ?n = "node_do Stop n"
  have ok: "clients_ok n" using assms by (simp add: node_inv_def)
  note all = close_all [of ?b "br_clients ?b"]
  have sel: "br_clients (nd_broker ?n) = []" "br_closed (nd_broker ?n) = br_closed ?b @ br_clients ?b"
    "br_chan (nd_broker ?n) = br_chan ?b" "nd_next ?n = nd_next n" "nd_log ?n = nd_log n"
    "nd_joined ?n = nd_joined n" "nd_written ?n = nd_written n" "nd_ended ?n = nd_ended n"
    using False all by (simp_all add: Shutdown_def)
  have same: "behind ?n d = behind n d" for d by (simp only: behind_def sel)
  show ?thesis
  proof (rule node_invI)
    show "clients_ok ?n" using ok unfolding clients_ok_def Let_def sel by auto
    show "behind ?n d = []" if "nd_next ?n \<le> d" for d
      using that assms unfolding same sel by (simp add: node_inv_def)
    show "channel_ok ?n d" for d
      by (rule channel_ok_cong [of n d]) (use assms in \<open>simp_all only: same sel, simp_all add: node_inv_def\<close>)
  qed
qed (use assms in \<open>simp add: Shutdown_def\<close>)

text \<open>One more event behind what a channel has.\<close>

lemma channel_ok_grow:
  assumes "channel_ok n d" "nd_joined n' d = nd_joined n d" "nd_log n' = nd_log n @ [e]"
    "length (br_chan (nd_broker n') d) \<le> CHANNEL_CAP"
    "if d \<in> set (br_clients (nd_broker n')) then d \<in> set (br_clients (nd_broker n)) \<and> behind n' d = behind n d @ [e]
     else behind n' d = behind n d"
  shows "channel_ok n' d"
proof (cases "d \<in> set (br_clients (nd_broker n'))")
  case True
  then have "behind n' d = drop (nd_joined n d) (nd_log n @ [e])" using assms by (simp add: channel_ok_def)
  moreover have "nd_joined n d \<le> length (nd_log n)" using assms(1) by (simp add: channel_ok_def)
  ultimately show ?thesis using assms(2-4)
    unfolding channel_ok_def by (auto intro!: exI [of _ "Suc (length (nd_log n))"])
next
  case False
  obtain k where k: "behind n d = take k (drop (nd_joined n d) (nd_log n))" and j: "nd_joined n d \<le> length (nd_log n)"
    using assms(1) by (auto simp: channel_ok_def)
  have "behind n d = take (min k (length (nd_log n) - nd_joined n d)) (drop (nd_joined n d) (nd_log n @ [e]))"
    using k j by (simp add: min_def)
  then have ex: "\<exists>k. behind n d = take k (drop (nd_joined n d) (nd_log n @ [e]))" by (rule exI)
  have eq: "behind n' d = behind n d" using False assms(5) by simp
  show ?thesis
    unfolding channel_ok_def assms(2,3) eq
  proof (intro conjI)
    show "nd_joined n d \<le> length (nd_log n @ [e])" using j by simp
    show "length (br_chan (nd_broker n') d) \<le> CHANNEL_CAP" by (rule assms(4))
    show "d \<in> set (br_clients (nd_broker n')) \<longrightarrow> behind n d = drop (nd_joined n d) (nd_log n @ [e])" using False by simp
  qed (rule ex)
qed

lemma inv_announce:
  assumes "node_inv n"
  shows "node_inv (node_do (Announce e) n)"
proof (cases "br_down (nd_broker n)")
  case False
  let ?b = "nd_broker n" let ?n = "node_do (Announce e) n"
  have ok: "clients_ok n" using assms by (simp add: node_inv_def)
  then have dist: "distinct (br_clients ?b)" by (simp add: clients_ok_def Let_def)
  note all = send_all [OF dist, of e ?b]
  have sel: "br_chan (nd_broker ?n) = (\<lambda>c. if c \<in> set (br_clients ?b) \<and> length (br_chan ?b c) < CHANNEL_CAP
        then br_chan ?b c @ [e] else br_chan ?b c)"
    "br_clients (nd_broker ?n) = filter (\<lambda>c. \<not> (c \<in> set (br_clients ?b) \<and> CHANNEL_CAP \<le> length (br_chan ?b c))) (br_clients ?b)"
    "br_closed (nd_broker ?n) = br_closed ?b @ filter (\<lambda>c. CHANNEL_CAP \<le> length (br_chan ?b c)) (br_clients ?b)"
    "br_down (nd_broker ?n) = False" "nd_next ?n = nd_next n" "nd_log ?n = nd_log n @ [e]"
    "nd_joined ?n = nd_joined n" "nd_written ?n = nd_written n" "nd_ended ?n = nd_ended n"
    using False all by (simp_all add: Broadcast_def)
  show ?thesis
  proof (rule node_invI)
    show "clients_ok ?n" using ok unfolding clients_ok_def Let_def sel by auto
    show "behind ?n d = []" if "nd_next ?n \<le> d" for d
    proof -
      have "d \<notin> set (br_clients ?b)" using that ok unfolding sel by (auto simp: clients_ok_def Let_def)
      then show ?thesis using that assms unfolding sel behind_def by (auto simp: node_inv_def behind_def)
    qed
    show "channel_ok ?n d" for d
    proof (rule channel_ok_grow [of n d])
      show "channel_ok n d" using assms by (simp add: node_inv_def)
      then have "length (br_chan ?b d) \<le> CHANNEL_CAP" by (simp add: channel_ok_def)
      then show "length (br_chan (nd_broker ?n) d) \<le> CHANNEL_CAP" unfolding sel by simp
    qed (simp_all only: sel behind_def, auto simp: not_less)
  qed
qed (use assms in simp)

lemma node_inv_reach: "node_reach n \<Longrightarrow> node_inv n"
proof (induction rule: node_reach.induct)
  case node_init
  show ?case by (simp add: node_inv_def clients_ok_def node_start_def NewBroker_def channel_ok_def behind_def)
next
  case (node_next n i)
  then show ?case
    by (cases i) (auto simp: inv_connect inv_announce inv_deliver inv_stop inv_returns serving_handler_def
        simp del: node_do.simps(1-3,6))
qed

text \<open>No handler is stranded: one that still runs is registered, or its channel is closed.\<close>

definition none_stranded :: "'e node \<Rightarrow> bool" where
  "none_stranded n \<longleftrightarrow>
     {..<nd_next n} - set (nd_ended n) \<subseteq> set (br_clients (nd_broker n)) \<union> set (br_closed (nd_broker n))"

lemma announce_clients:
  "distinct (br_clients b) \<Longrightarrow>
     set (br_clients (Broadcast e b)) \<union> set (br_closed (Broadcast e b)) = set (br_clients b) \<union> set (br_closed b)"
  using send_all [of "br_clients b" e b] by (auto simp: Broadcast_def)

lemma shutdown_clients:
  "set (br_clients (Shutdown b)) \<union> set (br_closed (Shutdown b)) = set (br_clients b) \<union> set (br_closed b)"
  using close_all [of b "br_clients b"] by (auto simp: Shutdown_def)

lemma stranded_returns:
  "none_stranded n \<Longrightarrow> none_stranded (handler_returns c n)"
  by (auto simp: none_stranded_def handler_returns_def broker_unregister_def)

lemma node_never_stranded: "node_reach n \<Longrightarrow> none_stranded n"
proof (induction rule: node_reach.induct)
  case node_init
  show ?case by (simp add: none_stranded_def node_start_def)
next
  case (node_next n i)
  have "distinct (br_clients (nd_broker n))"
    using node_inv_reach [OF node_next.hyps(1)] by (simp add: node_inv_def clients_ok_def Let_def)
  note keep = announce_clients [OF this] shutdown_clients
  show ?case
    using node_next.IH stranded_returns [OF node_next.IH]
    by (cases i) (auto simp: none_stranded_def keep broker_register_def Let_def lessThan_Suc)
qed

section \<open>Properties of the fan-out\<close>

text \<open>C22: Whatever connects, announces, reads, fails and shuts down in whatever order: every connection
  has been sent a contiguous run of the node's events, in order and from the moment it
  registered, with none missing in between and none twice; one that is still registered is behind by
  at most the sixteen events in its channel; no channel is closed twice, and nothing is ever sent
  on a closed one.\<close>

theorem connections_get_contiguous_events:
  assumes "node_reach n"
  shows "(\<exists>k. nd_written n c = take k (drop (nd_joined n c) (nd_log n))) \<and>
         (c \<in> set (br_clients (nd_broker n)) \<longrightarrow>
            length (nd_log n) \<le> nd_joined n c + length (nd_written n c) + 16) \<and>
         distinct (br_closed (nd_broker n)) \<and> set (br_clients (nd_broker n)) \<inter> set (br_closed (nd_broker n)) = {} \<and>
         (serving_handler c n \<longrightarrow> c \<in> set (br_clients (nd_broker n)) \<or> c \<in> set (br_closed (nd_broker n)))"
proof -
  have inv: "node_inv n" using assms by (rule node_inv_reach)
  then have ok: "channel_ok n c" by (simp add: node_inv_def)
  then obtain k where "nd_written n c @ br_chan (nd_broker n) c = take k (drop (nd_joined n c) (nd_log n))"
    by (auto simp: channel_ok_def behind_def)
  then have "nd_written n c = take (length (nd_written n c)) (take k (drop (nd_joined n c) (nd_log n)))"
    by (metis append_eq_conv_conj)
  then have "\<exists>k. nd_written n c = take k (drop (nd_joined n c) (nd_log n))" by (metis take_take)
  moreover have "length (nd_log n) \<le> nd_joined n c + length (nd_written n c) + 16"
    if "c \<in> set (br_clients (nd_broker n))"
  proof -
    have "length (nd_written n c) + length (br_chan (nd_broker n) c) = length (nd_log n) - nd_joined n c"
      using ok that by (metis channel_ok_def behind_def length_append length_drop)
    then show ?thesis using ok by (auto simp: channel_ok_def CHANNEL_CAP_def)
  qed
  ultimately show ?thesis using inv node_never_stranded [OF assms]
    by (auto simp: node_inv_def clients_ok_def none_stranded_def serving_handler_def Let_def)
qed

fun node_run :: "'e node_input list \<Rightarrow> 'e node \<Rightarrow> 'e node" where
  "node_run [] n = n"
| "node_run (i # is) n = (if node_can i n then node_run is (node_do i n) else n)"

lemma node_run_reach: "node_reach n \<Longrightarrow> node_reach (node_run is n)"
  by (induction "is" arbitrary: n) (simp_all add: node_next)

definition short_run :: "nat node" where
  "short_run = node_run [Announce 7, Connect, Announce 1, Announce 2, Deliver 0, Quit 0, Announce 3] node_start"

theorem connections_get_contiguous_events_witness:
  "nd_written short_run 0 = [1] \<and> nd_log short_run = [7, 1, 2, 3] \<and> distinct (br_closed (nd_broker short_run))"
proof -
  have "nd_written short_run 0 = [1] \<and> nd_log short_run = [7, 1, 2, 3]"
    by (simp add: short_run_def node_start_def NewBroker_def broker_register_def Broadcast_def send_client_def
        CHANNEL_CAP_def serving_handler_def handler_returns_def broker_unregister_def close_client_def Let_def)
  then show ?thesis
    using connections_get_contiguous_events [OF node_run_reach [OF node_init],
        of "[Announce 7, Connect, Announce 1, Announce 2, Deliver 0, Quit 0, Announce 3]"]
    by (simp only: short_run_def) blast
qed

end
