(* ===== verification/LivePath.thy ===== *)
theory LivePath
  imports JsonText GoClient Broker
begin

text \<open>
  The way of an announcement as text: \<^verbatim>\<open>json.Marshal\<close> and \<^verbatim>\<open>sse.Publish\<close> on the node that wrote
  (\<^verbatim>\<open>flag_service.go\<close>, \<^verbatim>\<open>sse/wire.go\<close>), \<^verbatim>\<open>sse.Subscribe\<close> on every node, the fan-out of theory Broker, the
  stream of theory SseWire, and \<^verbatim>\<open>json.Unmarshal\<close> in the Go client. Redis itself and the layout of time stamps
  are arguments.
\<close>

section \<open>Publishing\<close>

abbreviation text_json :: "utext \<Rightarrow> json" where
  "text_json t \<equiv> JStr (utf16 t)"

text \<open>\<^verbatim>\<open>flag.ToResponse()\<close>, and the object that names a deleted flag; \<open>time\<close> lays out a time.\<close>

definition flag_json :: "(int \<Rightarrow> jsstring) \<Rightarrow> utext Flag \<Rightarrow> json" where
  "flag_json time f =
     JObj [(''id'', text_json (flag_id f)), (''key'', text_json (key f)), (''description'', text_json (description f)),
           (''enabled'', JBool (enabled f)), (''rollout_percentage'', JNum (rollout_percentage f)),
           (''targeted_users'', JArr (map text_json (targeted_users f))), (''version'', JNum (version f)),
           (''created_at'', JStr (time (created_at f))), (''updated_at'', JStr (time (updated_at f)))]"

fun env_json :: "(int \<Rightarrow> jsstring) \<Rightarrow> envelope \<Rightarrow> json" where
  "env_json time (EnvUpdated v f) = flag_json time f"
| "env_json time (EnvDeleted v k) = JObj [(''key'', text_json k)]"

text \<open>\<^verbatim>\<open>Publish\<close>: the envelope with its time of publication and trace context, when it has them.\<close>

definition envelope_json :: "(int \<Rightarrow> jsstring) \<Rightarrow> int \<Rightarrow> jsstring \<Rightarrow> envelope \<Rightarrow> json" where
  "envelope_json time ts traceparent env =
     JObj ([(''type'', JStr (env_name env)), (''version'', JNum (env_version env)), (''data'', env_json time env)] @
           (if ts \<noteq> 0 then [(''ts'', JNum ts)] else []) @
           (if traceparent \<noteq> [] then [(''traceparent'', JStr traceparent)] else []))"

definition published :: "(int \<Rightarrow> jsstring) \<Rightarrow> int \<Rightarrow> jsstring \<Rightarrow> envelope \<Rightarrow> jsstring" where
  "published time ts traceparent env = json_text (envelope_json time ts traceparent env)"

section \<open>Unmarshal\<close>

text \<open>
  A struct takes every member whose name is the field's, whatever the case of its letters; \<^verbatim>\<open>null\<close> leaves what is
  there, and a value of another type is an error.
\<close>

definition fold_case :: "string \<Rightarrow> string" where
  "fold_case k = map (\<lambda>c. let n = (of_char c :: nat) in if 65 \<le> n \<and> n \<le> 90 then char_of (n + 32) else c) k"

definition values_of :: "string \<Rightarrow> (string \<times> json) list \<Rightarrow> json list" where
  "values_of n fs = map snd (filter (\<lambda>(k, v). fold_case k = n) fs)"

definition take_values :: "(json \<Rightarrow> 'a option) \<Rightarrow> json list \<Rightarrow> 'a member" where
  "take_values conv vs =
     foldl (\<lambda>m v. if m = Mistyped then Mistyped
                  else if v = JNull then m
                  else case conv v of Some x \<Rightarrow> Member x | None \<Rightarrow> Mistyped) Missing vs"

text \<open>A string of Go: half of a surrogate pair alone is replaced.\<close>

definition go_string :: "jsstring \<Rightarrow> utext" where
  "go_string s = map (\<lambda>c. if scalar c then c else 0xFFFD) (utf16_decode s)"

fun go_text :: "json \<Rightarrow> utext option" where
  "go_text (JStr s) = Some (go_string s)"
| "go_text _ = None"

fun go_unit_text :: "json \<Rightarrow> jsstring option" where
  "go_unit_text (JStr s) = Some (utf16 (go_string s))"
| "go_unit_text _ = None"

fun go_bool :: "json \<Rightarrow> bool option" where
  "go_bool (JBool b) = Some b"
| "go_bool _ = None"

fun go_int64 :: "json \<Rightarrow> int option" where
  "go_int64 (JNum n) = (if - (2 ^ 63) \<le> n \<and> n < 2 ^ 63 then Some n else None)"
| "go_int64 _ = None"

fun go_texts :: "json list \<Rightarrow> utext list option" where
  "go_texts [] = Some []"
| "go_texts (v # vs) =
     Option.bind (if v = JNull then Some [] else go_text v) (\<lambda>t. map_option ((#) t) (go_texts vs))"

fun go_text_list :: "json \<Rightarrow> utext list option" where
  "go_text_list (JArr vs) = go_texts vs"
| "go_text_list _ = None"

definition object_of :: "(string \<times> json) list \<Rightarrow> go_object" where
  "object_of fs =
     \<lparr>o_id = take_values go_text (values_of ''id'' fs), o_key = take_values go_text (values_of ''key'' fs),
      o_description = take_values go_text (values_of ''description'' fs),
      o_enabled = take_values go_bool (values_of ''enabled'' fs),
      o_rollout = take_values go_int64 (values_of ''rollout_percentage'' fs),
      o_targeted = take_values go_text_list (values_of ''targeted_users'' fs),
      o_version = take_values go_int64 (values_of ''version'' fs)\<rparr>"

definition decode_object :: "jsstring \<Rightarrow> go_object option" where
  "decode_object s =
     (case parse_json s of
        Some (JObj fs) \<Rightarrow> Some (object_of fs)
      | Some JNull \<Rightarrow> Some (object_of [])
      | _ \<Rightarrow> None)"

section \<open>Subscribing\<close>

text \<open>
  One message: an envelope becomes an event with the data as it stood in the message; a text that is no
  envelope is skipped.
\<close>

definition raw_value :: "string \<Rightarrow> (string \<times> json \<times> jsstring) list \<Rightarrow> jsstring" where
  "raw_value n ms = (case filter (\<lambda>(k, v, t). fold_case k = n) (rev ms) of [] \<Rightarrow> [] | (k, v, t) # _ \<Rightarrow> t)"

definition subscribe_event :: "jsstring \<Rightarrow> sse_event option" where
  "subscribe_event txt =
     (if parse_json txt = Some JNull then Some \<lparr>ev_name = [], ev_data = [], ev_id = 0\<rparr>
      else case raw_members txt of
             None \<Rightarrow> None
           | Some ms \<Rightarrow>
               let fs = map (\<lambda>(k, v, t). (k, v)) ms
               in case (member_or [] (take_values go_unit_text (values_of ''type'' fs)),
                        member_or 0 (take_values go_int64 (values_of ''version'' fs)),
                        member_or 0 (take_values go_int64 (values_of ''ts'' fs)),
                        member_or [] (take_values go_unit_text (values_of ''traceparent'' fs))) of
                    (Some name, Some ver, Some ts, Some trace) \<Rightarrow>
                      Some \<lparr>ev_name = name, ev_data = raw_value ''data'' ms, ev_id = ver\<rparr>
                  | _ \<Rightarrow> None)"

definition sse_Subscribe :: "jsstring list \<Rightarrow> sse_event list" where
  "sse_Subscribe msgs = List.map_filter subscribe_event msgs"

section \<open>An announcement arrives as it was sent\<close>

definition int64 :: "int \<Rightarrow> bool" where
  "int64 n \<longleftrightarrow> - (2 ^ 63) \<le> n \<and> n < 2 ^ 63"

text \<open>The texts and numbers of an announcement are what Go can hold.\<close>

fun env_values :: "envelope \<Rightarrow> bool" where
  "env_values (EnvUpdated v f) \<longleftrightarrow>
     valid_text (flag_id f) \<and> valid_text (key f) \<and> valid_text (description f) \<and> list_all valid_text (targeted_users f) \<and>
     int64 (rollout_percentage f) \<and> int64 (version f) \<and> version f = v"
| "env_values (EnvDeleted v k) \<longleftrightarrow> valid_text k \<and> int64 v"

lemmas names = fold_case_def values_of_def

text \<open>The name of an announcement as a text.\<close>

fun env_text :: "envelope \<Rightarrow> string" where
  "env_text (EnvUpdated v f) = ''flag_updated''"
| "env_text (EnvDeleted v k) = ''flag_deleted''"

lemma fold_case_names [simp]:
  "fold_case ''id'' = ''id''" "fold_case ''key'' = ''key''" "fold_case ''description'' = ''description''"
  "fold_case ''enabled'' = ''enabled''" "fold_case ''rollout_percentage'' = ''rollout_percentage''"
  "fold_case ''targeted_users'' = ''targeted_users''" "fold_case ''version'' = ''version''"
  "fold_case ''created_at'' = ''created_at''" "fold_case ''updated_at'' = ''updated_at''" "fold_case ''type'' = ''type''"
  "fold_case ''data'' = ''data''" "fold_case ''ts'' = ''ts''" "fold_case ''traceparent'' = ''traceparent''"
  by (simp_all add: fold_case_def Let_def)

lemma go_string_utf16 [simp]: "valid_text t \<Longrightarrow> go_string (utf16 t) = t"
  by (auto simp: go_string_def list_all_iff intro!: map_idI)

lemma go_string_name [simp]: "go_string (env_name env) = ascii (env_text env)" "utf16 (ascii (env_text env)) = env_name env"
proof -
  have "utf16 (ascii (env_text env)) = env_name env" by (cases env) (simp_all add: utf16_def ascii_def js_def utf16_char_def)
  moreover have "valid_text (ascii (env_text env))" by (cases env) (simp_all add: ascii_def scalar_def)
  ultimately show "go_string (env_name env) = ascii (env_text env)" "utf16 (ascii (env_text env)) = env_name env"
    using go_string_utf16 by metis+
qed

lemma go_texts_utf16: "list_all valid_text us \<Longrightarrow> go_texts (map text_json us) = Some us"
  by (induction us) simp_all

lemma decode_text:
  "decode_object (json_text v) = (case v of JObj fs \<Rightarrow> Some (object_of fs) | JNull \<Rightarrow> Some (object_of []) | _ \<Rightarrow> None)"
  unfolding decode_object_def parse_json_text by (simp split: json.split)

lemma decode_env:
  assumes "env_values env"
  shows "decode_object (json_text (env_json time env)) = Some (env_object env)"
  unfolding decode_text using assms
  by (cases env)
    (simp_all add: flag_json_def object_of_def values_of_def take_values_def
      flag_object_def deleted_object_def as_config_def go_texts_utf16 int64_def Let_def)

lemma subscribe_published:
  assumes "int64 (env_version env)" "int64 ts"
  shows "subscribe_event (published time ts traceparent env) =
     Some \<lparr>ev_name = env_name env, ev_data = json_text (env_json time env), ev_id = env_version env\<rparr>"
proof -
  obtain fs where fs: "envelope_json time ts traceparent env = JObj fs" by (simp add: envelope_json_def)
  have "raw_members (published time ts traceparent env) = Some (map raw_member fs)"
    by (simp only: published_def fs raw_members_text)
  moreover have "parse_json (published time ts traceparent env) = Some (JObj fs)"
    by (simp only: published_def fs parse_json_text)
  moreover have "map (\<lambda>(k, v, t). (k, v)) (map raw_member fs) = fs"
    by (simp add: comp_def raw_member_def case_prod_beta)
  ultimately show ?thesis
    using assms fs
    by (auto simp: subscribe_event_def envelope_json_def values_of_def take_values_def raw_value_def raw_member_def
        int64_def Let_def)
qed

section \<open>From the write to the Go client\<close>

text \<open>What the nodes' Redis channel carries when the announcements \<open>envs\<close> were published.\<close>

definition channel :: "(int \<Rightarrow> jsstring) \<Rightarrow> (envelope \<Rightarrow> int \<times> jsstring) \<Rightarrow> envelope list \<Rightarrow> jsstring list" where
  "channel time stamp envs = map (\<lambda>env. published time (fst (stamp env)) (snd (stamp env)) env) envs"

definition env_event :: "(int \<Rightarrow> jsstring) \<Rightarrow> envelope \<Rightarrow> sse_event" where
  "env_event time env = \<lparr>ev_name = env_name env, ev_data = json_text (env_json time env), ev_id = env_version env\<rparr>"

lemma Subscribe_channel:
  assumes "\<forall>env \<in> set envs. int64 (env_version env) \<and> int64 (fst (stamp env))"
  shows "sse_Subscribe (channel time stamp envs) = map (env_event time) envs"
  using assms
  by (induction envs) (simp_all add: sse_Subscribe_def channel_def subscribe_published env_event_def)

text \<open>The events among the items of a connection.\<close>

fun events_of :: "wire_item list \<Rightarrow> sse_event list" where
  "events_of [] = []"
| "events_of (Event e # is) = e # events_of is"
| "events_of (Heartbeat # is) = events_of is"

definition frame_of :: "sse_event \<Rightarrow> jsstring \<times> jsstring \<times> jsstring" where
  "frame_of e = (ev_name e, ev_data e, if ev_id e > 0 then js_num (ev_id e) else [])"

lemma frames_events: "concat (map item_frames is) = map frame_of (events_of is)"
  by (induction "is" rule: events_of.induct) (simp_all add: frame_of_def)

text \<open>
  No announcement is missing: each is one the client has, or its next. The version the client ends at is
  the highest.
\<close>

fun gapless :: "int \<Rightarrow> envelope list \<Rightarrow> bool" where
  "gapless v [] \<longleftrightarrow> True"
| "gapless v (env # envs) \<longleftrightarrow> env_version env \<le> v + 1 \<and> gapless (max v (env_version env)) envs"

definition highest :: "int \<Rightarrow> envelope list \<Rightarrow> int" where
  "highest v envs = foldl max v (map env_version envs)"

definition env_fits :: "(int \<Rightarrow> jsstring) \<Rightarrow> (envelope \<Rightarrow> int \<times> jsstring) \<Rightarrow> envelope \<Rightarrow> bool" where
  "env_fits time stamp env \<longleftrightarrow>
     env_values env \<and> int64 (fst (stamp env)) \<and> byte_length (json_text (env_json time env)) + 7 < MAX_LINE"

lemma env_values_version: "env_values env \<Longrightarrow> int64 (env_version env)"
  by (cases env) auto

lemma env_logged_positive:
  assumes "env_logged d env" "db_wf d"
  shows "0 < env_version env"
  using assms by (cases env) (auto simp: env_logged_def db_wf_def versions_ok_def)

lemma event_item_ok:
  assumes "env_fits time stamp env"
  shows "item_ok (Event (env_event time env))"
proof -
  have "wire_text (env_name env)"
    by (cases env) (simp_all add: wire_text_def js_def TrimSpace_def go_space_def byte_length_def unit_bytes_def MAX_LINE_def)
  then show ?thesis
    using assms env_values_version [of env] json_text_wire [of "env_json time env"]
    by (simp add: env_fits_def env_event_def int64_def)
qed

text \<open>One frame that leaves no gap.\<close>

lemma gapless_frame:
  assumes "go_synced d c" "db_wf d" "log_texts d" "env_logged d env" "env_values env"
    and "env_version env \<le> g_version c + 1"
  shows "\<exists>c'. go_frame decode_object answer (frame_of (env_event time env)) c = (Inr (), c') \<and> go_synced d c' \<and>
    g_version c' = max (g_version c) (env_version env) \<and> g_requests c' = g_requests c"
proof -
  let ?v = "env_version env"
  define c1 where "c1 = (if g_onVersion c then c\<lparr>g_observed := g_observed c @ [?v]\<rparr> else c)"
  have pos: "?v > 0" using assms(2,4) by (rule env_logged_positive [rotated])
  have "?v < 2 ^ 63" using env_values_version [OF assms(5)] by (simp add: int64_def)
  then have id: "parseSSEVersion (js_num ?v) = Some ?v" using parse_version_id [of ?v] pos by simp
  obtain b c2 where live: "applyLiveEvent (env_name env) (Some (env_object env)) ?v c1 = (b, c2)"
    by (cases "applyLiveEvent (env_name env) (Some (env_object env)) ?v c1")
  have c1: "g_version c1 = g_version c" "g_requests c1 = g_requests c" "go_synced d c1"
    using assms(1) by (simp_all add: c1_def go_synced_def)
  have "\<not> b" "g_version c2 = max (g_version c) ?v" "g_requests c2 = g_requests c"
    using live assms(6) c1
    by (auto simp: applyLiveEvent_def store_flag_def Let_def split: if_splits option.splits)
  moreover have "go_synced d c2" using go_synced_live [OF c1(3) assms(2-4)] live by simp
  moreover have "go_frame decode_object answer (frame_of (env_event time env)) c = (if b then Reconcile answer c2 else (Inr (), c2))"
    using live id pos decode_env [OF assms(5), of time]
    by (simp add: go_frame_def frame_of_def env_event_def c1_def)
  ultimately show ?thesis by simp
qed

lemma gapless_frames:
  assumes "go_synced d c" "db_wf d" "log_texts d" "gapless (g_version c) envs"
    and "\<forall>env \<in> set envs. env_logged d env \<and> env_values env"
  shows "\<exists>c'. go_frames decode_object answer (map (\<lambda>env. frame_of (env_event time env)) envs) c = (Inr (), c') \<and>
    go_synced d c' \<and> g_version c' = highest (g_version c) envs \<and> g_requests c' = g_requests c"
  using assms
proof (induction envs arbitrary: c)
  case (Cons env envs)
  obtain c1 where c1: "go_frame decode_object answer (frame_of (env_event time env)) c = (Inr (), c1)" "go_synced d c1"
      "g_version c1 = max (g_version c) (env_version env)" "g_requests c1 = g_requests c"
    using gapless_frame [OF Cons.prems(1-3), of env answer time] Cons.prems(4,5) by auto
  then obtain c2 where "go_frames decode_object answer (map (\<lambda>env. frame_of (env_event time env)) envs) c1 = (Inr (), c2)"
      "go_synced d c2" "g_version c2 = highest (g_version c1) envs" "g_requests c2 = g_requests c1"
    using Cons.IH [of c1] Cons.prems by auto
  then show ?case using c1 by (simp add: highest_def)
qed (simp add: highest_def)

text \<open>What a connection has been sent are announcements of the bus.\<close>

definition arrived :: "gosys \<Rightarrow> sse_event node \<Rightarrow> nat \<Rightarrow> envelope list" where
  "arrived z n ch = take (length (nd_written n ch)) (drop (nd_joined n ch) (bus (go_srv z)))"

lemma written_arrived:
  assumes "node_reach n" "nd_log n = map (env_event time) (bus (go_srv z))"
  shows "nd_written n ch = map (env_event time) (arrived z n ch)"
proof -
  have "channel_ok n ch" using node_inv_reach [OF assms(1)] by (simp add: node_inv_def)
  then obtain k where "nd_written n ch @ br_chan (nd_broker n) ch = take k (drop (nd_joined n ch) (nd_log n))"
    by (auto simp: channel_ok_def behind_def)
  then have "nd_written n ch = take (length (nd_written n ch)) (take k (drop (nd_joined n ch) (nd_log n)))"
    by (metis append_eq_conv_conj)
  then have "nd_written n ch = take (length (nd_written n ch)) (drop (nd_joined n ch) (nd_log n))"
    by (metis min.absorb1 length_take min.cobounded2 take_take min.commute)
  then show ?thesis by (simp add: arrived_def assms(2) take_map drop_map)
qed

section \<open>The property of the whole path\<close>


text \<open>A flag that was created, and a connection that was there.\<close>

abbreviation some_time :: "int \<Rightarrow> jsstring" where
  "some_time t \<equiv> js ''2024-05-01T10:00:00Z''"

abbreviation some_stamp :: "envelope \<Rightarrow> int \<times> jsstring" where
  "some_stamp env \<equiv> (1714557600000000000, [])"

definition one_listener :: "sse_event node" where
  "one_listener =
     node_run (Connect # map Announce (sse_Subscribe (channel some_time some_stamp (bus (go_srv one_write)))) @ [Deliver 0])
       node_start"

lemma one_write_bus:
  "bus (go_srv one_write) =
     [EnvUpdated 1 \<lparr>key = ascii ''a'', enabled = True, rollout_percentage = 5, targeted_users = [ascii ''eve''],
        flag_id = ascii ''u'', description = [], version = 1, created_at = 2, updated_at = 2\<rparr>]"
  "go_cli one_write = New False"
  by (simp_all add: one_write_def ops_run_def go_start_def go_server_op_def empty_server_def empty_db_def
      CreateFlag_def create_error_def GetByKey_def row_by_key_def Create_def nextVersion_def create_tx_def
      constraint_error_def row_by_id_def appendEvent_def publish_defs Publish_def
      utf8_def utf8_char_def ascii_def keyRegex_def key_byte_def Let_def)

lemma string_text_length: "length (string_text s) \<le> 6 * length s + 2"
proof -
  have "length (escape_unit c) \<le> 6" for c by (simp add: escape_unit_def hex4_def Let_def)
  then have "length (concat (map escape_unit s)) \<le> 6 * length s" by (induction s) (simp_all add: add_mono)
  then show ?thesis by (simp add: string_text_def)
qed

lemma one_write_text:
  "length (json_text (env_json some_time
     (EnvUpdated 1 \<lparr>key = ascii ''a'', enabled = True, rollout_percentage = 5, targeted_users = [ascii ''eve''],
        flag_id = ascii ''u'', description = [], version = 1, created_at = 2, updated_at = 2\<rparr>))) < 2000"
proof -
  have digit: "length (js_num 5) = 1" "length (js_num 1) = 1" by (simp_all add: js_num_def nat_digits.simps)
  have name: "length (string_text (js k)) \<le> 6 * length k + 2" for k using string_text_length [of "js k"] by simp
  have some: "length (string_text (utf16 (ascii k))) \<le> 6 * length k + 2" if "k \<in> {''a'', ''u'', ''eve''}" for k
    using that string_text_length [of "utf16 (ascii k)"] by (auto simp: utf16_def ascii_def utf16_char_def)
  show ?thesis
    using name [of "''id''"] name [of "''key''"] name [of "''description''"] name [of "''enabled''"]
      name [of "''rollout_percentage''"] name [of "''targeted_users''"] name [of "''version''"] name [of "''created_at''"]
      name [of "''updated_at''"] name [of "''2024-05-01T10:00:00Z''"] some [of "''a''"] some [of "''u''"] some [of "''eve''"]
      string_text_length [of "utf16 []"]
    by (simp add: flag_json_def digit utf16_def)
qed

lemma one_write_fits: "list_all (env_fits some_time some_stamp) (bus (go_srv one_write))"
proof -
  have "byte_length (json_text (env_json some_time env)) + 7 < MAX_LINE" if "env \<in> set (bus (go_srv one_write))" for env
    using that one_write_text byte_length_le [of "json_text (env_json some_time env)"]
    by (simp add: one_write_bus MAX_LINE_def del: env_json.simps)
  then show ?thesis
    by (simp add: one_write_bus env_fits_def int64_def ascii_def scalar_def)
qed

lemma one_listener_written:
  "nd_log one_listener = sse_Subscribe (channel some_time some_stamp (bus (go_srv one_write)))"
  "arrived one_write one_listener 0 = bus (go_srv one_write)"
  "\<exists>e. nd_written one_listener 0 = [e]"
proof -
  have one: "bus (go_srv one_write) = [hd (bus (go_srv one_write))]" by (simp add: one_write_bus)
  have sub: "sse_Subscribe (channel some_time some_stamp (bus (go_srv one_write))) =
      [env_event some_time (hd (bus (go_srv one_write)))]"
    using Subscribe_channel [of "bus (go_srv one_write)" some_stamp some_time] by (simp add: one_write_bus int64_def)
  have l: "nd_log one_listener = [env_event some_time (hd (bus (go_srv one_write)))]"
      "nd_written one_listener 0 = [env_event some_time (hd (bus (go_srv one_write)))]" "nd_joined one_listener 0 = 0"
    unfolding one_listener_def sub
    by (simp_all add: node_start_def NewBroker_def broker_register_def Broadcast_def send_client_def
        CHANNEL_CAP_def serving_handler_def Let_def)
  show "nd_log one_listener = sse_Subscribe (channel some_time some_stamp (bus (go_srv one_write)))" by (simp only: l sub)
  show "arrived one_write one_listener 0 = bus (go_srv one_write)" unfolding arrived_def l by (simp add: one_write_bus)
  show "\<exists>e. nd_written one_listener 0 = [e]" by (simp add: l)
qed


end
