(* ===== verification/Interleaving.thy ===== *)
theory Interleaving
  imports System
begin

text \<open>
  Overlapping requests. A write draws its version from the sequence before it takes the
  lock of its row, so two writes may commit in the other order than their versions; and
  the bootstrap reads the flags and the version in two queries, so a write may commit in
  between. The first part shows that commits in version order keep the log and the table
  in agreement; the second shows on concrete schedules what happens otherwise.
\<close>

section \<open>Transactions cut between the draw and the commit\<close>

datatype txn =
    TxCreate int utext "utext CreateFlagInput"
  | TxUpdate int utext "utext UpdateFlagRequest"
  | TxToggle int utext
  | TxDelete int utext utext

fun commit_tx :: "txn \<Rightarrow> int \<Rightarrow> db \<Rightarrow> db" where
  "commit_tx (TxCreate now uuid req) v d = snd (create_tx now uuid v req d)"
| "commit_tx (TxUpdate now i req) v d = snd (update_tx now i v req d)"
| "commit_tx (TxToggle now i) v d = snd (toggle_tx now i v d)"
| "commit_tx (TxDelete now i k) v d = delete_tx now i k v d"

datatype sched = Begin nat txn | Finish nat

record concurrent =
  cdb :: db
  opened :: "(nat \<times> int \<times> txn) list"

fun sched_step :: "concurrent \<Rightarrow> sched \<Rightarrow> concurrent" where
  "sched_step x (Begin n t) =
     (let (v, d) = nextVersion (cdb x) in x\<lparr>cdb := d, opened := (n, v, t) # opened x\<rparr>)"
| "sched_step x (Finish n) =
     (case map_of (opened x) n of
        None \<Rightarrow> x
      | Some (v, t) \<Rightarrow>
          x\<lparr>cdb := commit_tx t v (cdb x), opened := filter (\<lambda>e. fst e \<noteq> n) (opened x)\<rparr>)"

definition run_sched :: "sched list \<Rightarrow> db \<Rightarrow> db" where
  "run_sched ss d = cdb (foldl sched_step \<lparr>cdb = d, opened = []\<rparr> ss)"

text \<open>The log as its readers see it, ordered by version.\<close>

definition log_view :: "db \<Rightarrow> utext \<Rightarrow> utext Flag option" where
  "log_view d k = log_state (sort_key ev_version (events d)) k"

lemma log_view_wf:
  assumes "db_wf d"
  shows "log_view d k = row_by_key d k"
proof -
  have "sorted (map ev_version (events d))"
    using assms by (simp add: db_wf_def versions_ok_def strict_sorted_imp_sorted)
  then show ?thesis using assms by (simp add: log_view_def sort_key_sorted_id db_wf_def)
qed

section \<open>Commits in version order\<close>

text \<open>
  A schedule is in order when each commit has a version above every committed one, and a
  delete still finds the row whose key it read.
\<close>

fun tx_ready :: "txn \<Rightarrow> db \<Rightarrow> bool" where
  "tx_ready (TxDelete now i k) d = (case row_by_id d i of Some f \<Rightarrow> key f = k | None \<Rightarrow> False)"
| "tx_ready t d = True"

fun in_order :: "concurrent \<Rightarrow> sched list \<Rightarrow> bool" where
  "in_order x [] = True"
| "in_order x (Begin n t # ss) = in_order (sched_step x (Begin n t)) ss"
| "in_order x (Finish n # ss) =
     ((case map_of (opened x) n of
         None \<Rightarrow> True
       | Some (v, t) \<Rightarrow> list_all (\<lambda>e. ev_version e < v) (events (cdb x)) \<and> tx_ready t (cdb x)) \<and>
      in_order (sched_step x (Finish n)) ss)"

definition drawn_ok :: "concurrent \<Rightarrow> bool" where
  "drawn_ok x \<longleftrightarrow> (\<forall>(n, v, t) \<in> set (opened x). 0 < v \<and> v \<le> seq (cdb x))"

lemma seq_commit [simp]: "seq (commit_tx t v d) = seq d"
  by (cases t) (auto simp: create_tx_def update_tx_def toggle_tx_def delete_tx_def appendEvent_def
      replace_row_def Let_def split: option.split)

lemma commit_tx_wf:
  assumes "db_wf d" "fresh_version d v" "tx_ready t d"
  shows "db_wf (commit_tx t v d)"
  using assms
  by (cases t) (auto simp: create_tx_wf update_tx_wf toggle_tx_wf intro: delete_tx_wf split: option.splits)

lemma sched_step_wf:
  assumes "db_wf (cdb x)" "drawn_ok x" "in_order x (s # ss)"
  shows "db_wf (cdb (sched_step x s)) \<and> drawn_ok (sched_step x s)"
proof (cases s)
  case (Begin n t)
  have "0 \<le> seq (cdb x)" using assms(1) by (simp add: db_wf_def versions_ok_def)
  with assms(1,2) nextVersion_fresh(1) [OF assms(1)] Begin show ?thesis
    by (auto simp: drawn_ok_def nextVersion_def)
next
  case (Finish n)
  show ?thesis
  proof (cases "map_of (opened x) n")
    case (Some vt)
    obtain v t where vt: "vt = (v, t)" by (cases vt)
    then have "(n, v, t) \<in> set (opened x)" using Some map_of_SomeD by metis
    then have "fresh_version (cdb x) v" "tx_ready t (cdb x)"
      using assms(2,3) Some vt Finish by (auto simp: drawn_ok_def fresh_version_def list_all_iff)
    then show ?thesis
      using commit_tx_wf [OF assms(1)] assms(2) Some vt Finish by (auto simp: drawn_ok_def)
  qed (use assms Finish in simp)
qed

lemma in_order_Cons: "in_order x (s # ss) \<Longrightarrow> in_order (sched_step x s) ss"
  by (cases s) (auto simp del: sched_step.simps)

lemma foldl_sched_wf:
  "db_wf (cdb x) \<Longrightarrow> drawn_ok x \<Longrightarrow> in_order x ss \<Longrightarrow> db_wf (cdb (foldl sched_step x ss))"
proof (induction ss arbitrary: x)
  case (Cons s ss)
  show ?case
    using Cons.IH sched_step_wf [OF Cons.prems] in_order_Cons [OF Cons.prems(3)] by simp
qed simp

lemma run_sched_wf:
  assumes "db_wf d" "in_order \<lparr>cdb = d, opened = []\<rparr> ss"
  shows "db_wf (run_sched ss d)"
  unfolding run_sched_def using assms by (intro foldl_sched_wf) (simp_all add: drawn_ok_def)

section \<open>A small database for the examples\<close>

definition flag_one :: "utext Flag" where
  "flag_one = \<lparr>key = ascii ''checkout'', enabled = False, rollout_percentage = 100, targeted_users = [],
     flag_id = ascii ''1'', description = [], version = 1, created_at = 0, updated_at = 0\<rparr>"

definition db_one :: db where
  "db_one = \<lparr>rows = [flag_one],
     events = [\<lparr>ev_version = 1, flag_key = ascii ''checkout'', payload = Created flag_one, ev_created_at = 0\<rparr>],
     seq = 1, up = True\<rparr>"

definition server_one :: server where
  "server_one = \<lparr>sdb = db_one, bus = [], redis_up = True, publish_errors = 0, sse_clients = 0,
     node_id = ascii ''node-1''\<rparr>"

lemma db_one_wf: "db_wf db_one"
  by (simp add: db_wf_def keys_ok_def versions_ok_def event_ok_def db_one_def flag_one_def row_by_key_def
      log_state_def flag_change_def)

lemma server_one_inv: "server_inv server_one"
  by (simp add: server_inv_def server_one_def db_one_wf)

text \<open>Two toggles of the flag that overlap: the one with the later version commits first.\<close>

definition crossed :: "sched list" where
  "crossed = [Begin 0 (TxToggle 1 (ascii ''1'')), Begin 1 (TxToggle 2 (ascii ''1'')), Finish 1, Finish 0]"

section \<open>Properties of overlapping requests\<close>


lemmas tx_eval = sched_step.simps nextVersion_def commit_tx.simps toggle_tx_def row_by_id_def replace_row_def
  appendEvent_def db_one_def flag_one_def Let_def


text \<open>Versions are drawn before the row is locked, so two overlapping toggles can commit in
  the other order: then the table says the flag is off, but the log replayed by version,
  which is what every client does, says it is on. The source claims clients converge to
  the latest committed state.\<close>

theorem crossed_commits_diverge:
  "map_option enabled (row_by_key (run_sched crossed db_one) (ascii ''checkout'')) = Some False \<and>
   map_option enabled (log_view (run_sched crossed db_one) (ascii ''checkout'')) = Some True \<and>
   map_option version (row_by_key (run_sched crossed db_one) (ascii ''checkout'')) = Some 2 \<and>
   GetLatestVersion (run_sched crossed db_one) = Inr 3"
proof -
  have "row_by_key (run_sched crossed db_one) (ascii ''checkout'') =
      Some (flag_one\<lparr>version := 2, updated_at := 1\<rparr>)"
    by (simp add: run_sched_def crossed_def tx_eval row_by_key_def)
  moreover have "events (run_sched crossed db_one) =
      [\<lparr>ev_version = 1, flag_key = ascii ''checkout'', payload = Created flag_one, ev_created_at = 0\<rparr>,
       \<lparr>ev_version = 3, flag_key = ascii ''checkout'',
        payload = Updated (flag_one\<lparr>enabled := True, version := 3, updated_at := 2\<rparr>), ev_created_at = 2\<rparr>,
       \<lparr>ev_version = 2, flag_key = ascii ''checkout'',
        payload = Updated (flag_one\<lparr>version := 2, updated_at := 1\<rparr>), ev_created_at = 1\<rparr>]"
    "up (run_sched crossed db_one)"
    by (simp_all add: run_sched_def crossed_def tx_eval)
  ultimately show ?thesis
    by (simp add: log_view_def log_state_def flag_change_def GetLatestVersion_def flag_one_def)
qed

text \<open>A client that was in step reads the log after each commit of the crossed schedule.\<close>

definition db_after_first :: db where
  "db_after_first = run_sched [Begin 0 (TxToggle 1 (ascii ''1'')), Begin 1 (TxToggle 2 (ascii ''1'')), Finish 1] db_one"

definition client_at_one :: "utext client" where
  "client_at_one = bootstrap_response (Ok ([as_config flag_one], Some 1)) (constructor None)"


text \<open>The bootstrap reads the flags and the version in two queries. When a write commits in
  between, the client keeps the old flag under the new version and no later reconcile
  brings the write to it.\<close>

theorem bootstrap_race_loses_an_update:
  "(let s2 = run_op (OpToggle 5 (ascii ''1'')) server_one;
        fs = (case rbody (h_GetAllFlags server_one s2) of BSnapshot fs v \<Rightarrow> fs | _ \<Rightarrow> []);
        v = (case rbody (h_GetAllFlags server_one s2) of BSnapshot fs v \<Rightarrow> v | _ \<Rightarrow> 0);
        c = bootstrap_response (Ok (fs, Some v)) (constructor None);
        c' = reconcile_loop 3 (sdb s2) (reconcile c)
    in status c' = Live \<and> configVersion c' = latest_version (sdb s2) \<and>
       map_option enabled (map_get (cflags c') (ascii ''checkout'')) = Some False \<and>
       map_option enabled (row_by_key (sdb s2) (ascii ''checkout'')) = Some True)"
proof -
  let ?s2 = "run_op (OpToggle 5 (ascii ''1'')) server_one"
  let ?f = "flag_one\<lparr>enabled := True, version := 2, updated_at := 5\<rparr>"
  have s2: "rows (sdb ?s2) = [?f]" "up (sdb ?s2)" "map ev_version (events (sdb ?s2)) = [1, 2]"
    by (simp_all add: ToggleFlag_def Toggle_def publish_defs Publish_def server_one_def tx_eval)
  then have reply: "h_GetAllFlags server_one ?s2 = http 200 (BSnapshot [as_config flag_one] 2)"
    by (auto simp: h_GetAllFlags_def List_flags_def GetLatestVersion_def server_one_def db_one_def
        simp flip: set_map)
  have "events (sdb ?s2) \<noteq> []" using s2(3) by auto
  then have last: "latest_version (sdb ?s2) = 2"
    using s2(3) by (simp add: latest_version_def last_version_def last_map [symmetric])
  have "filter (\<lambda>e. 2 < ev_version e) (events (sdb ?s2)) = []"
    using s2(3) by (auto simp: filter_empty_conv map_eq_Cons_conv)
  then have page: "served_events 2 (sdb ?s2) = []"
    using s2(2) by (simp add: served_events_def ListEventsSince_def)
  have three: "(3::nat) = Suc (Suc (Suc 0))" by simp
  show ?thesis
    unfolding Let_def reply three using s2(1)
    by (simp add: page last bootstrap_response_def bootstrap_flags_def connectSSE_def closeStream_def
        constructor_def reconcile_def setStatus_def reconcile_response_def
        reconcile_done_def reconcile_return_def row_by_key_def as_config_def flag_one_def
        del: run_op.simps)
qed

end
