(* ===== verification/ReplyText.thy ===== *)
theory ReplyText
  imports LivePath Interleaving
begin

text \<open>
  The answers of the control plane as text: what \<open>json.NewEncoder(w).Encode\<close> writes for the body of a reply
  (\<open>handler/client_handler.go\<close>, \<open>handler/admin_handler.go\<close>, \<open>model/flag.go\<close>), and what the decoders of the Go client
  (\<open>pkg/ffclient/ffclient.go\<close>) find in it. The payload of an event goes through a \<open>JSONB\<close> column, which keeps the members
  of an object but not their order; that and the layouts of time stamps are arguments.
\<close>

section \<open>Writing\<close>

text \<open>\<open>flagPayload\<close>, and the payload of a deletion.\<close>

fun payload_json :: "(int \<Rightarrow> jsstring) \<Rightarrow> utext payload \<Rightarrow> json" where
  "payload_json time (Created f) = flag_json time f"
| "payload_json time (Updated f) = flag_json time f"
| "payload_json time (Deleted i k) = JObj [(''id'', text_json i), (''key'', text_json k)]"

fun event_type_name :: "utext payload \<Rightarrow> string" where
  "event_type_name (Created f) = ''created''"
| "event_type_name (Updated f) = ''updated''"
| "event_type_name (Deleted i k) = ''deleted''"

text \<open>What the layouts and the column make of a value.\<close>

record layout =
  rfc3339 :: "int \<Rightarrow> jsstring"
  rfc3339nano :: "int \<Rightarrow> jsstring"
  jsonb :: "json \<Rightarrow> json"

definition event_json :: "layout \<Rightarrow> utext FlagEvent \<Rightarrow> json" where
  "event_json l e =
     JObj [(''version'', JNum (ev_version e)), (''event_type'', JStr (js (event_type_name (payload e)))),
           (''flag_key'', text_json (flag_key e)), (''payload'', jsonb l (payload_json (rfc3339 l) (payload e))),
           (''created_at'', JStr (rfc3339nano l (ev_created_at e)))]"

definition clientFlag_json :: "utext FlagConfig \<Rightarrow> json" where
  "clientFlag_json f =
     JObj [(''id'', text_json (flag_id f)), (''key'', text_json (key f)), (''description'', text_json (description f)),
           (''enabled'', JBool (enabled f)), (''rollout_percentage'', JNum (rollout_percentage f)),
           (''targeted_users'', JArr (map text_json (targeted_users f))), (''version'', JNum (version f))]"

text \<open>The members of a map are written in the order of their names.\<close>

fun body_json :: "layout \<Rightarrow> body \<Rightarrow> json option" where
  "body_json l (BFlag f) = Some (flag_json (rfc3339 l) f)"
| "body_json l (BFlags fs v) =
     Some (JObj [(''config_version'', JNum v), (''flags'', JArr (map (flag_json (rfc3339 l)) fs))])"
| "body_json l (BEvents es) = Some (JObj [(''events'', JArr (map (event_json l) es))])"
| "body_json l (BBacklog es v) =
     Some (JObj [(''config_version'', JNum v), (''events'', JArr (map (event_json l) es))])"
| "body_json l (BSnapshot fs v) =
     Some (JObj [(''config_version'', JNum v), (''flags'', JArr (map clientFlag_json fs))])"
| "body_json l (BVersion node v n) =
     Some (JObj [(''config_version'', JNum v), (''node_id'', text_json node), (''sse_clients'', JNum (int n))])"
| "body_json l (BError err msg) = Some (JObj [(''error'', JStr (js err)), (''message'', JStr (js msg))])"
| "body_json l BEmpty = None"

text \<open>\<open>Encode\<close> ends the value with a line feed.\<close>

definition reply_text :: "layout \<Rightarrow> reply \<Rightarrow> jsstring" where
  "reply_text l r = (case body_json l (rbody r) of Some v \<Rightarrow> json_text v @ [10] | None \<Rightarrow> [])"

section \<open>Reading\<close>

text \<open>\<open>Decode\<close> reads the first value and leaves the rest.\<close>

definition first_json :: "jsstring \<Rightarrow> json option" where
  "first_json txt = map_option fst (read_value (Suc (length txt)) txt)"

text \<open>A value of an object type; \<open>null\<close> leaves the zero value.\<close>

fun object_value :: "json \<Rightarrow> go_object option" where
  "object_value (JObj fs) = Some (object_of fs)"
| "object_value JNull = Some (object_of [])"
| "object_value _ = None"

fun go_list :: "(json \<Rightarrow> 'a option) \<Rightarrow> json \<Rightarrow> 'a list option" where
  "go_list conv (JArr vs) = those (map conv vs)"
| "go_list conv _ = None"

text \<open>A field of type \<open>json.RawMessage\<close> keeps the last value as it stands, also \<open>null\<close>.\<close>

definition raw_object :: "string \<Rightarrow> (string \<times> json) list \<Rightarrow> go_object option" where
  "raw_object n fs = (case values_of n fs of [] \<Rightarrow> None | vs \<Rightarrow> object_value (last vs))"

definition event_fields :: "(string \<times> json) list \<Rightarrow> go_event option" where
  "event_fields fs =
     Option.bind (member_or 0 (take_values go_int64 (values_of ''version'' fs))) (\<lambda>v.
     Option.bind (member_or [] (take_values go_unit_text (values_of ''event_type'' fs))) (\<lambda>t.
     Option.bind (member_or [] (take_values go_text (values_of ''flag_key'' fs))) (\<lambda>k.
       Some \<lparr>e_version = v, e_type = t, e_flag_key = k, e_payload = raw_object ''payload'' fs\<rparr>)))"

fun decode_event :: "json \<Rightarrow> go_event option" where
  "decode_event (JObj fs) = event_fields fs"
| "decode_event JNull = event_fields []"
| "decode_event _ = None"

definition decode_flag :: "json \<Rightarrow> utext FlagConfig option" where
  "decode_flag v = unmarshal_Flag (object_value v)"

definition top_fields :: "jsstring \<Rightarrow> (string \<times> json) list option" where
  "top_fields txt =
     (case first_json txt of Some (JObj fs) \<Rightarrow> Some fs | Some JNull \<Rightarrow> Some [] | _ \<Rightarrow> None)"

definition decode_page :: "jsstring \<Rightarrow> go_event list option" where
  "decode_page txt =
     Option.bind (top_fields txt) (\<lambda>fs. member_or [] (take_values (go_list decode_event) (values_of ''events'' fs)))"

definition decode_snapshot :: "jsstring \<Rightarrow> (utext FlagConfig list \<times> int) option" where
  "decode_snapshot txt =
     Option.bind (top_fields txt) (\<lambda>fs.
     Option.bind (member_or [] (take_values (go_list decode_flag) (values_of ''flags'' fs))) (\<lambda>flags.
     Option.bind (member_or 0 (take_values go_int64 (values_of ''config_version'' fs))) (\<lambda>v.
       Some (flags, v))))"

text \<open>The answers to the two requests of the Go client, by way of the text.\<close>

definition text_page :: "layout \<Rightarrow> reply \<Rightarrow> go_event list fetched" where
  "text_page l r = Answer (code r) (decode_page (reply_text l r))"

definition text_snapshot :: "layout \<Rightarrow> reply \<Rightarrow> (utext FlagConfig list \<times> int) fetched" where
  "text_snapshot l r = Answer (code r) (decode_snapshot (reply_text l r))"

definition text_answers :: "layout \<Rightarrow> server \<Rightarrow> nat \<Rightarrow> int \<Rightarrow> go_event list fetched" where
  "text_answers l s n since = text_page l (h_Reconcile (js_num since) s s)"

section \<open>What is stored and written is read\<close>

text \<open>The column gives back every object with distinct names with the same members, in some order.\<close>

definition keeps_members :: "(json \<Rightarrow> json) \<Rightarrow> bool" where
  "keeps_members store \<longleftrightarrow>
     (\<forall>fs. distinct (map fst fs) \<longrightarrow> (\<exists>gs. store (JObj fs) = JObj gs \<and> mset gs = mset fs))"

lemma values_of_perm:
  assumes "mset gs = mset fs" "length (values_of n fs) \<le> 1"
  shows "values_of n gs = values_of n fs"
proof -
  have m: "mset (values_of n gs) = mset (values_of n fs)" using assms(1) by (simp add: values_of_def)
  then have "length (values_of n gs) \<le> 1" using assms(2) by (metis size_mset)
  then show ?thesis
    using m assms(2) by (cases "values_of n gs"; cases "values_of n fs") auto
qed

lemma read_object:
  fixes fs :: "(string \<times> json) list" and r :: jsstring
  defines "txt \<equiv> json_text (JObj fs) @ r"
  shows "read_value (Suc (length txt)) txt = Some (JObj fs, r)"
proof (cases fs)
  case Nil
  then show ?thesis by (simp add: txt_def json_space_def)
next
  case (Cons g gs)
  obtain t where t: "join_with 44 (map member_text fs) = 34 # t"
    using member_text_hd [of g] join_hd [of "member_text g" 34 44 "map member_text gs"] Cons by auto
  have "needs (JObj fs) \<le> length txt" using needs_text [of "JObj fs"] by (simp add: txt_def)
  then have "enough (length txt) (map snd fs)" unfolding needs_obj by linarith
  then have "read_members (length txt) (join_with 44 (map member_text fs) @ 125 # r) = Some (map raw_member fs, r)"
    using read_members_text reads_all Cons by blast
  moreover have "map ((\<lambda>(k, v, t). (k, v)) \<circ> raw_member) fs = fs"
    by (simp add: comp_def raw_member_def case_prod_beta)
  moreover have "txt = 123 # join_with 44 (map member_text fs) @ 125 # r" unfolding txt_def json_text_obj by simp
  ultimately show ?thesis using t by (simp add: json_space_def)
qed

lemma first_json_object: "first_json (json_text (JObj fs) @ r) = Some (JObj fs)"
  unfolding first_json_def read_object by simp

lemma parse_line: "parse_json (json_text (JObj fs) @ [10]) = Some (JObj fs)"
  unfolding parse_json_def read_object by (simp add: json_space_def)

lemma top_fields_text: "top_fields (json_text (JObj fs) @ [10]) = Some fs"
  by (simp only: top_fields_def first_json_object option.case json.case)

definition flag_values :: "utext FlagConfig \<Rightarrow> bool" where
  "flag_values f \<longleftrightarrow>
     valid_text (flag_id f) \<and> valid_text (key f) \<and> valid_text (description f) \<and> list_all valid_text (targeted_users f) \<and>
     int64 (rollout_percentage f) \<and> int64 (version f)"

definition event_values :: "utext FlagEvent \<Rightarrow> bool" where
  "event_values e \<longleftrightarrow> int64 (ev_version e) \<and> valid_text (flag_key e) \<and>
     (case payload e of
        Created f \<Rightarrow> flag_values (as_config f)
      | Updated f \<Rightarrow> flag_values (as_config f)
      | Deleted i k \<Rightarrow> valid_text i \<and> valid_text k)"

lemma fold_case_reply_names [simp]:
  "fold_case ''event_type'' = ''event_type''" "fold_case ''flag_key'' = ''flag_key''" "fold_case ''payload'' = ''payload''"
  "fold_case ''config_version'' = ''config_version''" "fold_case ''flags'' = ''flags''" "fold_case ''events'' = ''events''"
  by (simp_all add: fold_case_def Let_def)

lemma go_unit_text_type [simp]: "utf16 (go_string (js (event_type_name p))) = js (event_type_name p)"
proof -
  have "utf16 (ascii (event_type_name p)) = js (event_type_name p)"
    by (cases p) (simp_all add: utf16_def ascii_def js_def utf16_char_def)
  moreover have "valid_text (ascii (event_type_name p))" by (cases p) (simp_all add: ascii_def scalar_def)
  ultimately show ?thesis using go_string_utf16 by metis
qed

lemma stored_object:
  assumes "keeps_members store" "distinct (map fst fs)"
    and "\<forall>n \<in> {''id'', ''key'', ''description'', ''enabled'', ''rollout_percentage'', ''targeted_users'', ''version''}.
      length (values_of n fs) \<le> 1"
  shows "object_value (store (JObj fs)) = Some (object_of fs)"
proof -
  obtain gs where gs: "store (JObj fs) = JObj gs" "mset gs = mset fs"
    using assms(1,2) by (auto simp: keeps_members_def)
  have "object_of gs = object_of fs"
    unfolding object_of_def using values_of_perm [OF gs(2)] assms(3) by simp
  then show ?thesis by (simp add: gs(1))
qed

lemma flag_json_object:
  assumes "flag_values (as_config f)"
  shows "\<exists>fs. flag_json time f = JObj fs \<and> distinct (map fst fs) \<and> object_of fs = flag_object (as_config f) \<and>
    (\<forall>n \<in> {''id'', ''key'', ''description'', ''enabled'', ''rollout_percentage'', ''targeted_users'', ''version''}.
      length (values_of n fs) \<le> 1)"
  using assms
  by (simp add: flag_json_def object_of_def values_of_def take_values_def flag_object_def as_config_def flag_values_def
      go_texts_utf16 int64_def)

lemma payload_object:
  assumes "keeps_members (jsonb l)" "event_values e"
  shows "object_value (jsonb l (payload_json (rfc3339 l) (payload e))) = e_payload (wire_event e)"
proof (cases "payload e")
  case (Created f)
  then show ?thesis
    using flag_json_object [of f "rfc3339 l"] stored_object [OF assms(1)] assms(2)
    by (auto simp: event_values_def wire_event_def)
next
  case (Updated f)
  then show ?thesis
    using flag_json_object [of f "rfc3339 l"] stored_object [OF assms(1)] assms(2)
    by (auto simp: event_values_def wire_event_def)
next
  case (Deleted i k)
  let ?fs = "[(''id'', text_json i), (''key'', text_json k)]"
  have "object_of ?fs = deleted_object (Member i) k"
    using assms(2) Deleted by (simp add: object_of_def values_of_def take_values_def deleted_object_def event_values_def)
  moreover have "object_value (jsonb l (JObj ?fs)) = Some (object_of ?fs)"
    by (rule stored_object [OF assms(1)]) (simp_all add: values_of_def)
  ultimately show ?thesis by (simp add: Deleted wire_event_def)
qed

lemma decode_event_json:
  assumes "keeps_members (jsonb l)" "event_values e"
  shows "decode_event (event_json l e) = Some (wire_event e)"
proof -
  have "e_type (wire_event e) = js (event_type_name (payload e)) \<and> e_flag_key (wire_event e) = flag_key e"
    by (simp add: wire_event_def split: payload.split)
  moreover have "decode_event (event_json l e) =
      Some \<lparr>e_version = ev_version e, e_type = js (event_type_name (payload e)), e_flag_key = flag_key e,
        e_payload = object_value (jsonb l (payload_json (rfc3339 l) (payload e)))\<rparr>"
    using assms(2) by (simp add: event_json_def event_fields_def values_of_def take_values_def raw_object_def event_values_def int64_def)
  ultimately show ?thesis using payload_object [OF assms] by simp
qed

lemma decode_clientFlag:
  assumes "flag_values f"
  shows "decode_flag (clientFlag_json f) = Some f"
proof -
  have "object_value (clientFlag_json f) = Some (flag_object f)"
    using assms by (simp add: clientFlag_json_def object_of_def values_of_def take_values_def flag_object_def flag_values_def
        go_texts_utf16 int64_def)
  then show ?thesis by (simp add: decode_flag_def)
qed

lemma those_map: "\<forall>x \<in> set xs. conv (w x) = Some (d x) \<Longrightarrow> those (map conv (map w xs)) = Some (map d xs)"
  by (induction xs) simp_all

lemma decode_backlog:
  assumes "keeps_members (jsonb l)" "\<forall>e \<in> set es. event_values e"
  shows "decode_page (reply_text l (http st (BBacklog es v))) = Some (map wire_event es)"
proof -
  have "those (map decode_event (map (event_json l) es)) = Some (map wire_event es)"
    using assms decode_event_json by (intro those_map) blast
  then show ?thesis
    by (simp add: decode_page_def reply_text_def top_fields_text values_of_def take_values_def del: map_map json_text.simps)
qed

lemma decode_snapshot_text:
  assumes "\<forall>f \<in> set fs. flag_values f" "int64 v"
  shows "decode_snapshot (reply_text l (http st (BSnapshot fs v))) = Some (fs, v)"
proof -
  have "those (map decode_flag (map clientFlag_json fs)) = Some (map (\<lambda>f. f) fs)"
    using assms decode_clientFlag by (intro those_map) blast
  then show ?thesis
    using assms(2)
    by (simp add: decode_snapshot_def reply_text_def top_fields_text values_of_def take_values_def int64_def
        del: map_map json_text.simps)
qed

section \<open>What the replies carry\<close>

lemma page_in_log:
  assumes "h_Reconcile q s s' = http 200 (BBacklog es v)"
  shows "set es \<subseteq> set (events (sdb s))"
  using assms by (auto simp: h_Reconcile_def ListEventsSince_def dest: in_set_takeD split: option.splits if_splits sum.splits)

lemma Reconcile_body:
  "code (h_Reconcile q s s') = 200 \<and> (\<exists>es v. h_Reconcile q s s' = http 200 (BBacklog es v)) \<or>
   code (h_Reconcile q s s') \<in> {400, 500}"
  by (simp add: h_Reconcile_def split: option.split sum.split)

lemma GetAllFlags_body:
  "code (h_GetAllFlags s s') = 500 \<or>
   (\<exists>fs v. set fs = set (rows (sdb s)) \<and> GetLatestVersion (sdb s') = Inr v \<and>
      h_GetAllFlags s s' = http 200 (BSnapshot (map as_config fs) v))"
  by (auto simp: h_GetAllFlags_def List_flags_def intro: exI [of _ "sort_key (\<lambda>f. - created_at f) (rows (sdb s))"]
      split: sum.split if_splits)

lemma row_in_log:
  assumes "db_wf d" "f \<in> set (rows d)"
  shows "\<exists>e \<in> set (events d). payload_flag (payload e) = Some f"
proof -
  have "row_by_key d (key f) = Some f" using assms row_by_key_Some [of d "key f" f] unfolding db_wf_def by blast
  moreover have "row_by_key d (key f) = log_state (events d) (key f)" using assms(1) by (simp add: db_wf_def)
  ultimately show ?thesis using log_state_Some by metis
qed

lemma latest_logged: "GetLatestVersion d = Inr v \<Longrightarrow> v = 0 \<or> v \<in> ev_version ` set (events d)"
  using Max_in [of "ev_version ` set (events d)"] by (auto simp: GetLatestVersion_def split: if_splits)

section \<open>The Go client over the text of the replies\<close>

definition log_values :: "db \<Rightarrow> bool" where
  "log_values d \<longleftrightarrow> (\<forall>e \<in> set (events d). event_values e)"

lemma latest_int64: "log_values d \<Longrightarrow> GetLatestVersion d = Inr v \<Longrightarrow> int64 v"
  using latest_logged [of d v] by (auto simp: log_values_def event_values_def int64_def)

lemma round_over_text:
  assumes "log_values (sdb s)" "keeps_members (jsonb l)"
  shows "Reconcile_round (text_page l (h_Reconcile q s s')) c = Reconcile_round (events_reply (h_Reconcile q s s')) c"
  using Reconcile_body [of q s s']
proof
  assume "code (h_Reconcile q s s') = 200 \<and> (\<exists>es v. h_Reconcile q s s' = http 200 (BBacklog es v))"
  then obtain es v where r: "h_Reconcile q s s' = http 200 (BBacklog es v)" by blast
  have "\<forall>e \<in> set es. event_values e" using assms(1) page_in_log [OF r] by (auto simp: log_values_def)
  then have "text_page l (h_Reconcile q s s') = events_reply (h_Reconcile q s s')"
    using decode_backlog [OF assms(2)] by (simp add: text_page_def events_reply_def r)
  then show ?thesis by simp
qed (auto simp: Reconcile_round_def text_page_def events_reply_def)

lemma Reconcile_over_text:
  assumes "log_values (sdb s)" "keeps_members (jsonb l)"
  shows "Reconcile_from left (text_answers l s) c = Reconcile_from left (answers s) c"
proof (induction left arbitrary: c)
  case (Suc left)
  have "Reconcile_round (text_answers l s n v) c = Reconcile_round (answers s n v) c" for n v
    unfolding text_answers_def answers_def by (rule round_over_text [OF assms])
  then show ?case using Suc.IH by (simp split: prod.split option.split)
qed simp

lemma row_values:
  assumes "db_wf d" "log_values d" "f \<in> set (rows d)"
  shows "flag_values (as_config f)"
proof -
  obtain e where "e \<in> set (events d)" "payload_flag (payload e) = Some f" using row_in_log [OF assms(1,3)] by blast
  then show ?thesis using assms(2) by (cases "payload e") (auto simp: log_values_def event_values_def)
qed

section \<open>The browser SDK over the text of the replies\<close>

text \<open>\<open>res.json()\<close>: the last of several members of one name counts, and a number is a double.\<close>

definition js_member :: "string \<Rightarrow> (string \<times> json) list \<Rightarrow> json option" where
  "js_member n fs = map_of (rev fs) n"

fun js_num_value :: "json option \<Rightarrow> int option" where
  "js_num_value (Some (JNum n)) = (if - (2 ^ 53) \<le> n \<and> n \<le> 2 ^ 53 then Some n else None)"
| "js_num_value _ = None"

fun js_str_value :: "json option \<Rightarrow> jsstring option" where
  "js_str_value (Some (JStr t)) = Some t"
| "js_str_value _ = None"

fun js_bool_value :: "json option \<Rightarrow> bool option" where
  "js_bool_value (Some (JBool b)) = Some b"
| "js_bool_value _ = None"

fun js_list :: "(json \<Rightarrow> 'a option) \<Rightarrow> json option \<Rightarrow> 'a list option" where
  "js_list conv (Some (JArr vs)) = those (map conv vs)"
| "js_list conv _ = None"

text \<open>The fields of a \<open>FlagConfig\<close>; \<open>None\<close> for what is no such object or has a number a double does not hold.\<close>

fun js_config :: "json \<Rightarrow> jsstring FlagConfig option" where
  "js_config (JObj fs) =
     Option.bind (js_str_value (js_member ''id'' fs)) (\<lambda>i.
     Option.bind (js_str_value (js_member ''key'' fs)) (\<lambda>k.
     Option.bind (js_str_value (js_member ''description'' fs)) (\<lambda>desc.
     Option.bind (js_bool_value (js_member ''enabled'' fs)) (\<lambda>on.
     Option.bind (js_num_value (js_member ''rollout_percentage'' fs)) (\<lambda>p.
     Option.bind (js_list (\<lambda>v. js_str_value (Some v)) (js_member ''targeted_users'' fs)) (\<lambda>us.
     Option.bind (js_num_value (js_member ''version'' fs)) (\<lambda>v.
       Some \<lparr>key = k, enabled = on, rollout_percentage = p, targeted_users = us, flag_id = i,
             description = desc, version = v\<rparr>)))))))"
| "js_config _ = None"

text \<open>What \<open>reconcile\<close> uses of an event: its version, its key, and the flag unless it is a deletion.\<close>

type_synonym 's change = "int \<times> 's \<times> 's FlagConfig option"

fun js_event :: "json \<Rightarrow> jsstring change option" where
  "js_event (JObj fs) =
     Option.bind (js_num_value (js_member ''version'' fs)) (\<lambda>v.
     Option.bind (js_str_value (js_member ''event_type'' fs)) (\<lambda>t.
     Option.bind (js_str_value (js_member ''flag_key'' fs)) (\<lambda>k.
       if t = js ''deleted'' then Some (v, k, None)
       else Option.bind (js_member ''payload'' fs) (\<lambda>p. map_option (\<lambda>f. (v, k, Some f)) (js_config p)))))"
| "js_event _ = None"

definition js_snapshot :: "jsstring \<Rightarrow> (jsstring FlagConfig list \<times> int option) option" where
  "js_snapshot txt =
     (case parse_json txt of
        Some (JObj fs) \<Rightarrow>
          map_option (\<lambda>flags. (flags, js_num_value (js_member ''config_version'' fs)))
            (js_list js_config (js_member ''flags'' fs))
      | _ \<Rightarrow> None)"

definition js_page :: "jsstring \<Rightarrow> jsstring change list option" where
  "js_page txt = (case parse_json txt of Some (JObj fs) \<Rightarrow> js_list js_event (js_member ''events'' fs) | _ \<Rightarrow> None)"

definition js_response :: "(jsstring \<Rightarrow> 'a option) \<Rightarrow> layout \<Rightarrow> reply \<Rightarrow> 'a response" where
  "js_response read_body l r =
     (if 200 \<le> code r \<and> code r \<le> 299 then (case read_body (reply_text l r) of Some x \<Rightarrow> Ok x | None \<Rightarrow> Throws)
      else NotOk (code r))"

text \<open>The same answers as values, the texts in the code units of the browser.\<close>

definition change_of :: "'s FlagEvent \<Rightarrow> 's change" where
  "change_of e = (ev_version e, flag_key e, map_option as_config (payload_flag (payload e)))"

definition browser_change :: "utext change \<Rightarrow> jsstring change" where
  "browser_change = (\<lambda>(v, k, f). (v, utf16 k, map_option browser_flag f))"

definition snapshot_response :: "reply \<Rightarrow> (jsstring FlagConfig list \<times> int option) response" where
  "snapshot_response r =
     (if code r \<noteq> 200 then NotOk (code r)
      else case rbody r of BSnapshot fs v \<Rightarrow> Ok (map browser_flag fs, Some v) | _ \<Rightarrow> Throws)"

definition page_response :: "reply \<Rightarrow> jsstring change list response" where
  "page_response r =
     (if code r \<noteq> 200 then NotOk (code r)
      else case rbody r of BBacklog es v \<Rightarrow> Ok (map (browser_change \<circ> change_of) es) | _ \<Rightarrow> Throws)"

text \<open>The change is all that a reconcile looks at.\<close>

lemma reconcile_event_change:
  "reconcile_event (c, a) e =
     (case change_of e of (v, k, f) \<Rightarrow>
        if v \<le> configVersion c then (c, a)
        else (c\<lparr>cflags := (case f of None \<Rightarrow> map_delete k (cflags c) | Some g \<Rightarrow> map_set k g (cflags c)),
                configVersion := v\<rparr>, True))"
  by (simp add: reconcile_event_def change_of_def Let_def split: option.split)

definition exact :: "int \<Rightarrow> bool" where
  "exact n \<longleftrightarrow> - (2 ^ 53) \<le> n \<and> n \<le> 2 ^ 53"

definition log_exact :: "db \<Rightarrow> bool" where
  "log_exact d \<longleftrightarrow>
     (\<forall>e \<in> set (events d). exact (ev_version e) \<and>
        (\<forall>f. payload_flag (payload e) = Some f \<longrightarrow> exact (rollout_percentage f) \<and> exact (version f)))"

lemma js_member_iff: "distinct (map fst fs) \<Longrightarrow> js_member n fs = Some v \<longleftrightarrow> (n, v) \<in> set fs"
  by (simp add: js_member_def map_of_eq_Some_iff rev_map [symmetric])

lemma js_config_perm:
  assumes "mset gs = mset fs" "distinct (map fst fs)"
  shows "js_config (JObj gs) = js_config (JObj fs)"
proof -
  have "mset (map fst gs) = mset (map fst fs)" using assms(1) by simp
  then have "distinct (map fst gs)" using assms(2) mset_eq_imp_distinct_iff by blast
  moreover have "set gs = set fs" using assms(1) by (rule mset_eq_setD)
  ultimately have "js_member n gs = js_member n fs" for n
    using assms(2) by (intro option_eqI_iff) (simp add: js_member_iff)
  then show ?thesis by simp
qed

lemma those_texts: "those (map (\<lambda>t. js_str_value (Some (text_json t))) us) = Some (map utf16 us)"
  by (induction us) simp_all

lemma js_config_json:
  assumes "exact (rollout_percentage f)" "exact (version f)"
  shows "js_config (flag_json time f) = Some (browser_flag (as_config f))"
    and "js_config (clientFlag_json (as_config f)) = Some (browser_flag (as_config f))"
  using assms those_texts [of "targeted_users f"]
  by (simp_all add: flag_json_def clientFlag_json_def js_member_def exact_def browser_flag_def as_config_def comp_def)

lemma js_event_json:
  assumes "keeps_members (jsonb l)" "exact (ev_version e)"
    and "\<forall>f. payload_flag (payload e) = Some f \<longrightarrow> exact (rollout_percentage f) \<and> exact (version f)"
  shows "js_event (event_json l e) = Some (browser_change (change_of e))"
proof -
  have flag: "js_config (jsonb l (flag_json time f)) = Some (browser_flag (as_config f))" if "payload_flag (payload e) = Some f" for f time
  proof -
    obtain fs where fs: "flag_json time f = JObj fs" "distinct (map fst fs)" by (simp add: flag_json_def)
    obtain gs where gs: "jsonb l (JObj fs) = JObj gs" "mset gs = mset fs"
      using assms(1) fs(2) by (auto simp: keeps_members_def)
    have "js_config (jsonb l (flag_json time f)) = js_config (flag_json time f)"
      unfolding fs(1) gs(1) by (rule js_config_perm [OF gs(2) fs(2)])
    then show ?thesis using js_config_json(1) [of f time] assms(3) that by (simp del: js_config.simps)
  qed
  have "js_event (event_json l e) =
      (if js (event_type_name (payload e)) = js ''deleted'' then Some (ev_version e, utf16 (flag_key e), None)
       else map_option (\<lambda>f. (ev_version e, utf16 (flag_key e), Some f)) (js_config (jsonb l (payload_json (rfc3339 l) (payload e)))))"
    using assms(2) by (simp add: event_json_def js_member_def exact_def del: js_config.simps)
  also have "\<dots> = Some (browser_change (change_of e))"
    using flag by (cases "payload e") (simp_all add: js_def browser_change_def change_of_def del: js_config.simps)
  finally show ?thesis .
qed

lemma js_page_text:
  assumes "keeps_members (jsonb l)" "log_exact d" "set es \<subseteq> set (events d)"
  shows "js_page (reply_text l (http st (BBacklog es v))) = Some (map (browser_change \<circ> change_of) es)"
proof -
  have "those (map js_event (map (event_json l) es)) = Some (map (browser_change \<circ> change_of) es)"
    using assms js_event_json by (intro those_map) (auto simp: log_exact_def)
  then show ?thesis
    by (simp add: js_page_def reply_text_def parse_line js_member_def del: map_map json_text.simps)
qed

lemma js_snapshot_text:
  fixes fs :: "utext Flag list"
  assumes "\<forall>f \<in> set fs. exact (rollout_percentage f) \<and> exact (version f)" "exact v"
  shows "js_snapshot (reply_text l (http st (BSnapshot (map as_config fs) v))) =
    Some (map browser_flag (map as_config fs), Some v)"
proof -
  have "those (map js_config (map (\<lambda>f. clientFlag_json (as_config f)) fs)) = Some (map (browser_flag \<circ> as_config) fs)"
    using assms js_config_json(2) by (intro those_map) auto
  then show ?thesis
    using assms(2)
    by (simp add: js_snapshot_def reply_text_def parse_line js_member_def exact_def comp_def del: json_text.simps)
qed

lemma latest_exact: "log_exact d \<Longrightarrow> GetLatestVersion d = Inr v \<Longrightarrow> exact v"
  using latest_logged [of d v] by (auto simp: log_exact_def exact_def)

section \<open>Both SDKs read what the server meant\<close>

text \<open>C10: The bytes of the replies to the two SDKs mean what the server answered. For every state of the server whose log
  holds valid texts and 64-bit numbers, and whatever order the database keeps the members of a payload in, a reconcile and
  a bootstrap of the Go client over the encoded replies do exactly what they do over the values, errors included; and the
  browser, whose numbers are exact up to 2^53, finds in the same bytes the same flags, changes and versions.\<close>

theorem replies_mean_the_same:
  assumes "db_wf (sdb s)" "log_values (sdb s)" "log_values (sdb s')" "keeps_members (jsonb l)"
    and "log_exact (sdb s)" "log_exact (sdb s')"
  shows "Reconcile (text_answers l s) c = Reconcile (answers s) c \<and>
    Bootstrap (text_snapshot l (h_GetAllFlags s s')) c = Bootstrap (snapshot_reply (h_GetAllFlags s s')) c \<and>
    js_response js_page l (h_Reconcile q s s') = page_response (h_Reconcile q s s') \<and>
    js_response js_snapshot l (h_GetAllFlags s s') = snapshot_response (h_GetAllFlags s s')"
proof (intro conjI)
  let ?r = "h_GetAllFlags s s'"
  show "Reconcile (text_answers l s) c = Reconcile (answers s) c"
    unfolding Reconcile_def by (rule Reconcile_over_text [OF assms(2,4)])
  show "Bootstrap (text_snapshot l ?r) c = Bootstrap (snapshot_reply ?r) c"
    using GetAllFlags_body [of s s']
  proof
    assume "\<exists>fs v. set fs = set (rows (sdb s)) \<and> GetLatestVersion (sdb s') = Inr v \<and> ?r = http 200 (BSnapshot (map as_config fs) v)"
    then obtain fs v where fs: "set fs = set (rows (sdb s))" "GetLatestVersion (sdb s') = Inr v"
        "?r = http 200 (BSnapshot (map as_config fs) v)" by blast
    then have "\<forall>f \<in> set (map as_config fs). flag_values f" using row_values [OF assms(1,2)] by auto
    then have "decode_snapshot (reply_text l ?r) = Some (map as_config fs, v)"
      using latest_int64 [OF assms(3) fs(2)] unfolding fs(3) by (rule decode_snapshot_text)
    then show ?thesis by (simp add: text_snapshot_def snapshot_reply_def fs(3))
  qed (simp add: Bootstrap_def text_snapshot_def snapshot_reply_def)
  show "js_response js_page l (h_Reconcile q s s') = page_response (h_Reconcile q s s')"
    using Reconcile_body [of q s s'] js_page_text [OF assms(4,5) page_in_log]
    by (auto simp: js_response_def page_response_def)
  show "js_response js_snapshot l ?r = snapshot_response ?r"
    using GetAllFlags_body [of s s']
  proof
    assume "\<exists>fs v. set fs = set (rows (sdb s)) \<and> GetLatestVersion (sdb s') = Inr v \<and> ?r = http 200 (BSnapshot (map as_config fs) v)"
    then obtain fs v where fs: "set fs = set (rows (sdb s))" "GetLatestVersion (sdb s') = Inr v"
        "?r = http 200 (BSnapshot (map as_config fs) v)" by blast
    then have "\<forall>f \<in> set fs. exact (rollout_percentage f) \<and> exact (version f)"
      using row_in_log [OF assms(1)] assms(5) by (metis log_exact_def)
    then show ?thesis
      using js_snapshot_text [of fs v l 200] latest_exact [OF assms(6) fs(2)]
      by (simp add: js_response_def snapshot_response_def fs(3))
  qed (simp add: js_response_def snapshot_response_def)
qed

text \<open>A column that turns the members around.\<close>

definition turned :: "json \<Rightarrow> json" where
  "turned v = (case v of JObj fs \<Rightarrow> JObj (rev fs) | w \<Rightarrow> w)"

definition some_layout :: layout where
  "some_layout = \<lparr>rfc3339 = (\<lambda>t. js ''2024-01-01T00:00:00Z''), rfc3339nano = (\<lambda>t. js ''2024-01-01T00:00:00.5Z''), jsonb = turned\<rparr>"

lemma server_one_values: "log_values (sdb server_one)" "log_texts (sdb server_one)" "up (sdb server_one)"
  "log_exact (sdb server_one)"
  by (simp_all add: log_exact_def exact_def log_values_def event_values_def flag_values_def as_config_def server_one_def db_one_def flag_one_def
      int64_def ascii_def scalar_def log_texts_def texts_ok_def event_ok_def)

theorem replies_mean_the_same_witness:
  "fst (Reconcile (text_answers some_layout server_one) (New False)) = Inr () \<and>
   g_version (snd (Reconcile (text_answers some_layout server_one) (New False))) = 1 \<and>
   js_response js_snapshot some_layout (h_GetAllFlags server_one server_one) =
     Ok ([browser_flag (as_config flag_one)], Some 1)"
proof -
  have k: "keeps_members (jsonb some_layout)" by (simp add: keeps_members_def some_layout_def turned_def)
  have wf: "server_inv server_one" "db_wf (sdb server_one)" using server_one_inv by (simp_all add: server_inv_def)
  have latest: "latest_version (sdb server_one) = 1"
    by (simp add: latest_version_def last_version_def server_one_def db_one_def)
  have one: "h_GetAllFlags server_one server_one = http 200 (BSnapshot [as_config flag_one] 1)"
    by (simp add: h_GetAllFlags_def List_flags_def GetLatestVersion_def server_one_def db_one_def)
  have "go_synced (sdb server_one) (New False)"
    by (simp add: go_synced_def New_def holds_def upto_version_def server_one_def db_one_def latest_version_def last_version_def)
  then have "fst (Reconcile (answers server_one) (New False)) = Inr () \<and>
      go_caught_up (sdb server_one) (snd (Reconcile (answers server_one) (New False)))"
    using Reconcile_from_ends [OF wf(1) server_one_values(3,2), of "New False" 1 MAX_PAGES] latest
    by (simp add: Reconcile_def MAX_PAGES_def backlog_size_def after_version_def server_one_def db_one_def)
  then show ?thesis
    using replies_mean_the_same [OF wf(2) server_one_values(1,1) k server_one_values(4,4), of "New False"] latest one
    by (simp add: go_caught_up_def snapshot_response_def)
qed

end
