(* ===== verification/Fleet.thy ===== *)
theory Fleet
  imports GoClient
begin

text \<open>
  The fleet of the chaos and soak tools (\<^verbatim>\<open>pkg/chaoskit/fleet.go\<close>): Go clients that are watched from outside. A
  sample reads the version of every client; the monitor remembers the highest version of each and notes every sample
  below it; \<^verbatim>\<open>WaitConverged\<close> polls until no client is behind a version. The members are given by what is read of them,
  their ids and versions, since the clients go on while the fleet looks at them. The layout of durations is an argument.
\<close>

section \<open>The monitor\<close>

text \<open>One reading: every member's id with its version.\<close>

type_synonym reading = "(nat \<times> int) list"

record fleet =
  fl_last :: "nat \<rightharpoonup> int"
  fl_violations :: "jsstring list"
  fl_samples :: nat

definition spawned :: "reading \<Rightarrow> fleet" where
  "spawned r = \<lparr>fl_last = map_of r, fl_violations = [], fl_samples = 0\<rparr>"

definition regressed :: "nat \<Rightarrow> int \<Rightarrow> int \<Rightarrow> jsstring" where
  "regressed i prev v =
     js ''client '' @ js_num (int i) @ js '': config_version regressed '' @ js_num prev @ js '' -> '' @ js_num v"

definition sample_member :: "fleet \<Rightarrow> nat \<times> int \<Rightarrow> fleet" where
  "sample_member f iv =
     (let (i, v) = iv;
          f1 = (case fl_last f i of
                  Some prev \<Rightarrow> if v < prev then f\<lparr>fl_violations := fl_violations f @ [regressed i prev v]\<rparr> else f
                | None \<Rightarrow> f);
          f2 = (if v > (case fl_last f1 i of Some p \<Rightarrow> p | None \<Rightarrow> 0) then f1\<lparr>fl_last := (fl_last f1)(i \<mapsto> v)\<rparr> else f1)
      in f2\<lparr>fl_samples := Suc (fl_samples f2)\<rparr>)"

definition sampleOnce :: "reading \<Rightarrow> fleet \<Rightarrow> fleet" where
  "sampleOnce r f = foldl sample_member f r"

text \<open>\<^verbatim>\<open>MonitorMonotonicity\<close>: a sample at every tick until the context ends.\<close>

definition MonitorMonotonicity :: "reading list \<Rightarrow> fleet \<Rightarrow> fleet" where
  "MonitorMonotonicity rs f = foldl (\<lambda>f r. sampleOnce r f) f rs"

section \<open>Looking at the versions\<close>

definition VersionSpread :: "reading \<Rightarrow> int \<times> int" where
  "VersionSpread r =
     (let (lo, hi, first) =
        foldl (\<lambda>(lo, hi, first) (i, v).
          if first then (v, v, False)
          else (if v < lo then v else lo, if v > hi then v else hi, False)) (0, 0, True) r
      in (lo, hi))"

definition laggards :: "int \<Rightarrow> reading \<Rightarrow> reading" where
  "laggards target r = filter (\<lambda>(i, v). v < target) r"

text \<open>The rest of the list from index \<open>i\<close> on.\<close>

fun joinLaggards_from :: "nat \<Rightarrow> nat \<Rightarrow> nat \<Rightarrow> reading \<Rightarrow> jsstring" where
  "joinLaggards_from n limit i [] = []"
| "joinLaggards_from n limit i ((c, v) # r) =
     (if i \<ge> limit then js '' ...(+'' @ js_num (int n - int limit) @ js '' more)''
      else (if i > 0 then js '', '' else []) @ js ''client '' @ js_num (int c) @ js ''@'' @ js_num v @
        joinLaggards_from n limit (Suc i) r)"

definition joinLaggards :: "reading \<Rightarrow> nat \<Rightarrow> jsstring" where
  "joinLaggards l limit = joinLaggards_from (length l) limit 0 l"

definition CountAtLeast :: "int \<Rightarrow> reading \<Rightarrow> nat" where
  "CountAtLeast target r = length (filter (\<lambda>(i, v). v \<ge> target) r)"

definition AssertNoneBelow :: "int \<Rightarrow> reading \<Rightarrow> jsstring option" where
  "AssertNoneBelow floor r =
     (let bad = laggards floor r
      in if bad \<noteq> []
         then Some (js_num (int (length bad)) @ js '' clients regressed below last-known-good '' @ js_num floor @ js '': '' @
                joinLaggards bad 8)
         else None)"

section \<open>Waiting for convergence\<close>

text \<open>
  What one turn of the loop meets: the versions the sample reads, those that are compared with the target
  afterwards, whether the deadline has passed, and whether the context ends before the next turn.
\<close>

record poll =
  po_sample :: reading
  po_versions :: reading
  po_late :: bool
  po_cancelled :: bool

datatype wait_error = Behind jsstring | ContextEnded

definition behind_text :: "nat \<Rightarrow> reading \<Rightarrow> int \<Rightarrow> jsstring \<Rightarrow> jsstring" where
  "behind_text members lagging target timeout =
     js_num (int (length lagging)) @ js ''/'' @ js_num (int members) @ js '' clients did not converge to version '' @
     js_num target @ js '' within '' @ timeout @ js '': '' @ joinLaggards lagging 8"

text \<open>\<open>None\<close> is a wait that is not over after these turns.\<close>

fun WaitConverged :: "int \<Rightarrow> jsstring \<Rightarrow> poll list \<Rightarrow> fleet \<Rightarrow> (wait_error + unit) option \<times> fleet" where
  "WaitConverged target timeout [] f = (None, f)"
| "WaitConverged target timeout (p # ps) f =
     (let f1 = sampleOnce (po_sample p) f;
          lagging = laggards target (po_versions p)
      in if lagging = [] then (Some (Inr ()), f1)
         else if po_late p
         then (Some (Inl (Behind (behind_text (length (po_versions p)) lagging target timeout))), f1)
         else if po_cancelled p then (Some (Inl ContextEnded), f1)
         else WaitConverged target timeout ps f1)"

section \<open>The monitor notes exactly the falls\<close>

text \<open>What was read of one member, in order.\<close>

definition readings_of :: "nat \<Rightarrow> reading \<Rightarrow> int list" where
  "readings_of i r = map snd (filter (\<lambda>(j, v). j = i) r)"

text \<open>The sequence never falls below its highest value so far.\<close>

definition never_falls :: "int \<Rightarrow> int list \<Rightarrow> bool" where
  "never_falls v vs \<longleftrightarrow> sorted (v # vs)"

lemma sample_member_last:
  assumes "fl_last f i = Some p"
  shows "fl_last (sample_member f (i, v)) i = Some (max p v)"
    "j \<noteq> i \<Longrightarrow> fl_last (sample_member f (i, v)) j = fl_last f j"
    "fl_violations (sample_member f (i, v)) = fl_violations f @ (if v < p then [regressed i p v] else [])"
  using assms by (simp_all add: sample_member_def Let_def max_def)

lemma MonitorMonotonicity_concat: "MonitorMonotonicity rs f = foldl sample_member f (concat rs)"
  by (induction rs arbitrary: f) (simp_all add: MonitorMonotonicity_def sampleOnce_def)

lemma sampled_exact:
  assumes "fst ` set r \<subseteq> dom (fl_last f)"
  shows "fl_violations (foldl sample_member f r) = fl_violations f \<longleftrightarrow>
    (\<forall>i p. fl_last f i = Some p \<longrightarrow> never_falls p (readings_of i r))"
  using assms
proof (induction r arbitrary: f)
  case (Cons iv r)
  obtain i v where iv: "iv = (i, v)" by (cases iv)
  obtain p where p: "fl_last f i = Some p" using Cons.prems iv by auto
  let ?f = "sample_member f (i, v)"
  note sel = sample_member_last [OF p, where v = v]
  have grows: "\<exists>x. fl_violations (foldl sample_member g r) = fl_violations g @ x" for g and r :: reading
  proof (induction r arbitrary: g)
    case (Cons a r)
    have "\<exists>x. fl_violations (sample_member g a) = fl_violations g @ x"
      by (cases a) (simp add: sample_member_def Let_def split: option.split)
    then show ?case using Cons.IH [of "sample_member g a"] by auto
  qed simp
  have "dom (fl_last f) \<subseteq> dom (fl_last ?f)" using sel(1,2) p by (metis domI domD subsetI)
  moreover have "fst ` set r \<subseteq> dom (fl_last f)" using Cons.prems by simp
  ultimately have dom: "fst ` set r \<subseteq> dom (fl_last ?f)" by (rule order_trans [rotated])
  have head: "never_falls p (v # vs) \<longleftrightarrow> p \<le> v \<and> never_falls (max p v) vs" for vs
    by (auto simp: never_falls_def max_def)
  have own: "readings_of i (iv # r) = v # readings_of i r" and other: "readings_of j (iv # r) = readings_of j r" if "j \<noteq> i" for j
    using that by (simp_all add: readings_of_def iv)
  show ?case
  proof (cases "v < p")
    case True
    have "fl_violations (foldl sample_member f (iv # r)) \<noteq> fl_violations f"
      using grows [of ?f r] sel(3) True by (auto simp: iv)
    moreover have "\<not> never_falls p (readings_of i (iv # r))"
      using True by (simp add: head readings_of_def iv)
    ultimately show ?thesis using p by blast
  next
    case False
    then have keep: "fl_violations ?f = fl_violations f" using sel(3) by simp
    have "(\<forall>j q. fl_last ?f j = Some q \<longrightarrow> never_falls q (readings_of j r)) \<longleftrightarrow>
        (\<forall>j q. fl_last f j = Some q \<longrightarrow> never_falls q (readings_of j (iv # r)))"
    proof (rule iff_allI)
      fix j
      show "(\<forall>q. fl_last ?f j = Some q \<longrightarrow> never_falls q (readings_of j r)) \<longleftrightarrow>
          (\<forall>q. fl_last f j = Some q \<longrightarrow> never_falls q (readings_of j (iv # r)))"
        using sel p False head by (cases "j = i") (auto simp: readings_of_def iv)
    qed
    then show ?thesis using Cons.IH [OF dom] keep by (simp add: iv)
  qed
qed (simp add: readings_of_def never_falls_def)

lemma samples_counted: "fl_samples (foldl sample_member f r) = fl_samples f + length r"
  by (induction r arbitrary: f) (auto simp: sample_member_def Let_def split: option.split)

lemma AssertNoneBelow_exact: "AssertNoneBelow floor r = None \<longleftrightarrow> (\<forall>(i, v) \<in> set r. floor \<le> v)"
  by (simp add: AssertNoneBelow_def laggards_def filter_empty_conv Let_def case_prod_beta not_less)

lemma CountAtLeast_laggards: "CountAtLeast target r + length (laggards target r) = length r"
  by (induction r) (auto simp: CountAtLeast_def laggards_def)

lemma spread_from:
  "foldl (\<lambda>(lo, hi, first) (i, v).
     if first then (v, v, False)
     else (if v < lo then v else lo, if v > hi then v else hi, False)) (lo, hi, False) r =
   (Min (insert lo (snd ` set r)), Max (insert hi (snd ` set r)), False)"
proof (induction r arbitrary: lo hi)
  case (Cons a r)
  obtain i v where a: "a = (i, v)" by (cases a)
  have "Min (insert lo (insert v (snd ` set r))) = Min (insert (min v lo) (snd ` set r))"
    "Max (insert hi (insert v (snd ` set r))) = Max (insert (max v hi) (snd ` set r))"
    by (cases "snd ` set r = {}"; simp add: min.left_commute min.commute max.left_commute max.commute min.assoc max.assoc)+
  then show ?case using Cons.IH by (auto simp: a min_def max_def)
qed simp

lemma VersionSpread_exact: "r \<noteq> [] \<Longrightarrow> VersionSpread r = (Min (snd ` set r), Max (snd ` set r))"
  by (cases r) (auto simp: VersionSpread_def spread_from)

section \<open>Clients that are watched\<close>

text \<open>What a client does after it has started: pages of a reconcile, and frames.\<close>

inductive go_moves :: "go_client \<Rightarrow> go_client \<Rightarrow> bool" where
  stays: "go_moves c c"
| page: "go_moves c c' \<Longrightarrow> go_moves c (snd (Reconcile_round resp c'))"
| frame: "go_moves c c' \<Longrightarrow> go_moves c (snd (go_frame decode answer fr c'))"

lemma live_mono: "g_version c \<le> g_version (snd (applyLiveEvent t data v c))"
  by (auto simp: applyLiveEvent_def store_flag_def Let_def split: option.splits)

lemma frame_mono: "g_version c \<le> g_version (snd (go_frame decode answer fr c))"
proof -
  obtain t data i where fr: "fr = (t, data, i)" by (cases fr)
  define vc where "vc = (case parseSSEVersion i of None \<Rightarrow> (g_version c + 1, c)
      | Some v \<Rightarrow> (v, if g_onVersion c then c\<lparr>g_observed := g_observed c @ [v]\<rparr> else c))"
  have "g_version (snd vc) = g_version c" by (auto simp: vc_def split: option.split)
  moreover have "g_version (snd vc) \<le> g_version (snd (applyLiveEvent t (decode data) (fst vc) (snd vc)))" by (rule live_mono)
  moreover have "snd (go_frame decode answer fr c) =
      (let (b, c2) = applyLiveEvent t (decode data) (fst vc) (snd vc) in if b then snd (Reconcile answer c2) else c2)"
    by (simp add: go_frame_def fr vc_def case_prod_beta Let_def)
  moreover have "g_version c2 \<le> g_version (snd (Reconcile answer c2))" for c2
    using Reconcile_from_mono [of c2 MAX_PAGES answer] by (simp add: Reconcile_def)
  ultimately show ?thesis by (auto simp: case_prod_beta Let_def intro: order_trans)
qed

lemma moves_mono: "go_moves c c' \<Longrightarrow> g_version c \<le> g_version c'"
proof (induction rule: go_moves.induct)
  case (page c c' resp)
  then show ?case using round_mono [of c' resp] by simp
next
  case (frame c c' decode answer fr)
  then show ?case using frame_mono [of c'] by (meson order_trans)
qed simp

fun watched :: "go_client \<Rightarrow> int list \<Rightarrow> bool" where
  "watched c [] \<longleftrightarrow> True"
| "watched c (v # vs) \<longleftrightarrow> (\<exists>c'. go_moves c c' \<and> g_version c' = v \<and> watched c' vs)"

lemma watched_never_falls: "watched c vs \<Longrightarrow> never_falls (g_version c) vs"
proof (induction vs arbitrary: c)
  case (Cons v vs)
  then obtain c' where "go_moves c c'" "g_version c' = v" "watched c' vs" by auto
  then show ?case using Cons.IH [of c'] moves_mono [of c c'] by (auto simp: never_falls_def)
qed (simp add: never_falls_def)

section \<open>Properties of the fleet\<close>

text \<open>The monitor is exact: it has noted nothing if and only if no member was ever read below an earlier reading of its
  own, the one at its start included; it takes one sample per member and tick. And it notes nothing about Go clients
  that follow the server with pages and frames, whatever they are answered.\<close>

theorem fleet_monitor_is_exact:
  assumes "distinct (map fst r0)" "\<forall>r \<in> set rs. map fst r = map fst r0"
  defines "f \<equiv> MonitorMonotonicity rs (spawned r0)"
  shows "(fl_violations f = [] \<longleftrightarrow> (\<forall>(i, p) \<in> set r0. sorted (p # readings_of i (concat rs)))) \<and>
         fl_samples f = length r0 * length rs \<and>
         ((\<forall>(i, p) \<in> set r0. \<exists>c. g_version c = p \<and> watched c (readings_of i (concat rs))) \<longrightarrow> fl_violations f = [])"
proof -
  have "fst ` set (concat rs) \<subseteq> fst ` set r0"
  proof
    fix i assume "i \<in> fst ` set (concat rs)"
    then obtain r where "r \<in> set rs" "i \<in> set (map fst r)" by auto
    then show "i \<in> fst ` set r0" using assms(2) by (metis set_map)
  qed
  then have dom: "fst ` set (concat rs) \<subseteq> dom (fl_last (spawned r0))" by (simp add: spawned_def dom_map_of_conv_image_fst)
  have exact: "fl_violations f = [] \<longleftrightarrow> (\<forall>(i, p) \<in> set r0. never_falls p (readings_of i (concat rs)))"
    using sampled_exact [OF dom] assms(1)
    by (auto simp: f_def MonitorMonotonicity_concat spawned_def map_of_eq_Some_iff)
  have "length (concat rs) = length r0 * length rs"
    using assms(2) by (induction rs) (auto dest: map_eq_imp_length_eq)
  then have "fl_samples f = length r0 * length rs"
    using samples_counted [of "spawned r0" "concat rs"] by (simp add: f_def MonitorMonotonicity_concat spawned_def)
  moreover have "fl_violations f = []"
    if "\<forall>(i, p) \<in> set r0. \<exists>c. g_version c = p \<and> watched c (readings_of i (concat rs))"
    using that watched_never_falls unfolding exact by fastforce
  ultimately show ?thesis using exact by (auto simp: never_falls_def)
qed

theorem fleet_monitor_is_exact_witness:
  "fl_violations (MonitorMonotonicity [[(0, 5), (1, 7)], [(0, 6), (1, 7)]] (spawned [(0, 5), (1, 6)])) = [] \<and>
   fl_violations (MonitorMonotonicity [[(0, 5), (1, 7)], [(0, 6), (1, 6)]] (spawned [(0, 5), (1, 6)])) \<noteq> []"
  using fleet_monitor_is_exact [of "[(0, 5), (1, 6)]" "[[(0, 5), (1, 7)], [(0, 6), (1, 7)]]"]
    fleet_monitor_is_exact [of "[(0, 5), (1, 6)]" "[[(0, 5), (1, 7)], [(0, 6), (1, 6)]]"]
  by (simp add: readings_of_def)

lemma converged_turn:
  "fst (WaitConverged target timeout ps f) = Some (Inr ()) \<Longrightarrow>
     \<exists>n < length ps. \<forall>(i, v) \<in> set (po_versions (ps ! n)). target \<le> v"
proof (induction ps arbitrary: f)
  case (Cons p ps)
  show ?case
  proof (cases "laggards target (po_versions p) = []")
    case True
    then have "\<forall>(i, v) \<in> set (po_versions p). target \<le> v" by (auto simp: laggards_def filter_empty_conv)
    then show ?thesis by (intro exI [of _ 0]) simp
  next
    case False
    then have "fst (WaitConverged target timeout ps (sampleOnce (po_sample p) f)) = Some (Inr ())"
      using Cons.prems by (auto simp: Let_def split: if_splits)
    then obtain n where "n < length ps" "\<forall>(i, v) \<in> set (po_versions (ps ! n)). target \<le> v" using Cons.IH by blast
    then show ?thesis by (intro exI [of _ "Suc n"]) simp
  qed
qed simp

lemma late_ends: "po_late p \<or> po_cancelled p \<Longrightarrow> p \<in> set ps \<Longrightarrow> fst (WaitConverged target timeout ps f) \<noteq> None"
  by (induction ps arbitrary: f) (auto simp: Let_def)



end
