(* ===== verification/Chaos.thy ===== *)
theory Chaos
  imports Interleaving Fleet
begin

text \<open>
  The chaos tool's view of the control plane (\<^verbatim>\<open>pkg/chaoskit/chaoskit.go\<close>) and the first phase of its scenario of
  concurrent writers (\<^verbatim>\<open>cmd/chaos/main.go\<close>): many writers toggle one flag at the same time, and from the answers, the
  version and the durable events the tool concludes whether an update was lost. The writers' requests overlap as in
  theory Interleaving.
\<close>

section \<open>Requests of the tool\<close>

text \<open>A request is answered, or it fails; \<open>None\<close> is a failure of the transport.\<close>

type_synonym tool_answer = "reply option"

datatype tool_error =
    CallFailed | CallStatus int | BadBodyOf | FlagMissing utext
  | LostUpdates nat nat | NotIncreasing int int int | EventsLost nat nat
  | Unclean int | WritesLost nat nat | FinalVersion int int

record write_result =
  wr_status :: int
  wr_version :: int
  wr_enabled :: bool

definition chaos_LatestVersion :: "tool_answer \<Rightarrow> tool_error + int" where
  "chaos_LatestVersion ans =
     (case ans of
        None \<Rightarrow> Inl CallFailed
      | Some r \<Rightarrow>
          if code r \<noteq> 200 then Inl (CallStatus (code r))
          else (case rbody r of BVersion nid v n \<Rightarrow> Inr v | _ \<Rightarrow> Inl BadBodyOf))"

definition chaos_ListFlags :: "tool_answer \<Rightarrow> tool_error + (utext Flag list \<times> int)" where
  "chaos_ListFlags ans =
     (case ans of
        None \<Rightarrow> Inl CallFailed
      | Some r \<Rightarrow>
          if code r \<noteq> 200 then Inl (CallStatus (code r))
          else (case rbody r of BFlags fs v \<Rightarrow> Inr (fs, v) | _ \<Rightarrow> Inl BadBodyOf))"

definition flagByKey :: "utext \<Rightarrow> tool_answer \<Rightarrow> tool_error + (utext \<times> utext Flag)" where
  "flagByKey k ans =
     (case chaos_ListFlags ans of
        Inl e \<Rightarrow> Inl e
      | Inr (fs, v) \<Rightarrow> (case find (\<lambda>f. key f = k) fs of Some f \<Rightarrow> Inr (flag_id f, f) | None \<Rightarrow> Inl (FlagMissing k)))"

text \<open>The answer to the request that creates the flag, and to the listing that is asked for after a conflict.\<close>

definition EnsureFlag :: "utext \<Rightarrow> tool_answer \<Rightarrow> tool_answer \<Rightarrow> tool_error + utext" where
  "EnsureFlag k created listed =
     (case created of
        None \<Rightarrow> Inl CallFailed
      | Some r \<Rightarrow>
          if code r = 201 then (case rbody r of BFlag f \<Rightarrow> Inr (flag_id f) | _ \<Rightarrow> Inl BadBodyOf)
          else if code r \<noteq> 409 then Inl (CallStatus (code r))
          else (case flagByKey k listed of Inl e \<Rightarrow> Inl e | Inr (i, f) \<Rightarrow> Inr i))"

definition chaos_Toggle :: "tool_answer \<Rightarrow> (tool_error + unit) \<times> write_result" where
  "chaos_Toggle ans =
     (case ans of
        None \<Rightarrow> (Inl CallFailed, \<lparr>wr_status = 0, wr_version = 0, wr_enabled = False\<rparr>)
      | Some r \<Rightarrow>
          if code r \<noteq> 200 then (Inl (CallStatus (code r)), \<lparr>wr_status = code r, wr_version = 0, wr_enabled = False\<rparr>)
          else (case rbody r of
                  BFlag f \<Rightarrow> (Inr (), \<lparr>wr_status = code r, wr_version = version f, wr_enabled = enabled f\<rparr>)
                | _ \<Rightarrow> (Inl BadBodyOf, \<lparr>wr_status = code r, wr_version = 0, wr_enabled = False\<rparr>)))"

definition chaos_Update :: "tool_answer \<Rightarrow> (tool_error + unit) \<times> write_result" where
  "chaos_Update ans =
     (case ans of
        None \<Rightarrow> (Inl CallFailed, \<lparr>wr_status = 0, wr_version = 0, wr_enabled = False\<rparr>)
      | Some r \<Rightarrow>
          if code r = 200
          then (case rbody r of
                  BFlag f \<Rightarrow> (Inr (), \<lparr>wr_status = code r, wr_version = version f, wr_enabled = enabled f\<rparr>)
                | _ \<Rightarrow> (Inl BadBodyOf, \<lparr>wr_status = code r, wr_version = 0, wr_enabled = False\<rparr>))
          else (Inr (), \<lparr>wr_status = code r, wr_version = 0, wr_enabled = False\<rparr>))"

definition EventsSinceCount :: "utext \<Rightarrow> tool_answer \<Rightarrow> tool_error + nat" where
  "EventsSinceCount flagKey ans =
     (case ans of
        None \<Rightarrow> Inl CallFailed
      | Some r \<Rightarrow>
          if code r \<noteq> 200 then Inl (CallStatus (code r))
          else (case rbody r of
                  BBacklog es v \<Rightarrow> Inr (length (filter (\<lambda>e. flagKey = [] \<or> flag_key e = flagKey) es))
                | _ \<Rightarrow> Inl BadBodyOf))"

section \<open>The checks of a phase\<close>

text \<open>A writer of \<^verbatim>\<open>hammer\<close> in the first phase: a call that returns an error counts as status -1.\<close>

definition toggle_writer :: "tool_answer \<Rightarrow> write_result" where
  "toggle_writer ans = (let (r, w) = chaos_Toggle ans in case r of Inl e \<Rightarrow> w\<lparr>wr_status := - 1\<rparr> | Inr u \<Rightarrow> w)"

definition successVersions :: "int list \<Rightarrow> int list \<Rightarrow> int \<Rightarrow> int list" where
  "successVersions versions statuses okStatus =
     sort (map fst (filter (\<lambda>(v, s). s = okStatus) (zip versions statuses)))"

definition countStatus :: "int list \<Rightarrow> int \<Rightarrow> nat" where
  "countStatus statuses want = length (filter (\<lambda>s. s = want) statuses)"

fun increasing_from :: "int \<Rightarrow> int \<Rightarrow> int list \<Rightarrow> tool_error option" where
  "increasing_from floor prev [] = None"
| "increasing_from floor prev (v # vs) =
     (if v \<le> prev then Some (NotIncreasing floor v prev) else increasing_from floor v vs)"

definition assertStrictlyIncreasing :: "int list \<Rightarrow> int \<Rightarrow> tool_error option" where
  "assertStrictlyIncreasing sorted0 floor = increasing_from floor floor sorted0"

text \<open>
  The first phase: the version before, the writers' answers in the order they were collected, and the answer to
  the request for the events since that version.
\<close>

definition phase_one ::
  "utext \<Rightarrow> nat \<Rightarrow> nat \<Rightarrow> tool_answer \<Rightarrow> tool_answer list \<Rightarrow> (int \<Rightarrow> tool_answer) \<Rightarrow> tool_error + unit" where
  "phase_one flagKey writers iters ver answers0 events_since =
     (case chaos_LatestVersion ver of
        Inl e \<Rightarrow> Inl e
      | Inr base1 \<Rightarrow>
          let results = map toggle_writer answers0;
              okVersions = successVersions (map wr_version results) (map wr_status results) 200;
              totalToggles = writers * iters
          in if length okVersions \<noteq> totalToggles then Inl (LostUpdates (length okVersions) totalToggles)
             else case assertStrictlyIncreasing okVersions base1 of
                    Some e \<Rightarrow> Inl e
                  | None \<Rightarrow>
                      (case EventsSinceCount flagKey (events_since base1) of
                         Inl e \<Rightarrow> Inl e
                       | Inr events1 \<Rightarrow>
                           if events1 \<noteq> totalToggles then Inl (EventsLost totalToggles events1) else Inr ()))"

section \<open>Toggles that overlap\<close>

text \<open>A schedule of requests that toggle the flag \<open>i\<close>, each of which is answered.\<close>

fun toggles :: "utext \<Rightarrow> concurrent \<Rightarrow> sched list \<Rightarrow> bool" where
  "toggles i x [] \<longleftrightarrow> opened x = []"
| "toggles i x (Begin n t # ss) \<longleftrightarrow>
     (case t of TxToggle now j \<Rightarrow> j = i | _ \<Rightarrow> False) \<and> n \<notin> fst ` set (opened x) \<and> toggles i (sched_step x (Begin n t)) ss"
| "toggles i x (Finish n # ss) \<longleftrightarrow> n \<in> fst ` set (opened x) \<and> toggles i (sched_step x (Finish n)) ss"

fun begins :: "sched list \<Rightarrow> nat" where
  "begins [] = 0"
| "begins (Begin n t # ss) = Suc (begins ss)"
| "begins (Finish n # ss) = begins ss"

text \<open>The answers, in the order of the commits, as the handler gives them.\<close>

definition toggle_reply :: "db_error + utext Flag option \<Rightarrow> reply" where
  "toggle_reply r =
     (case r of
        Inl e \<Rightarrow> http 500 (BError ''internal_error'' ''Failed to toggle flag'')
      | Inr None \<Rightarrow> http 404 (BError ''not_found'' ''Flag not found'')
      | Inr (Some flag) \<Rightarrow> http 200 (BFlag flag))"

fun toggle_replies :: "concurrent \<Rightarrow> sched list \<Rightarrow> reply list" where
  "toggle_replies x [] = []"
| "toggle_replies x (Begin n t # ss) = toggle_replies (sched_step x (Begin n t)) ss"
| "toggle_replies x (Finish n # ss) =
     (case map_of (opened x) n of
        Some (v, TxToggle now i) \<Rightarrow> [toggle_reply (fst (toggle_tx now i v (cdb x)))]
      | _ \<Rightarrow> []) @ toggle_replies (sched_step x (Finish n)) ss"

text \<open>One request after the other is the handler.\<close>

lemma toggle_reply_handler:
  assumes "up (sdb s)"
  shows "toggle_replies \<lparr>cdb = sdb s, opened = []\<rparr> [Begin n (TxToggle now i), Finish n] = [fst (h_ToggleFlag now i s)] \<and>
    run_sched [Begin n (TxToggle now i), Finish n] (sdb s) = sdb (snd (h_ToggleFlag now i s))"
  using assms
  by (simp add: h_ToggleFlag_def ToggleFlag_def Toggle_def toggle_reply_def run_sched_def nextVersion_def toggle_tx_def
      row_by_id_def publish_defs Publish_def Let_def split: option.split)

definition drawn :: "concurrent \<Rightarrow> int multiset" where
  "drawn x = mset (map (\<lambda>(n, v, t). v) (opened x))"

definition good_reply :: "reply \<Rightarrow> bool" where
  "good_reply r \<longleftrightarrow> code r = 200 \<and> (\<exists>f. rbody r = BFlag f)"

definition reply_version :: "reply \<Rightarrow> int" where
  "reply_version r = (case rbody r of BFlag f \<Rightarrow> version f | _ \<Rightarrow> 0)"

text \<open>What a run of toggles does: the new events, one per answer, with the versions that were drawn.\<close>

definition burst ::
  "utext \<Rightarrow> utext Flag \<Rightarrow> concurrent \<Rightarrow> concurrent \<Rightarrow> reply list \<Rightarrow> int multiset \<Rightarrow> bool" where
  "burst i f x x' rs vs \<longleftrightarrow>
     (\<exists>es. events (cdb x') = events (cdb x) @ es \<and> map ev_version es = map reply_version rs \<and>
           (\<forall>e \<in> set es. flag_key e = key f)) \<and>
     list_all good_reply rs \<and> mset (map reply_version rs) = vs \<and> up (cdb x') = up (cdb x) \<and>
     (\<exists>g. row_by_id (cdb x') i = Some g \<and> key g = key f \<and> enabled g = (enabled f \<noteq> odd (length rs)))"

lemma row_by_id_replace:
  assumes "row_by_id d i = Some f" "flag_id f' = i"
  shows "row_by_id (replace_row f' d) i = Some f'"
proof -
  have "find (\<lambda>g. flag_id g = i) fs = Some f \<Longrightarrow>
      find (\<lambda>g. flag_id g = i) (map (\<lambda>g. if flag_id g = i then f' else g) fs) = Some f'" for fs
    using assms(2) by (induction fs) auto
  then show ?thesis using assms by (simp add: row_by_id_def replace_row_def)
qed

lemma toggle_commit:
  fixes v now :: int
  assumes "row_by_id d i = Some f"
  defines "flag \<equiv> f\<lparr>enabled := \<not> enabled f, version := v, updated_at := now\<rparr>"
  shows "toggle_tx now i v d = (Inr (Some flag), appendEvent v (key f) (Updated flag) now (replace_row flag d))"
    "row_by_id (snd (toggle_tx now i v d)) i = Some flag"
proof -
  show tx: "toggle_tx now i v d = (Inr (Some flag), appendEvent v (key f) (Updated flag) now (replace_row flag d))"
    using assms by (simp add: toggle_tx_def Let_def)
  have "flag_id flag = i" using assms(1) by (auto simp: flag_def row_by_id_def find_Some_iff)
  then show "row_by_id (snd (toggle_tx now i v d)) i = Some flag"
    using row_by_id_replace [OF assms(1)] by (simp add: tx appendEvent_def)
qed

lemma drawn_finish:
  assumes "map_of (opened x) n = Some (v, t)" "distinct (map fst (opened x))"
  shows "drawn x = add_mset v (mset (map (\<lambda>(n, v, t). v) (filter (\<lambda>e. fst e \<noteq> n) (opened x))))"
proof -
  have "map_of os n = Some (v, t) \<Longrightarrow> distinct (map fst os) \<Longrightarrow>
      mset (map (\<lambda>(n, v, t). v) os) = add_mset v (mset (map (\<lambda>(n, v, t). v) (filter (\<lambda>e. fst e \<noteq> n) os)))"
    for os :: "(nat \<times> int \<times> txn) list"
  proof (induction os)
    case (Cons e os)
    obtain m w u where e: "e = (m, w, u)" by (cases e)
    show ?case
    proof (cases "m = n")
      case True
      then have "filter (\<lambda>e. fst e \<noteq> n) os = os" using Cons.prems(2) e by (auto simp: filter_id_conv)
      then show ?thesis using Cons.prems(1) e True by simp
    next
      case False
      then show ?thesis using Cons e by simp
    qed
  qed simp
  then show ?thesis using assms by (simp add: drawn_def)
qed

definition all_toggles :: "utext \<Rightarrow> concurrent \<Rightarrow> bool" where
  "all_toggles i x \<longleftrightarrow> distinct (map fst (opened x)) \<and> (\<forall>(n, v, t) \<in> set (opened x). \<exists>now. t = TxToggle now i)"

lemma burst_begin:
  assumes "x1 = sched_step x (Begin n t)"
    and "burst i f x1 x' rs (drawn x1 + mset [seq (cdb x1) + 1..seq (cdb x1) + int m])"
  shows "burst i f x x' rs (drawn x + mset [seq (cdb x) + 1..seq (cdb x) + int (Suc m)])"
proof -
  have x: "cdb x1 = (cdb x)\<lparr>seq := seq (cdb x) + 1\<rparr>" "opened x1 = (n, seq (cdb x) + 1, t) # opened x"
    by (simp_all add: assms(1) nextVersion_def)
  have "drawn x1 + mset [seq (cdb x1) + 1..seq (cdb x1) + int m] =
      drawn x + mset [seq (cdb x) + 1..seq (cdb x) + int (Suc m)]"
    by (simp add: x drawn_def upto_rec1 [of "seq (cdb x) + 1"] add.assoc)
  moreover have "events (cdb x1) = events (cdb x)" "up (cdb x1) = up (cdb x)" by (simp_all only: x) simp_all
  ultimately show ?thesis using assms(2) by (simp only: burst_def)
qed

lemma burst_finish:
  fixes v now :: int
  assumes "map_of (opened x) n = Some (v, TxToggle now i)" "distinct (map fst (opened x))"
    and "row_by_id (cdb x) i = Some f" "x1 = sched_step x (Finish n)"
  defines "flag \<equiv> f\<lparr>enabled := \<not> enabled f, version := v, updated_at := now\<rparr>"
  assumes "burst i flag x1 x' rs (drawn x1 + vs)"
  shows "burst i f x x' (http 200 (BFlag flag) # rs) (drawn x + vs)"
proof -
  let ?e = "\<lparr>ev_version = v, flag_key = key f, payload = Updated flag, ev_created_at = now\<rparr>"
  have x: "cdb x1 = snd (toggle_tx now i v (cdb x))" "opened x1 = filter (\<lambda>e. fst e \<noteq> n) (opened x)"
    by (simp_all add: assms(1,4))
  have d: "up (cdb x1) = up (cdb x)" "events (cdb x1) = events (cdb x) @ [?e]"
    by (simp_all add: x toggle_commit(1) [OF assms(3)] flag_def appendEvent_def replace_row_def)
  have drawn: "drawn x = add_mset v (drawn x1)"
    using drawn_finish [OF assms(1,2)] by (simp add: drawn_def x)
  obtain es g where es: "events (cdb x') = events (cdb x1) @ es" "map ev_version es = map reply_version rs"
      "\<forall>e \<in> set es. flag_key e = key f"
    and g: "row_by_id (cdb x') i = Some g" "key g = key f" "enabled g = ((\<not> enabled f) \<noteq> odd (length rs))"
    and rest: "list_all good_reply rs" "up (cdb x') = up (cdb x1)" "mset (map reply_version rs) = drawn x1 + vs"
    using assms(6) by (auto simp: burst_def flag_def)
  have "events (cdb x') = events (cdb x) @ ?e # es" using es(1) d(2) by simp
  moreover have "map ev_version (?e # es) = map reply_version (http 200 (BFlag flag) # rs)"
    using es(2) by (simp add: reply_version_def flag_def)
  moreover have "\<forall>e \<in> set (?e # es). flag_key e = key f" using es(3) by simp
  moreover have "list_all good_reply (http 200 (BFlag flag) # rs)" using rest(1) by (simp add: good_reply_def)
  moreover have "mset (map reply_version (http 200 (BFlag flag) # rs)) = drawn x + vs"
    using rest(3) by (simp add: drawn reply_version_def flag_def)
  ultimately show ?thesis using g d(1) rest(2) unfolding burst_def by auto
qed

lemma toggles_burst:
  assumes "toggles i x ss" "all_toggles i x" "row_by_id (cdb x) i = Some f"
  shows "burst i f x (foldl sched_step x ss) (toggle_replies x ss)
    (drawn x + mset [seq (cdb x) + 1..seq (cdb x) + int (begins ss)])"
  using assms
proof (induction ss arbitrary: x f)
  case Nil
  then show ?case by (simp add: burst_def drawn_def)
next
  case (Cons s ss)
  let ?x = "sched_step x s"
  show ?case
  proof (cases s)
    case (Begin n t)
    obtain now where t: "t = TxToggle now i" using Cons.prems(1) Begin by (cases t) auto
    have x: "cdb ?x = (cdb x)\<lparr>seq := seq (cdb x) + 1\<rparr>" "opened ?x = (n, seq (cdb x) + 1, t) # opened x"
      by (simp_all add: Begin nextVersion_def)
    have fresh: "n \<notin> fst ` set (opened x)" using Cons.prems(1) Begin by simp
    have "all_toggles i ?x" using Cons.prems(2) fresh t unfolding all_toggles_def x by simp
    moreover have "toggles i ?x ss" using Cons.prems(1) Begin by (simp del: sched_step.simps)
    moreover have "row_by_id (cdb ?x) i = Some f" unfolding x using Cons.prems(3) by simp
    ultimately have "burst i f ?x (foldl sched_step ?x ss) (toggle_replies ?x ss)
        (drawn ?x + mset [seq (cdb ?x) + 1..seq (cdb ?x) + int (begins ss)])"
      using Cons.IH by blast
    then show ?thesis using burst_begin [of ?x x n t] Begin by (simp del: sched_step.simps)
  next
    case (Finish n)
    obtain v t where o: "map_of (opened x) n = Some (v, t)"
      using Cons.prems(1) Finish by (cases "map_of (opened x) n") (auto simp: map_of_eq_None_iff)
    then obtain now where t: "t = TxToggle now i"
      using Cons.prems(2) map_of_SomeD [OF o] by (auto simp: all_toggles_def)
    let ?flag = "f\<lparr>enabled := \<not> enabled f, version := v, updated_at := now\<rparr>"
    note commit = toggle_commit [OF Cons.prems(3), of now v]
    have x: "cdb ?x = snd (toggle_tx now i v (cdb x))" "opened ?x = filter (\<lambda>e. fst e \<noteq> n) (opened x)"
      by (simp_all add: Finish o t)
    have dist: "distinct (map fst (opened x))" using Cons.prems(2) by (simp add: all_toggles_def)
    have "all_toggles i ?x" using Cons.prems(2) by (auto simp: all_toggles_def x distinct_map_filter)
    moreover have "toggles i ?x ss" using Cons.prems(1) Finish by (simp del: sched_step.simps)
    moreover have "row_by_id (cdb ?x) i = Some ?flag" using commit(2) by (simp add: x)
    ultimately have "burst i ?flag ?x (foldl sched_step ?x ss) (toggle_replies ?x ss)
        (drawn ?x + mset [seq (cdb ?x) + 1..seq (cdb ?x) + int (begins ss)])"
      using Cons.IH by blast
    moreover have "seq (cdb ?x) = seq (cdb x)" by (simp add: x commit(1) appendEvent_def replace_row_def)
    moreover have "toggle_replies x (s # ss) = http 200 (BFlag ?flag) # toggle_replies ?x ss"
      by (simp add: Finish o t commit(1) toggle_reply_def del: sched_step.simps)
    moreover have "begins (s # ss) = begins ss" by (simp add: Finish)
    ultimately show ?thesis
      using burst_finish [OF o [unfolded t] dist Cons.prems(3), of ?x] Finish by (simp only: foldl.simps)
  qed
qed

section \<open>What the phase concludes\<close>

lemma successVersions_good:
  assumes "mset answers0 = mset (map Some rs)" "list_all good_reply rs"
  defines "ws \<equiv> map toggle_writer answers0"
  shows "successVersions (map wr_version ws) (map wr_status ws) 200 = sort (map reply_version rs)"
proof -
  let ?keep = "map fst (filter (\<lambda>(v, s). s = 200) (zip (map wr_version ws) (map wr_status ws)))"
  have one: "wr_status (toggle_writer (Some r)) = 200 \<and> wr_version (toggle_writer (Some r)) = reply_version r"
    if "r \<in> set rs" for r
    using assms(2) that by (auto simp: list_all_iff good_reply_def toggle_writer_def chaos_Toggle_def reply_version_def)
  have set: "set answers0 = Some ` set rs" using assms(1) by (metis set_map set_mset_mset)
  have "filter (\<lambda>(v, s). s = 200) (zip (map wr_version ws) (map wr_status ws)) = zip (map wr_version ws) (map wr_status ws)"
    using set one by (auto simp: ws_def filter_id_conv zip_map_map set_zip image_iff dest!: nth_mem)
  then have "?keep = map (wr_version \<circ> toggle_writer) answers0" by (simp add: ws_def)
  also have "mset \<dots> = mset (map (wr_version \<circ> toggle_writer \<circ> Some) rs)" using assms(1) by (metis map_map mset_map)
  also have "map (wr_version \<circ> toggle_writer \<circ> Some) rs = map reply_version rs" using one by simp
  finally have "mset ?keep = mset (map reply_version rs)" .
  then show ?thesis unfolding successVersions_def by (metis properties_for_sort mset_sort sorted_sort)
qed

lemma increasing_range: "increasing_from floor p [p' + 1..p' + int n] = None" if "p \<le> p'"
  using that
proof (induction n arbitrary: p p')
  case (Suc n)
  have "[p' + 1..p' + int (Suc n)] = (p' + 1) # [(p' + 1) + 1..(p' + 1) + int n]"
    by (simp add: upto_rec1 add.assoc)
  then show ?case using Suc.IH [of "p' + 1" "p' + 1"] Suc.prems by simp
qed simp

lemma bursts_page:
  assumes "\<forall>e \<in> set (events d). ev_version e \<le> v" "0 \<le> v" "v < 2 ^ 63"
    and "events d' = events d @ es" "up d'" "\<forall>e \<in> set es. v < ev_version e \<and> flag_key e = k"
  shows "EventsSinceCount k (Some (h_Reconcile (js_num v) (s\<lparr>sdb := d'\<rparr>) (s\<lparr>sdb := d'\<rparr>))) = Inr (min 500 (length es))"
proof -
  have "filter (\<lambda>e. ev_version e > v) (events d) = []" using assms(1) by (force simp: filter_empty_conv)
  moreover have "filter (\<lambda>e. ev_version e > v) es = es" using assms(6) by (force simp: filter_id_conv)
  ultimately have "filter (\<lambda>e. ev_version e > v) (events d') = es" using assms(4) by simp
  then have page: "ListEventsSince v 0 d' = Inr (take 500 (sort_key ev_version es))"
    using assms(5) by (simp add: ListEventsSince_def)
  have "go_parse_int64 (js_num v) = Some v" using assms(2,3) by (simp add: go_parse_int64_js_num)
  then have "\<exists>n. h_Reconcile (js_num v) (s\<lparr>sdb := d'\<rparr>) (s\<lparr>sdb := d'\<rparr>) =
      http 200 (BBacklog (take 500 (sort_key ev_version es)) n)"
    using assms(2) page assms(5) by (simp add: h_Reconcile_def GetLatestVersion_def)
  moreover have "filter (\<lambda>e. k = [] \<or> flag_key e = k) (take 500 (sort_key ev_version es)) = take 500 (sort_key ev_version es)"
    using assms(6) by (auto simp: filter_id_conv dest!: in_set_takeD)
  ultimately show ?thesis by (auto simp: EventsSinceCount_def)
qed

lemma logged_up_to_latest:
  assumes "db_wf d"
  shows "\<forall>e \<in> set (events d). ev_version e \<le> latest_version d"
  using assms ordered_last_greatest [of "events d" _ 0]
  by (simp add: latest_version_def db_wf_def versions_ok_def)

text \<open>
  However the toggles overlap and in whatever order their answers are collected: the phase passes as long as one page
  holds their events, the log has one event more for each, and the flag is flipped as often as it was toggled.
\<close>

lemma toggle_phase:
  assumes "db_wf (sdb s)" "up (sdb s)" "latest_version (sdb s) < 2 ^ 63" "row_by_id (sdb s) i = Some f"
    and "toggles i \<lparr>cdb = sdb s, opened = []\<rparr> ss" "begins ss = writers * iters"
    and "mset answers0 = mset (map Some (toggle_replies \<lparr>cdb = sdb s, opened = []\<rparr> ss))"
  defines "s' \<equiv> s\<lparr>sdb := run_sched ss (sdb s)\<rparr>"
  shows "phase_one (key f) writers iters (Some (h_Version s)) answers0 (\<lambda>v. Some (h_Reconcile (js_num v) s' s')) =
           (if writers * iters \<le> 500 then Inr () else Inl (EventsLost (writers * iters) 500)) \<and>
         (\<exists>es. events (sdb s') = events (sdb s) @ es \<and> length es = writers * iters \<and>
            mset (map ev_version es) = mset [seq (sdb s) + 1..seq (sdb s) + int (writers * iters)]) \<and>
         up (sdb s') \<and>
         (\<exists>g. row_by_id (sdb s') i = Some g \<and> key g = key f \<and> enabled g = (enabled f \<noteq> odd (writers * iters)))"
proof -
  let ?x = "\<lparr>cdb = sdb s, opened = []\<rparr>" and ?N = "writers * iters" and ?v = "latest_version (sdb s)"
  let ?rs = "toggle_replies ?x ss"
  have "burst i f ?x (foldl sched_step ?x ss) ?rs (mset [seq (sdb s) + 1..seq (sdb s) + int ?N])"
    using toggles_burst [OF assms(5), of f] assms(4,6) by (simp add: all_toggles_def drawn_def)
  then obtain es g where es: "events (sdb s') = events (sdb s) @ es" "map ev_version es = map reply_version ?rs"
      "\<forall>e \<in> set es. flag_key e = key f"
    and g: "row_by_id (sdb s') i = Some g" "key g = key f" "enabled g = (enabled f \<noteq> odd (length ?rs))"
    and rs: "list_all good_reply ?rs" "mset (map reply_version ?rs) = mset [seq (sdb s) + 1..seq (sdb s) + int ?N]"
      "up (sdb s')"
    using assms(2) by (auto simp: burst_def s'_def run_sched_def)
  have range: "length [a + 1..a + int n] = n" for a and n :: nat by simp
  have "length ?rs = ?N" using mset_eq_length [OF rs(2)] unfolding range by simp
  then have len: "length ?rs = ?N" "length es = ?N" using arg_cong [OF es(2), of length] by simp_all
  have sorted: "sort (map reply_version ?rs) = [seq (sdb s) + 1..seq (sdb s) + int ?N]"
    using rs(2) by (metis properties_for_sort sorted_upto)
  note bounds = latest_version_bounds [OF assms(1)]
  have "ev_version e \<in># mset [seq (sdb s) + 1..seq (sdb s) + int ?N]" if "e \<in> set es" for e
    using that es(2) rs(2) by (metis (no_types) image_eqI list.set_map set_mset_mset)
  then have new: "\<forall>e \<in> set es. ?v < ev_version e \<and> flag_key e = key f" using es(3) bounds(2) by fastforce
  have ok: "successVersions (map wr_version (map toggle_writer answers0)) (map wr_status (map toggle_writer answers0)) 200 =
      [seq (sdb s) + 1..seq (sdb s) + int ?N]"
    using successVersions_good [OF assms(7) rs(1)] sorted by simp
  have inc: "assertStrictlyIncreasing [seq (sdb s) + 1..seq (sdb s) + int ?N] ?v = None"
    unfolding assertStrictlyIncreasing_def by (rule increasing_range [OF bounds(2)])
  have ver: "chaos_LatestVersion (Some (h_Version s)) = Inr ?v"
    using GetLatestVersion_latest [OF assms(1,2)] by (simp add: chaos_LatestVersion_def h_Version_def)
  have "EventsSinceCount (key f) (Some (h_Reconcile (js_num ?v) s' s')) = Inr (min 500 ?N)"
    using bursts_page [OF logged_up_to_latest [OF assms(1)] bounds(1) assms(3) es(1) rs(3) new, of s'] len(2)
    by (simp add: s'_def)
  then have "phase_one (key f) writers iters (Some (h_Version s)) answers0 (\<lambda>v. Some (h_Reconcile (js_num v) s' s')) =
      (if ?N \<le> 500 then Inr () else Inl (EventsLost ?N 500))"
    unfolding phase_one_def ver sum.case Let_def ok inc option.case range by (auto simp: min_def)
  moreover have "mset (map ev_version es) = mset [seq (sdb s) + 1..seq (sdb s) + int ?N]" by (simp only: es(2) rs(2))
  moreover have "enabled g = (enabled f \<noteq> odd ?N)" by (simp only: g(3) len(1))
  ultimately show ?thesis using es(1) len(2) rs(3) g(1,2) by blast
qed

end
