(* ===== verification/Guarded.thy ===== *)
theory Guarded
  imports Chaos
begin

text \<open>
  Overlapping updates of one flag that all carry the version they were made on (\<^verbatim>\<open>If-Match\<close>): every request
  names a version its sender has read before, draws its own version, and commits only if the row still has the
  version it names. The schedules are those of theory Interleaving.
\<close>

section \<open>Schedules of guarded updates\<close>

text \<open>\<open>seen\<close> are the versions of the flag that could have been read so far.\<close>

fun guarded_tx :: "utext \<Rightarrow> int list \<Rightarrow> txn \<Rightarrow> bool" where
  "guarded_tx i seen (TxUpdate now j req) \<longleftrightarrow>
     j = i \<and> (case ExpectedVersion req of Some e \<Rightarrow> e \<in> set seen | None \<Rightarrow> False)"
| "guarded_tx i seen _ \<longleftrightarrow> False"

definition row_versions :: "utext \<Rightarrow> db \<Rightarrow> int list" where
  "row_versions i d = (case row_by_id d i of Some f \<Rightarrow> [version f] | None \<Rightarrow> [])"

fun guarded :: "utext \<Rightarrow> int list \<Rightarrow> concurrent \<Rightarrow> sched list \<Rightarrow> bool" where
  "guarded i seen x [] \<longleftrightarrow> opened x = []"
| "guarded i seen x (Begin n t # ss) \<longleftrightarrow>
     guarded_tx i seen t \<and> n \<notin> fst ` set (opened x) \<and> guarded i seen (sched_step x (Begin n t)) ss"
| "guarded i seen x (Finish n # ss) \<longleftrightarrow>
     n \<in> fst ` set (opened x) \<and>
     guarded i (row_versions i (cdb (sched_step x (Finish n))) @ seen) (sched_step x (Finish n)) ss"

text \<open>The answer of the handler to an update, and the answers in the order of the commits.\<close>

definition update_reply :: "db_error + utext Flag option \<Rightarrow> reply" where
  "update_reply r =
     (case r of
        Inl ErrVersionConflict \<Rightarrow>
          http 409 (BError ''version_conflict'' ''This flag was changed by someone else. Reload and try again.'')
      | Inl e \<Rightarrow> http 500 (BError ''internal_error'' ''Failed to update flag'')
      | Inr None \<Rightarrow> http 404 (BError ''not_found'' ''Flag not found'')
      | Inr (Some flag) \<Rightarrow> http 200 (BFlag flag))"

definition finish_replies :: "concurrent \<Rightarrow> nat \<Rightarrow> reply list" where
  "finish_replies x n =
     (case map_of (opened x) n of
        Some (v, TxUpdate now i req) \<Rightarrow> [update_reply (fst (update_tx now i v req (cdb x)))]
      | _ \<Rightarrow> [])"

fun update_replies :: "concurrent \<Rightarrow> sched list \<Rightarrow> reply list" where
  "update_replies x [] = []"
| "update_replies x (Begin n t # ss) = update_replies (sched_step x (Begin n t)) ss"
| "update_replies x (Finish n # ss) = finish_replies x n @ update_replies (sched_step x (Finish n)) ss"

text \<open>One update after the other is the handler.\<close>

lemma update_reply_handler:
  assumes "up (sdb s)" "\<not> no_fields (with_expected u e)" "expected_version header = e"
    and "case u_rollout_percentage u of Some p \<Rightarrow> 0 \<le> p \<and> p \<le> 100 | None \<Rightarrow> True"
  shows "update_replies \<lparr>cdb = sdb s, opened = []\<rparr> [Begin n (TxUpdate now i (with_expected u e)), Finish n] =
      [fst (h_UpdateFlag now i (Some u) header s)] \<and>
    run_sched [Begin n (TxUpdate now i (with_expected u e)), Finish n] (sdb s) =
      sdb (snd (h_UpdateFlag now i (Some u) header s))"
proof -
  have "\<not> (case u_rollout_percentage (with_expected u e) of Some p \<Rightarrow> p < 0 \<or> p > 100 | None \<Rightarrow> False)"
    using assms(4) by (auto simp: with_expected_def split: option.splits)
  then have "UpdateFlag now i (with_expected u e) s =
      (let (r, d) = update_tx now i (seq (sdb s) + 1) (with_expected u e) ((sdb s)\<lparr>seq := seq (sdb s) + 1\<rparr>);
           s1 = s\<lparr>sdb := d\<rparr>
       in case r of Inl e \<Rightarrow> (Inl (Repo e), s1) | Inr None \<Rightarrow> (Inr None, s1)
          | Inr (Some flag) \<Rightarrow> (Inr (Some flag), publishFlagUpdate flag s1))"
    using assms(1,2) by (simp add: UpdateFlag_def Update_def nextVersion_def)
  then show ?thesis
    using assms(3)
    by (simp add: h_UpdateFlag_def update_reply_def finish_replies_def run_sched_def nextVersion_def publish_defs Publish_def
        case_prod_beta Let_def split: sum.split option.split db_error.split)
qed

section \<open>The accepted updates\<close>

text \<open>What each accepted update expected, and the version it was given.\<close>

definition finish_accepted :: "concurrent \<Rightarrow> nat \<Rightarrow> (int \<times> int) list" where
  "finish_accepted x n =
     (case map_of (opened x) n of
        Some (v, TxUpdate now i req) \<Rightarrow>
          (case (ExpectedVersion req, fst (update_tx now i v req (cdb x))) of
             (Some e, Inr (Some flag)) \<Rightarrow> [(e, version flag)]
           | _ \<Rightarrow> [])
      | _ \<Rightarrow> [])"

fun accepted :: "concurrent \<Rightarrow> sched list \<Rightarrow> (int \<times> int) list" where
  "accepted x [] = []"
| "accepted x (Begin n t # ss) = accepted (sched_step x (Begin n t)) ss"
| "accepted x (Finish n # ss) = finish_accepted x n @ accepted (sched_step x (Finish n)) ss"

text \<open>Each was made on the version the one before it had given the flag.\<close>

fun chain :: "int \<Rightarrow> (int \<times> int) list \<Rightarrow> bool" where
  "chain p [] \<longleftrightarrow> True"
| "chain p ((e, v) # r) \<longleftrightarrow> e = p \<and> p < v \<and> chain v r"

definition chain_end :: "int \<Rightarrow> (int \<times> int) list \<Rightarrow> int" where
  "chain_end p c = (if c = [] then p else snd (last c))"

lemma chain_end_Cons [simp]: "chain_end p ((e, v) # c) = chain_end v c"
  by (simp add: chain_end_def)

lemma chain_end_Nil [simp]: "chain_end p [] = p"
  by (simp add: chain_end_def)

text \<open>\<open>s0\<close> is where the sequence stood at the start of the schedule.\<close>

definition begun :: "int \<Rightarrow> utext \<Rightarrow> concurrent \<Rightarrow> bool" where
  "begun s0 i x \<longleftrightarrow> distinct (map fst (opened x)) \<and>
     (\<forall>(n, v, t) \<in> set (opened x). s0 < v \<and> v \<le> seq (cdb x) \<and>
        (\<exists>now req e. t = TxUpdate now i req \<and> ExpectedVersion req = Some e \<and> e < v))"

definition winv :: "int \<Rightarrow> utext \<Rightarrow> int list \<Rightarrow> concurrent \<Rightarrow> utext Flag \<Rightarrow> bool" where
  "winv s0 i seen x f \<longleftrightarrow>
     row_by_id (cdb x) i = Some f \<and> 0 \<le> s0 \<and> s0 \<le> seq (cdb x) \<and> version f \<le> seq (cdb x) \<and>
     (\<forall>e \<in> set (events (cdb x)). ev_version e \<le> max s0 (version f)) \<and> (\<forall>w \<in> set seen. w \<le> seq (cdb x)) \<and> begun s0 i x"

lemma winv_begin:
  assumes "winv s0 i seen x f" "guarded_tx i seen t" "n \<notin> fst ` set (opened x)"
  shows "winv s0 i seen (sched_step x (Begin n t)) f"
proof -
  obtain now req e where t: "t = TxUpdate now i req" "ExpectedVersion req = Some e" "e \<in> set seen"
    using assms(2) by (cases t) (auto split: option.splits)
  have x: "cdb (sched_step x (Begin n t)) = (cdb x)\<lparr>seq := seq (cdb x) + 1\<rparr>"
    "opened (sched_step x (Begin n t)) = (n, seq (cdb x) + 1, t) # opened x"
    by (simp_all add: nextVersion_def)
  have "e \<le> seq (cdb x)" using assms(1) t(3) by (simp add: winv_def)
  then have "begun s0 i (sched_step x (Begin n t))"
    using assms(1,3) t(1,2) unfolding begun_def winv_def x by fastforce
  then show ?thesis using assms(1) unfolding winv_def x by fastforce
qed

text \<open>One commit: the update is refused and nothing changes, or it is the next link.\<close>

definition refused :: "concurrent \<Rightarrow> nat \<Rightarrow> bool" where
  "refused x n \<longleftrightarrow> cdb (sched_step x (Finish n)) = cdb x \<and> finish_accepted x n = [] \<and>
     (\<exists>b. finish_replies x n = [http 409 b] \<or> finish_replies x n = [http 500 b])"

definition linked :: "int \<Rightarrow> utext Flag \<Rightarrow> concurrent \<Rightarrow> nat \<Rightarrow> utext Flag \<Rightarrow> bool" where
  "linked s0 f x n g \<longleftrightarrow>
     finish_accepted x n = [(version f, version g)] \<and> version f < version g \<and> s0 < version g \<and> key g = key f \<and>
     finish_replies x n = [http 200 (BFlag g)] \<and>
     (\<exists>e. events (cdb (sched_step x (Finish n))) = events (cdb x) @ [e] \<and> ev_version e = version g \<and> flag_key e = key f \<and>
        payload e = Updated g) \<and>
     (keys_ok (cdb x) \<longrightarrow> keys_ok (cdb (sched_step x (Finish n)))) \<and>
     (db_wf (cdb x) \<longrightarrow> db_wf (cdb (sched_step x (Finish n))))"

lemma update_tx_seq: "seq (snd (update_tx now i v req d)) = seq d" "up (snd (update_tx now i v req d)) = up d"
  by (simp_all add: update_tx_def Let_def appendEvent_def replace_row_def split: option.split)

lemma winv_finish:
  assumes "winv s0 i seen x f" "n \<in> fst ` set (opened x)"
  defines "x1 \<equiv> sched_step x (Finish n)"
  shows "\<exists>g. winv s0 i (row_versions i (cdb x1) @ seen) x1 g \<and> seq (cdb x1) = seq (cdb x) \<and> up (cdb x1) = up (cdb x) \<and>
    (refused x n \<and> g = f \<or> linked s0 f x n g)"
proof -
  obtain v t where o: "map_of (opened x) n = Some (v, t)"
    using assms(2) by (cases "map_of (opened x) n") (auto simp: map_of_eq_None_iff)
  have mem: "(n, v, t) \<in> set (opened x)" using o by (rule map_of_SomeD)
  have b: "begun s0 i x" and row: "row_by_id (cdb x) i = Some f" using assms(1) by (simp_all add: winv_def)
  obtain now req e where t: "t = TxUpdate now i req" "ExpectedVersion req = Some e" "e < v" "s0 < v" "v \<le> seq (cdb x)"
    using b mem by (auto simp: begun_def)
  have x1: "cdb x1 = snd (update_tx now i v req (cdb x))" "opened x1 = filter (\<lambda>e. fst e \<noteq> n) (opened x)"
    by (simp_all add: x1_def o t(1))
  have same: "seq (cdb x1) = seq (cdb x)" "up (cdb x1) = up (cdb x)" by (simp_all add: x1 update_tx_seq)
  have begun1: "begun s0 i x1" using b by (auto simp: begun_def x1(2) same distinct_map_filter)
  define g where "g = (set_fields req f)\<lparr>version := v, updated_at := now\<rparr>"
  show ?thesis
  proof (cases "version f \<noteq> e \<or> constraint_error g \<noteq> None")
    case True
    then have tx: "\<exists>err. update_tx now i v req (cdb x) = (Inl err, cdb x)"
      using row t(2) by (cases "version f = e") (auto simp: update_tx_def g_def Let_def)
    then have "refused x n"
      by (auto simp: refused_def finish_accepted_def finish_replies_def o t update_reply_def split: db_error.split)
    moreover have "winv s0 i (row_versions i (cdb x1) @ seen) x1 f"
      using assms(1) begun1 tx by (auto simp: winv_def x1(1) row_versions_def)
    ultimately show ?thesis using same by blast
  next
    case False
    let ?e = "\<lparr>ev_version = v, flag_key = key g, payload = Updated g, ev_created_at = now\<rparr>"
    have tx: "update_tx now i v req (cdb x) = (Inr (Some g), appendEvent v (key g) (Updated g) now (replace_row g (cdb x)))"
      using False row t(2) by (simp add: update_tx_def g_def Let_def)
    have g: "key g = key f" "version g = v" "flag_id g = flag_id f" by (simp_all add: g_def set_fields_def)
    have "flag_id g = i" using row g(3) by (auto simp: row_by_id_def find_Some_iff)
    then have row1: "row_by_id (cdb x1) i = Some g"
      using row_by_id_replace [OF row] by (simp add: x1(1) tx appendEvent_def)
    have ev1: "events (cdb x1) = events (cdb x) @ [?e]" by (simp add: x1(1) tx appendEvent_def replace_row_def)
    have old: "\<forall>ev \<in> set (events (cdb x)). ev_version ev < v"
      using assms(1) False t(3,4) by (fastforce simp: winv_def)
    have w: "winv s0 i (row_versions i (cdb x1) @ seen) x1 g"
      using assms(1) begun1 row1 old t(4,5) g(2) unfolding winv_def same ev1 row_versions_def by force
    have fresh: "fresh_version (cdb x) v" using old t(4,5) assms(1) by (auto simp: fresh_version_def winv_def)
    then have wf: "db_wf (cdb x) \<longrightarrow> db_wf (cdb x1)" unfolding x1(1) by (simp add: update_tx_wf)
    have "keys_ok (cdb x) \<longrightarrow> keys_ok (cdb x1)"
      using keys_ok_replace_row [of "cdb x" f g] row g by (auto simp: x1(1) tx appendEvent_def row_by_id_Some)
    then have "linked s0 f x n g"
      using False g t ev1 wf unfolding linked_def x1_def
      by (simp add: finish_accepted_def finish_replies_def o tx update_reply_def)
    then show ?thesis using same w by blast
  qed
qed

text \<open>A whole schedule.\<close>

definition outcome ::
  "int \<Rightarrow> utext \<Rightarrow> utext Flag \<Rightarrow> concurrent \<Rightarrow> concurrent \<Rightarrow> (int \<times> int) list \<Rightarrow> reply list \<Rightarrow> bool" where
  "outcome s0 i f x x' acc rs \<longleftrightarrow>
     chain (version f) acc \<and> list_all (\<lambda>(e, v). s0 < v) acc \<and>
     (\<exists>g es. row_by_id (cdb x') i = Some g \<and> key g = key f \<and> version g = chain_end (version f) acc \<and>
        events (cdb x') = events (cdb x) @ es \<and> map ev_version es = map snd acc \<and> (\<forall>e \<in> set es. flag_key e = key f) \<and>
        (\<forall>e \<in> set (events (cdb x')). ev_version e \<le> max s0 (version g)) \<and> (if es = [] then g = f else payload (last es) = Updated g)) \<and>
     map reply_version (filter (\<lambda>r. code r = 200) rs) = map snd acc \<and>
     list_all (\<lambda>r. if code r = 200 then \<exists>g. rbody r = BFlag g else code r = 409 \<or> code r = 500) rs \<and>
     up (cdb x') = up (cdb x) \<and> (keys_ok (cdb x) \<longrightarrow> keys_ok (cdb x')) \<and> (db_wf (cdb x) \<longrightarrow> db_wf (cdb x'))"

lemma finish_opened:
  assumes "winv s0 i seen x f" "n \<in> fst ` set (opened x)"
  shows "length (opened x) = Suc (length (opened (sched_step x (Finish n))))"
proof -
  obtain v t where o: "map_of (opened x) n = Some (v, t)"
    using assms(2) by (cases "map_of (opened x) n") (auto simp: map_of_eq_None_iff)
  have "size (drawn x) = Suc (size (mset (map (\<lambda>(n, v, t). v) (filter (\<lambda>e. fst e \<noteq> n) (opened x)))))"
    using drawn_finish [OF o] assms(1) by (simp add: winv_def begun_def)
  then show ?thesis unfolding drawn_def size_mset length_map by (simp add: o)
qed

lemma outcome_finish:
  assumes "refused x n \<and> h = f \<or> linked s0 f x n h"
    and "outcome s0 i h (sched_step x (Finish n)) x' acc rs" "up (cdb (sched_step x (Finish n))) = up (cdb x)"
  shows "outcome s0 i f x x' (finish_accepted x n @ acc) (finish_replies x n @ rs) \<and> length (finish_replies x n) = 1"
  using assms(1)
proof
  assume r: "refused x n \<and> h = f"
  then show ?thesis using assms(2,3) by (auto simp: refused_def outcome_def simp del: sched_step.simps)
next
  assume l: "linked s0 f x n h"
  then obtain e where e: "events (cdb (sched_step x (Finish n))) = events (cdb x) @ [e]" "ev_version e = version h" "flag_key e = key f"
      "payload e = Updated h"
    by (auto simp: linked_def simp del: sched_step.simps)
  obtain g es where g: "row_by_id (cdb x') i = Some g" "key g = key f" "version g = chain_end (version h) acc"
      "events (cdb x') = events (cdb x) @ e # es" "map ev_version (e # es) = map snd ((version f, version h) # acc)"
      "\<forall>e \<in> set (e # es). flag_key e = key f" "\<forall>e \<in> set (events (cdb x')). ev_version e \<le> max s0 (version g)"
      "payload (last (e # es)) = Updated g"
    using assms(2) l e by (auto simp: outcome_def linked_def simp del: sched_step.simps)
  then show ?thesis
    using assms(2,3) l unfolding outcome_def linked_def
    by (simp add: reply_version_def del: sched_step.simps)
qed

lemma guarded_outcome:
  assumes "guarded i seen x ss" "winv s0 i seen x f"
  shows "outcome s0 i f x (foldl sched_step x ss) (accepted x ss) (update_replies x ss) \<and>
    length (update_replies x ss) = length (opened x) + begins ss"
  using assms
proof (induction ss arbitrary: seen x f)
  case Nil
  then show ?case by (auto simp: outcome_def winv_def)
next
  case (Cons s ss)
  show ?case
  proof (cases s)
    case (Begin n t)
    have g: "guarded_tx i seen t" "n \<notin> fst ` set (opened x)" "guarded i seen (sched_step x s) ss"
      using Cons.prems(1) Begin by (simp_all del: sched_step.simps)
    have w: "winv s0 i seen (sched_step x s) f"
      unfolding Begin by (rule winv_begin [OF Cons.prems(2) g(1,2)])
    have x: "events (cdb (sched_step x s)) = events (cdb x)" "up (cdb (sched_step x s)) = up (cdb x)"
      "db_wf (cdb x) \<longrightarrow> db_wf (cdb (sched_step x s))" "keys_ok (cdb x) \<longrightarrow> keys_ok (cdb (sched_step x s))" "length (opened (sched_step x s)) = Suc (length (opened x))"
      using nextVersion_fresh(1) [of "cdb x"] by (simp_all add: Begin nextVersion_def)
    have "accepted x (s # ss) = accepted (sched_step x s) ss" "update_replies x (s # ss) = update_replies (sched_step x s) ss"
      "begins (s # ss) = Suc (begins ss)"
      by (simp_all add: Begin del: sched_step.simps)
    then show ?thesis using Cons.IH [OF g(3) w] x unfolding outcome_def by (simp del: sched_step.simps)
  next
    case (Finish n)
    let ?x = "sched_step x (Finish n)"
    have n: "n \<in> fst ` set (opened x)" and g: "guarded i (row_versions i (cdb ?x) @ seen) ?x ss"
      using Cons.prems(1) Finish by (simp_all del: sched_step.simps)
    obtain h where h: "winv s0 i (row_versions i (cdb ?x) @ seen) ?x h" "seq (cdb ?x) = seq (cdb x)" "up (cdb ?x) = up (cdb x)"
        "refused x n \<and> h = f \<or> linked s0 f x n h"
      using winv_finish [OF Cons.prems(2) n] by blast
    note ih = Cons.IH [OF g h(1)]
    have "outcome s0 i f x (foldl sched_step x (s # ss)) (accepted x (s # ss)) (update_replies x (s # ss)) \<and>
        length (finish_replies x n) = 1"
      unfolding Finish foldl.simps accepted.simps update_replies.simps
      by (rule outcome_finish [OF h(4) _ h(3)]) (use ih in blast)
    then show ?thesis using ih finish_opened [OF Cons.prems(2) n] by (simp add: Finish del: sched_step.simps)
  qed
qed

section \<open>What guarded updates guarantee\<close>

lemma row_version:
  assumes "db_wf d" "row_by_id d i = Some f"
  shows "0 < version f" "version f \<le> seq d"
proof -
  have "f \<in> set (rows d)" using assms(2) by (auto simp: row_by_id_def find_Some_iff)
  then have "row_by_key d (key f) = Some f"
    using assms(1) row_by_key_Some [of d "key f" f] unfolding db_wf_def by blast
  moreover have "row_by_key d (key f) = log_state (events d) (key f)" using assms(1) by (simp add: db_wf_def)
  ultimately have "log_state (events d) (key f) = Some f" by simp
  then obtain e where "e \<in> set (events d)" "payload_flag (payload e) = Some f"
    using log_state_Some by blast
  then have "ev_version e = version f" using assms(1) by (auto simp: db_wf_def event_ok_def)
  then show "0 < version f" "version f \<le> seq d"
    using assms(1) \<open>e \<in> set (events d)\<close> by (auto simp: db_wf_def versions_ok_def)
qed

lemma winv_start:
  assumes "db_wf d" "row_by_id d i = Some f"
  shows "winv (seq d) i [version f] \<lparr>cdb = d, opened = []\<rparr> f"
  using assms row_version [OF assms] by (auto simp: winv_def begun_def db_wf_def versions_ok_def)

text \<open>C26: Updates that carry the version they were made on cannot overwrite each other, however their requests overlap:
  each accepted update was made on exactly the version the accepted one before it gave the flag, the log has one event
  for each in that order, every other request is refused and changes nothing, and the table stays what the log says,
  which overlapping toggles do not guarantee.\<close>

theorem guarded_updates_form_chain:
  assumes "db_wf d" "row_by_id d i = Some f" "guarded i [version f] \<lparr>cdb = d, opened = []\<rparr> ss"
  defines "acc \<equiv> accepted \<lparr>cdb = d, opened = []\<rparr> ss" and "rs \<equiv> update_replies \<lparr>cdb = d, opened = []\<rparr> ss"
    and "d' \<equiv> run_sched ss d"
  shows "chain (version f) acc \<and> length rs = begins ss \<and>
    map reply_version (filter (\<lambda>r. code r = 200) rs) = map snd acc \<and>
    list_all (\<lambda>r. code r = 200 \<or> code r = 409 \<or> code r = 500) rs \<and>
    (\<exists>es. events d' = events d @ es \<and> map ev_version es = map snd acc) \<and>
    (\<exists>g. row_by_id d' i = Some g \<and> version g = chain_end (version f) acc) \<and>
    db_wf d' \<and> log_view d' = row_by_key d'"
proof -
  let ?x = "\<lparr>cdb = d, opened = []\<rparr>"
  have o: "outcome (seq d) i f ?x (foldl sched_step ?x ss) acc rs" "length rs = begins ss"
    using guarded_outcome [OF assms(3) winv_start [OF assms(1,2)]] by (simp_all add: acc_def rs_def)
  then have wf: "db_wf d'" using assms(1) by (simp add: outcome_def d'_def run_sched_def)
  then have "log_view d' = row_by_key d'" using log_view_wf by blast
  moreover have "list_all (\<lambda>r. code r = 200 \<or> code r = 409 \<or> code r = 500) rs"
    using o(1) by (auto simp: outcome_def list_all_iff split: if_splits)
  ultimately show ?thesis using o wf by (auto simp: outcome_def d'_def run_sched_def)
qed

text \<open>Two writers start from version 1, a third from what the winner wrote.\<close>

definition set_enabled :: "bool \<Rightarrow> int \<Rightarrow> utext UpdateFlagRequest" where
  "set_enabled b e = \<lparr>u_description = None, u_enabled = Some b, u_rollout_percentage = None, u_targeted_users = None,
     ExpectedVersion = Some e\<rparr>"

definition contest_one :: "sched list" where
  "contest_one =
     [Begin 0 (TxUpdate 5 (ascii ''1'') (set_enabled True 1)), Begin 1 (TxUpdate 5 (ascii ''1'') (set_enabled True 1)),
      Finish 1, Begin 2 (TxUpdate 6 (ascii ''1'') (set_enabled False 3)), Finish 0, Finish 2]"

theorem guarded_updates_form_chain_witness:
  "accepted \<lparr>cdb = db_one, opened = []\<rparr> contest_one = [(1, 3), (3, 4)] \<and>
   map code (update_replies \<lparr>cdb = db_one, opened = []\<rparr> contest_one) = [200, 409, 200] \<and>
   log_view (run_sched contest_one db_one) = row_by_key (run_sched contest_one db_one)"
proof -
  note defs = contest_one_def db_one_def flag_one_def nextVersion_def row_by_id_def row_versions_def update_tx_def
    set_enabled_def set_fields_def constraint_error_def appendEvent_def replace_row_def ascii_def Let_def
  have r: "row_by_id db_one (ascii ''1'') = Some flag_one" "version flag_one = 1" by (simp_all add: defs)
  have "guarded (ascii ''1'') [1] \<lparr>cdb = db_one, opened = []\<rparr> contest_one" by (simp add: defs)
  then show ?thesis
    using guarded_updates_form_chain [OF db_one_wf r(1), of contest_one]
    by (simp add: r(2)) (simp add: defs finish_accepted_def finish_replies_def update_reply_def)
qed

end
