(* ===== verification/Scenario.thy ===== *)
theory Scenario
  imports Guarded Fleet
begin

text \<open>
  The chaos scenario of concurrent writers (\<open>cmd/chaos/main.go\<close>) from its first request to its verdict: a burst of
  toggles, a burst of updates each of which carries the version its writer has just read, the comparison of the flag
  with the latest version, and the wait for a client. Both bursts overlap in any way; what the tool is told are the
  answers of the handlers in the states the bursts leave.
\<close>

section \<open>The second phase\<close>

text \<open>What a writer sends after it has read the flag: the body and the header of \<open>Update\<close>.\<close>

definition if_match :: "int \<Rightarrow> jsstring option" where
  "if_match v = (if v > 0 then Some (js_num v) else None)"

definition update_body :: "bool \<Rightarrow> utext UpdateFlagInput" where
  "update_body b = \<lparr>u_description = None, u_enabled = Some b, u_rollout_percentage = None, u_targeted_users = None\<rparr>"

text \<open>A writer of the second phase, given the answers to its two requests.\<close>

definition call_failed :: write_result where
  "call_failed = \<lparr>wr_status = - 1, wr_version = 0, wr_enabled = False\<rparr>"

definition update_writer :: "utext \<Rightarrow> tool_answer \<times> tool_answer \<Rightarrow> write_result" where
  "update_writer flagKey a =
     (case flagByKey flagKey (fst a) of
        Inl e \<Rightarrow> call_failed
      | Inr cur \<Rightarrow> (let (r, w) = chaos_Update (snd a) in case r of Inl e \<Rightarrow> call_failed | Inr u \<Rightarrow> w))"

text \<open>The version before the phase and the committed versions are what the scenario goes on with.\<close>

definition phase_two ::
  "utext \<Rightarrow> tool_answer \<Rightarrow> (tool_answer \<times> tool_answer) list \<Rightarrow> (int \<Rightarrow> tool_answer) \<Rightarrow> tool_error + int \<times> int list" where
  "phase_two flagKey ver answers0 events_since =
     (case chaos_LatestVersion ver of
        Inl e \<Rightarrow> Inl e
      | Inr base2 \<Rightarrow>
          let results = map (update_writer flagKey) answers0;
              s2 = map wr_status results;
              ok2 = successVersions (map wr_version results) s2 200;
              conflicts = countStatus s2 409;
              other = int (length s2) - int (length ok2) - int conflicts
          in if other \<noteq> 0 then Inl (Unclean other)
             else case assertStrictlyIncreasing ok2 base2 of
                    Some e \<Rightarrow> Inl e
                  | None \<Rightarrow>
                      (case EventsSinceCount flagKey (events_since base2) of
                         Inl e \<Rightarrow> Inl e
                       | Inr events2 \<Rightarrow>
                           if events2 \<noteq> length ok2 then Inl (WritesLost (length ok2) events2) else Inr (base2, ok2)))"

definition final_state :: "utext \<Rightarrow> tool_answer \<Rightarrow> tool_answer \<Rightarrow> tool_error + int" where
  "final_state flagKey listed ver =
     (case flagByKey flagKey listed of
        Inl e \<Rightarrow> Inl e
      | Inr (i, finalFlag) \<Rightarrow>
          (case chaos_LatestVersion ver of
             Inl e \<Rightarrow> Inl e
           | Inr latest \<Rightarrow> if version finalFlag \<noteq> latest then Inl (FinalVersion (version finalFlag) latest) else Inr latest))"

text \<open>The note about gaps: how many commits, over how many version numbers, how many of them unused.\<close>

definition gap_note :: "int \<Rightarrow> int list \<Rightarrow> (nat \<times> int \<times> int) option" where
  "gap_note base2 ok2 =
     (if ok2 = [] then None
      else let span = last ok2 - base2
           in if span > int (length ok2) then Some (length ok2, span, span - int (length ok2)) else None)"

section \<open>The scenario\<close>

definition finishMonotonicity :: "reading \<Rightarrow> fleet \<Rightarrow> jsstring list + nat" where
  "finishMonotonicity r f =
     (let f1 = sampleOnce r f in if fl_violations f1 \<noteq> [] then Inl (fl_violations f1) else Inr (fl_samples f1))"

datatype scenario_error = Tool tool_error | NotConverged wait_error | Regressed "jsstring list"

text \<open>The answers to all requests of the scenario, in its order.\<close>

record writers_io =
  io_created :: tool_answer
  io_listed :: tool_answer
  io_version1 :: tool_answer
  io_toggles :: "tool_answer list"
  io_events1 :: "int \<Rightarrow> tool_answer"
  io_version2 :: tool_answer
  io_updates :: "(tool_answer \<times> tool_answer) list"
  io_events2 :: "int \<Rightarrow> tool_answer"
  io_final :: tool_answer
  io_latest :: tool_answer

text \<open>
  The fleet is the one client it has spawned, with the samples the monitor has taken before the wait; the samples of
  the monitor between two turns of the wait are part of the sample of the turn. \<open>None\<close>: the wait is not over yet.
\<close>

definition client_verdict ::
  "int \<Rightarrow> jsstring \<Rightarrow> poll list \<Rightarrow> reading \<Rightarrow> fleet \<Rightarrow> (nat \<times> int \<times> int) option \<Rightarrow>
    (scenario_error + (nat \<times> int \<times> int) option) option" where
  "client_verdict latest timeout polls final_sample fleet gaps =
     (case WaitConverged latest timeout polls fleet of
        (None, f1) \<Rightarrow> None
      | (Some (Inl e), f1) \<Rightarrow> Some (Inl (NotConverged e))
      | (Some (Inr _), f1) \<Rightarrow>
          (case finishMonotonicity final_sample f1 of
             Inl vs \<Rightarrow> Some (Inl (Regressed vs))
           | Inr n \<Rightarrow> Some (Inr gaps)))"

definition concurrentWriters ::
  "utext \<Rightarrow> nat \<Rightarrow> nat \<Rightarrow> writers_io \<Rightarrow> jsstring \<Rightarrow> poll list \<Rightarrow> reading \<Rightarrow> fleet \<Rightarrow>
    (scenario_error + (nat \<times> int \<times> int) option) option" where
  "concurrentWriters flagKey writers iters io timeout polls final_sample fleet =
     (case EnsureFlag flagKey (io_created io) (io_listed io) of
        Inl e \<Rightarrow> Some (Inl (Tool e))
      | Inr i \<Rightarrow>
     (case phase_one flagKey writers iters (io_version1 io) (io_toggles io) (io_events1 io) of
        Inl e \<Rightarrow> Some (Inl (Tool e))
      | Inr _ \<Rightarrow>
     (case phase_two flagKey (io_version2 io) (io_updates io) (io_events2 io) of
        Inl e \<Rightarrow> Some (Inl (Tool e))
      | Inr (base2, ok2) \<Rightarrow>
     (case final_state flagKey (io_final io) (io_latest io) of
        Inl e \<Rightarrow> Some (Inl (Tool e))
      | Inr latest \<Rightarrow> client_verdict latest timeout polls final_sample fleet (gap_note base2 ok2)))))"

section \<open>The writers of the second phase\<close>

text \<open>
  A call of \<open>hammer\<close> looks at the flags, sends its update, which the server begins, and gets its answer when the server
  has finished it. The listing is read in the current state of the database; the version in it is not used.
\<close>

datatype call_step = Look nat | Send nat int | Done nat

record contest =
  ctx :: concurrent
  looked :: "(nat \<times> reply) list"
  answered :: "(tool_answer \<times> tool_answer) list"

definition listing :: "server \<Rightarrow> db \<Rightarrow> reply" where
  "listing s d = h_ListFlags (s\<lparr>sdb := d\<rparr>) (s\<lparr>sdb := d\<rparr>)"

definition writer_tx :: "utext \<Rightarrow> utext \<Rightarrow> int \<Rightarrow> reply \<Rightarrow> txn option" where
  "writer_tx i flagKey now r =
     (case flagByKey flagKey (Some r) of
        Inl e \<Rightarrow> None
      | Inr (j, cur) \<Rightarrow>
          Some (TxUpdate now i (with_expected (update_body (\<not> enabled cur)) (expected_version (if_match (version cur))))))"

definition leave_call :: "nat \<Rightarrow> (tool_answer \<times> tool_answer) list \<Rightarrow> contest \<Rightarrow> contest" where
  "leave_call n rs c = c\<lparr>looked := filter (\<lambda>e. fst e \<noteq> n) (looked c), answered := answered c @ rs\<rparr>"

fun wstep :: "server \<Rightarrow> utext \<Rightarrow> utext \<Rightarrow> contest \<Rightarrow> call_step \<Rightarrow> contest" where
  "wstep s i flagKey c (Look n) = c\<lparr>looked := (n, listing s (cdb (ctx c))) # looked c\<rparr>"
| "wstep s i flagKey c (Send n now) =
     (case map_of (looked c) n of
        None \<Rightarrow> c
      | Some r \<Rightarrow>
          (case writer_tx i flagKey now r of
             None \<Rightarrow> leave_call n [(Some r, None)] c
           | Some t \<Rightarrow> c\<lparr>ctx := sched_step (ctx c) (Begin n t)\<rparr>))"
| "wstep s i flagKey c (Done n) =
     (case map_of (looked c) n of
        None \<Rightarrow> c
      | Some r \<Rightarrow>
          (leave_call n (map (\<lambda>a. (Some r, Some a)) (finish_replies (ctx c) n)) c)\<lparr>ctx := sched_step (ctx c) (Finish n)\<rparr>)"

text \<open>A run in which every call comes to its end, and the number of its calls.\<close>

fun contest_run :: "server \<Rightarrow> utext \<Rightarrow> utext \<Rightarrow> contest \<Rightarrow> call_step list \<Rightarrow> bool" where
  "contest_run s i flagKey c [] \<longleftrightarrow> looked c = [] \<and> opened (ctx c) = []"
| "contest_run s i flagKey c (Look n # ws) \<longleftrightarrow>
     n \<notin> fst ` set (looked c) \<and> contest_run s i flagKey (wstep s i flagKey c (Look n)) ws"
| "contest_run s i flagKey c (Send n now # ws) \<longleftrightarrow>
     n \<in> fst ` set (looked c) \<and> n \<notin> fst ` set (opened (ctx c)) \<and>
     contest_run s i flagKey (wstep s i flagKey c (Send n now)) ws"
| "contest_run s i flagKey c (Done n # ws) \<longleftrightarrow>
     n \<in> fst ` set (opened (ctx c)) \<and> contest_run s i flagKey (wstep s i flagKey c (Done n)) ws"

fun calls :: "call_step list \<Rightarrow> nat" where
  "calls [] = 0"
| "calls (Send n now # ws) = Suc (calls ws)"
| "calls (Look n # ws) = calls ws"
| "calls (Done n # ws) = calls ws"

definition contest_at :: "db \<Rightarrow> contest" where
  "contest_at d = \<lparr>ctx = \<lparr>cdb = d, opened = []\<rparr>, looked = [], answered = []\<rparr>"

section \<open>What the writers read and send\<close>

lemma trim_plain: "34 \<notin> set s \<Longrightarrow> trim_quotes s = s"
proof -
  have drop: "34 \<notin> set t \<Longrightarrow> dropWhile (\<lambda>c. c = 34) t = t" for t :: jsstring by (cases t) auto
  assume "34 \<notin> set s"
  then show ?thesis using drop [of s] drop [of "rev s"] by (simp add: trim_quotes_def)
qed

lemma expected_if_match: "0 < v \<Longrightarrow> v < 2 ^ 63 \<Longrightarrow> expected_version (if_match v) = Some v"
  using trim_plain [OF js_num_no_quote [of v]] go_parse_int64_js_num [of v]
  by (auto simp: expected_version_def if_match_def Let_def go_parse_int64_def)

lemma listing_flag:
  assumes "keys_ok d" "up d" "row_by_id d i = Some f"
  shows "flagByKey (key f) (Some (listing s d)) = Inr (i, f)"
proof -
  have f: "f \<in> set (rows d)" "flag_id f = i" using assms(3) by (simp_all add: row_by_id_Some [OF assms(1)])
  have "distinct (map key (sort_key (\<lambda>f. - created_at f) (rows d)))"
    using assms(1) by (simp add: keys_ok_def distinct_map)
  then have "find (\<lambda>g. key g = key f) (sort_key (\<lambda>f. - created_at f) (rows d)) = Some f"
    using f(1) by (simp add: find_distinct_iff)
  then show ?thesis
    using assms(2) f(2)
    by (simp add: flagByKey_def chaos_ListFlags_def listing_def h_ListFlags_def List_flags_def GetLatestVersion_def)
qed

section \<open>Updates that only switch the flag\<close>

definition flip_tx :: "utext \<Rightarrow> txn \<Rightarrow> bool" where
  "flip_tx i t \<longleftrightarrow> (\<exists>now b e. t = TxUpdate now i (with_expected (update_body b) (Some e)))"

definition flips :: "utext \<Rightarrow> sched list \<Rightarrow> bool" where
  "flips i ss \<longleftrightarrow> list_all (\<lambda>s. case s of Begin n t \<Rightarrow> flip_tx i t | Finish n \<Rightarrow> True) ss"

definition flip_state :: "utext \<Rightarrow> concurrent \<Rightarrow> utext Flag \<Rightarrow> bool" where
  "flip_state i x f \<longleftrightarrow> row_by_id (cdb x) i = Some f \<and> constraint_error f = None \<and> (\<forall>(n, v, t) \<in> set (opened x). flip_tx i t)"

lemma flip_update:
  fixes v now :: int and b :: bool
  assumes "row_by_id d i = Some f" "constraint_error f = None"
  defines "g \<equiv> f\<lparr>enabled := b, version := v, updated_at := now\<rparr>"
  shows "update_tx now i v (with_expected (update_body b) (Some e)) d =
      (if version f \<noteq> e then (Inl ErrVersionConflict, d)
       else (Inr (Some g), appendEvent v (key f) (Updated g) now (replace_row g d)))"
    and "constraint_error g = None" and "row_by_id (appendEvent v (key f) (Updated g) now (replace_row g d)) i = Some g"
proof -
  have "constraint_error g = constraint_error f" by (simp add: g_def constraint_error_def)
  then show c: "constraint_error g = None" using assms(2) by simp
  have "(set_fields (with_expected (update_body b) (Some e)) f)\<lparr>version := v, updated_at := now\<rparr> = g"
    by (simp add: set_fields_def with_expected_def update_body_def g_def)
  moreover have "ExpectedVersion (with_expected (update_body b) (Some e)) = Some e" by (simp add: with_expected_def)
  moreover have "key g = key f" by (simp add: g_def)
  ultimately show "update_tx now i v (with_expected (update_body b) (Some e)) d =
      (if version f \<noteq> e then (Inl ErrVersionConflict, d)
       else (Inr (Some g), appendEvent v (key f) (Updated g) now (replace_row g d)))"
    using assms(1) c by (simp add: update_tx_def Let_def)
  have "flag_id g = i" using assms(1) by (auto simp: g_def row_by_id_def find_Some_iff)
  then show "row_by_id (appendEvent v (key f) (Updated g) now (replace_row g d)) i = Some g"
    using row_by_id_replace [OF assms(1)] by (simp add: appendEvent_def)
qed

lemma flip_finish:
  assumes "flip_state i x f" "map_of (opened x) n = Some (v, t)"
  shows "\<exists>g. flip_state i (sched_step x (Finish n)) g"
    and "\<exists>r. finish_replies x n = [r] \<and> (code r = 200 \<or> code r = 409)"
    and "(\<exists>now req. t = TxUpdate now i req \<and> ExpectedVersion req = Some (version f)) \<Longrightarrow> finish_accepted x n \<noteq> []"
proof -
  have row: "row_by_id (cdb x) i = Some f" "constraint_error f = None" using assms(1) by (simp_all add: flip_state_def)
  obtain now b e where t: "t = TxUpdate now i (with_expected (update_body b) (Some e))"
    using assms map_of_SomeD [OF assms(2)] by (auto simp: flip_state_def flip_tx_def)
  note u = flip_update [OF row, where v = v and now = now and b = b]
  have x1: "cdb (sched_step x (Finish n)) = snd (update_tx now i v (with_expected (update_body b) (Some e)) (cdb x))"
    "opened (sched_step x (Finish n)) = filter (\<lambda>e. fst e \<noteq> n) (opened x)"
    by (simp_all add: assms(2) t)
  show "\<exists>g. flip_state i (sched_step x (Finish n)) g"
    using assms(1) row u unfolding flip_state_def x1 by (cases "version f = e") (auto simp: u(1))
  show "\<exists>r. finish_replies x n = [r] \<and> (code r = 200 \<or> code r = 409)"
    using u(1) [where e = e] by (auto simp: finish_replies_def assms(2) t update_reply_def)
  show "(\<exists>now req. t = TxUpdate now i req \<and> ExpectedVersion req = Some (version f)) \<Longrightarrow> finish_accepted x n \<noteq> []"
    using u(1) [where e = e] by (auto simp: finish_accepted_def assms(2) t with_expected_def)
qed

lemma flips_answers:
  assumes "flip_state i x f" "flips i ss"
  shows "list_all (\<lambda>r. code r = 200 \<or> code r = 409) (update_replies x ss)"
  using assms
proof (induction ss arbitrary: x f)
  case (Cons s ss)
  show ?case
  proof (cases s)
    case (Begin n t)
    then have "flip_state i (sched_step x s) f"
      using Cons.prems by (auto simp: flip_state_def flips_def nextVersion_def)
    then show ?thesis using Cons Begin by (simp add: flips_def del: sched_step.simps)
  next
    case (Finish n)
    show ?thesis
    proof (cases "map_of (opened x) n")
      case None
      then show ?thesis using Cons Finish by (simp add: flips_def finish_replies_def)
    next
      case (Some vt)
      obtain v t where "map_of (opened x) n = Some (v, t)" using Some by (cases vt) simp
      note fin = flip_finish [OF Cons.prems(1) this]
      obtain g where "flip_state i (sched_step x s) g" using fin(1) Finish by blast
      then have "list_all (\<lambda>r. code r = 200 \<or> code r = 409) (update_replies (sched_step x s) ss)"
        using Cons by (simp add: flips_def)
      then show ?thesis using fin(2) Finish by (auto simp del: sched_step.simps)
    qed
  qed
qed simp

text \<open>The first update to be finished is accepted: nobody can have read anything newer than what it names.\<close>

lemma first_accepted:
  assumes "flip_state i x f" "flips i ss" "guarded i [version f] x ss" "opened x \<noteq> [] \<or> 0 < begins ss"
    and "\<forall>(n, v, t) \<in> set (opened x). \<exists>now req. t = TxUpdate now i req \<and> ExpectedVersion req = Some (version f)"
  shows "accepted x ss \<noteq> []"
  using assms
proof (induction ss arbitrary: x)
  case (Cons s ss)
  show ?case
  proof (cases s)
    case (Begin n t)
    have g: "guarded_tx i [version f] t" "guarded i [version f] (sched_step x s) ss"
      using Cons.prems(3) Begin by (simp_all del: sched_step.simps)
    then have "\<exists>now req. t = TxUpdate now i req \<and> ExpectedVersion req = Some (version f)"
      by (cases t) (auto split: option.splits)
    then have "\<forall>(n, v, t) \<in> set (opened (sched_step x s)). \<exists>now req. t = TxUpdate now i req \<and>
        ExpectedVersion req = Some (version f)"
      using Cons.prems(5) Begin by (simp add: nextVersion_def)
    moreover have "flip_state i (sched_step x s) f" "opened (sched_step x s) \<noteq> []"
      using Cons.prems(1,2) Begin by (auto simp: flip_state_def flips_def nextVersion_def)
    ultimately show ?thesis using Cons.IH g(2) Cons.prems(2) Begin by (simp add: flips_def del: sched_step.simps)
  next
    case (Finish n)
    then obtain v t where o: "map_of (opened x) n = Some (v, t)"
      using Cons.prems(3) by (cases "map_of (opened x) n") (auto simp: map_of_eq_None_iff)
    then have "\<exists>now req. t = TxUpdate now i req \<and> ExpectedVersion req = Some (version f)"
      using Cons.prems(5) map_of_SomeD [OF o] by blast
    then show ?thesis using flip_finish(3) [OF Cons.prems(1) o] Finish by simp
  qed
qed simp

section \<open>A contest is a schedule of guarded updates\<close>

definition contest_inv ::
  "int \<Rightarrow> utext \<Rightarrow> int list \<Rightarrow> contest \<Rightarrow> utext Flag \<Rightarrow> bool" where
  "contest_inv s0 i seen c f \<longleftrightarrow>
     winv s0 i seen (ctx c) f \<and> keys_ok (cdb (ctx c)) \<and> up (cdb (ctx c)) \<and> 0 < version f \<and> version f \<in> set seen \<and>
     distinct (map fst (looked c)) \<and> fst ` set (opened (ctx c)) \<subseteq> fst ` set (looked c) \<and>
     (\<forall>(n, r) \<in> set (looked c). \<exists>cur. flagByKey (key f) (Some r) = Inr (i, cur) \<and> version cur \<in> set seen \<and> 0 < version cur)"

text \<open>What the calls of the contest amount to.\<close>

definition amounts ::
  "server \<Rightarrow> utext \<Rightarrow> utext \<Rightarrow> int list \<Rightarrow> contest \<Rightarrow> call_step list \<Rightarrow> sched list \<Rightarrow> bool" where
  "amounts s i k seen c ws ss \<longleftrightarrow>
     (let c' = foldl (wstep s i k) c ws
      in guarded i seen (ctx c) ss \<and> foldl sched_step (ctx c) ss = ctx c' \<and> flips i ss \<and> begins ss = calls ws \<and>
         (\<exists>as. answered c' = answered c @ as \<and> map snd as = map Some (update_replies (ctx c) ss) \<and>
           (\<forall>a \<in> set as. \<exists>cur. flagByKey k (fst a) = Inr cur)))"

lemma contest_look:
  assumes "contest_inv s0 i seen c f" "n \<notin> fst ` set (looked c)"
  shows "contest_inv s0 i seen (wstep s i (key f) c (Look n)) f"
proof -
  have "flagByKey (key f) (Some (listing s (cdb (ctx c)))) = Inr (i, f)"
    using assms(1) listing_flag by (simp add: contest_inv_def winv_def)
  then show ?thesis using assms by (auto simp: contest_inv_def)
qed

lemma contest_send:
  assumes "contest_inv s0 i seen c f" "n \<in> fst ` set (looked c)" "n \<notin> fst ` set (opened (ctx c))" "seq (cdb (ctx c)) < 2 ^ 63"
  shows "\<exists>t. wstep s i (key f) c (Send n now) = c\<lparr>ctx := sched_step (ctx c) (Begin n t)\<rparr> \<and> guarded_tx i seen t \<and> flip_tx i t \<and>
    contest_inv s0 i seen (wstep s i (key f) c (Send n now)) f"
proof -
  obtain r where r: "map_of (looked c) n = Some r"
    using assms(2) by (cases "map_of (looked c) n") (auto simp: map_of_eq_None_iff)
  then obtain cur where cur: "flagByKey (key f) (Some r) = Inr (i, cur)" "version cur \<in> set seen" "0 < version cur"
    using assms(1) map_of_SomeD [OF r] unfolding contest_inv_def by blast
  have "version cur < 2 ^ 63" using assms(1,4) cur(2) unfolding contest_inv_def winv_def by force
  then have e: "expected_version (if_match (version cur)) = Some (version cur)" using cur(3) by (rule expected_if_match [rotated])
  define t where "t = TxUpdate now i (with_expected (update_body (\<not> enabled cur)) (Some (version cur)))"
  have step: "wstep s i (key f) c (Send n now) = c\<lparr>ctx := sched_step (ctx c) (Begin n t)\<rparr>"
    using r cur(1) e by (simp add: writer_tx_def t_def del: sched_step.simps)
  have g: "guarded_tx i seen t" using cur(2) by (simp add: t_def with_expected_def)
  have "winv s0 i seen (sched_step (ctx c) (Begin n t)) f"
    using assms(1) winv_begin [OF _ g assms(3)] by (simp add: contest_inv_def del: sched_step.simps)
  moreover have "cdb (sched_step (ctx c) (Begin n t)) = (cdb (ctx c))\<lparr>seq := seq (cdb (ctx c)) + 1\<rparr>"
    "opened (sched_step (ctx c) (Begin n t)) = (n, seq (cdb (ctx c)) + 1, t) # opened (ctx c)"
    by (simp_all add: nextVersion_def)
  ultimately have "contest_inv s0 i seen (c\<lparr>ctx := sched_step (ctx c) (Begin n t)\<rparr>) f"
    using assms(1,2) by (simp add: contest_inv_def del: sched_step.simps)
  moreover have "flip_tx i t" by (auto simp: flip_tx_def t_def)
  ultimately show ?thesis using step g by auto
qed

lemma contest_done:
  fixes s :: server
  assumes "contest_inv s0 i seen c f" "n \<in> fst ` set (opened (ctx c))"
  defines "c1 \<equiv> wstep s i (key f) c (Done n)"
  shows "ctx c1 = sched_step (ctx c) (Finish n)" "seq (cdb (ctx c1)) = seq (cdb (ctx c))"
    and "\<exists>h. key h = key f \<and> contest_inv s0 i (row_versions i (cdb (ctx c1)) @ seen) c1 h"
    and "\<exists>a r cur. answered c1 = answered c @ [(a, Some r)] \<and> finish_replies (ctx c) n = [r] \<and> flagByKey (key f) a = Inr cur"
proof -
  have "n \<in> fst ` set (looked c)" using assms(1,2) by (auto simp: contest_inv_def)
  then obtain r where r: "map_of (looked c) n = Some r" by (cases "map_of (looked c) n") (auto simp: map_of_eq_None_iff)
  show ctx: "ctx c1 = sched_step (ctx c) (Finish n)" by (simp add: c1_def r del: sched_step.simps)
  have looked: "looked c1 = filter (\<lambda>e. fst e \<noteq> n) (looked c)"
    by (simp add: c1_def r leave_call_def del: sched_step.simps)
  have w: "winv s0 i seen (ctx c) f" using assms(1) by (simp add: contest_inv_def)
  obtain h where h: "winv s0 i (row_versions i (cdb (ctx c1)) @ seen) (ctx c1) h" "seq (cdb (ctx c1)) = seq (cdb (ctx c))"
      "up (cdb (ctx c1)) = up (cdb (ctx c))" "refused (ctx c) n \<and> h = f \<or> linked s0 f (ctx c) n h"
    using winv_finish [OF w assms(2)] unfolding ctx by blast
  show "seq (cdb (ctx c1)) = seq (cdb (ctx c))" by (rule h(2))
  have one: "\<exists>a. finish_replies (ctx c) n = [a]"
    using h(4) by (auto simp: refused_def linked_def simp del: sched_step.simps)
  have k: "key h = key f" "0 < version h" "keys_ok (cdb (ctx c1))"
    using h(4) assms(1) by (auto simp: refused_def linked_def contest_inv_def ctx simp del: sched_step.simps)
  have rv: "row_versions i (cdb (ctx c1)) = [version h]" using h(1) by (simp add: row_versions_def winv_def)
  have "opened (ctx c1) = filter (\<lambda>e. fst e \<noteq> n) (opened (ctx c))"
    unfolding ctx using assms(2) by (auto split: option.split simp: map_of_eq_None_iff)
  then have "contest_inv s0 i (row_versions i (cdb (ctx c1)) @ seen) c1 h"
    using assms(1) h(1,3) k unfolding contest_inv_def looked rv by (auto simp: distinct_map_filter)
  then show "\<exists>h. key h = key f \<and> contest_inv s0 i (row_versions i (cdb (ctx c1)) @ seen) c1 h" using k(1) by blast
  obtain cur where "flagByKey (key f) (Some r) = Inr (i, cur)"
    using assms(1) map_of_SomeD [OF r] unfolding contest_inv_def by blast
  then show "\<exists>a r cur. answered c1 = answered c @ [(a, Some r)] \<and> finish_replies (ctx c) n = [r] \<and> flagByKey (key f) a = Inr cur"
    using one by (auto simp: c1_def r leave_call_def simp del: sched_step.simps)
qed

lemma contest_schedule:
  assumes "contest_run s i (key f) c ws" "contest_inv s0 i seen c f" "seq (cdb (ctx c)) + int (calls ws) < 2 ^ 63"
  shows "\<exists>ss. amounts s i (key f) seen c ws ss"
  using assms
proof (induction ws arbitrary: c seen f)
  case Nil
  then have "amounts s i (key f) seen c [] []" by (simp add: amounts_def flips_def)
  then show ?case by blast
next
  case (Cons w ws)
  let ?c = "wstep s i (key f) c w"
  show ?case
  proof (cases w)
    case (Look n)
    have "contest_inv s0 i seen ?c f" unfolding Look using Cons.prems Look by (intro contest_look) simp_all
    moreover have "ctx ?c = ctx c" "answered ?c = answered c" using Look by simp_all
    ultimately obtain ss where "amounts s i (key f) seen ?c ws ss" using Cons.IH [of f ?c seen] Cons.prems Look by auto
    then have "amounts s i (key f) seen c (w # ws) ss"
      using \<open>ctx ?c = ctx c\<close> \<open>answered ?c = answered c\<close> Look by (simp add: amounts_def Let_def del: wstep.simps)
    then show ?thesis by blast
  next
    case (Send n now)
    obtain t where t: "?c = c\<lparr>ctx := sched_step (ctx c) (Begin n t)\<rparr>" "guarded_tx i seen t" "flip_tx i t" "contest_inv s0 i seen ?c f"
      using contest_send [OF Cons.prems(2), of n s now] Cons.prems(1,3) Send by auto
    have "seq (cdb (ctx ?c)) = seq (cdb (ctx c)) + 1" by (simp add: t(1) nextVersion_def)
    then obtain ss where "amounts s i (key f) seen ?c ws ss"
      using Cons.IH [OF _ t(4)] Cons.prems(1,3) Send by (auto simp del: wstep.simps)
    then have "amounts s i (key f) seen c (w # ws) (Begin n t # ss)"
      using t(1-3) Send Cons.prems(1) unfolding amounts_def foldl.simps Let_def
      by (simp add: flips_def del: wstep.simps sched_step.simps)
    then show ?thesis by blast
  next
    case (Done n)
    have n: "n \<in> fst ` set (opened (ctx c))" using Cons.prems(1) Done by simp
    note d = contest_done [OF Cons.prems(2) n, of s, folded Done]
    obtain h where h: "key h = key f" "contest_inv s0 i (row_versions i (cdb (ctx ?c)) @ seen) ?c h" using d(3) by blast
    obtain ss where "amounts s i (key f) (row_versions i (cdb (ctx ?c)) @ seen) ?c ws ss"
      using Cons.IH [OF _ h(2)] Cons.prems(1,3) d(2) Done h(1) by (auto simp del: wstep.simps)
    moreover obtain a r cur where "answered ?c = answered c @ [(a, Some r)]" "finish_replies (ctx c) n = [r]"
        "flagByKey (key f) a = Inr cur"
      using d(4) by blast
    ultimately have "amounts s i (key f) seen c (w # ws) (Finish n # ss)"
      using d(1) n unfolding amounts_def foldl.simps Let_def
      by (auto simp: flips_def Done simp del: wstep.simps sched_step.simps)
    then show ?thesis by blast
  qed
qed

section \<open>What the phases conclude\<close>

lemma successVersions_results:
  "successVersions (map wr_version ws) (map wr_status ws) st = sort (map wr_version (filter (\<lambda>w. wr_status w = st) ws))"
proof -
  have "map fst (filter (\<lambda>(v, s). s = st) (zip (map wr_version ws) (map wr_status ws))) =
      map wr_version (filter (\<lambda>w. wr_status w = st) ws)"
    by (induction ws) auto
  then show ?thesis by (simp add: successVersions_def)
qed

lemma countStatus_results: "countStatus (map wr_status ws) st = length (filter (\<lambda>w. wr_status w = st) ws)"
  by (induction ws) (simp_all add: countStatus_def)

lemma results_collected:
  assumes "mset ws = mset ws'"
  shows "successVersions (map wr_version ws) (map wr_status ws) st = successVersions (map wr_version ws') (map wr_status ws') st"
    and "countStatus (map wr_status ws) st = countStatus (map wr_status ws') st"
proof -
  have "mset (filter (\<lambda>w. wr_status w = st) ws) = mset (filter (\<lambda>w. wr_status w = st) ws')" using assms by simp
  then show "countStatus (map wr_status ws) st = countStatus (map wr_status ws') st"
    unfolding countStatus_results by (metis size_mset)
  show "successVersions (map wr_version ws) (map wr_status ws) st = successVersions (map wr_version ws') (map wr_status ws') st"
    unfolding successVersions_results using assms by (metis mset_filter mset_map properties_for_sort mset_sort sorted_sort)
qed

lemma update_writer_answered:
  assumes "flagByKey k a = Inr cur" "if code r = 200 then \<exists>g. rbody r = BFlag g else code r = 409"
  shows "wr_status (update_writer k (a, Some r)) = code r"
    and "code r = 200 \<Longrightarrow> wr_version (update_writer k (a, Some r)) = reply_version r"
  using assms by (auto simp: update_writer_def chaos_Update_def reply_version_def split: if_splits)

lemma updates_counted:
  assumes "map snd as = map Some rs" "\<forall>a \<in> set as. \<exists>cur. flagByKey k (fst a) = Inr cur"
    and "list_all (\<lambda>r. if code r = 200 then \<exists>g. rbody r = BFlag g else code r = 409) rs" "mset answers0 = mset as"
  defines "ws \<equiv> map (update_writer k) answers0"
  shows "successVersions (map wr_version ws) (map wr_status ws) 200 = sort (map reply_version (filter (\<lambda>r. code r = 200) rs))"
    and "length ws = length (filter (\<lambda>r. code r = 200) rs) + countStatus (map wr_status ws) 409"
proof -
  let ?vs = "map (update_writer k) as"
  have same: "mset ws = mset ?vs" using assms(4) by (simp add: ws_def)
  have vs: "map wr_version (filter (\<lambda>w. wr_status w = 200) ?vs) = map reply_version (filter (\<lambda>r. code r = 200) rs) \<and>
      length (filter (\<lambda>w. wr_status w = 409) ?vs) = length (filter (\<lambda>r. code r = 409) rs) \<and>
      length rs = length (filter (\<lambda>r. code r = 200) rs) + length (filter (\<lambda>r. code r = 409) rs)"
    using assms(1-3)
  proof (induction as arbitrary: rs)
    case (Cons a as)
    obtain r rs' where rs: "rs = r # rs'" "snd a = Some r" "map snd as = map Some rs'" using Cons.prems(1) by (cases rs) auto
    obtain cur where cur: "flagByKey k (fst a) = Inr cur" using Cons.prems(2) by auto
    have good: "if code r = 200 then \<exists>g. rbody r = BFlag g else code r = 409" using Cons.prems(3) rs(1) by simp
    have a: "a = (fst a, Some r)" using rs(2) by (cases a) simp
    note w = update_writer_answered [OF cur good, folded a]
    show ?case using Cons.IH [OF rs(3)] Cons.prems(2,3) w rs(1) good by auto
  qed simp
  show "successVersions (map wr_version ws) (map wr_status ws) 200 = sort (map reply_version (filter (\<lambda>r. code r = 200) rs))"
    using vs by (simp only: results_collected(1) [OF same] successVersions_results [of ?vs])
  have "length ws = length rs" using arg_cong [OF same, of size] arg_cong [OF assms(1), of length] by simp
  then show "length ws = length (filter (\<lambda>r. code r = 200) rs) + countStatus (map wr_status ws) 409"
    using vs by (simp only: results_collected(2) [OF same] countStatus_results [of ?vs])
qed

lemma chain_increasing:
  "chain p acc \<Longrightarrow> q \<le> p \<or> list_all (\<lambda>(e, v). q < v) acc \<Longrightarrow>
    increasing_from floor q (map snd acc) = None \<and> sorted (map snd acc) \<and> (\<forall>v \<in> snd ` set acc. p < v)"
proof (induction acc arbitrary: p q)
  case (Cons a acc)
  obtain e v where a: "a = (e, v)" by (cases a)
  have c: "p < v" "chain v acc" "q < v" using Cons.prems a by auto
  have "increasing_from floor v (map snd acc) = None \<and> sorted (map snd acc) \<and> (\<forall>w \<in> snd ` set acc. v < w)"
    using Cons.IH [OF c(2), of v] by simp
  then show ?case using c a by fastforce
qed simp

lemma chain_last: "acc \<noteq> [] \<Longrightarrow> chain_end p acc = last (map snd acc)"
  by (simp add: chain_end_def last_map)

lemma latest_any:
  assumes "up d"
  shows "\<exists>v. GetLatestVersion d = Inr v \<and> (\<forall>e \<in> set (events d). ev_version e \<le> v) \<and> (v = 0 \<or> v \<in> ev_version ` set (events d))"
proof (cases "events d = []")
  case False
  then have "Max (ev_version ` set (events d)) \<in> ev_version ` set (events d)" by (intro Max_in) auto
  then show ?thesis using assms False by (simp add: GetLatestVersion_def)
qed (use assms in \<open>simp add: GetLatestVersion_def\<close>)

lemma sort_key_snoc:
  assumes "\<forall>y \<in> set xs. f y \<le> f x"
  shows "sort_key f (xs @ [x]) = sort_key f xs @ [x]"
proof -
  have ins: "f a \<le> f x \<Longrightarrow> insort_key f a (ys @ [x]) = insort_key f a ys @ [x]" for a ys by (induction ys) auto
  show ?thesis using assms by (induction xs) (simp_all add: ins)
qed

lemma toggles_row:
  assumes "toggles i x ss" "all_toggles i x" "row_by_id (cdb x) i = Some f" "keys_ok (cdb x)" "constraint_error f = None"
    and "0 < version f" "version f \<le> seq (cdb x)" "0 \<le> seq (cdb x)" "\<forall>(n, v, t) \<in> set (opened x). 0 < v \<and> v \<le> seq (cdb x)"
  defines "x' \<equiv> foldl sched_step x ss"
  shows "keys_ok (cdb x') \<and> seq (cdb x') = seq (cdb x) + int (begins ss) \<and>
    (\<exists>g. row_by_id (cdb x') i = Some g \<and> key g = key f \<and> constraint_error g = None \<and> 0 < version g \<and> version g \<le> seq (cdb x'))"
  using assms(1-9) unfolding x'_def
proof (induction ss arbitrary: x f)
  case (Cons s ss)
  let ?x = "sched_step x s"
  show ?case
  proof (cases s)
    case (Begin n t)
    have x: "cdb ?x = (cdb x)\<lparr>seq := seq (cdb x) + 1\<rparr>" "opened ?x = (n, seq (cdb x) + 1, t) # opened x"
      by (simp_all add: Begin nextVersion_def)
    have "toggles i ?x ss" "all_toggles i ?x"
      using Cons.prems(1,2) Begin unfolding all_toggles_def x by (auto simp del: sched_step.simps split: txn.splits)
    moreover have "\<forall>(n, v, t) \<in> set (opened ?x). 0 < v \<and> v \<le> seq (cdb ?x)" using Cons.prems(8,9) unfolding x by fastforce
    moreover have "begins (s # ss) = Suc (begins ss)" by (simp add: Begin)
    ultimately show ?thesis
      using Cons.IH [of ?x f] Cons.prems(3-8) by (auto simp: x simp del: sched_step.simps begins.simps)
  next
    case (Finish n)
    obtain v t where o: "map_of (opened x) n = Some (v, t)"
      using Cons.prems(1) Finish by (cases "map_of (opened x) n") (auto simp: map_of_eq_None_iff)
    note mem = map_of_SomeD [OF o]
    then obtain now where t: "t = TxToggle now i" using Cons.prems(2) by (auto simp: all_toggles_def)
    define g where "g = f\<lparr>enabled := \<not> enabled f, version := v, updated_at := now\<rparr>"
    note commit = toggle_commit [OF Cons.prems(3), of now v, folded g_def]
    have x: "cdb ?x = appendEvent v (key f) (Updated g) now (replace_row g (cdb x))"
      "opened ?x = filter (\<lambda>e. fst e \<noteq> n) (opened x)"
      by (simp_all add: Finish o t commit(1))
    have v: "0 < v" "v \<le> seq (cdb x)" using Cons.prems(9) mem by auto
    have "constraint_error g = constraint_error f" by (simp add: g_def constraint_error_def)
    moreover have "keys_ok (cdb ?x)"
      using keys_ok_replace_row [OF Cons.prems(4), of f g] Cons.prems(3) unfolding x
      by (simp add: appendEvent_def g_def row_by_id_Some [OF Cons.prems(4)])
    moreover have "row_by_id (cdb ?x) i = Some g" using commit(2) by (simp add: x commit(1))
    moreover have "all_toggles i ?x" using Cons.prems(2) unfolding all_toggles_def x(2) by (auto simp: distinct_map_filter)
    moreover have "toggles i ?x ss" using Cons.prems(1) Finish by (simp del: sched_step.simps)
    moreover have "seq (cdb ?x) = seq (cdb x)" by (simp add: x(1) appendEvent_def replace_row_def)
    moreover have "\<forall>(n, v, t) \<in> set (opened ?x). 0 < v \<and> v \<le> seq (cdb x)" using Cons.prems(9) unfolding x(2) by auto
    moreover have "begins (s # ss) = begins ss" "foldl sched_step x (s # ss) = foldl sched_step ?x ss" by (simp_all add: Finish)
    moreover have "key g = key f" "version g = v" by (simp_all add: g_def)
    ultimately show ?thesis using Cons.IH [of ?x g] Cons.prems(5,8) v by auto
  qed
qed simp

text \<open>What the second phase starts from; the rows and the log may be in any relation.\<close>

definition phase_start :: "utext \<Rightarrow> db \<Rightarrow> utext Flag \<Rightarrow> bool" where
  "phase_start i d f \<longleftrightarrow>
     keys_ok d \<and> up d \<and> row_by_id d i = Some f \<and> constraint_error f = None \<and> 0 < version f \<and> version f \<le> seq d \<and>
     (\<forall>e \<in> set (events d). 0 < ev_version e \<and> ev_version e \<le> seq d)"

lemma contest_outcome:
  assumes "phase_start i d f" "contest_run s i (key f) (contest_at d) ws" "seq d + int (calls ws) < 2 ^ 63" "0 < calls ws"
  defines "c \<equiv> foldl (wstep s i (key f)) (contest_at d) ws"
  shows "\<exists>acc rs. acc \<noteq> [] \<and> outcome (seq d) i f \<lparr>cdb = d, opened = []\<rparr> (ctx c) acc rs \<and> length rs = calls ws \<and>
    map snd (answered c) = map Some rs \<and> (\<forall>a \<in> set (answered c). \<exists>cur. flagByKey (key f) (fst a) = Inr cur) \<and>
    list_all (\<lambda>r. if code r = 200 then \<exists>g. rbody r = BFlag g else code r = 409) rs"
proof -
  let ?x = "\<lparr>cdb = d, opened = []\<rparr>"
  have w: "winv (seq d) i [version f] ?x f" using assms(1) by (auto simp: phase_start_def winv_def begun_def)
  then have "contest_inv (seq d) i [version f] (contest_at d) f"
    using assms(1) by (simp add: contest_inv_def contest_at_def phase_start_def)
  then obtain ss where "amounts s i (key f) [version f] (contest_at d) ws ss"
    using contest_schedule [OF assms(2)] assms(3) by (auto simp: contest_at_def)
  then have ss: "guarded i [version f] ?x ss" "foldl sched_step ?x ss = ctx c" "flips i ss" "begins ss = calls ws"
    and as: "map snd (answered c) = map Some (update_replies ?x ss)" "\<forall>a \<in> set (answered c). \<exists>cur. flagByKey (key f) (fst a) = Inr cur"
    by (simp_all add: amounts_def c_def Let_def contest_at_def)
  have fs: "flip_state i ?x f" using assms(1) by (simp add: phase_start_def flip_state_def)
  have acc: "accepted ?x ss \<noteq> []" using first_accepted [OF fs ss(3,1)] ss(4) assms(4) by simp
  have o: "outcome (seq d) i f ?x (ctx c) (accepted ?x ss) (update_replies ?x ss)" "length (update_replies ?x ss) = calls ws"
    using guarded_outcome [OF ss(1) w] ss(2,4) by simp_all
  have "list_all (\<lambda>r. if code r = 200 then \<exists>g. rbody r = BFlag g else code r = 409) (update_replies ?x ss)"
    using o(1) flips_answers [OF fs ss(3)] by (auto simp: outcome_def list_all_iff split: if_splits)
  then show ?thesis using acc o as by blast
qed

text \<open>The end of the second phase: the row has the latest version, and the log agrees with it again.\<close>

lemma outcome_settled:
  assumes "phase_start i d f" "outcome (seq d) i f \<lparr>cdb = d, opened = []\<rparr> x' acc rs" "acc \<noteq> []"
  shows "\<exists>g. row_by_id (cdb x') i = Some g \<and> key g = key f \<and> GetLatestVersion (cdb x') = Inr (version g) \<and>
    log_view (cdb x') (key f) = Some g \<and> row_by_key (cdb x') (key f) = Some g \<and> keys_ok (cdb x') \<and> up (cdb x')"
proof -
  obtain g es where g: "row_by_id (cdb x') i = Some g" "key g = key f" "version g = chain_end (version f) acc"
      "events (cdb x') = events d @ es" "map ev_version es = map snd acc" "\<forall>e \<in> set es. flag_key e = key f"
      "\<forall>e \<in> set (events (cdb x')). ev_version e \<le> max (seq d) (version g)" "if es = [] then g = f else payload (last es) = Updated g"
    and x': "up (cdb x')" "keys_ok (cdb x')" "list_all (\<lambda>(e, v). seq d < v) acc"
    using assms(1,2) by (auto simp: outcome_def phase_start_def)
  have es: "es \<noteq> []" using g(5) assms(3) by auto
  then have last: "ev_version (last es) = version g" "last es \<in> set es"
    using g(3,5) chain_last [OF assms(3)] by (metis last_map, simp)
  have "version g \<in> snd ` set acc" using g(3) assms(3) by (simp add: chain_end_def)
  then have new: "seq d < version g" using x'(3) by (auto simp: list_all_iff)
  then have top: "\<forall>e \<in> set (events (cdb x')). ev_version e \<le> version g" using g(7) by auto
  have pos: "0 < version g" using new assms(1) by (auto simp: phase_start_def)
  obtain v where v: "GetLatestVersion (cdb x') = Inr v" "\<forall>e \<in> set (events (cdb x')). ev_version e \<le> v"
      "v = 0 \<or> v \<in> ev_version ` set (events (cdb x'))"
    using latest_any [OF x'(1)] by blast
  have "version g \<le> v" using v(2) last g(4) by (metis Un_iff set_append)
  then have latest: "v = version g" using v(3) top pos by force
  have split: "events (cdb x') = (events d @ butlast es) @ [last es]" using g(4) es by simp
  have "sort_key ev_version (events (cdb x')) = sort_key ev_version (events d @ butlast es) @ [last es]"
    unfolding split by (rule sort_key_snoc) (use top last(1) split in auto)
  moreover have "payload_flag (payload (last es)) = Some g" using g(8) es by simp
  ultimately have "log_view (cdb x') (key f) = Some g" using g(6) last(2) by (simp add: log_view_def log_state_snoc)
  moreover have "row_by_key (cdb x') (key f) = Some g"
    using g(1,2) x'(2) by (simp add: row_by_id_Some row_by_key_Some)
  ultimately show ?thesis using g(1,2) v(1) latest x'(1,2) by blast
qed

lemma phase_two_passes:
  fixes s :: server
  assumes "phase_start i (sdb s1) f" "outcome (seq (sdb s1)) i f \<lparr>cdb = sdb s1, opened = []\<rparr> x' acc rs" "seq (sdb s1) < 2 ^ 63"
    and "length rs \<le> 500" "map snd as = map Some rs" "\<forall>a \<in> set as. \<exists>cur. flagByKey (key f) (fst a) = Inr cur"
    and "list_all (\<lambda>r. if code r = 200 then \<exists>g. rbody r = BFlag g else code r = 409) rs" "mset answers0 = mset as"
  defines "s2 \<equiv> s\<lparr>sdb := cdb x'\<rparr>"
  shows "\<exists>base2. phase_two (key f) (Some (h_Version s1)) answers0 (\<lambda>v. Some (h_Reconcile (js_num v) s2 s2)) =
    Inr (base2, map snd acc)"
proof -
  obtain es where es: "events (cdb x') = events (sdb s1) @ es" "map ev_version es = map snd acc" "\<forall>e \<in> set es. flag_key e = key f"
    and c: "chain (version f) acc" "list_all (\<lambda>(e, v). seq (sdb s1) < v) acc" "up (cdb x')"
      "map reply_version (filter (\<lambda>r. code r = 200) rs) = map snd acc"
    using assms(1,2) by (auto simp: outcome_def phase_start_def)
  obtain v where v: "GetLatestVersion (sdb s1) = Inr v" "\<forall>e \<in> set (events (sdb s1)). ev_version e \<le> v"
      "v = 0 \<or> v \<in> ev_version ` set (events (sdb s1))"
    using latest_any assms(1) unfolding phase_start_def by blast
  have bounds: "0 \<le> v" "v \<le> seq (sdb s1)" using v(3) assms(1) by (auto simp: phase_start_def)
  have ver: "chaos_LatestVersion (Some (h_Version s1)) = Inr v" using v(1) by (simp add: chaos_LatestVersion_def h_Version_def)
  have "list_all (\<lambda>(e, w). v < w) acc" using c(2) bounds(2) by (auto simp: list_all_iff)
  then have inc: "assertStrictlyIncreasing (map snd acc) v = None" "sorted (map snd acc)"
    using chain_increasing [OF c(1), of v v] unfolding assertStrictlyIncreasing_def by blast+
  let ?ws = "map (update_writer (key f)) answers0"
  have ok: "successVersions (map wr_version ?ws) (map wr_status ?ws) 200 = map snd acc"
    using updates_counted(1) [OF assms(5-8)] c(4) inc(2) by (simp add: sort_key_sorted_id)
  have len: "length es = length acc" "length (filter (\<lambda>r. code r = 200) rs) = length acc"
    using arg_cong [OF es(2), of length] arg_cong [OF c(4), of length] by simp_all
  then have "length acc \<le> 500" using assms(4) by (metis length_filter_le order_trans)
  moreover have "\<forall>e \<in> set es. v < ev_version e \<and> flag_key e = key f"
  proof
    fix e assume "e \<in> set es"
    then have "ev_version e \<in> snd ` set acc" using es(2) by (metis image_eqI list.set_map)
    then show "v < ev_version e \<and> flag_key e = key f"
      using c(2) bounds(2) es(3) \<open>e \<in> set es\<close> by (auto simp: list_all_iff)
  qed
  ultimately have "EventsSinceCount (key f) (Some (h_Reconcile (js_num v) s2 s2)) = Inr (length acc)"
    using bursts_page [OF v(2) bounds(1) _ es(1) c(3), of "key f" s] bounds(2) assms(3) len(1) by (simp add: s2_def)
  then have "phase_two (key f) (Some (h_Version s1)) answers0 (\<lambda>v. Some (h_Reconcile (js_num v) s2 s2)) = Inr (v, map snd acc)"
    using updates_counted(2) [OF assms(5-8)] len(2)
    unfolding phase_two_def ver sum.case Let_def ok inc(1) option.case by simp
  then show ?thesis by blast
qed

lemma phase_one_leaves:
  assumes "db_wf d" "up d" "row_by_id d i = Some f" "constraint_error f = None" "toggles i \<lparr>cdb = d, opened = []\<rparr> ss"
    and "events (run_sched ss d) = events d @ es" "mset (map ev_version es) = mset [seq d + 1..seq d + int (begins ss)]"
    and "up (run_sched ss d)"
  shows "seq (run_sched ss d) = seq d + int (begins ss) \<and> (\<exists>g. key g = key f \<and> phase_start i (run_sched ss d) g)"
proof -
  let ?d = "run_sched ss d"
  have wf: "keys_ok d" "0 \<le> seq d" "\<forall>e \<in> set (events d). 0 < ev_version e \<and> ev_version e \<le> seq d"
    using assms(1) by (auto simp: db_wf_def versions_ok_def)
  obtain g where g: "keys_ok ?d" "seq ?d = seq d + int (begins ss)" "row_by_id ?d i = Some g" "key g = key f"
      "constraint_error g = None" "0 < version g" "version g \<le> seq ?d"
    using toggles_row [OF assms(5), of f] assms(3,4) wf(1,2) row_version [OF assms(1,3)]
    by (auto simp: all_toggles_def run_sched_def)
  have "seq d < ev_version e \<and> ev_version e \<le> seq ?d" if "e \<in> set es" for e
  proof -
    have "ev_version e \<in># mset (map ev_version es)" using that by simp
    then show ?thesis unfolding assms(7) g(2) by simp
  qed
  then have "\<forall>e \<in> set (events ?d). 0 < ev_version e \<and> ev_version e \<le> seq ?d" using wf(2,3) g(2) by (fastforce simp: assms(6))
  then show ?thesis using g assms(8) unfolding phase_start_def by blast
qed

text \<open>C27: The scenario of concurrent writers passes whatever the writers' requests do: with one to 500 calls in each
  phase, all answered, it depends on the client alone, and the flag ends at the latest version, as the log has it. So it
  passes as well when toggles of the first phase commit against the order of their versions and the table disagrees with
  the log between the phases: the first accepted update of the second phase repairs that before the scenario compares.
  With more than 500 calls it stops after the first phase and reports updates that were not lost.\<close>

theorem concurrent_writers_pass:
  assumes "db_wf (sdb s)" "up (sdb s)" "row_by_id (sdb s) i = Some f" "constraint_error f = None"
    and "toggles i \<lparr>cdb = sdb s, opened = []\<rparr> ss" "begins ss = writers * iters" "0 < writers * iters"
    and "seq (sdb s) + 2 * int (writers * iters) < 2 ^ 63"
  defines "s1 \<equiv> s\<lparr>sdb := run_sched ss (sdb s)\<rparr>"
  assumes "contest_run s i (key f) (contest_at (sdb s1)) ws" "calls ws = writers * iters"
  defines "c \<equiv> foldl (wstep s i (key f)) (contest_at (sdb s1)) ws"
  defines "s2 \<equiv> s\<lparr>sdb := cdb (ctx c)\<rparr>"
  assumes "EnsureFlag (key f) created listed = Inr i" "mset updated = mset (answered c)"
    and "mset toggled = mset (map Some (toggle_replies \<lparr>cdb = sdb s, opened = []\<rparr> ss))"
  defines "io \<equiv> \<lparr>io_created = created, io_listed = listed,
      io_version1 = Some (h_Version s), io_toggles = toggled, io_events1 = (\<lambda>v. Some (h_Reconcile (js_num v) s1 s1)),
      io_version2 = Some (h_Version s1), io_updates = updated, io_events2 = (\<lambda>v. Some (h_Reconcile (js_num v) s2 s2)),
      io_final = Some (h_ListFlags s2 s2), io_latest = Some (h_Version s2)\<rparr>"
  shows "\<exists>g gaps. row_by_id (sdb s2) i = Some g \<and> GetLatestVersion (sdb s2) = Inr (version g) \<and>
    log_view (sdb s2) (key f) = Some g \<and> row_by_key (sdb s2) (key f) = Some g \<and>
    concurrentWriters (key f) writers iters io timeout polls final_sample fleet =
      (if writers * iters \<le> 500 then client_verdict (version g) timeout polls final_sample fleet gaps
       else Some (Inl (Tool (EventsLost (writers * iters) 500))))"
proof -
  let ?N = "writers * iters"
  have latest: "latest_version (sdb s) < 2 ^ 63" using latest_version_bounds(2) [OF assms(1)] assms(8) by linarith
  note one = toggle_phase [OF assms(1,2) latest assms(3,5,6) assms(16), folded s1_def]
  obtain es where es: "events (sdb s1) = events (sdb s) @ es"
      "mset (map ev_version es) = mset [seq (sdb s) + 1..seq (sdb s) + int ?N]"
    using one by blast
  obtain f1 where f1: "seq (sdb s1) = seq (sdb s) + int ?N" "key f1 = key f" "phase_start i (sdb s1) f1"
    using phase_one_leaves [OF assms(1-5), of es] es one assms(6) by (auto simp: s1_def)
  have bound: "seq (sdb s1) + int (calls ws) < 2 ^ 63" "seq (sdb s1) < 2 ^ 63" using f1(1) assms(8,11) by linarith+
  obtain acc rs where o: "acc \<noteq> []" "outcome (seq (sdb s1)) i f1 \<lparr>cdb = sdb s1, opened = []\<rparr> (ctx c) acc rs" "length rs = ?N"
      "map snd (answered c) = map Some rs" "\<forall>a \<in> set (answered c). \<exists>cur. flagByKey (key f1) (fst a) = Inr cur"
      "list_all (\<lambda>r. if code r = 200 then \<exists>g. rbody r = BFlag g else code r = 409) rs"
    using contest_outcome [OF f1(3), of s ws] assms(10,11) bound(1) assms(7) f1(2) by (auto simp: c_def)
  obtain g where g: "row_by_id (sdb s2) i = Some g" "key g = key f" "GetLatestVersion (sdb s2) = Inr (version g)"
      "log_view (sdb s2) (key f) = Some g" "row_by_key (sdb s2) (key f) = Some g" "keys_ok (sdb s2)" "up (sdb s2)"
    using outcome_settled [OF f1(3) o(2,1)] f1(2) by (auto simp: s2_def)
  have "flagByKey (key f) (io_final io) = Inr (i, g)"
    using listing_flag [OF g(6,7,1), of s] g(2) by (simp add: io_def listing_def s2_def)
  then have final: "final_state (key f) (io_final io) (io_latest io) = Inr (version g)"
    using g(3) by (simp add: final_state_def io_def chaos_LatestVersion_def h_Version_def)
  have first: "phase_one (key f) writers iters (io_version1 io) (io_toggles io) (io_events1 io) =
      (if ?N \<le> 500 then Inr () else Inl (EventsLost ?N 500))"
    using one by (simp add: io_def)
  have "\<exists>gaps. concurrentWriters (key f) writers iters io timeout polls final_sample fleet =
      (if ?N \<le> 500 then client_verdict (version g) timeout polls final_sample fleet gaps
       else Some (Inl (Tool (EventsLost ?N 500))))"
  proof (cases "?N \<le> 500")
    case True
    obtain base2 where "phase_two (key f) (io_version2 io) (io_updates io) (io_events2 io) = Inr (base2, map snd acc)"
      using phase_two_passes [OF f1(3) o(2) bound(2) _ o(4-6) assms(15), of s] o(3) True f1(2)
      by (auto simp: io_def s2_def)
    then show ?thesis using True first final assms(14) by (auto simp: concurrentWriters_def io_def)
  next
    case False
    then show ?thesis using first assms(14) by (simp add: concurrentWriters_def io_def)
  qed
  then show ?thesis using g by blast
qed

text \<open>Two writers: their toggles cross, and so do their updates. Between the phases the table and the log disagree.\<close>

definition crossing :: "sched list" where
  "crossing = [Begin 0 (TxToggle 5 (ascii ''1'')), Begin 1 (TxToggle 5 (ascii ''1'')), Finish 1, Finish 0]"

definition crossing_calls :: "call_step list" where
  "crossing_calls = [Look 0, Look 1, Send 0 6, Send 1 6, Done 1, Done 0]"

definition between_phases :: server where
  "between_phases = server_one\<lparr>sdb := run_sched crossing db_one\<rparr>"

definition one_version :: "int \<Rightarrow> poll" where
  "one_version v = \<lparr>po_sample = [(0, v)], po_versions = [(0, v)], po_late = False, po_cancelled = False\<rparr>"

lemmas crossing_defs =
  crossing_def crossing_calls_def between_phases_def server_one_def db_one_def flag_one_def contest_at_def run_sched_def
  nextVersion_def row_by_id_def row_by_key_def toggle_tx_def appendEvent_def replace_row_def ascii_def Let_def

lemma crossing_states:
  "run_sched crossing db_one = db_one\<lparr>rows := [flag_one\<lparr>version := 2, updated_at := 5\<rparr>],
     events := events db_one @
       [\<lparr>ev_version = 3, flag_key = key flag_one, payload = Updated (flag_one\<lparr>enabled := True, version := 3, updated_at := 5\<rparr>),
           ev_created_at = 5\<rparr>,
        \<lparr>ev_version = 2, flag_key = key flag_one, payload = Updated (flag_one\<lparr>version := 2, updated_at := 5\<rparr>),
           ev_created_at = 5\<rparr>],
     seq := 3\<rparr>"
  by (simp add: crossing_defs)

lemmas contest_defs =
  listing_def h_ListFlags_def List_flags_def GetLatestVersion_def flagByKey_def chaos_ListFlags_def
  writer_tx_def expected_if_match with_expected_def update_body_def leave_call_def update_tx_def set_fields_def
  constraint_error_def finish_replies_def update_reply_def

lemma crossing_contest:
  defines "c \<equiv> foldl (wstep server_one (ascii ''1'') (key flag_one)) (contest_at (sdb between_phases)) crossing_calls"
  shows "contest_run server_one (ascii ''1'') (key flag_one) (contest_at (sdb between_phases)) crossing_calls"
    and "calls crossing_calls = 2" and "GetLatestVersion (cdb (ctx c)) = Inr 5"
proof -
  have d: "sdb between_phases = run_sched crossing db_one" by (simp add: between_phases_def)
  note defs = contest_defs crossing_calls_def contest_at_def server_one_def db_one_def flag_one_def nextVersion_def row_by_id_def
    appendEvent_def replace_row_def ascii_def Let_def
  show "contest_run server_one (ascii ''1'') (key flag_one) (contest_at (sdb between_phases)) crossing_calls"
    unfolding d crossing_states by (simp add: defs)
  show "calls crossing_calls = 2" by (simp add: crossing_calls_def)
  show "GetLatestVersion (cdb (ctx c)) = Inr 5" unfolding c_def d crossing_states by (simp add: defs)
qed

theorem concurrent_writers_pass_witness:
  "\<exists>io gaps. concurrentWriters (ascii ''checkout'') 2 1 io [] [one_version 5] [(0, 5)] (spawned [(0, 1)]) = Some (Inr gaps) \<and>
     log_view (sdb between_phases) (ascii ''checkout'') \<noteq> row_by_key (sdb between_phases) (ascii ''checkout'')"
proof -
  let ?x = "\<lparr>cdb = sdb server_one, opened = []\<rparr>"
  have s: "db_wf (sdb server_one)" "up (sdb server_one)" "row_by_id (sdb server_one) (ascii ''1'') = Some flag_one"
      "constraint_error flag_one = None" "seq (sdb server_one) = 1" "key flag_one = ascii ''checkout''"
    using server_one_inv
    by (simp_all add: server_inv_def server_one_def db_one_def row_by_id_def flag_one_def constraint_error_def ascii_def)
  have t: "toggles (ascii ''1'') ?x crossing" "begins crossing = 2 * 1"
    by (simp_all add: crossing_def nextVersion_def)
  have d: "server_one\<lparr>sdb := run_sched crossing (sdb server_one)\<rparr> = between_phases"
    by (simp add: between_phases_def) (simp add: server_one_def)
  have e: "EnsureFlag (key flag_one) (Some (http 409 BEmpty)) (Some (h_ListFlags server_one server_one)) = Inr (ascii ''1'')"
    by (simp add: EnsureFlag_def contest_defs server_one_def db_one_def flag_one_def ascii_def)
  note pass = concurrent_writers_pass [OF s(1-4) t(1), of 2 1, unfolded d, OF _ _ _ crossing_contest(1) _ e refl refl,
      of "[]" "[one_version 5]" "[(0, 5)]" "spawned [(0, 1)]"]
  have v: "client_verdict 5 [] [one_version 5] [(0, 5)] (spawned [(0, 1)]) gaps = Some (Inr gaps)" for gaps
    by (simp add: client_verdict_def one_version_def sampleOnce_def sample_member_def spawned_def laggards_def
        finishMonotonicity_def Let_def)
  have "log_view (sdb between_phases) (ascii ''checkout'') \<noteq> row_by_key (sdb between_phases) (ascii ''checkout'')"
    unfolding between_phases_def server.simps crossing_states
    by (simp add: log_view_def log_state_def flag_change_def row_by_key_def
        flag_one_def db_one_def ascii_def)
  then show ?thesis using pass t(2) s(5,6) crossing_contest(2,3) v
    by simp (elim exE conjE, rule exI, rule exI, erule trans, simp)
qed

end
