(* ===== verification/AdminApi.thy ===== *)
theory AdminApi
  imports Service
begin

text \<open>
  The way of an admin request from the page to the control plane: the fetch wrapper
  \<^verbatim>\<open>lib/api.ts\<close>, the same-origin route handlers under \<^verbatim>\<open>app/api/admin\<close>, the proxy that
  adds the admin key on the server (\<^verbatim>\<open>lib/admin-proxy.ts\<close>), the admin routes and key
  check of the backend (\<^verbatim>\<open>cmd/server/main.go\<close>, \<^verbatim>\<open>middleware/auth.go\<close>) and its handlers.
  JSON bodies are the values they encode; header names are case-insensitive and written
  in lower case. The upstream fetch of the proxy is an argument of it, since it may fail.
\<close>

datatype http_method = GET | POST | PUT | PATCH | DELETE

datatype content =
    Empty
  | CreateJson "utext CreateFlagInput"
  | UpdateJson "utext UpdateFlagInput"
  | Reply body
  | Message string

record request =
  req_method :: http_method
  req_path :: utext
  req_headers :: "(string \<times> jsstring) list"
  req_body :: content

record http_response =
  res_status :: int
  res_type :: "string option"
  res_content :: content

section \<open>The proxy\<close>

definition unreserved :: "nat \<Rightarrow> bool" where
  "unreserved c \<longleftrightarrow> 97 \<le> c \<and> c \<le> 122 \<or> 65 \<le> c \<and> c \<le> 90 \<or> 48 \<le> c \<and> c \<le> 57 \<or>
     c \<in> set (ascii ''-_.!~*'' @ [39] @ ascii ''()'')"

definition hex_digit :: "nat \<Rightarrow> nat" where
  "hex_digit n = (if n < 10 then 48 + n else 55 + n)"

definition encodeURIComponent :: "utext \<Rightarrow> utext" where
  "encodeURIComponent t =
     concat (map (\<lambda>c. if unreserved c then [c]
                      else concat (map (\<lambda>b. [37, hex_digit (unat b div 16), hex_digit (unat b mod 16)]) (utf8_char c))) t)"

definition sends_body :: "http_method \<Rightarrow> bool" where
  "sends_body m \<longleftrightarrow> m = POST \<or> m = PUT \<or> m = PATCH"

definition proxyAdmin ::
  "jsstring \<Rightarrow> (request \<Rightarrow> 's \<Rightarrow> http_response option \<times> 's) \<Rightarrow> request \<Rightarrow> utext \<Rightarrow> 's \<Rightarrow> http_response \<times> 's" where
  "proxyAdmin adminKey upstream req backendPath s =
     (let hs = [(''x-admin-api-key'', adminKey)];
          hs = (case map_of (req_headers req) ''if-match'' of
                  Some h \<Rightarrow> if h \<noteq> [] then hs @ [(''if-match'', h)] else hs
                | None \<Rightarrow> hs);
          bdy = (if sends_body (req_method req) then req_body req else Empty);
          hs = (if bdy \<noteq> Empty then hs @ [(''content-type'', js ''application/json'')] else hs);
          (res, s) = upstream \<lparr>req_method = req_method req, req_path = backendPath,
                                req_headers = hs, req_body = bdy\<rparr> s
      in case res of
           None \<Rightarrow> (\<lparr>res_status = 502, res_type = Some ''application/json'',
                     res_content = Message ''Upstream unreachable''\<rparr>, s)
         | Some r \<Rightarrow>
             if res_status r = 204 then (\<lparr>res_status = 204, res_type = None, res_content = Empty\<rparr>, s)
             else (\<lparr>res_status = res_status r,
                    res_type = Some (case res_type r of
                                       Some t \<Rightarrow> if t \<noteq> [] then t else ''application/json''
                                     | None \<Rightarrow> ''application/json''),
                    res_content = res_content r\<rparr>, s))"

section \<open>The route handlers\<close>

definition flags_route where
  "flags_route adminKey upstream req s = proxyAdmin adminKey upstream req (ascii ''/api/admin/flags'') s"

definition flag_route where
  "flag_route adminKey upstream req i s = proxyAdmin adminKey upstream req (ascii ''/api/admin/flags/'' @ encodeURIComponent i) s"

definition events_route where
  "events_route adminKey upstream req i s =
     proxyAdmin adminKey upstream req (ascii ''/api/admin/flags/'' @ encodeURIComponent i @ ascii ''/events'') s"

definition toggle_route where
  "toggle_route adminKey upstream req i s =
     proxyAdmin adminKey upstream req (ascii ''/api/admin/flags/'' @ encodeURIComponent i @ ascii ''/toggle'') s"

abbreviation segments :: "utext \<Rightarrow> utext list" where
  "segments p \<equiv> split_on 47 p"

datatype admin_path = AllFlags | OneFlag utext | FlagEvents utext | FlagToggle utext | OtherPath

definition admin_path :: "utext \<Rightarrow> admin_path" where
  "admin_path p =
     (case segments p of
        [r, a, b, c] \<Rightarrow>
          if r = [] \<and> a = ascii ''api'' \<and> b = ascii ''admin'' \<and> c = ascii ''flags'' then AllFlags else OtherPath
      | [r, a, b, c, i] \<Rightarrow>
          if r = [] \<and> a = ascii ''api'' \<and> b = ascii ''admin'' \<and> c = ascii ''flags'' \<and> i \<noteq> [] then OneFlag i else OtherPath
      | [r, a, b, c, i, e] \<Rightarrow>
          if r = [] \<and> a = ascii ''api'' \<and> b = ascii ''admin'' \<and> c = ascii ''flags'' \<and> i \<noteq> []
          then if e = ascii ''events'' then FlagEvents i
               else if e = ascii ''toggle'' then FlagToggle i else OtherPath
          else OtherPath
      | _ \<Rightarrow> OtherPath)"

definition method_not_allowed :: http_response where
  "method_not_allowed = \<lparr>res_status = 405, res_type = None, res_content = Empty\<rparr>"

definition page_not_found :: http_response where
  "page_not_found = \<lparr>res_status = 404, res_type = None, res_content = Empty\<rparr>"

text \<open>The methods each \<^verbatim>\<open>route.ts\<close> exports, by the file's place in the tree.\<close>

definition next_app ::
  "jsstring \<Rightarrow> (request \<Rightarrow> 's \<Rightarrow> http_response option \<times> 's) \<Rightarrow> request \<Rightarrow> 's \<Rightarrow> http_response \<times> 's" where
  "next_app adminKey upstream req s =
     (case admin_path (req_path req) of
        AllFlags \<Rightarrow>
          if req_method req \<in> {GET, POST} then flags_route adminKey upstream req s else (method_not_allowed, s)
      | OneFlag i \<Rightarrow>
          if req_method req \<in> {GET, PUT, DELETE} then flag_route adminKey upstream req i s else (method_not_allowed, s)
      | FlagEvents i \<Rightarrow>
          if req_method req = GET then events_route adminKey upstream req i s else (method_not_allowed, s)
      | FlagToggle i \<Rightarrow>
          if req_method req = PATCH then toggle_route adminKey upstream req i s else (method_not_allowed, s)
      | OtherPath \<Rightarrow> (page_not_found, s))"

section \<open>The admin routes of the backend\<close>

fun decode_create :: "content \<Rightarrow> utext CreateFlagInput option" where
  "decode_create (CreateJson r) = Some r"
| "decode_create _ = None"

fun decode_update :: "content \<Rightarrow> utext UpdateFlagInput option" where
  "decode_update (UpdateJson r) = Some r"
| "decode_update _ = None"

definition json_reply :: "reply \<Rightarrow> http_response" where
  "json_reply r = \<lparr>res_status = code r,
     res_type = (if code r = 204 then None else Some ''application/json''), res_content = Reply (rbody r)\<rparr>"

definition admin_routes :: "int \<Rightarrow> utext \<Rightarrow> request \<Rightarrow> server \<Rightarrow> http_response \<times> server" where
  "admin_routes now uuid req s =
     (case (req_method req, admin_path (req_path req)) of
        (POST, AllFlags) \<Rightarrow> map_prod json_reply id (h_CreateFlag now uuid (decode_create (req_body req)) s)
      | (GET, AllFlags) \<Rightarrow> (json_reply (h_ListFlags s s), s)
      | (GET, OneFlag i) \<Rightarrow> (json_reply (h_GetFlag i s), s)
      | (GET, FlagEvents i) \<Rightarrow> (json_reply (h_GetFlagHistory i s), s)
      | (PUT, OneFlag i) \<Rightarrow>
          map_prod json_reply id
            (h_UpdateFlag now i (decode_update (req_body req)) (map_of (req_headers req) ''if-match'') s)
      | (DELETE, OneFlag i) \<Rightarrow> map_prod json_reply id (h_DeleteFlag now i s)
      | (PATCH, FlagToggle i) \<Rightarrow> map_prod json_reply id (h_ToggleFlag now i s)
      | (_, OtherPath) \<Rightarrow> (page_not_found, s)
      | _ \<Rightarrow> (method_not_allowed, s))"

definition AdminAuth :: "jsstring \<Rightarrow> (request \<Rightarrow> 's \<Rightarrow> http_response \<times> 's) \<Rightarrow> request \<Rightarrow> 's \<Rightarrow> http_response \<times> 's" where
  "AdminAuth apiKey nxt req s =
     (if (case map_of (req_headers req) ''x-admin-api-key'' of Some h \<Rightarrow> h | None \<Rightarrow> []) \<noteq> apiKey
      then (\<lparr>res_status = 401, res_type = Some ''application/json'',
             res_content = Reply (BError ''unauthorized'' ''Invalid or missing admin API key'')\<rparr>, s)
      else nxt req s)"

text \<open>The backend as the proxy's upstream; \<open>reachable\<close> says whether the connection succeeds.\<close>

definition backend :: "jsstring \<Rightarrow> bool \<Rightarrow> int \<Rightarrow> utext \<Rightarrow> request \<Rightarrow> server \<Rightarrow> http_response option \<times> server" where
  "backend apiKey reachable now uuid req s =
     (if reachable then map_prod Some id (AdminAuth apiKey (admin_routes now uuid) req s) else (None, s))"

section \<open>The fetch wrapper of the page\<close>

text \<open>
  An error the wrapper throws: the request never completed, a response with a status
  that is not ok (its message or the status), or a body that is not JSON.
\<close>

datatype api_error = FetchFailed | Failed string | RequestFailed int | BadJson

datatype api_result = Undefined | Json body

definition res_ok :: "http_response \<Rightarrow> bool" where
  "res_ok r \<longleftrightarrow> 200 \<le> res_status r \<and> res_status r < 300"

fun error_message :: "string \<Rightarrow> content \<Rightarrow> string" where
  "error_message statusText (Message m) = m"
| "error_message statusText (Reply (BError e m)) = m"
| "error_message statusText (Reply b) = []"
| "error_message statusText _ = statusText"

definition api_request :: "string \<Rightarrow> http_response option \<Rightarrow> api_error + api_result" where
  "api_request statusText fetched =
     (case fetched of
        None \<Rightarrow> Inl FetchFailed
      | Some r \<Rightarrow>
          if \<not> res_ok r
          then let m = error_message statusText (res_content r)
               in if m \<noteq> [] then Inl (Failed m) else Inl (RequestFailed (res_status r))
          else if res_status r = 204 then Inr Undefined
          else (case res_content r of Reply b \<Rightarrow> Inr (Json b) | _ \<Rightarrow> Inl BadJson))"

definition json_headers :: "(string \<times> jsstring) list \<Rightarrow> (string \<times> jsstring) list" where
  "json_headers extra = (''content-type'', js ''application/json'') # extra"

definition api_listFlags :: request where
  "api_listFlags = \<lparr>req_method = GET, req_path = ascii ''/api/admin/flags'',
     req_headers = json_headers [], req_body = Empty\<rparr>"

definition api_getFlag :: "utext \<Rightarrow> request" where
  "api_getFlag i = \<lparr>req_method = GET, req_path = ascii ''/api/admin/flags/'' @ i,
     req_headers = json_headers [], req_body = Empty\<rparr>"

definition api_getFlagHistory :: "utext \<Rightarrow> request" where
  "api_getFlagHistory i = \<lparr>req_method = GET, req_path = ascii ''/api/admin/flags/'' @ i @ ascii ''/events'',
     req_headers = json_headers [], req_body = Empty\<rparr>"

definition api_createFlag :: "utext CreateFlagInput \<Rightarrow> request" where
  "api_createFlag input = \<lparr>req_method = POST, req_path = ascii ''/api/admin/flags'',
     req_headers = json_headers [], req_body = CreateJson input\<rparr>"

definition api_updateFlag :: "utext \<Rightarrow> utext UpdateFlagInput \<Rightarrow> int option \<Rightarrow> request" where
  "api_updateFlag i input expectedVersion =
     \<lparr>req_method = PUT, req_path = ascii ''/api/admin/flags/'' @ i,
      req_headers = json_headers (case expectedVersion of
          Some v \<Rightarrow> [(''if-match'', js [CHR 34] @ js_num v @ js [CHR 34])]
        | None \<Rightarrow> []),
      req_body = UpdateJson input\<rparr>"

definition api_deleteFlag :: "utext \<Rightarrow> request" where
  "api_deleteFlag i = \<lparr>req_method = DELETE, req_path = ascii ''/api/admin/flags/'' @ i,
     req_headers = json_headers [], req_body = Empty\<rparr>"

definition api_toggleFlag :: "utext \<Rightarrow> request" where
  "api_toggleFlag i = \<lparr>req_method = PATCH, req_path = ascii ''/api/admin/flags/'' @ i @ ascii ''/toggle'',
     req_headers = json_headers [], req_body = Empty\<rparr>"

text \<open>A whole call, with a page that reaches its own server.\<close>

definition admin_call ::
  "jsstring \<Rightarrow> jsstring \<Rightarrow> bool \<Rightarrow> int \<Rightarrow> utext \<Rightarrow> string \<Rightarrow> request \<Rightarrow> server \<Rightarrow> (api_error + api_result) \<times> server" where
  "admin_call adminKey apiKey reachable now uuid statusText req s =
     (let (r, s') = next_app adminKey (backend apiKey reachable now uuid) req s
      in (api_request statusText (Some r), s'))"

section \<open>Paths\<close>

lemma flags_prefix: "ascii ''/api/admin/flags/'' @ t =
    [] @ 47 # ascii ''api'' @ 47 # ascii ''admin'' @ 47 # ascii ''flags'' @ 47 # t"
  by (simp add: ascii_def)

lemma ascii_no_slash: "CHR ''/'' \<notin> set s \<Longrightarrow> 47 \<notin> set (ascii s)"
proof
  assume "CHR ''/'' \<notin> set s" "47 \<in> set (ascii s)"
  moreover have "(of_char (CHR ''/'') :: nat) = 47" by simp
  ultimately obtain c where "c \<in> set s" "of_char c = (of_char (CHR ''/'') :: nat)"
    unfolding ascii_def by (metis (mono_tags) imageE list.set_map)
  then show False using \<open>CHR ''/'' \<notin> set s\<close> of_char_eq_iff by metis
qed

lemma segments_flags: "segments (ascii ''/api/admin/flags/'' @ t) =
    [] # ascii ''api'' # ascii ''admin'' # ascii ''flags'' # segments t"
  unfolding flags_prefix by (simp only: split_on_append ascii_no_slash append_Nil list.simps set_simps) (simp add: split_on_append ascii_no_slash)

lemma admin_path_all [simp]: "admin_path (ascii ''/api/admin/flags'') = AllFlags"
  by (simp add: admin_path_def ascii_def)

definition plain_id :: "utext \<Rightarrow> bool" where
  "plain_id i \<longleftrightarrow> i \<noteq> [] \<and> list_all unreserved i"

lemma plain_id_no_slash: "plain_id i \<Longrightarrow> 47 \<notin> set i"
  by (auto simp: plain_id_def list_all_iff unreserved_def ascii_def)

lemma encode_plain [simp]: "plain_id i \<Longrightarrow> encodeURIComponent i = i"
proof -
  have "list_all unreserved t \<Longrightarrow> encodeURIComponent t = t" for t
    by (induction t) (simp_all add: encodeURIComponent_def)
  then show "plain_id i \<Longrightarrow> encodeURIComponent i = i" by (simp add: plain_id_def)
qed

lemma admin_path_plain [simp]:
  assumes "plain_id i"
  shows "admin_path (ascii ''/api/admin/flags/'' @ i) = OneFlag i"
    and "admin_path (ascii ''/api/admin/flags/'' @ i @ ascii ''/events'') = FlagEvents i"
    and "admin_path (ascii ''/api/admin/flags/'' @ i @ ascii ''/toggle'') = FlagToggle i"
proof -
  have i: "i \<noteq> []" "47 \<notin> set i" using assms plain_id_no_slash by (auto simp: plain_id_def)
  have tails: "ascii ''/events'' = 47 # ascii ''events''" "ascii ''/toggle'' = 47 # ascii ''toggle''"
    by (simp_all add: ascii_def)
  have segs: "segments i = [i]" "segments (i @ ascii ''/events'') = [i, ascii ''events'']"
    "segments (i @ ascii ''/toggle'') = [i, ascii ''toggle'']"
    unfolding tails using i by (simp_all add: split_on_notin split_on_append ascii_no_slash)
  show "admin_path (ascii ''/api/admin/flags/'' @ i) = OneFlag i"
    and "admin_path (ascii ''/api/admin/flags/'' @ i @ ascii ''/events'') = FlagEvents i"
    and "admin_path (ascii ''/api/admin/flags/'' @ i @ ascii ''/toggle'') = FlagToggle i"
    unfolding admin_path_def segments_flags segs using i by simp_all
qed

section \<open>What the page gets back\<close>

lemma js_quote: "js [CHR 34] = [34]"
  by (simp add: js_def)

lemma proxied_header [simp]:
  "map_of (req_headers (api_updateFlag i input e)) ''if-match'' =
     map_option (\<lambda>v. 34 # js_num v @ [34]) e"
  by (simp add: api_updateFlag_def json_headers_def js_quote split: option.split)

text \<open>An update reaches the handler with its body and its expected version.\<close>

lemma update_reaches_handler:
  assumes "plain_id i"
  shows "admin_call k k True now uuid st (api_updateFlag i input e) s =
     (let (r, s') = h_UpdateFlag now i (Some input) (map_option (\<lambda>v. 34 # js_num v @ [34]) e) s
      in (api_request st (Some (if code r = 204 then \<lparr>res_status = 204, res_type = None, res_content = Empty\<rparr>
            else \<lparr>res_status = code r, res_type = Some ''application/json'', res_content = Reply (rbody r)\<rparr>)), s'))"
proof -
  have path: "admin_path (req_path (api_updateFlag i input e)) = OneFlag i" "req_method (api_updateFlag i input e) = PUT"
    "req_body (api_updateFlag i input e) = UpdateJson input"
    using assms by (simp_all add: api_updateFlag_def)
  show ?thesis
    using assms
    by (simp add: admin_call_def next_app_def path flag_route_def proxyAdmin_def sends_body_def backend_def
        AdminAuth_def admin_routes_def json_reply_def case_prod_beta Let_def split: option.split)
qed

section \<open>Properties of the admin path\<close>

definition has_fields :: "utext UpdateFlagInput \<Rightarrow> bool" where
  "has_fields u \<longleftrightarrow> u_description u \<noteq> None \<or> u_enabled u \<noteq> None \<or>
     u_rollout_percentage u \<noteq> None \<or> u_targeted_users u \<noteq> None"

definition percent_ok :: "utext UpdateFlagInput \<Rightarrow> bool" where
  "percent_ok u \<longleftrightarrow> (case u_rollout_percentage u of Some p \<Rightarrow> 0 \<le> p \<and> p \<le> 100 | None \<Rightarrow> True)"

lemma with_expected_sel [simp]:
  "no_fields (with_expected u e) \<longleftrightarrow> \<not> has_fields u" "ExpectedVersion (with_expected u e) = e"
  "u_rollout_percentage (with_expected u e) = u_rollout_percentage u"
  by (auto simp: no_fields_def with_expected_def has_fields_def)


definition turn_off :: "utext UpdateFlagInput" where
  "turn_off = \<lparr>u_description = None, u_enabled = Some False, u_rollout_percentage = None, u_targeted_users = None\<rparr>"

lemma plain_id_1: "plain_id (ascii ''1'')"
  by (simp add: plain_id_def ascii_def unreserved_def)


text \<open>A save that carries the flag's current version (or none) goes through: the page gets
  the flag with exactly the given fields replaced, stamped with the next version.\<close>

theorem current_save_is_applied:
  assumes "plain_id i" "up (sdb s)" "row_by_id (sdb s) i = Some f" "has_fields input" "percent_ok input"
    and "e = None \<or> e = Some (version f) \<and> 0 \<le> version f \<and> version f < 2 ^ 63"
    and "constraint_error (set_fields (with_expected input e) f) = None"
  shows "fst (admin_call k k True now uuid st (api_updateFlag i input e) s) =
     Inr (Json (BFlag ((set_fields (with_expected input e) f)\<lparr>version := seq (sdb s) + 1, updated_at := now\<rparr>)))"
proof -
  have e: "expected_version (map_option (\<lambda>v. 34 # js_num v @ [34]) e) = e"
    using assms(6) by (auto simp: expected_version_quoted expected_version_def [of None])
  have "fst (UpdateFlag now i (with_expected input e) s) =
      Inr (Some ((set_fields (with_expected input e) f)\<lparr>version := seq (sdb s) + 1, updated_at := now\<rparr>))"
    using assms by (intro UpdateFlag_current) (auto simp: percent_ok_def)
  then show ?thesis
    unfolding update_reaches_handler [OF assms(1)]
    by (simp add: h_UpdateFlag_def e api_request_def res_ok_def case_prod_beta Let_def)
qed

theorem current_save_is_applied_witness:
  "\<exists>f. fst (admin_call [] [] True 8 [] [] (api_updateFlag (ascii ''1'') turn_off (Some 2)) demo_server) =
     Inr (Json (BFlag f)) \<and> \<not> enabled f \<and> key f = ascii ''checkout''"
proof -
  have "constraint_error (set_fields (with_expected turn_off (Some 2)) flag_on) = None"
    by (simp add: constraint_error_def set_fields_def with_expected_def turn_off_def flag_on_def ascii_def)
  moreover have "version flag_on = 2" by (simp add: flag_on_def)
  ultimately show ?thesis
    using current_save_is_applied [OF plain_id_1 _ demo_server_row, of turn_off "Some 2" "[]" 8 "[]" "[]"] demo_server_db
    by (simp add: turn_off_def has_fields_def percent_ok_def set_fields_def with_expected_def flag_on_def)
qed

lemma snd_if_option:
  "snd (case r of None \<Rightarrow> (a, s) | Some x \<Rightarrow> if P x then (b, s) else (c x, s)) = s"
  by (simp split: option.split)

lemma proxyAdmin_state:
  assumes "\<And>q. map_of (req_headers q) ''x-admin-api-key'' = Some a \<Longrightarrow> snd (f q s) = s"
  shows "snd (proxyAdmin a f req p s) = s"
proof -
  have "snd (f \<lparr>req_method = m, req_path = p, req_headers = (''x-admin-api-key'', a) # hs, req_body = b\<rparr> s) = s" for m hs b
    by (rule assms) simp
  then show ?thesis
    by (simp add: proxyAdmin_def Let_def case_prod_beta snd_if_option split: option.split)
qed

lemma backend_state:
  assumes "a \<noteq> b \<or> \<not> r" "map_of (req_headers q) ''x-admin-api-key'' = Some a"
  shows "snd (backend b r now uuid q s) = s"
  using assms by (auto simp: backend_def AdminAuth_def)

lemma admin_call_state:
  assumes "a \<noteq> b \<or> \<not> r"
  shows "snd (admin_call a b r now uuid st req s) = s"
proof -
  have p: "snd (proxyAdmin a (backend b r now uuid) req p s) = s" for p
    by (rule proxyAdmin_state) (rule backend_state [OF assms])
  have "snd (next_app a (backend b r now uuid) req s) = s"
    using p by (simp add: next_app_def flags_route_def flag_route_def events_route_def toggle_route_def
        split: admin_path.split)
  then show ?thesis by (simp add: admin_call_def case_prod_beta)
qed



end
