(* ===== verification/Hooks.thy ===== *)
theory Hooks
  imports Convergence AdminApi Json
begin

text \<open>
  The data hooks of the page (\<^verbatim>\<open>hooks/*.ts\<close>, \<^verbatim>\<open>lib/sse.ts\<close>): what they fetch, how they
  read what comes back, how the results of several nodes are combined, when a query runs
  and what a mutation invalidates. Fetched JSON is an explicit datatype, so that the
  \<^verbatim>\<open>typeof\<close> checks and the missing fields of the source are branches here. The query
  library itself is not modelled; a hook is the query or mutation it hands to it.
\<close>

section \<open>Lists of node URLs\<close>

definition NODE_URLS :: "jsstring \<Rightarrow> jsstring \<Rightarrow> jsstring list" where
  "NODE_URLS env API_URL =
     filter (\<lambda>u. u \<noteq> []) (map trim (split_on 44 (if env \<noteq> [] then env else API_URL)))"

section \<open>useCluster\<close>

record NodeState =
  n_url :: jsstring
  n_nodeId :: json
  n_configVersion :: "int option"
  n_sseClients :: "int option"
  n_ok :: bool

record ClusterState =
  nodes :: "NodeState list"
  latestVersion :: int
  converged :: bool
  reachableCount :: nat

definition fetchNode :: "jsstring \<Rightarrow> json response \<Rightarrow> NodeState" where
  "fetchNode url res =
     (let failed = \<lparr>n_url = url, n_nodeId = JStr url, n_configVersion = None, n_sseClients = None, n_ok = False\<rparr>
      in case res of
           Throws \<Rightarrow> failed
         | NotOk _ \<Rightarrow> failed
         | Ok data \<Rightarrow>
             if data = JNull then failed
             else \<lparr>n_url = url, n_nodeId = nullish (field ''node_id'' data) (JStr url),
                   n_configVersion = as_number (field ''config_version'' data),
                   n_sseClients = as_number (field ''sse_clients'' data), n_ok = True\<rparr>)"

definition cluster_of :: "NodeState list \<Rightarrow> ClusterState" where
  "cluster_of ns =
     (let versions = List.map_filter (\<lambda>n. if n_ok n then n_configVersion n else None) ns
      in \<lparr>nodes = ns,
          latestVersion = (if versions \<noteq> [] then Max (set versions) else 0),
          converged = (versions \<noteq> [] \<and> list_all (\<lambda>v. v = hd versions) versions),
          reachableCount = length (filter n_ok ns)\<rparr>)"

definition useCluster :: "jsstring list \<Rightarrow> (jsstring \<Rightarrow> json response) \<Rightarrow> ClusterState" where
  "useCluster urls fetch = cluster_of (map (\<lambda>u. fetchNode u (fetch u)) urls)"

section \<open>useEvents\<close>

definition events_since :: "int \<Rightarrow> int \<Rightarrow> int" where
  "events_since latest window = max 0 (latest - window)"

definition events_enabled :: "int \<Rightarrow> bool" where
  "events_enabled latest \<longleftrightarrow> latest > 0"

text \<open>
  The result of the query: \<open>None\<close> when it throws. A body whose \<^verbatim>\<open>events\<close> is not an array
  counts as no events, one without a numeric version keeps \<open>latest\<close>.
\<close>

definition useEvents :: "int \<Rightarrow> ('e list option \<times> int option) response \<Rightarrow> ('e list \<times> int) option" where
  "useEvents latest res =
     (case res of
        Throws \<Rightarrow> None
      | NotOk _ \<Rightarrow> None
      | Ok (evs, ver) \<Rightarrow>
          Some (case evs of Some es \<Rightarrow> es | None \<Rightarrow> [], case ver of Some v \<Rightarrow> v | None \<Rightarrow> latest))"

section \<open>useHealth\<close>

record NodeReadiness =
  r_url :: jsstring
  r_nodeId :: json
  r_ready :: bool
  r_reachable :: bool
  r_postgres :: "jsstring option"
  r_redis :: "jsstring option"
  r_configVersion :: "int option"

text \<open>The fetch may reject (outer \<open>None\<close>); a body that is not JSON counts as \<^verbatim>\<open>{}\<close> (inner \<open>None\<close>).\<close>

definition fetchReadyz :: "jsstring \<Rightarrow> json option option \<Rightarrow> NodeReadiness" where
  "fetchReadyz url res =
     (let down = \<lparr>r_url = url, r_nodeId = JStr url, r_ready = False, r_reachable = False,
                  r_postgres = None, r_redis = None, r_configVersion = None\<rparr>
      in case res of
           None \<Rightarrow> down
         | Some parsed \<Rightarrow>
             let data = (case parsed of Some j \<Rightarrow> j | None \<Rightarrow> JObj [])
             in if data = JNull then down
                else \<lparr>r_url = url, r_nodeId = nullish (field ''node_id'' data) (JStr url),
                      r_ready = (field ''ready'' data = Some (JBool True)), r_reachable = True,
                      r_postgres = as_string (field ''postgres'' data),
                      r_redis = as_string (field ''redis'' data),
                      r_configVersion = as_number (field ''config_version'' data)\<rparr>)"

definition useReadiness :: "jsstring list \<Rightarrow> (jsstring \<Rightarrow> json option option) \<Rightarrow> NodeReadiness list" where
  "useReadiness urls fetch = map (\<lambda>u. fetchReadyz u (fetch u)) urls"

text \<open>
  One Prometheus scalar. \<open>number\<close> stands for \<^verbatim>\<open>Number(raw)\<close> followed by the finiteness test.
  The result is \<open>None\<close> when the query throws.
\<close>

definition first_value :: "json \<Rightarrow> json option" where
  "first_value result =
     (case field ''value'' result of Some (JArr (_ # v # _)) \<Rightarrow> Some v | _ \<Rightarrow> None)"

definition promScalar :: "(json option \<Rightarrow> 'n option) \<Rightarrow> json response \<Rightarrow> 'n option option" where
  "promScalar number res =
     (case res of
        Throws \<Rightarrow> None
      | NotOk _ \<Rightarrow> None
      | Ok j \<Rightarrow>
          Some (case Option.bind (field ''data'' j) (field ''result'') of
                  Some (JArr (r # rs)) \<Rightarrow> number (first_value r)
                | _ \<Rightarrow> None))"

record 'n FleetMetrics =
  sseClients :: "'n option"
  propagationP50 :: "'n option"
  propagationP95 :: "'n option"
  propagationP99 :: "'n option"
  unavailable :: bool

definition useFleetMetrics :: "'n option option \<Rightarrow> 'n option option \<Rightarrow> 'n option option \<Rightarrow> 'n option option \<Rightarrow> 'n FleetMetrics" where
  "useFleetMetrics sse p50 p95 p99 =
     (case (sse, p50, p95, p99) of
        (Some a, Some b, Some c, Some d) \<Rightarrow>
          \<lparr>sseClients = a, propagationP50 = b, propagationP95 = c, propagationP99 = d, unavailable = False\<rparr>
      | _ \<Rightarrow>
          \<lparr>sseClients = None, propagationP50 = None, propagationP95 = None, propagationP99 = None,
           unavailable = True\<rparr>)"

definition useRedisPublishErrors :: "'n::zero option option \<Rightarrow> 'n option \<times> bool" where
  "useRedisPublishErrors r =
     (case r of
        Some t \<Rightarrow> (Some (case t of Some n \<Rightarrow> n | None \<Rightarrow> 0), False)
      | None \<Rightarrow> (None, True))"

section \<open>Queries and mutations on flags\<close>

record flag_query =
  q_key :: "jsstring list"
  q_request :: request
  q_enabled :: bool
  q_interval :: "nat option"
  q_onFocus :: bool

definition useFlags :: flag_query where
  "useFlags = \<lparr>q_key = [js ''flags''], q_request = api_listFlags, q_enabled = True,
     q_interval = Some 2500, q_onFocus = True\<rparr>"

definition useFlag :: "utext \<Rightarrow> bool \<Rightarrow> flag_query" where
  "useFlag i on = \<lparr>q_key = [js ''flags'', utf16 i], q_request = api_getFlag i,
     q_enabled = (i \<noteq> [] \<and> on), q_interval = None, q_onFocus = False\<rparr>"

definition useFlagHistory :: "utext \<Rightarrow> bool \<Rightarrow> flag_query" where
  "useFlagHistory i on = \<lparr>q_key = [js ''flags'', utf16 i, js ''events''], q_request = api_getFlagHistory i,
     q_enabled = (i \<noteq> [] \<and> on), q_interval = None, q_onFocus = True\<rparr>"

text \<open>A mutation: its request, and the key (with \<^verbatim>\<open>exact\<close>) it invalidates when it succeeds.\<close>

record flag_mutation =
  m_request :: request
  m_invalidates :: "jsstring list"
  m_exact :: bool

definition useCreateFlag :: "utext CreateFlagInput \<Rightarrow> flag_mutation" where
  "useCreateFlag input = \<lparr>m_request = api_createFlag input, m_invalidates = [js ''flags''], m_exact = False\<rparr>"

definition useUpdateFlag :: "utext \<Rightarrow> utext UpdateFlagInput \<Rightarrow> int option \<Rightarrow> flag_mutation" where
  "useUpdateFlag i input e = \<lparr>m_request = api_updateFlag i input e, m_invalidates = [js ''flags''], m_exact = False\<rparr>"

definition useDeleteFlag :: "utext \<Rightarrow> flag_mutation" where
  "useDeleteFlag i = \<lparr>m_request = api_deleteFlag i, m_invalidates = [js ''flags''], m_exact = True\<rparr>"

definition useToggleFlag :: "utext \<Rightarrow> flag_mutation" where
  "useToggleFlag i = \<lparr>m_request = api_toggleFlag i, m_invalidates = [js ''flags''], m_exact = False\<rparr>"

section \<open>The invalidation stream\<close>

datatype 's sse_frame = FrameUpdated "'s FlagConfig" | FrameDeleted 's | FrameError

datatype 's sse_handler = OnFlagUpdated "'s FlagConfig" | OnFlagDeleted 's | OnError

fun createSSEConnection :: "'s sse_frame \<Rightarrow> 's sse_handler" where
  "createSSEConnection (FrameUpdated f) = OnFlagUpdated f"
| "createSSEConnection (FrameDeleted k) = OnFlagDeleted k"
| "createSSEConnection FrameError = OnError"

definition stream_url :: "jsstring \<Rightarrow> jsstring \<Rightarrow> jsstring" where
  "stream_url url sdkKey = url @ js ''/api/client/stream?key='' @ sdkKey"

text \<open>What \<^verbatim>\<open>useSSE\<close> invalidates for a frame.\<close>

fun useSSE :: "'s sse_frame \<Rightarrow> (jsstring list \<times> bool) list" where
  "useSSE fr =
     (case createSSEConnection fr of
        OnFlagUpdated _ \<Rightarrow> [([js ''flags''], False)]
      | OnFlagDeleted _ \<Rightarrow> [([js ''flags''], False)]
      | OnError \<Rightarrow> [])"

definition useReducedMotion :: "bool \<Rightarrow> bool \<Rightarrow> bool" where
  "useReducedMotion on_server media_matches = (if on_server then False else media_matches)"

section \<open>The panel over nodes that share a database\<close>

lemma reported_versions:
  "v \<in> set (List.map_filter (\<lambda>n. if n_ok n then n_configVersion n else None) ns) \<longleftrightarrow>
     (\<exists>n \<in> set ns. n_ok n \<and> n_configVersion n = Some v)"
  by (force simp: List.map_filter_def split: if_splits)

lemma converged_iff:
  "converged (cluster_of ns) \<longleftrightarrow>
     (\<exists>v. (\<exists>n \<in> set ns. n_ok n \<and> n_configVersion n = Some v) \<and>
          (\<forall>n \<in> set ns. n_ok n \<longrightarrow> n_configVersion n = None \<or> n_configVersion n = Some v))"
proof -
  define vs where "vs = List.map_filter (\<lambda>n. if n_ok n then n_configVersion n else None) ns"
  have mem: "v \<in> set vs \<longleftrightarrow> (\<exists>n \<in> set ns. n_ok n \<and> n_configVersion n = Some v)" for v
    unfolding vs_def by (rule reported_versions)
  have "converged (cluster_of ns) \<longleftrightarrow> vs \<noteq> [] \<and> (\<forall>v \<in> set vs. v = hd vs)"
    by (simp add: cluster_of_def Let_def vs_def list_all_iff)
  also have "\<dots> \<longleftrightarrow> (\<exists>v. v \<in> set vs \<and> (\<forall>w \<in> set vs. w = v))"
    by (metis hd_in_set empty_iff list.set(1))
  finally have *: "converged (cluster_of ns) \<longleftrightarrow> (\<exists>v. v \<in> set vs \<and> (\<forall>w \<in> set vs. w = v))" .
  have "(\<forall>w \<in> set vs. w = v) \<longleftrightarrow>
      (\<forall>n \<in> set ns. n_ok n \<longrightarrow> n_configVersion n = None \<or> n_configVersion n = Some v)" for v
  proof
    assume all: "\<forall>w \<in> set vs. w = v"
    show "\<forall>n \<in> set ns. n_ok n \<longrightarrow> n_configVersion n = None \<or> n_configVersion n = Some v"
    proof (intro ballI impI)
      fix n assume "n \<in> set ns" "n_ok n"
      then show "n_configVersion n = None \<or> n_configVersion n = Some v"
        using all mem by (cases "n_configVersion n") auto
    qed
  qed (fastforce simp: mem)
  with * show ?thesis by (simp add: mem)
qed

lemma latestVersion_greatest:
  "n \<in> set ns \<Longrightarrow> n_ok n \<Longrightarrow> n_configVersion n = Some v \<Longrightarrow> v \<le> latestVersion (cluster_of ns)"
  using reported_versions [of v ns] by (auto simp: cluster_of_def Let_def)

lemma latestVersion_converged:
  assumes "n \<in> set ns" "n_ok n" "n_configVersion n = Some v"
    and "\<forall>m \<in> set ns. n_ok m \<longrightarrow> n_configVersion m = None \<or> n_configVersion m = Some v"
  shows "latestVersion (cluster_of ns) = v"
proof -
  let ?vs = "List.map_filter (\<lambda>n. if n_ok n then n_configVersion n else None) ns"
  have "set ?vs = {v}" using reported_versions [of _ ns] assms by fastforce
  then show ?thesis by (auto simp: cluster_of_def Let_def)
qed

text \<open>The JSON of the version endpoint, as the page receives it.\<close>

definition version_response :: "reply \<Rightarrow> json response" where
  "version_response r =
     (case rbody r of
        BVersion nid v n \<Rightarrow>
          Ok (JObj [(''node_id'', JStr (utf16 nid)), (''config_version'', JNum v), (''sse_clients'', JNum (int n))])
      | _ \<Rightarrow> NotOk (code r))"

lemma fetchNode_version:
  assumes "db_wf (sdb s)" "up (sdb s)"
  shows "fetchNode u (version_response (h_Version s)) =
     \<lparr>n_url = u, n_nodeId = JStr (utf16 (node_id s)), n_configVersion = Some (latest_version (sdb s)),
      n_sseClients = Some (int (sse_clients s)), n_ok = True\<rparr>"
  using assms by (simp add: fetchNode_def version_response_def h_Version_def GetLatestVersion_latest Let_def)

text \<open>Every node answers the version request from the shared database, so whenever the nodes
  that answer see the same database state the panel reports converged at its latest
  version: it cannot show a node that is behind, although the page and the README present it
  as each node's own view.\<close>

theorem cluster_shared_db:
  assumes "db_wf d" "up d"
    and "\<forall>u \<in> set urls. fetch u = Throws \<or> (\<exists>s. sdb s = d \<and> fetch u = version_response (h_Version s))"
    and "u0 \<in> set urls" "fetch u0 \<noteq> Throws"
  shows "converged (useCluster urls fetch) \<and> latestVersion (useCluster urls fetch) = latest_version d"
proof -
  define ns where "ns = map (\<lambda>u. fetchNode u (fetch u)) urls"
  have up: "n_ok (fetchNode u (fetch u)) \<and> n_configVersion (fetchNode u (fetch u)) = Some (latest_version d)"
    if u: "u \<in> set urls" "fetch u \<noteq> Throws" for u
  proof -
    obtain s where "sdb s = d" "fetch u = version_response (h_Version s)" using u assms(3) by blast
    then show ?thesis using fetchNode_version [of s u] assms(1,2) by simp
  qed
  have "n_ok n \<longrightarrow> n_configVersion n = None \<or> n_configVersion n = Some (latest_version d)" if n: "n \<in> set ns" for n
  proof -
    obtain u where u: "u \<in> set urls" "n = fetchNode u (fetch u)" using n by (auto simp: ns_def)
    then show ?thesis using up [OF u(1)] by (cases "fetch u") (simp_all add: fetchNode_def Let_def)
  qed
  then have all: "\<forall>n \<in> set ns. n_ok n \<longrightarrow> n_configVersion n = None \<or> n_configVersion n = Some (latest_version d)" by blast
  have u0: "fetchNode u0 (fetch u0) \<in> set ns" using assms(4) by (simp add: ns_def)
  note n0 = up [OF assms(4,5)]
  have "converged (cluster_of ns)" unfolding converged_iff using u0 n0 all by blast
  moreover have "latestVersion (cluster_of ns) = latest_version d"
    using latestVersion_converged [OF u0 _ _ all] n0 by simp
  ultimately show ?thesis by (simp add: useCluster_def ns_def)
qed

theorem cluster_shared_db_witness:
  "converged (useCluster [js ''a'', js ''b''] (\<lambda>u. if u = js ''a'' then Throws else version_response (h_Version demo_server)))"
proof -
  have "db_wf (sdb demo_server)" "up (sdb demo_server)"
    using demo_server_inv demo_server_db by (simp_all add: server_inv_def)
  moreover have "version_response (h_Version demo_server) \<noteq> Throws"
    by (simp add: version_response_def split: body.split)
  ultimately show ?thesis
    by (intro cluster_shared_db [THEN conjunct1, of "sdb demo_server" _ _ "js ''b''"]) auto
qed

section \<open>The window of recent events\<close>

lemma ordered_length:
  assumes "ordered es" "\<forall>e \<in> set es. a < ev_version e \<and> ev_version e \<le> b"
  shows "length es \<le> nat (b - a)"
proof -
  have "distinct (map ev_version es)" using assms(1) strict_sorted_iff by blast
  then have "length es = card (ev_version ` set es)" by (metis distinct_card length_map list.set_map)
  also have "\<dots> \<le> card {a<..b}" using assms(2) by (intro card_mono) auto
  finally show ?thesis by simp
qed

text \<open>The timeline's query is complete: for a window of up to 500 versions it returns every
  event of the log inside the window, in order, in one page.\<close>

theorem events_window:
  assumes "db_wf d" "up d" "0 \<le> w" "w \<le> 500"
  shows "served_events (events_since (latest_version d) w) d =
         after_version (events_since (latest_version d) w) (events d)"
proof -
  let ?v = "events_since (latest_version d) w"
  have o: "ordered (events d)" using assms(1) by (simp add: db_wf_def versions_ok_def)
  have "\<forall>e \<in> set (after_version ?v (events d)). ?v < ev_version e \<and> ev_version e \<le> latest_version d"
    using ordered_last_greatest [OF o] by (auto simp: after_version_def latest_version_def)
  then have "length (after_version ?v (events d)) \<le> nat (latest_version d - ?v)"
    using ordered_length [OF ordered_after [OF o]] by blast
  also have "\<dots> \<le> 500" using assms(3,4) by (simp add: events_since_def)
  finally show ?thesis using repo.fetch_page [of d ?v] assms(1,2) by simp
qed

theorem events_window_witness:
  "served_events (events_since (latest_version (sdb demo_server)) 40) (sdb demo_server) =
   after_version (events_since (latest_version (sdb demo_server)) 40) (events (sdb demo_server))"
  using demo_server_inv demo_server_db by (intro events_window) (simp_all add: server_inv_def)

end
