(* ===== verification/StreamHandler.thy ===== *)
theory StreamHandler
  imports Operations
begin

text \<open>
  The handler of one event stream and its clock (\<^verbatim>\<open>ServeHTTP\<close> in \<^verbatim>\<open>internal/sse/broker.go\<close>): the headers and
  the greeting, the heartbeat ticker, the idle timer that every delivery starts anew, and the \<^verbatim>\<open>select\<close> over
  the four channels. Theory Broker has the channel it reads. Time is in nanoseconds; \<open>lag\<close> bounds how long
  after a channel is ready the handler may be scheduled, and a write may take any time.
\<close>

definition heartbeatInterval :: int where
  "heartbeatInterval = seconds 15"

definition defaultIdleTimeout :: int where
  "defaultIdleTimeout = seconds 60"

text \<open>The broker's \<^verbatim>\<open>idleTimeout\<close> after \<^verbatim>\<open>SetIdleTimeout(d)\<close>.\<close>

definition SetIdleTimeout :: "int \<Rightarrow> int \<Rightarrow> int" where
  "SetIdleTimeout d idleTimeout = (if d > 0 then d else idleTimeout)"

definition stream_headers :: "(string \<times> jsstring) list" where
  "stream_headers =
     [(''content-type'', js ''text/event-stream''), (''cache-control'', js ''no-cache''),
      (''connection'', js ''keep-alive''), (''access-control-allow-origin'', js ''*'')]"

text \<open>
  A connection: what it has written after the greeting, the time, the time of the next tick the handler has not
  read (a ticker keeps one and drops the others), when the idle timer fires, and since when the handler waits.
\<close>

record conn =
  cn_wire :: "wire_item list"
  cn_now :: int
  cn_tick :: int
  cn_idle :: int
  cn_since :: int
  cn_open :: bool

text \<open>The first flush fails when the writer cannot stream; a broker that is down takes no client.\<close>

datatype stream_start = StreamingUnsupported | Refused | Streams conn

definition ServeHTTP :: "bool \<Rightarrow> bool \<Rightarrow> int \<Rightarrow> int \<Rightarrow> stream_start" where
  "ServeHTTP flushes down idleTimeout t =
     (if \<not> flushes then StreamingUnsupported
      else if down then Refused
      else Streams \<lparr>cn_wire = [], cn_now = t, cn_tick = t + heartbeatInterval, cn_idle = t + idleTimeout,
                    cn_since = t, cn_open = True\<rparr>)"

definition tick_ready :: "conn \<Rightarrow> bool" where
  "tick_ready c \<longleftrightarrow> cn_tick c \<le> cn_now c"

definition idle_ready :: "conn \<Rightarrow> bool" where
  "idle_ready c \<longleftrightarrow> cn_idle c \<le> cn_now c"

text \<open>Reading the ticker: the next tick is the first one after now.\<close>

definition read_tick :: "conn \<Rightarrow> conn" where
  "read_tick c = c\<lparr>cn_tick := cn_tick c + heartbeatInterval * ((cn_now c - cn_tick c) div heartbeatInterval + 1)\<rparr>"

text \<open>A delivery: the write and its flush take \<open>d\<close>; when they succeed the idle timer is reset.\<close>

definition deliver :: "int \<Rightarrow> wire_item \<Rightarrow> int \<Rightarrow> bool \<Rightarrow> conn \<Rightarrow> conn" where
  "deliver idleTimeout x d flushed c =
     (let c = c\<lparr>cn_wire := cn_wire c @ [x], cn_now := cn_now c + d\<rparr>
      in if flushed then c\<lparr>cn_idle := cn_now c + idleTimeout, cn_since := cn_now c\<rparr> else c\<lparr>cn_open := False\<rparr>)"

datatype conn_input =
    Elapse int
  | ContextDone
  | IdleFires
  | Beat int bool
  | Receive sse_event int bool
  | ChannelClosed

definition conn_can :: "int \<Rightarrow> conn_input \<Rightarrow> conn \<Rightarrow> bool" where
  "conn_can lag i c \<longleftrightarrow> cn_open c \<and>
     (case i of
        Elapse t \<Rightarrow> 0 \<le> t \<and> cn_now c + t \<le> max (cn_since c) (min (cn_tick c) (cn_idle c)) + lag
      | IdleFires \<Rightarrow> idle_ready c
      | Beat d f \<Rightarrow> tick_ready c \<and> 0 \<le> d
      | Receive e d f \<Rightarrow> 0 \<le> d
      | _ \<Rightarrow> True)"

fun conn_do :: "int \<Rightarrow> conn_input \<Rightarrow> conn \<Rightarrow> conn" where
  "conn_do idleTimeout (Elapse t) c = c\<lparr>cn_now := cn_now c + t\<rparr>"
| "conn_do idleTimeout ContextDone c = c\<lparr>cn_open := False\<rparr>"
| "conn_do idleTimeout IdleFires c = c\<lparr>cn_open := False\<rparr>"
| "conn_do idleTimeout (Beat d f) c = deliver idleTimeout Heartbeat d f (read_tick c)"
| "conn_do idleTimeout (Receive e d f) c = deliver idleTimeout (Event e) d f c"
| "conn_do idleTimeout ChannelClosed c = c\<lparr>cn_open := False\<rparr>"

inductive conn_reach :: "int \<Rightarrow> int \<Rightarrow> conn \<Rightarrow> bool" for lag idleTimeout where
  conn_init: "ServeHTTP True False idleTimeout t = Streams c \<Longrightarrow> conn_reach lag idleTimeout c"
| conn_step: "conn_reach lag idleTimeout c \<Longrightarrow> conn_can lag i c \<Longrightarrow> conn_reach lag idleTimeout (conn_do idleTimeout i c)"

section \<open>The idle timer\<close>

definition conn_inv :: "int \<Rightarrow> int \<Rightarrow> conn \<Rightarrow> bool" where
  "conn_inv lag idleTimeout c \<longleftrightarrow> cn_open c \<longrightarrow>
     cn_idle c = cn_since c + idleTimeout \<and> cn_tick c \<le> cn_since c + heartbeatInterval \<and>
     cn_since c \<le> cn_now c \<and> cn_now c \<le> max (cn_since c) (min (cn_tick c) (cn_idle c)) + lag"

lemma interval_pos [simp]: "0 < heartbeatInterval"
  by (simp add: heartbeatInterval_def seconds_def)

lemma read_tick_next:
  assumes "cn_tick c \<le> cn_now c"
  shows "cn_now c < cn_tick (read_tick c) \<and> cn_tick (read_tick c) \<le> cn_now c + heartbeatInterval"
proof -
  let ?k = "cn_now c - cn_tick c"
  have "?k = heartbeatInterval * (?k div heartbeatInterval) + ?k mod heartbeatInterval" by simp
  moreover have "0 \<le> ?k mod heartbeatInterval" "?k mod heartbeatInterval < heartbeatInterval"
    by (simp_all only: interval_pos pos_mod_sign pos_mod_bound)
  moreover have "cn_tick (read_tick c) = cn_tick c + heartbeatInterval * (?k div heartbeatInterval) + heartbeatInterval"
    by (simp add: read_tick_def distrib_left)
  ultimately show ?thesis by linarith
qed

lemma read_tick_sel [simp]:
  "cn_now (read_tick c) = cn_now c" "cn_idle (read_tick c) = cn_idle c" "cn_since (read_tick c) = cn_since c"
  "cn_open (read_tick c) = cn_open c" "cn_wire (read_tick c) = cn_wire c"
  by (simp_all add: read_tick_def)

lemma conn_inv_deliver:
  assumes "0 \<le> lag" "0 \<le> d" "cn_tick c \<le> cn_now c + heartbeatInterval"
  shows "conn_inv lag idleTimeout (deliver idleTimeout x d f c)"
  using assms by (auto simp: conn_inv_def deliver_def Let_def max_def)

lemma conn_inv_reach:
  assumes "conn_reach lag idleTimeout c" "0 \<le> lag"
  shows "conn_inv lag idleTimeout c"
  using assms
proof induction
  case (conn_init t c)
  then show ?case by (auto simp: ServeHTTP_def conn_inv_def max_def min_def)
next
  case (conn_step c i)
  then have inv: "conn_inv lag idleTimeout c" and can: "conn_can lag i c" by simp_all
  show ?case
  proof (cases i)
    case (Beat d f)
    then show ?thesis
      using can conn_step.prems read_tick_next [of c] by (auto simp: conn_can_def tick_ready_def intro!: conn_inv_deliver)
  next
    case (Receive e d f)
    have "0 \<le> d" "cn_tick c \<le> cn_now c + heartbeatInterval" using can inv Receive by (auto simp: conn_can_def conn_inv_def)
    then show ?thesis using Receive conn_step.prems by (simp add: conn_inv_deliver)
  qed (use inv can in \<open>auto simp: conn_inv_def conn_can_def\<close>)
qed

text \<open>C23: With an idle timeout above the heartbeat interval the idle timer never ends a connection, however
  long its writes take: the time a write takes is not counted, and afterwards a heartbeat is due first.\<close>

theorem idle_timer_never_fires:
  assumes "conn_reach lag (SetIdleTimeout d defaultIdleTimeout) c" "0 \<le> lag"
    and "heartbeatInterval + lag < SetIdleTimeout d defaultIdleTimeout"
  shows "\<not> conn_can lag IdleFires c"
  using conn_inv_reach [OF assms(1,2)] assms(2,3) interval_pos by (auto simp: conn_can_def conn_inv_def idle_ready_def max_def min_def simp del: interval_pos split: if_splits)

text \<open>A write that takes an hour, under the default timeout.\<close>

definition stalled :: conn where
  "stalled = conn_do defaultIdleTimeout (Elapse 1)
     (conn_do defaultIdleTimeout (Beat (seconds 3600) True)
       (conn_do defaultIdleTimeout (Elapse heartbeatInterval)
         \<lparr>cn_wire = [], cn_now = 0, cn_tick = heartbeatInterval, cn_idle = defaultIdleTimeout, cn_since = 0, cn_open = True\<rparr>))"

lemma stalled_reach: "conn_reach 1 defaultIdleTimeout stalled"
  unfolding stalled_def
  by (intro conn_reach.intros(2) conn_reach.intros(1) [of _ 0])
    (simp_all add: ServeHTTP_def conn_can_def tick_ready_def deliver_def read_tick_def Let_def heartbeatInterval_def
      defaultIdleTimeout_def seconds_def)

theorem idle_timer_never_fires_witness:
  "cn_now stalled > seconds 3600 \<and> cn_open stalled \<and> \<not> conn_can 1 IdleFires stalled"
proof -
  have "cn_now stalled > seconds 3600 \<and> cn_open stalled"
    by (simp add: stalled_def deliver_def read_tick_def Let_def heartbeatInterval_def defaultIdleTimeout_def seconds_def)
  moreover have "SetIdleTimeout 0 defaultIdleTimeout = defaultIdleTimeout" by (simp add: SetIdleTimeout_def)
  ultimately show ?thesis
    using idle_timer_never_fires [of 1 0 stalled] stalled_reach
    by (simp add: heartbeatInterval_def defaultIdleTimeout_def seconds_def)
qed

text \<open>
  A timeout below the interval, which \<^verbatim>\<open>SSE_IDLE_TIMEOUT\<close> may set, does the opposite: a stream without
  events is ended before its first heartbeat.
\<close>

lemma short_idle_timeout_drops_quiet_stream:
  assumes "0 < d" "d < heartbeatInterval" "ServeHTTP True False (SetIdleTimeout d defaultIdleTimeout) t = Streams c"
  shows "conn_can 0 (Elapse d) c" "conn_can 0 IdleFires (conn_do d (Elapse d) c)"
    "0 < u \<Longrightarrow> \<not> conn_can 0 (Elapse u) (conn_do d (Elapse d) c)" "\<not> conn_can 0 (Beat w f) (conn_do d (Elapse d) c)"
  using assms by (auto simp: ServeHTTP_def SetIdleTimeout_def conn_can_def idle_ready_def tick_ready_def)

end
