(* ===== verification/ClientAccess.thy ===== *)
theory ClientAccess
  imports Operations
begin

text \<open>
  The way of a client request to its handler: the requests the browser SDK, the data hooks and the Go client
  build, the browser's reading of a URL, Go's reading of a query, the SDK key check
  (\<^verbatim>\<open>middleware/auth.go\<close>) and the client routes (\<^verbatim>\<open>cmd/server/main.go\<close>). The texts of a request
  are its bytes, one unit per byte, as in a header field.
\<close>

section \<open>The query of a URL\<close>

text \<open>
  \<^verbatim>\<open>new URL(url)\<close> as far as the query goes: C0 controls and spaces at both ends, tabs and line breaks fall away, a
  fragment is cut off, and some characters are percent-encoded.
\<close>

definition hex_unit :: "nat \<Rightarrow> 16 word" where
  "hex_unit n = of_nat (hex_digit n)"

definition percent_byte :: "nat \<Rightarrow> jsstring" where
  "percent_byte b = [37, hex_unit (b div 16), hex_unit (b mod 16)]"

definition in_query_set :: "nat \<Rightarrow> bool" where
  "in_query_set c \<longleftrightarrow> c \<le> 0x20 \<or> c \<ge> 0x7F \<or> c \<in> set [0x22, 0x23, 0x27, 0x3C, 0x3E]"

definition encode_query :: "jsstring \<Rightarrow> jsstring" where
  "encode_query s =
     concat (map (\<lambda>c. if in_query_set c
                      then concat (map (\<lambda>b. percent_byte (unat b)) (utf8_char (if scalar c then c else 0xFFFD)))
                      else [of_nat c]) (utf16_decode s))"

definition clean_url :: "jsstring \<Rightarrow> jsstring" where
  "clean_url s = filter (\<lambda>c. c \<notin> set [9, 10, 13]) (rev (dropWhile (\<lambda>c. c \<le> 0x20) (rev (dropWhile (\<lambda>c. c \<le> 0x20) s))))"

definition url_query :: "jsstring \<Rightarrow> jsstring" where
  "url_query url = encode_query (drop 1 (dropWhile (\<lambda>c. c \<noteq> 63) (takeWhile (\<lambda>c. c \<noteq> 35) (clean_url url))))"

text \<open>\<^verbatim>\<open>url.QueryUnescape\<close>\<close>

definition hex_value :: "16 word \<Rightarrow> nat option" where
  "hex_value c =
     (if 48 \<le> c \<and> c \<le> 57 then Some (unat c - 48)
      else if 97 \<le> c \<and> c \<le> 102 then Some (unat c - 87)
      else if 65 \<le> c \<and> c \<le> 70 then Some (unat c - 55) else None)"

fun QueryUnescape :: "jsstring \<Rightarrow> jsstring option" where
  "QueryUnescape [] = Some []"
| "QueryUnescape (c # r) =
     (if c = 37
      then (case r of
              a # b # r' \<Rightarrow>
                (case (hex_value a, hex_value b) of
                   (Some x, Some y) \<Rightarrow> map_option ((#) (of_nat (16 * x + y))) (QueryUnescape r')
                 | _ \<Rightarrow> None)
            | _ \<Rightarrow> None)
      else map_option ((#) (if c = 43 then 32 else c)) (QueryUnescape r))"

text \<open>\<^verbatim>\<open>url.ParseQuery\<close>: pairs that do not decode, or hold a semicolon, are dropped.\<close>

definition cut_at :: "16 word \<Rightarrow> jsstring \<Rightarrow> jsstring \<times> jsstring" where
  "cut_at c s = (takeWhile (\<lambda>u. u \<noteq> c) s, drop 1 (dropWhile (\<lambda>u. u \<noteq> c) s))"

definition query_pair :: "jsstring \<Rightarrow> (jsstring \<times> jsstring) option" where
  "query_pair p =
     (if 59 \<in> set p \<or> p = [] then None
      else let (k, v) = cut_at 61 p
           in case (QueryUnescape k, QueryUnescape v) of
                (Some k, Some v) \<Rightarrow> Some (k, v)
              | _ \<Rightarrow> None)"

definition ParseQuery :: "jsstring \<Rightarrow> (jsstring \<times> jsstring) list" where
  "ParseQuery q = List.map_filter query_pair (split_on 38 q)"

text \<open>\<^verbatim>\<open>r.URL.Query().Get(k)\<close>\<close>

definition query_get :: "jsstring \<Rightarrow> jsstring \<Rightarrow> jsstring" where
  "query_get q k = (case map_of (ParseQuery q) k of Some v \<Rightarrow> v | None \<Rightarrow> [])"

section \<open>The key check and the routes\<close>

record client_request = request +
  req_query :: jsstring

definition header_get :: "'a request_scheme \<Rightarrow> string \<Rightarrow> jsstring" where
  "header_get req n = (case map_of (req_headers req) n of Some v \<Rightarrow> v | None \<Rightarrow> [])"

datatype client_answer = Answer http_response | EventStream

definition request_key :: "client_request \<Rightarrow> jsstring" where
  "request_key req =
     (let k = header_get req ''x-sdk-key''
      in if k = [] then query_get (req_query req) (js ''key'') else k)"

definition SDKAuth :: "jsstring \<Rightarrow> (client_request \<Rightarrow> 's \<Rightarrow> client_answer) \<Rightarrow> client_request \<Rightarrow> 's \<Rightarrow> client_answer" where
  "SDKAuth sdkKey nxt req s =
     (if request_key req \<noteq> sdkKey
      then Answer \<lparr>res_status = 401, res_type = Some ''application/json'',
                    res_content = Reply (BError ''unauthorized'' ''Invalid or missing SDK key'')\<rparr>
      else nxt req s)"

text \<open>Two handlers query twice: \<open>s\<close> and \<open>s'\<close> are the states at the first and the second query.\<close>

fun client_routes :: "client_request \<Rightarrow> server \<times> server \<Rightarrow> client_answer" where
  "client_routes req (s, s') =
     (let p = segments (req_path req); at = (\<lambda>n. [[], ascii ''api'', ascii ''client'', ascii n])
      in if p = at ''flags''
         then Answer (if req_method req = GET then json_reply (h_GetAllFlags s s') else method_not_allowed)
         else if p = at ''stream'' then (if req_method req = GET then EventStream else Answer method_not_allowed)
         else if p = at ''events''
         then Answer (if req_method req = GET
                      then json_reply (h_Reconcile (query_get (req_query req) (js ''since'')) s s') else method_not_allowed)
         else if p = at ''version''
         then Answer (if req_method req = GET then json_reply (h_Version s) else method_not_allowed)
         else Answer page_not_found)"

definition client_api :: "Config \<Rightarrow> client_request \<Rightarrow> server \<times> server \<Rightarrow> client_answer" where
  "client_api cfg = SDKAuth (SDKAPIKey cfg) client_routes"

section \<open>The requests of the clients\<close>

text \<open>\<^verbatim>\<open>fetch\<close> with the key in a header, which the SDK, the data hooks and the Go client all do.\<close>

definition sdk_fetch :: "jsstring \<Rightarrow> utext \<Rightarrow> jsstring \<Rightarrow> client_request" where
  "sdk_fetch sdkKey path query =
     \<lparr>req_method = GET, req_path = path, req_headers = [(''x-sdk-key'', sdkKey)], req_body = Empty, req_query = query\<rparr>"

definition bootstrap_request :: "jsstring \<Rightarrow> client_request" where
  "bootstrap_request sdkKey = sdk_fetch sdkKey (ascii ''/api/client/flags'') []"

definition events_request :: "jsstring \<Rightarrow> jsstring \<Rightarrow> int \<Rightarrow> client_request" where
  "events_request baseUrl sdkKey since =
     sdk_fetch sdkKey (ascii ''/api/client/events'') (url_query (baseUrl @ js ''/api/client/events?since='' @ js_num since))"

text \<open>\<^verbatim>\<open>EventSource\<close> sets no header: the key is part of the URL.\<close>

definition stream_request :: "jsstring \<Rightarrow> jsstring \<Rightarrow> client_request" where
  "stream_request baseUrl sdkKey =
     \<lparr>req_method = GET, req_path = ascii ''/api/client/stream'', req_headers = [], req_body = Empty,
      req_query = url_query (stream_url baseUrl sdkKey)\<rparr>"

section \<open>What survives the way through a URL\<close>

abbreviation plain :: "jsstring \<Rightarrow> bool" where
  "plain s \<equiv> list_all (\<lambda>c. 0x21 \<le> c \<and> c \<le> 0x7E) s"

definition enc1 :: "16 word \<Rightarrow> jsstring" where
  "enc1 c = (if in_query_set (unat c) then percent_byte (unat c) else [c])"

definition enc :: "jsstring \<Rightarrow> jsstring" where
  "enc s = concat (map enc1 s)"

lemma enc_simps [simp]: "enc [] = []" "enc (c # s) = enc1 c @ enc s" "enc (s @ t) = enc s @ enc t"
  by (simp_all add: enc_def)

lemma plain_ascii: "plain s \<Longrightarrow> ascii_text (map unat s)"
  by (induction s) (auto simp: word_le_nat_alt)

lemma utf16_decode_plain: "plain s \<Longrightarrow> utf16_decode s = map unat s"
proof (induction s)
  case (Cons c s)
  then have "\<not> (0xD800 \<le> unat c \<and> unat c < 0xDC00)" by (simp add: word_le_nat_alt)
  then show ?case using Cons by (simp add: utf16_decode_bmp)
qed simp

lemma encode_query_plain:
  assumes "plain s"
  shows "encode_query s = enc s"
proof -
  have one: "(if in_query_set c then concat (map (\<lambda>b. percent_byte (unat b)) (utf8_char (if scalar c then c else 0xFFFD)))
        else [of_nat c]) = enc1 u" if "c = unat u" "0x21 \<le> u" "u \<le> 0x7E" for c u
  proof -
    have c: "c \<le> 126" using that by (simp add: word_le_nat_alt)
    then have "concat (map (\<lambda>b. percent_byte (unat b)) (utf8_char (if scalar c then c else 0xFFFD))) = percent_byte c"
      by (simp add: utf8_char_def scalar_def unat_of_nat8)
    moreover have "enc1 u = (if in_query_set c then percent_byte c else [u])" using that(1) by (simp add: enc1_def)
    moreover have "of_nat c = u" using that(1) by simp
    ultimately show ?thesis by simp
  qed
  have "concat (map (\<lambda>c. if in_query_set c
        then concat (map (\<lambda>b. percent_byte (unat b)) (utf8_char (if scalar c then c else 0xFFFD)))
        else [of_nat c]) (map unat s)) = enc s"
    using assms by (induction s) (simp_all add: one)
  then show ?thesis by (simp only: encode_query_def utf16_decode_plain [OF assms])
qed

lemma hex_value_unit: "n < 16 \<Longrightarrow> hex_value (hex_unit n) = Some n"
proof -
  have "\<forall>n < 16. hex_value (hex_unit n) = Some n"
    by (simp add: All_less_Suc numeral_eq_Suc) (simp add: hex_value_def hex_unit_def hex_digit_def)
  then show "n < 16 \<Longrightarrow> hex_value (hex_unit n) = Some n" by blast
qed

lemma enc1_cases:
  obtains "enc1 c = [c]" | "enc1 c = percent_byte (unat c)" "c \<noteq> 37" "c \<noteq> 43" "c \<noteq> 38" "c \<noteq> 59" "c \<noteq> 61" "hex_value c = None"
proof (cases "in_query_set (unat c)")
  case True
  then have "c \<noteq> 37 \<and> c \<noteq> 43 \<and> c \<noteq> 38 \<and> c \<noteq> 59 \<and> c \<noteq> 61"
    by (auto simp: in_query_set_def)
  moreover have "hex_value c = None"
  proof -
    have "unat c \<le> 0x20 \<or> unat c \<ge> 0x7F \<or> unat c \<in> {0x22, 0x23, 0x27, 0x3C, 0x3E}"
      using True by (simp add: in_query_set_def)
    then show ?thesis by (auto simp: hex_value_def word_le_nat_alt)
  qed
  ultimately show ?thesis using True that(2) by (simp add: enc1_def)
qed (use that(1) in \<open>simp add: enc1_def\<close>)

lemma enc1_escaped: "enc1 c \<noteq> [c] \<Longrightarrow> enc1 c = percent_byte (unat c) \<and> hex_value c = None"
  by (rule enc1_cases [of c]) simp_all

lemma unescape_percent_byte:
  assumes "unat c < 256"
  shows "QueryUnescape (percent_byte (unat c) @ r) = map_option ((#) c) (QueryUnescape r)"
proof -
  have "of_nat (16 * (unat c div 16) + unat c mod 16) = c" by (simp only: mult_div_mod_eq) simp
  moreover have "hex_value (hex_unit (unat c div 16)) = Some (unat c div 16)"
    "hex_value (hex_unit (unat c mod 16)) = Some (unat c mod 16)"
    using assms by (auto intro!: hex_value_unit)
  ultimately show ?thesis by (simp add: percent_byte_def del: of_nat_add of_nat_mult)
qed

lemma hex_value_percent [simp]: "hex_value 37 = None"
  by (simp add: hex_value_def)

lemma unescape_enc: "plain s \<Longrightarrow> QueryUnescape (enc s) = QueryUnescape s"
proof (induction s rule: QueryUnescape.induct)
  case (2 c r)
  show ?case
  proof (cases "c = 37")
    case True
    have c: "enc1 c = [37]" by (rule enc1_cases [of c]) (use True in simp_all)
    show ?thesis
    proof (cases r)
      case (Cons a r1)
      show ?thesis
      proof (cases "enc1 a = [a]")
        case a: True
        show ?thesis
        proof (cases r1)
          case r1: (Cons b r')
          show ?thesis
          proof (cases "enc1 b = [b]")
            case True
            then show ?thesis using 2 \<open>c = 37\<close> Cons r1 a c by (auto split: option.split)
          next
            case False
            then have "enc1 b = percent_byte (unat b)" "hex_value b = None" using enc1_escaped [of b] by blast+
            then show ?thesis using \<open>c = 37\<close> Cons r1 a c by (auto simp: percent_byte_def split: option.split)
          qed
        qed (use \<open>c = 37\<close> Cons a c in simp)
      next
        case False
        then have "enc1 a = percent_byte (unat a)" "hex_value a = None" using enc1_escaped [of a] by blast+
        then show ?thesis using \<open>c = 37\<close> Cons c by (auto simp: percent_byte_def split: list.split option.split)
      qed
    qed (use True c in simp)
  next
    case False
    then have IH: "QueryUnescape (enc r) = QueryUnescape r" using 2 by simp
    show ?thesis
    proof (rule enc1_cases [of c])
      assume "enc1 c = percent_byte (unat c)" "c \<noteq> 43"
      moreover have "unat c < 256" using 2(3) by (simp add: word_le_nat_alt)
      ultimately show ?thesis using False by (simp add: unescape_percent_byte IH del: QueryUnescape.simps(2)) simp
    qed (use False IH in simp)
  qed
qed simp

text \<open>Splitting and cutting commute with the encoding.\<close>

lemma hex_unit_range: "n < 16 \<Longrightarrow> hex_unit n \<noteq> 38 \<and> hex_unit n \<noteq> 59 \<and> hex_unit n \<noteq> 61"
proof -
  assume "n < 16"
  then have "hex_value (hex_unit n) \<noteq> None" by (simp add: hex_value_unit)
  then show ?thesis by (auto simp: hex_value_def)
qed

lemma enc1_mem: "plain [c] \<Longrightarrow> d \<in> {38, 59, 61} \<Longrightarrow> d \<in> set (enc1 c) \<longleftrightarrow> d = c"
proof (rule enc1_cases [of c])
  assume a: "plain [c]" "d \<in> {38, 59, 61}"
    and b: "enc1 c = percent_byte (unat c)" "c \<noteq> 38" "c \<noteq> 59" "c \<noteq> 61"
  have "unat c < 256" using a(1) by (simp add: word_le_nat_alt)
  then have "unat c div 16 < 16" by (simp add: div_less_iff_less_mult)
  then have "hex_unit (unat c div 16) \<noteq> d" "hex_unit (unat c mod 16) \<noteq> d"
    using hex_unit_range [of "unat c div 16"] hex_unit_range [of "unat c mod 16"] a(2) by auto
  then show ?thesis using a(2) b by (auto simp: percent_byte_def)
qed auto

lemma enc_mem: "plain s \<Longrightarrow> d \<in> {38, 59, 61} \<Longrightarrow> d \<in> set (enc s) \<longleftrightarrow> d \<in> set s"
  by (induction s) (auto simp: enc1_mem)

lemma split_on_glue: "c \<notin> set t \<Longrightarrow> split_on c (t @ u) = (t @ hd (split_on c u)) # tl (split_on c u)"
proof (induction t)
  case Nil
  then show ?case using split_on_nonempty [of c u] by (cases "split_on c u") auto
qed auto

lemma split_on_enc: "plain s \<Longrightarrow> split_on 38 (enc s) = map enc (split_on 38 s)"
proof (induction s)
  case (Cons c s)
  then have IH: "split_on 38 (enc s) = map enc (split_on 38 s)" by simp
  show ?case
  proof (cases "c = 38")
    case True
    then have "enc1 c = [c]" by (simp add: enc1_def in_query_set_def)
    then show ?thesis using True IH by simp
  next
    case False
    then have "38 \<notin> set (enc1 c)" using Cons.prems by (simp add: enc1_mem)
    then show ?thesis
      using False IH split_on_nonempty [of 38 s] by (cases "split_on 38 s") (simp_all add: split_on_glue)
  qed
qed simp

lemma cut_at_enc: "plain s \<Longrightarrow> cut_at 61 (enc s) = (enc (fst (cut_at 61 s)), enc (snd (cut_at 61 s)))"
proof (induction s)
  case (Cons c s)
  show ?case
  proof (cases "c = 61")
    case True
    then have "enc1 c = [c]" by (simp add: enc1_def in_query_set_def)
    then show ?thesis using True by (simp add: cut_at_def)
  next
    case False
    then have "61 \<notin> set (enc1 c)" using Cons.prems by (simp add: enc1_mem)
    then have "takeWhile (\<lambda>u. u \<noteq> 61) (enc1 c @ t) = enc1 c @ takeWhile (\<lambda>u. u \<noteq> 61) t"
      "dropWhile (\<lambda>u. u \<noteq> 61) (enc1 c @ t) = dropWhile (\<lambda>u. u \<noteq> 61) t" for t
      by (auto simp: takeWhile_append dropWhile_append)
    then show ?thesis using False Cons by (simp add: cut_at_def)
  qed
qed (simp add: cut_at_def)

lemma plain_parts:
  assumes "plain s"
  shows "plain (fst (cut_at c s))" "plain (snd (cut_at c s))" "p \<in> set (split_on c s) \<Longrightarrow> plain p"
proof -
  show "plain (fst (cut_at c s))" "plain (snd (cut_at c s))"
    using assms by (auto simp: cut_at_def list_all_iff dest: set_takeWhileD set_dropWhileD in_set_dropD)
  have "\<forall>p \<in> set (split_on c s). plain p"
    using assms by (induction s) (auto split: list.split)
  then show "p \<in> set (split_on c s) \<Longrightarrow> plain p" by blast
qed

lemma enc_Nil_iff [simp]: "enc s = [] \<longleftrightarrow> s = []"
proof (cases s)
  case (Cons c r)
  have "enc1 c \<noteq> []" by (rule enc1_cases [of c]) (auto simp: percent_byte_def)
  then show ?thesis using Cons by simp
qed simp

lemma query_pair_enc: "plain p \<Longrightarrow> query_pair (enc p) = query_pair p"
  using plain_parts(1,2) [of p 61]
  by (cases "cut_at 61 p") (simp add: query_pair_def enc_mem cut_at_enc unescape_enc split: option.split)

lemma ParseQuery_enc:
  assumes "plain s"
  shows "ParseQuery (enc s) = ParseQuery s"
proof -
  have "List.map_filter query_pair (map enc ps) = List.map_filter query_pair ps" if "\<forall>p \<in> set ps. plain p" for ps
    using that by (induction ps) (simp_all add: query_pair_enc split: option.split)
  then show ?thesis using assms plain_parts(3) [OF assms] by (simp add: ParseQuery_def split_on_enc)
qed

section \<open>The key that arrives\<close>

lemma unescape_length:
  "QueryUnescape s = Some v \<Longrightarrow>
     length v \<le> length s \<and> (37 \<in> set s \<longrightarrow> length v < length s) \<and> (43 \<in> set s \<and> 37 \<notin> set s \<longrightarrow> v \<noteq> s) \<and>
     (43 \<notin> set s \<and> 37 \<notin> set s \<longrightarrow> v = s)"
proof (induction s arbitrary: v rule: length_induct)
  case (1 s)
  note IH = 1(1) [rule_format]
  show ?case
  proof (cases s)
    case (Cons c r)
    show ?thesis
    proof (cases "c = 37")
      case True
      then obtain a b r' x u where r: "r = a # b # r'" and u: "QueryUnescape r' = Some u" and v: "v = x # u"
        using 1(2) Cons by (auto split: list.splits option.splits)
      have "length u \<le> length r'" using IH [OF _ u] r Cons by simp
      then show ?thesis using True r v Cons by simp
    next
      case False
      then obtain u where u: "QueryUnescape r = Some u" and v: "v = (if c = 43 then 32 else c) # u"
        using 1(2) Cons by auto
      show ?thesis using IH [OF _ u] Cons False v by auto
    qed
  qed (use 1(2) in simp)
qed

lemma unescape_safe: "37 \<notin> set s \<Longrightarrow> 43 \<notin> set s \<Longrightarrow> QueryUnescape s = Some s"
  by (induction s) auto

lemma split_on_hd: "hd (split_on c s) = takeWhile (\<lambda>u. u \<noteq> c) s"
  by (induction s) (auto split: list.split simp: hd_def)

lemma split_on_tl_length: "p \<in> set (tl (split_on c s)) \<Longrightarrow> length (takeWhile (\<lambda>u. u \<noteq> c) s) + length p < length s"
proof (induction s)
  case (Cons d s)
  obtain h t where h: "split_on c s = h # t" using split_on_nonempty [of c s] by (cases "split_on c s") auto
  have hl: "length h \<le> length s" using split_on_hd [of c s] h by (simp add: length_takeWhile_le)
  show ?case using Cons h hl by (auto split: if_splits)
qed simp

lemma query_pair_value:
  assumes "query_pair p = Some (k, v)"
  shows "length v \<le> length (snd (cut_at 61 p)) \<and> length v \<le> length p"
proof -
  have "QueryUnescape (snd (cut_at 61 p)) = Some v"
    using assms by (auto simp: query_pair_def split: if_splits prod.splits option.splits)
  then have "length v \<le> length (snd (cut_at 61 p))" using unescape_length by blast
  moreover have "length (snd (cut_at 61 p)) \<le> length p"
    using length_dropWhile_le [of "\<lambda>u. u \<noteq> 61" p] by (simp add: cut_at_def)
  ultimately show ?thesis by simp
qed

definition key_param :: jsstring where
  "key_param = js ''key=''"

lemma key_param: "length key_param = 4" "38 \<notin> set key_param" "59 \<notin> set key_param" "key_param \<noteq> []" "plain key_param"
  "cut_at 61 (key_param @ v) = (js ''key'', v)" "QueryUnescape (js ''key'') = Some (js ''key'')"
  by (simp_all add: key_param_def js_def cut_at_def)

text \<open>Whatever the rest of the query is, nothing longer than the first pair or the rest can arrive as a key.\<close>

lemma query_value_length:
  assumes "map_of (ParseQuery (key_param @ s)) k = Some v"
  shows "length v \<le> length (takeWhile (\<lambda>u. u \<noteq> 38) s) \<or> length (takeWhile (\<lambda>u. u \<noteq> 38) s) + length v < length s"
proof -
  have split: "split_on 38 (key_param @ s) = (key_param @ takeWhile (\<lambda>u. u \<noteq> 38) s) # tl (split_on 38 s)"
    using split_on_glue [of 38 key_param s] key_param by (simp add: split_on_hd)
  have "(k, v) \<in> set (ParseQuery (key_param @ s))" using assms by (rule map_of_SomeD)
  then obtain p where p: "p \<in> set (split_on 38 (key_param @ s))" "query_pair p = Some (k, v)"
    by (auto simp: ParseQuery_def map_filter_def)
  show ?thesis
  proof (cases "p = key_param @ takeWhile (\<lambda>u. u \<noteq> 38) s")
    case True
    then show ?thesis using query_pair_value [OF p(2)] by (simp add: key_param)
  next
    case False
    then have "p \<in> set (tl (split_on 38 s))" using p(1) split by simp
    then show ?thesis using split_on_tl_length [of p 38 s] query_pair_value [OF p(2)] by linarith
  qed
qed

text \<open>The units that change the key on its way: they end or split the query, or are decoded to something else.\<close>

definition url_safe :: "jsstring \<Rightarrow> bool" where
  "url_safe s \<longleftrightarrow> set s \<inter> {35, 37, 38, 43, 59} = {}"

lemma map_filter_one: "List.map_filter f [x] = (case f x of Some y \<Rightarrow> [y] | None \<Rightarrow> [])"
  by (simp split: option.split)

lemma query_get_one:
  assumes "38 \<notin> set s" "59 \<notin> set s"
  shows "query_get (key_param @ s) (js ''key'') = (case QueryUnescape s of Some v \<Rightarrow> v | None \<Rightarrow> [])"
proof -
  have "split_on 38 (key_param @ s) = [key_param @ s]" by (rule split_on_notin) (simp add: assms key_param)
  then show ?thesis
    using assms by (simp add: query_get_def ParseQuery_def query_pair_def key_param map_filter_one split: option.split)
qed

lemma query_get_semicolon:
  assumes "38 \<notin> set s" "59 \<in> set s"
  shows "query_get (key_param @ s) k = []"
proof -
  have "split_on 38 (key_param @ s) = [key_param @ s]" by (rule split_on_notin) (simp add: assms key_param)
  then show ?thesis using assms by (simp add: query_get_def ParseQuery_def query_pair_def)
qed

lemma key_arrives:
  assumes "sdkKey \<noteq> []"
  shows "query_get (key_param @ takeWhile (\<lambda>u. u \<noteq> 35) sdkKey) (js ''key'') = sdkKey \<longleftrightarrow> url_safe sdkKey"
proof (cases "38 \<in> set (takeWhile (\<lambda>u. u \<noteq> 35) sdkKey) \<or> 35 \<in> set sdkKey")
  case True
  let ?s = "takeWhile (\<lambda>u. u \<noteq> 35) sdkKey"
  have s: "length ?s \<le> length sdkKey" by (rule length_takeWhile_le)
  have "length (takeWhile (\<lambda>u. u \<noteq> 38) ?s) < length sdkKey"
  proof (cases "35 \<in> set sdkKey")
    case True
    then have "length ?s < length sdkKey" using takeWhile_eq_all_conv [of "\<lambda>u. u \<noteq> 35" sdkKey] s
      by (metis (mono_tags, lifting) le_neq_implies_less length_takeWhile_le takeWhile_eq_take take_all_iff)
    then show ?thesis using length_takeWhile_le [of "\<lambda>u. u \<noteq> 38" ?s] by linarith
  next
    case False
    then have "38 \<in> set ?s" using True by simp
    then have "length (takeWhile (\<lambda>u. u \<noteq> 38) ?s) < length ?s"
      by (metis (mono_tags, lifting) le_neq_implies_less length_takeWhile_le takeWhile_eq_take take_all_iff takeWhile_eq_all_conv)
    then show ?thesis using s by linarith
  qed
  then have "length v < length sdkKey" if "map_of (ParseQuery (key_param @ ?s)) k = Some v" for k v
    using query_value_length [OF that] s by linarith
  then have "query_get (key_param @ ?s) (js ''key'') \<noteq> sdkKey"
    using assms by (auto simp: query_get_def split: option.split)
  moreover have "\<not> url_safe sdkKey" using True set_takeWhileD by (fastforce simp: url_safe_def)
  ultimately show ?thesis by simp
next
  case False
  then have all: "takeWhile (\<lambda>u. u \<noteq> 35) sdkKey = sdkKey" by (auto simp: takeWhile_eq_all_conv)
  with False have s: "takeWhile (\<lambda>u. u \<noteq> 35) sdkKey = sdkKey" "35 \<notin> set sdkKey" "38 \<notin> set sdkKey" by simp_all
  show ?thesis
  proof (cases "59 \<in> set sdkKey")
    case True
    then show ?thesis using s(3) assms unfolding s(1) by (simp add: query_get_semicolon url_safe_def)
  next
    case False
    then show ?thesis
      using s assms unescape_length [of sdkKey] unescape_safe [of sdkKey] unfolding s(1) query_get_one [OF s(3) False] url_safe_def
      by (cases "QueryUnescape sdkKey") (auto split: option.split)
  qed
qed

section \<open>The requests at the check\<close>

abbreviation origin_text :: "jsstring \<Rightarrow> bool" where
  "origin_text base \<equiv> plain base \<and> 35 \<notin> set base \<and> 63 \<notin> set base"

lemma clean_url_plain: "plain s \<Longrightarrow> clean_url s = s"
proof -
  assume s: "plain s"
  have no: "\<not> c \<le> 0x20 \<and> c \<notin> set [9, 10, 13]" if "c \<in> set s" for c
    using that s by (auto simp: list_all_iff word_le_nat_alt)
  have drop: "dropWhile (\<lambda>c. c \<le> 0x20) t = t" if "set t \<subseteq> set s" for t
    using that no by (cases t) auto
  have "rev (dropWhile (\<lambda>c. c \<le> 0x20) (rev (dropWhile (\<lambda>c. c \<le> 0x20) s))) = s" by (simp add: drop)
  then show ?thesis using no by (simp add: clean_url_def filter_id_conv)
qed

lemma url_query_plain:
  assumes "origin_text base" "plain path" "35 \<notin> set path" "63 \<notin> set path" "plain q"
  shows "url_query (base @ path @ [63] @ q) = enc (takeWhile (\<lambda>u. u \<noteq> 35) q)"
proof -
  let ?q = "takeWhile (\<lambda>u. u \<noteq> 35) q"
  have "plain (base @ path @ [63] @ q)" using assms by simp
  then have "clean_url (base @ path @ [63] @ q) = base @ path @ [63] @ q" by (rule clean_url_plain)
  moreover have "takeWhile (\<lambda>u. u \<noteq> 35) (base @ path @ [63] @ q) = base @ path @ [63] @ ?q"
    using assms by (auto simp: takeWhile_append)
  moreover have "dropWhile (\<lambda>u. u \<noteq> 63) (base @ path @ [63] @ ?q) = 63 # ?q"
    using assms by (auto simp: dropWhile_append)
  moreover have "plain ?q" using assms(5) by (auto simp: list_all_iff dest: set_takeWhileD)
  ultimately show ?thesis by (simp add: url_query_def encode_query_plain)
qed

lemma stream_query:
  assumes "origin_text base" "plain sdkKey"
  shows "query_get (req_query (stream_request base sdkKey)) (js ''key'') =
    query_get (key_param @ takeWhile (\<lambda>u. u \<noteq> 35) sdkKey) (js ''key'')"
proof -
  let ?k = "takeWhile (\<lambda>u. u \<noteq> 35) sdkKey"
  have url: "stream_url base sdkKey = base @ js ''/api/client/stream'' @ [63] @ (key_param @ sdkKey)"
    by (simp add: stream_url_def key_param_def js_def)
  have "takeWhile (\<lambda>u. u \<noteq> 35) (key_param @ sdkKey) = key_param @ ?k" by (simp add: key_param_def js_def)
  moreover have "plain (key_param @ sdkKey)" using assms(2) by (simp add: key_param)
  ultimately have "url_query (stream_url base sdkKey) = enc (key_param @ ?k)"
    unfolding url using assms(1) by (subst url_query_plain) (simp_all add: js_def)
  moreover have "plain ?k" using assms(2) by (auto simp: list_all_iff dest: set_takeWhileD)
  then have "plain (key_param @ ?k)" by (simp add: key_param)
  ultimately show ?thesis by (simp add: stream_request_def query_get_def ParseQuery_enc del: enc_simps)
qed

lemma decimal_units: "u \<in> set (js_num v) \<Longrightarrow> u = 45 \<or> 48 \<le> u \<and> u \<le> 57"
  using nat_digits_are_digits by (auto simp: js_num_def is_digit_def split: if_splits)

lemma decimal_plain:
  "plain (js_num v)" "u \<in> {35, 37, 38, 43, 59, 61, 63} \<Longrightarrow> u \<notin> set (js_num v)"
proof -
  have "0x21 \<le> u \<and> u \<le> 0x7E" if "u \<in> set (js_num v)" for u
    using decimal_units [OF that] by (auto simp: word_le_nat_alt)
  then show "plain (js_num v)" by (simp add: list_all_iff)
  show "u \<in> {35, 37, 38, 43, 59, 61, 63} \<Longrightarrow> u \<notin> set (js_num v)" using decimal_units [of u v] by (auto simp: word_le_nat_alt)
qed

lemma since_arrives:
  assumes "origin_text base"
  shows "query_get (req_query (events_request base sdkKey v)) (js ''since'') = js_num v"
proof -
  let ?q = "js ''since='' @ js_num v"
  have plain: "plain ?q" using decimal_plain(1) by (simp add: js_def)
  have url: "base @ js ''/api/client/events?since='' @ js_num v = base @ js ''/api/client/events'' @ [63] @ ?q"
    by (simp add: js_def)
  have "35 \<notin> set ?q" "38 \<notin> set ?q" "59 \<notin> set ?q"
    using decimal_plain(2) [of _ v] by (auto simp: js_def)
  note q = this
  have "takeWhile (\<lambda>u. u \<noteq> 35) ?q = ?q" using q(1) by (auto simp: takeWhile_eq_all_conv)
  note whole = this
  have "url_query (base @ js ''/api/client/events?since='' @ js_num v) = enc ?q"
  proof -
    have "url_query (base @ js ''/api/client/events'' @ [63] @ ?q) = enc (takeWhile (\<lambda>u. u \<noteq> 35) ?q)"
      by (rule url_query_plain) (use assms plain in \<open>simp_all add: js_def\<close>)
    then show ?thesis by (simp only: url whole)
  qed
  then have "ParseQuery (req_query (events_request base sdkKey v)) = ParseQuery ?q"
    using ParseQuery_enc [OF plain] by (simp add: events_request_def sdk_fetch_def)
  moreover have "split_on 38 ?q = [?q]" using q(2) by (rule split_on_notin)
  moreover have "cut_at 61 ?q = (js ''since'', js_num v)" by (simp add: cut_at_def js_def)
  moreover have "QueryUnescape (js_num v) = Some (js_num v)" "QueryUnescape (js ''since'') = Some (js ''since'')"
    using decimal_plain(2) [of _ v] by (auto simp: js_def intro!: unescape_safe)
  ultimately show ?thesis
    using q(3) by (simp add: query_get_def ParseQuery_def query_pair_def map_filter_one js_def)
qed

lemma request_key_header: "k \<noteq> [] \<Longrightarrow> request_key (sdk_fetch k p q) = k"
  by (simp add: request_key_def sdk_fetch_def header_get_def Let_def)

lemma clients_reach_handlers:
  assumes "origin_text base" "plain (SDKAPIKey cfg)" "SDKAPIKey cfg \<noteq> []"
  shows "client_api cfg (bootstrap_request (SDKAPIKey cfg)) (s, s') = Answer (json_reply (h_GetAllFlags s s')) \<and>
         client_api cfg (events_request base (SDKAPIKey cfg) v) (s, s') = Answer (json_reply (h_Reconcile (js_num v) s s')) \<and>
         (client_api cfg (stream_request base (SDKAPIKey cfg)) (s, s') = EventStream \<longleftrightarrow> url_safe (SDKAPIKey cfg))"
proof -
  note route = client_api_def SDKAuth_def bootstrap_request_def events_request_def stream_request_def sdk_fetch_def
    request_key_def header_get_def Let_def ascii_def
  have "request_key (stream_request base (SDKAPIKey cfg)) =
      query_get (key_param @ takeWhile (\<lambda>u. u \<noteq> 35) (SDKAPIKey cfg)) (js ''key'')"
    using stream_query [OF assms(1,2)] by (simp add: request_key_def header_get_def stream_request_def)
  then have "request_key (stream_request base (SDKAPIKey cfg)) = SDKAPIKey cfg \<longleftrightarrow> url_safe (SDKAPIKey cfg)"
    using key_arrives [OF assms(3)] by simp
  then have "client_api cfg (stream_request base (SDKAPIKey cfg)) (s, s') = EventStream \<longleftrightarrow> url_safe (SDKAPIKey cfg)"
    by (simp add: client_api_def SDKAuth_def) (simp add: stream_request_def ascii_def)
  moreover have "client_api cfg (bootstrap_request (SDKAPIKey cfg)) (s, s') = Answer (json_reply (h_GetAllFlags s s'))"
    using assms(3) by (simp add: client_api_def SDKAuth_def bootstrap_request_def request_key_header)
      (simp add: sdk_fetch_def ascii_def)
  moreover have "client_api cfg (events_request base (SDKAPIKey cfg) v) (s, s') =
      Answer (json_reply (h_Reconcile (js_num v) s s'))"
  proof -
    have "request_key (events_request base (SDKAPIKey cfg) v) = SDKAPIKey cfg"
      using assms(3) by (simp add: events_request_def request_key_header)
    moreover have "req_path (events_request base (SDKAPIKey cfg) v) = ascii ''/api/client/events''"
      "req_method (events_request base (SDKAPIKey cfg) v) = GET"
      by (simp_all add: events_request_def sdk_fetch_def)
    ultimately show ?thesis
      using since_arrives [OF assms(1), of "SDKAPIKey cfg" v] by (simp add: client_api_def SDKAuth_def ascii_def)
  qed
  ultimately show ?thesis by simp
qed

text \<open>C33: Requests that send the key as a header reach their handler. The stream, whose key is part of the URL, is opened
  exactly when the key has none of the characters that a URL or a query reads in its own way.\<close>

theorem stream_needs_url_safe_key:
  assumes "origin_text base" "plain (SDKAPIKey cfg)" "SDKAPIKey cfg \<noteq> []"
  shows "client_api cfg (bootstrap_request (SDKAPIKey cfg)) (s, s') = Answer (json_reply (h_GetAllFlags s s')) \<and>
         client_api cfg (events_request base (SDKAPIKey cfg) v) (s, s') = Answer (json_reply (h_Reconcile (js_num v) s s')) \<and>
         (client_api cfg (stream_request base (SDKAPIKey cfg)) (s, s') = EventStream \<longleftrightarrow> url_safe (SDKAPIKey cfg))"
  using assms by (rule clients_reach_handlers)

text \<open>Two servers: one started with an empty environment, one whose key holds a plus sign.\<close>

definition default_config :: Config where
  "default_config = Load (\<lambda>d. None) (\<lambda>k. [])"

definition plus_config :: Config where
  "plus_config = Load (\<lambda>d. None) (\<lambda>k. if k = ''SDK_API_KEY'' then js ''team+web'' else [])"

lemma config_keys: "SDKAPIKey default_config = js ''sdk-secret-key''" "SDKAPIKey plus_config = js ''team+web''"
  by (simp_all add: default_config_def plus_config_def Load_def getEnv_def js_def)

theorem stream_needs_url_safe_key_witness:
  "client_api default_config (stream_request (js ''http://localhost:8080'') (js ''sdk-secret-key''))
     (demo_server, demo_server) = EventStream \<and>
   client_api plus_config (bootstrap_request (js ''team+web'')) (demo_server, demo_server) =
     Answer (json_reply (h_GetAllFlags demo_server demo_server)) \<and>
   client_api plus_config (stream_request (js ''http://localhost:8080'') (js ''team+web''))
     (demo_server, demo_server) \<noteq> EventStream"
  using stream_needs_url_safe_key [of "js ''http://localhost:8080''" default_config demo_server demo_server 0]
    stream_needs_url_safe_key [of "js ''http://localhost:8080''" plus_config demo_server demo_server 0]
  unfolding config_keys by (simp add: js_def url_safe_def)

text \<open>Without the configured key, whatever the environment, the answer of the client API is the same for every
  state of the server.\<close>

theorem client_api_needs_key:
  assumes "request_key req \<noteq> SDKAPIKey (Load P env)"
  shows "client_api (Load P env) req s = client_api (Load P env) req s' \<and>
    (\<exists>r. client_api (Load P env) req s = Answer r \<and> res_status r = 401)"
  using assms by (simp add: client_api_def SDKAuth_def)

theorem client_api_needs_key_witness:
  "client_api (Load (\<lambda>d. None) (\<lambda>k. [])) (bootstrap_request []) (demo_server, demo_server) =
   client_api (Load (\<lambda>d. None) (\<lambda>k. [])) (bootstrap_request []) (empty_server, empty_server)"
proof -
  have "SDKAPIKey (Load (\<lambda>d. None) (\<lambda>k. [])) \<noteq> []" using loaded_config_complete by blast
  moreover have "request_key (bootstrap_request []) = []"
    by (simp add: request_key_def header_get_def bootstrap_request_def sdk_fetch_def query_get_def ParseQuery_def
        query_pair_def map_filter_one)
  ultimately show ?thesis
    using client_api_needs_key [of "bootstrap_request []" "\<lambda>d. None" "\<lambda>k. []" "(demo_server, demo_server)" "(empty_server, empty_server)"]
    by simp
qed

end
