(* ===== verification/Front.thy ===== *)
theory Front
  imports StreamHandler ClientAccess
begin

text \<open>
  What a request passes before it reaches a handler, and what its answer passes on the way back: the route table of
  \<^verbatim>\<open>cmd/server/main.go\<close>, the request log with its correlation ids and its response writer
  (\<^verbatim>\<open>middleware/logging.go\<close>, \<^verbatim>\<open>internal/reqid\<close>), the cross-origin headers (\<^verbatim>\<open>middleware/cors.go\<close>), and the browser
  that calls from a page of some origin. The library behind \<^verbatim>\<open>CORS\<close> is third-party: an argument, of which its documented
  behaviour is assumed. Names of header fields are in lower case; the duration in a log line is left out.
\<close>

section \<open>Request ids\<close>

definition hex_lower :: "nat \<Rightarrow> 16 word" where
  "hex_lower n = of_nat (if n < 10 then 48 + n else 87 + n)"

definition hex_EncodeToString :: "8 word list \<Rightarrow> jsstring" where
  "hex_EncodeToString bs = concat (map (\<lambda>b. [hex_lower (unat b div 16), hex_lower (unat b mod 16)]) bs)"

text \<open>The sixteen bytes of the random source, unless it fails.\<close>

definition reqid_New :: "8 word list option \<Rightarrow> jsstring" where
  "reqid_New b = (case b of Some bs \<Rightarrow> hex_EncodeToString bs | None \<Rightarrow> js ''req-unknown'')"

text \<open>A request's context holds at most one id.\<close>

definition reqid_With :: "jsstring option \<Rightarrow> jsstring \<Rightarrow> jsstring option" where
  "reqid_With ctx i = Some i"

definition reqid_From :: "jsstring option \<Rightarrow> jsstring" where
  "reqid_From ctx = (case ctx of Some i \<Rightarrow> i | None \<Rightarrow> [])"

text \<open>The id a service reads from its context is the one of the request it serves.\<close>

lemma context_holds_id: "reqid_From (reqid_With ctx i) = i" "reqid_From None = []"
  by (simp_all add: reqid_From_def reqid_With_def)

lemma hex_lower_inj: "a < 16 \<Longrightarrow> b < 16 \<Longrightarrow> hex_lower a = hex_lower b \<longleftrightarrow> a = b"
proof -
  have "\<forall>a < 16. \<forall>b < 16. hex_lower a = hex_lower b \<longleftrightarrow> a = b"
    by (simp add: All_less_Suc numeral_eq_Suc) (simp add: hex_lower_def)
  then show "a < 16 \<Longrightarrow> b < 16 \<Longrightarrow> hex_lower a = hex_lower b \<longleftrightarrow> a = b" by blast
qed

lemma hex_byte_inj:
  "hex_lower (unat b div 16) = hex_lower (unat c div 16) \<and> hex_lower (unat b mod 16) = hex_lower (unat c mod 16) \<longleftrightarrow> b = c"
  for b c :: "8 word"
proof -
  have "unat b < 256" "unat c < 256" using unsigned_less [of b] unsigned_less [of c] by simp_all
  then have "unat b div 16 < 16" "unat c div 16 < 16" by simp_all
  moreover have "unat b = unat c \<longleftrightarrow> unat b div 16 = unat c div 16 \<and> unat b mod 16 = unat c mod 16"
    by (metis div_mult_mod_eq)
  ultimately have "hex_lower (unat b div 16) = hex_lower (unat c div 16) \<and> hex_lower (unat b mod 16) = hex_lower (unat c mod 16) \<longleftrightarrow>
      unat b = unat c" by (simp only: hex_lower_inj)
  then show ?thesis by (simp only: word_unat_eq_iff)
qed

text \<open>Two requests have the same id only when the random source gave the same bytes twice.\<close>

lemma request_ids_differ:
  "hex_EncodeToString bs = hex_EncodeToString cs \<longleftrightarrow> bs = cs"
proof (induction bs arbitrary: cs)
  case Nil
  show ?case by (cases cs) (simp_all add: hex_EncodeToString_def)
next
  case (Cons b bs)
  show ?case
  proof (cases cs)
    case (Cons c cs')
    have "hex_EncodeToString (b # bs) = hex_EncodeToString (c # cs') \<longleftrightarrow>
        (hex_lower (unat b div 16) = hex_lower (unat c div 16) \<and> hex_lower (unat b mod 16) = hex_lower (unat c mod 16)) \<and>
        hex_EncodeToString bs = hex_EncodeToString cs'"
      by (auto simp: hex_EncodeToString_def)
    then show ?thesis using Cons.IH [of cs'] Cons hex_byte_inj [of b c] by simp
  qed (simp add: hex_EncodeToString_def)
qed

section \<open>The response writer\<close>

text \<open>
  A writer is that of a connection, which may be broken, one that cannot flush, or the one of the request log around
  another. \<open>rc_Flush\<close> is \<^verbatim>\<open>http.ResponseController.Flush\<close> (true when it returns no error): it takes the writer's
  \<^verbatim>\<open>FlushError\<close> if there is one, or else its \<^verbatim>\<open>Flush\<close>, which returns nothing, or else asks the writer it unwraps.
  \<open>rw_Flush\<close> says whether the call reaches a writer that flushes.
\<close>

datatype writer = Connection bool | Basic | Logged writer

fun rc_Flush :: "writer \<Rightarrow> bool" where
  "rc_Flush (Connection broken) = (\<not> broken)"
| "rc_Flush Basic = False"
| "rc_Flush (Logged w) = True"

fun rw_Flush :: "writer \<Rightarrow> bool" where
  "rw_Flush (Connection broken) = (\<not> broken)"
| "rw_Flush Basic = False"
| "rw_Flush (Logged w) = rw_Flush w"

text \<open>
  So behind the log a flush never reports an error: the branches of \<^verbatim>\<open>ServeHTTP\<close> for one are never taken, a stream is
  opened on a writer that cannot flush, and deliveries to a broken connection count as delivered and reset the idle timer.
\<close>

lemma logged_stream_is_never_refused:
  "ServeHTTP (rc_Flush (Logged w)) down idleTimeout t \<noteq> StreamingUnsupported"
  by (simp add: ServeHTTP_def)

definition beats :: "writer \<Rightarrow> nat \<Rightarrow> conn \<Rightarrow> conn" where
  "beats w n c = ((\<lambda>c. conn_do defaultIdleTimeout (Beat 0 (rc_Flush w)) c) ^^ n) c"

lemma broken_stream_is_kept:
  assumes "cn_open c"
  shows "cn_open (beats (Logged (Connection True)) n c)"
    and "0 < n \<Longrightarrow> cn_idle (beats (Logged (Connection True)) n c) = cn_now c + defaultIdleTimeout"
    and "0 < n \<Longrightarrow> \<not> cn_open (beats (Connection True) n c)"
proof -
  have one: "cn_open (beats (Logged (Connection True)) n c) \<and> cn_now (beats (Logged (Connection True)) n c) = cn_now c \<and>
      (0 < n \<longrightarrow> cn_idle (beats (Logged (Connection True)) n c) = cn_now c + defaultIdleTimeout)"
    by (induction n) (simp_all add: beats_def assms deliver_def Let_def)
  then show "cn_open (beats (Logged (Connection True)) n c)"
    and "0 < n \<Longrightarrow> cn_idle (beats (Logged (Connection True)) n c) = cn_now c + defaultIdleTimeout" by simp_all
  show "0 < n \<Longrightarrow> \<not> cn_open (beats (Connection True) n c)"
    by (cases n) (simp_all add: beats_def deliver_def Let_def)
qed

text \<open>
  The status: what \<^verbatim>\<open>net/http\<close> sends is the first status written, or 200 when a body or a flush comes before one;
  what the log keeps is the last one written.
\<close>

datatype write_call = WriteHeader int | WriteBody | FlushBody

record response_writer =
  statusCode :: int
  sent_status :: "int option"

definition informational :: "int \<Rightarrow> bool" where
  "informational c \<longleftrightarrow> 100 \<le> c \<and> c \<le> 199 \<and> c \<noteq> 101"

fun net_call :: "write_call \<Rightarrow> int option \<Rightarrow> int option" where
  "net_call (WriteHeader c) x = (if x = None \<and> \<not> informational c then Some c else x)"
| "net_call c x = (if x = None then Some 200 else x)"

fun writer_call :: "write_call \<Rightarrow> response_writer \<Rightarrow> response_writer" where
  "writer_call (WriteHeader c) rw = rw\<lparr>statusCode := c, sent_status := net_call (WriteHeader c) (sent_status rw)\<rparr>"
| "writer_call c rw = rw\<lparr>sent_status := net_call c (sent_status rw)\<rparr>"

definition run_calls :: "write_call list \<Rightarrow> response_writer" where
  "run_calls cs = fold writer_call cs \<lparr>statusCode = 200, sent_status = None\<rparr>"

definition final_status :: "response_writer \<Rightarrow> int" where
  "final_status rw = (case sent_status rw of Some c \<Rightarrow> c | None \<Rightarrow> 200)"

fun no_status :: "write_call \<Rightarrow> bool" where
  "no_status (WriteHeader c) \<longleftrightarrow> False"
| "no_status _ \<longleftrightarrow> True"

lemma body_calls:
  "list_all no_status cs \<Longrightarrow> statusCode (fold writer_call cs rw) = statusCode rw \<and>
     (sent_status rw \<noteq> None \<longrightarrow> sent_status (fold writer_call cs rw) = sent_status rw) \<and>
     (sent_status rw = None \<longrightarrow> final_status (fold writer_call cs rw) = 200)"
proof (induction cs arbitrary: rw)
  case (Cons x cs)
  then show ?case by (cases x) (auto simp: final_status_def)
qed (simp add: final_status_def)

text \<open>The log tells the status that was sent when a handler writes a status once, first, or never.\<close>

lemma logged_status_is_sent:
  assumes "list_all no_status cs" "\<not> informational c"
  shows "statusCode (run_calls cs) = final_status (run_calls cs)"
    and "statusCode (run_calls (WriteHeader c # cs)) = c" and "final_status (run_calls (WriteHeader c # cs)) = c"
  using body_calls [OF assms(1)] assms(2) by (simp_all add: run_calls_def final_status_def)

section \<open>The routes\<close>

datatype served = Client client_answer | Admin http_response | Health health_reply | Other http_response

text \<open>
  The page of the metrics is a third-party handler's. A group of routes takes everything below its prefix, so that its
  key check comes before the search for a route.
\<close>

definition server_routes ::
  "Config \<Rightarrow> http_response \<Rightarrow> unit probe \<times> unit probe \<times> int probe \<Rightarrow> int \<Rightarrow> utext \<Rightarrow> client_request \<Rightarrow> server \<times> server \<Rightarrow>
   served \<times> server" where
  "server_routes cfg prom probes now uuid req st =
     (let p = segments (req_path req); get = (req_method req = GET); s = fst st
      in if p = [[], ascii ''healthz''] \<or> p = [[], ascii ''health'']
         then (if get then Health Healthz else Other method_not_allowed, s)
         else if p = [[], ascii ''readyz'']
         then (if get then Health (case probes of (db, rd, v) \<Rightarrow> Readyz (NodeID cfg) db rd v) else Other method_not_allowed, s)
         else if p = [[], ascii ''metrics''] then (Other prom, s)
         else if take 3 p = [[], ascii ''api'', ascii ''admin'']
         then map_prod Admin id (AdminAuth (AdminAPIKey cfg) (admin_routes now uuid) (request.truncate req) s)
         else if take 3 p = [[], ascii ''api'', ascii ''client''] then (Client (client_api cfg req st), s)
         else (Other page_not_found, s))"

type_synonym headers = "string \<Rightarrow> jsstring option"

text \<open>The headers a handler sets itself replace those that are there.\<close>

fun own_headers :: "served \<Rightarrow> headers \<Rightarrow> headers" where
  "own_headers (Client EventStream) h = foldl (\<lambda>h (k, v). h(k \<mapsto> v)) h stream_headers"
| "own_headers a h = h"

section \<open>Cross-origin requests\<close>

record cors_options =
  opt_origins :: "jsstring list"
  AllowedMethods :: "string list"
  AllowedHeaders :: "string list"
  ExposedHeaders :: "string list"
  AllowCredentials :: bool
  MaxAge :: int

definition CORS_options :: "jsstring list \<Rightarrow> cors_options" where
  "CORS_options allowedOrigins =
     \<lparr>opt_origins = allowedOrigins,
      AllowedMethods = [''GET'', ''POST'', ''PUT'', ''PATCH'', ''DELETE'', ''OPTIONS''],
      AllowedHeaders = [''accept'', ''authorization'', ''content-type'', ''if-match'', ''x-admin-api-key'', ''x-sdk-key''],
      ExposedHeaders = [''link''], AllowCredentials = True, MaxAge = 300\<rparr>"

text \<open>
  The library: what it adds to the headers of an answer, and its answer to a preflight, of which the browser reads the
  origin, the methods and the names of headers.
\<close>

record preflight_answer =
  pf_origin :: "jsstring option"
  pf_methods :: "string list"
  pf_headers :: "string list"

record cors_library =
  cors_headers :: "cors_options \<Rightarrow> jsstring \<Rightarrow> string \<Rightarrow> headers \<Rightarrow> headers"
  cors_preflight :: "cors_options \<Rightarrow> jsstring \<Rightarrow> string \<Rightarrow> string list \<Rightarrow> preflight_answer"

abbreviation ALLOW_ORIGIN :: string where
  "ALLOW_ORIGIN \<equiv> ''access-control-allow-origin''"

text \<open>One asterisk of an allowed origin stands for any characters; letters are compared without case.\<close>

definition lower_unit :: "16 word \<Rightarrow> 16 word" where
  "lower_unit c = (if 65 \<le> c \<and> c \<le> 90 then c + 32 else c)"

definition origin_match :: "jsstring \<Rightarrow> jsstring \<Rightarrow> bool" where
  "origin_match p og =
     (let p = map lower_unit p; og = map lower_unit og; (a, b) = cut_at 42 p
      in if 42 \<in> set p
         then length a + length b \<le> length og \<and> take (length a) og = a \<and> drop (length og - length b) og = b
         else p = og)"

definition listed :: "jsstring list \<Rightarrow> jsstring \<Rightarrow> bool" where
  "listed ps og \<longleftrightarrow> list_ex (\<lambda>p. origin_match p og) ps"

text \<open>
  The documented behaviour for lists that are not empty and have no pattern that is a lone asterisk: the origin of a
  listed page is echoed, and a preflight is granted when its origin, its method and all its headers are allowed.
\<close>

definition cors_documented :: "cors_library \<Rightarrow> bool" where
  "cors_documented lib \<longleftrightarrow>
     (\<forall>opts og m hs h. opt_origins opts \<noteq> [] \<longrightarrow> js ''*'' \<notin> set (opt_origins opts) \<longrightarrow>
        cors_headers lib opts og m h ALLOW_ORIGIN =
          (if listed (opt_origins opts) og \<and> m \<in> set (AllowedMethods opts) then Some og else h ALLOW_ORIGIN) \<and>
        (\<forall>k. k \<notin> {ALLOW_ORIGIN, ''access-control-allow-credentials'', ''access-control-expose-headers'', ''vary''} \<longrightarrow>
           cors_headers lib opts og m h k = h k) \<and>
        cors_preflight lib opts og m hs =
          (if listed (opt_origins opts) og \<and> m \<in> set (AllowedMethods opts) \<and> set hs \<subseteq> set (AllowedHeaders opts)
           then \<lparr>pf_origin = Some og, pf_methods = [m], pf_headers = hs\<rparr>
           else \<lparr>pf_origin = None, pf_methods = [], pf_headers = []\<rparr>))"

fun method_name :: "http_method \<Rightarrow> string" where
  "method_name GET = ''GET''"
| "method_name POST = ''POST''"
| "method_name PUT = ''PUT''"
| "method_name PATCH = ''PATCH''"
| "method_name DELETE = ''DELETE''"

text \<open>The middlewares, the inner handler getting the headers set so far.\<close>

type_synonym front_handler = "client_request \<Rightarrow> headers \<Rightarrow> server \<times> server \<Rightarrow> served \<times> headers \<times> server"

definition CORS :: "cors_library \<Rightarrow> jsstring list \<Rightarrow> front_handler \<Rightarrow> front_handler" where
  "CORS lib allowedOrigins nxt req h st =
     (case map_of (req_headers req) ''origin'' of
        None \<Rightarrow> nxt req h st
      | Some og \<Rightarrow> nxt req (cors_headers lib (CORS_options allowedOrigins) og (method_name (req_method req)) h) st)"

record log_line =
  ln_request_id :: jsstring
  ln_method :: http_method
  ln_path :: utext
  ln_status :: int

text \<open>What a handler calls on its writer, as far as the status goes.\<close>

fun served_calls :: "served \<Rightarrow> write_call list" where
  "served_calls (Client (Answer r)) = [WriteHeader (res_status r), WriteBody]"
| "served_calls (Client EventStream) = [FlushBody, WriteBody, FlushBody]"
| "served_calls (Admin r) = [WriteHeader (res_status r), WriteBody]"
| "served_calls (Health r) = [WriteHeader (hr_status r), WriteBody]"
| "served_calls (Other r) = [WriteHeader (res_status r), WriteBody]"

definition Logger ::
  "8 word list option \<Rightarrow> front_handler \<Rightarrow> client_request \<Rightarrow> server \<times> server \<Rightarrow> served \<times> headers \<times> server \<times> log_line" where
  "Logger random nxt req st =
     (let i = reqid_New random;
          (a, h, s) = nxt req (Map.empty(''x-request-id'' \<mapsto> i)) st
      in (a, h, s, \<lparr>ln_request_id = i, ln_method = req_method req, ln_path = req_path req,
                    ln_status = statusCode (run_calls (served_calls a))\<rparr>))"

definition routed :: "Config \<Rightarrow> http_response \<Rightarrow> unit probe \<times> unit probe \<times> int probe \<Rightarrow> int \<Rightarrow> utext \<Rightarrow> front_handler" where
  "routed cfg prom probes now uuid req h st =
     (let (a, s) = server_routes cfg prom probes now uuid req st in (a, own_headers a h, s))"

section \<open>A page calls\<close>

text \<open>
  The browser asks with a preflight first when a method or a header is not one that any page may send; the page sees
  an answer that allows its origin, or any. The library answers the preflight, before any handler.
\<close>

definition unsafe_headers :: "client_request \<Rightarrow> string list" where
  "unsafe_headers req = filter (\<lambda>k. k \<noteq> ''accept'') (map fst (req_headers req))"

definition needs_preflight :: "client_request \<Rightarrow> bool" where
  "needs_preflight req \<longleftrightarrow> req_method req \<notin> {GET, POST} \<or> unsafe_headers req \<noteq> []"

definition allows :: "jsstring \<Rightarrow> jsstring option \<Rightarrow> bool" where
  "allows og x \<longleftrightarrow> x = Some og \<or> x = Some (js ''*'')"

definition preflight_passes :: "jsstring \<Rightarrow> client_request \<Rightarrow> preflight_answer \<Rightarrow> bool" where
  "preflight_passes og req pf \<longleftrightarrow>
     allows og (pf_origin pf) \<and> (req_method req \<in> {GET, POST} \<or> method_name (req_method req) \<in> set (pf_methods pf)) \<and>
     set (unsafe_headers req) \<subseteq> set (pf_headers pf)"

definition from_page :: "jsstring \<Rightarrow> client_request \<Rightarrow> client_request" where
  "from_page og req = req\<lparr>req_headers := (''origin'', og) # req_headers req\<rparr>"

definition browser_call ::
  "cors_library \<Rightarrow> Config \<Rightarrow> http_response \<Rightarrow> unit probe \<times> unit probe \<times> int probe \<Rightarrow> int \<Rightarrow> utext \<Rightarrow> 8 word list option \<Rightarrow>
   jsstring \<Rightarrow> client_request \<Rightarrow> server \<times> server \<Rightarrow> served option \<times> server" where
  "browser_call lib cfg prom probes now uuid random og req st =
     (if needs_preflight req \<and>
         \<not> preflight_passes og req
             (cors_preflight lib (CORS_options (AllowedOrigins cfg)) og (method_name (req_method req)) (unsafe_headers req))
      then (None, fst st)
      else let (a, h, s, line) =
                 Logger random (CORS lib (AllowedOrigins cfg) (routed cfg prom probes now uuid)) (from_page og req) st
           in (if allows og (h ALLOW_ORIGIN) then Some a else None, s))"

section \<open>What the front door does\<close>

lemma own_allow_origin:
  "own_headers a h ALLOW_ORIGIN = (if a = Client EventStream then Some (js ''*'') else h ALLOW_ORIGIN)"
  by (cases "(a, h)" rule: own_headers.cases) (simp_all add: stream_headers_def)

lemma method_allowed [simp]: "method_name m \<in> set (AllowedMethods (CORS_options ps))"
  by (cases m) (simp_all add: CORS_options_def)

lemma from_page_sel [simp]:
  "req_path (from_page og req) = req_path req" "req_method (from_page og req) = req_method req"
  "req_query (from_page og req) = req_query req" "map_of (req_headers (from_page og req)) ''origin'' = Some og"
  by (simp_all add: from_page_def)

lemma from_page_header: "k \<noteq> ''origin'' \<Longrightarrow> map_of (req_headers (from_page og req)) k = map_of (req_headers req) k"
  by (simp add: from_page_def)

text \<open>What a page of some origin sees and changes, whatever it sends.\<close>

definition granted :: "Config \<Rightarrow> jsstring \<Rightarrow> client_request \<Rightarrow> bool" where
  "granted cfg og req \<longleftrightarrow>
     listed (AllowedOrigins cfg) og \<and> set (unsafe_headers req) \<subseteq> set (AllowedHeaders (CORS_options []))"

lemma browser_call_cases:
  assumes "cors_documented lib" "AllowedOrigins cfg \<noteq> []" "js ''*'' \<notin> set (AllowedOrigins cfg)"
    and r: "server_routes cfg prom probes now uuid (from_page og req) st = (a, s)"
  shows "browser_call lib cfg prom probes now uuid random og req st =
    (if granted cfg og req then (Some a, s)
     else if needs_preflight req then (None, fst st)
     else (if a = Client EventStream then Some a else None, s))"
proof -
  let ?o = "CORS_options (AllowedOrigins cfg)"
  have o: "opt_origins ?o = AllowedOrigins cfg" "AllowedHeaders ?o = AllowedHeaders (CORS_options [])"
    by (simp_all add: CORS_options_def)
  have lib: "cors_headers lib ?o og (method_name m) h ALLOW_ORIGIN =
        (if listed (AllowedOrigins cfg) og then Some og else h ALLOW_ORIGIN)"
    "cors_preflight lib ?o og (method_name m) hs =
        (if listed (AllowedOrigins cfg) og \<and> set hs \<subseteq> set (AllowedHeaders (CORS_options []))
         then \<lparr>pf_origin = Some og, pf_methods = [method_name m], pf_headers = hs\<rparr>
         else \<lparr>pf_origin = None, pf_methods = [], pf_headers = []\<rparr>)" for m h hs
    using assms(1-3) by (simp_all add: cors_documented_def o)
  have pass: "preflight_passes og req (cors_preflight lib ?o og (method_name (req_method req)) (unsafe_headers req)) \<longleftrightarrow>
      granted cfg og req"
    by (simp add: preflight_passes_def lib(2) granted_def allows_def)
  have seen: "Logger random (CORS lib (AllowedOrigins cfg) (routed cfg prom probes now uuid)) (from_page og req) st =
      (a, own_headers a (cors_headers lib ?o og (method_name (req_method req)) (Map.empty(''x-request-id'' \<mapsto> reqid_New random))),
       s, \<lparr>ln_request_id = reqid_New random, ln_method = req_method req, ln_path = req_path req,
           ln_status = statusCode (run_calls (served_calls a))\<rparr>)"
    by (simp add: Logger_def CORS_def routed_def r Let_def)
  have none: "unsafe_headers req = [] \<Longrightarrow> granted cfg og req \<longleftrightarrow> listed (AllowedOrigins cfg) og" by (simp add: granted_def)
  have star: "allows og (Some (js ''*''))" by (simp add: allows_def)
  show ?thesis
  proof (cases "granted cfg og req")
    case True
    then have "listed (AllowedOrigins cfg) og" by (simp add: granted_def)
    then have "allows og (own_headers a (cors_headers lib ?o og (method_name (req_method req)) h) ALLOW_ORIGIN)" for h
      using star by (simp add: own_allow_origin lib(1) allows_def)
    then show ?thesis using True pass unfolding browser_call_def seen by simp
  next
    case False
    show ?thesis
    proof (cases "needs_preflight req")
      case True
      then show ?thesis using False pass unfolding browser_call_def by simp
    next
      case simple: False
      then have "\<not> listed (AllowedOrigins cfg) og" using False none by (simp add: needs_preflight_def)
      then have "allows og (own_headers a (cors_headers lib ?o og (method_name (req_method req))
            (Map.empty(''x-request-id'' \<mapsto> reqid_New random))) ALLOW_ORIGIN) \<longleftrightarrow> a = Client EventStream"
        using star by (simp add: own_allow_origin lib(1) allows_def)
      then show ?thesis using False simple unfolding browser_call_def seen by simp
    qed
  qed
qed

text \<open>Every answer is logged under the id the client gets, with the status it gets.\<close>

lemma log_tells_answer:
  assumes "Logger random (CORS lib ps (routed cfg prom probes now uuid)) req st = (a, h, s, line)" "cors_documented lib"
    and "ps \<noteq> []" "js ''*'' \<notin> set ps"
  shows "h ''x-request-id'' = Some (ln_request_id line)"
    and "\<not> informational (ln_status line) \<Longrightarrow> final_status (run_calls (served_calls a)) = ln_status line"
proof -
  have own: "own_headers a h ''x-request-id'' = h ''x-request-id''" for a h
    by (cases "(a, h)" rule: own_headers.cases) (simp_all add: stream_headers_def)
  have "cors_headers lib (CORS_options ps) og m h ''x-request-id'' = h ''x-request-id''" for og m h
    using assms(2-4) by (simp add: cors_documented_def CORS_options_def)
  then show "h ''x-request-id'' = Some (ln_request_id line)"
    using assms(1) own by (auto simp: Logger_def CORS_def routed_def Let_def split: option.splits prod.splits)
  have line: "ln_status line = statusCode (run_calls (served_calls a))"
    using assms(1) by (auto simp: Logger_def Let_def split: prod.splits)
  show "final_status (run_calls (served_calls a)) = ln_status line" if "\<not> informational (ln_status line)"
    using that unfolding line
    by (cases a rule: served_calls.cases) (simp_all add: run_calls_def final_status_def)
qed

text \<open>The requests a direct user of the admin API would send from a page pass the preflight of a listed origin.\<close>

lemma admin_headers_pass:
  "set (''x-admin-api-key'' # map fst (req_headers r)) \<subseteq> set (AllowedHeaders (CORS_options ps))"
  if "r \<in> {api_listFlags, api_getFlag i, api_getFlagHistory i, api_createFlag c, api_updateFlag i u v, api_deleteFlag i,
      api_toggleFlag i}"
  using that
  by (auto simp: api_listFlags_def api_getFlag_def api_getFlagHistory_def api_createFlag_def api_updateFlag_def
      api_deleteFlag_def api_toggleFlag_def json_headers_def CORS_options_def split: option.splits)

lemma client_api_from_page: "client_api cfg (from_page og req) st = client_api cfg req st"
proof -
  have "request_key (from_page og req) = request_key req"
    by (simp add: request_key_def header_get_def from_page_header Let_def)
  then show ?thesis by (cases st) (simp add: client_api_def SDKAuth_def Let_def)
qed

section \<open>Pages of other origins\<close>

text \<open>A request from a page without a granted preflight carries no key header, so it changes nothing.\<close>

lemma unkeyed_changes_nothing:
  assumes "\<not> needs_preflight req" "AdminAPIKey cfg \<noteq> []"
  shows "snd (server_routes cfg prom probes now uuid (from_page og req) st) = fst st"
proof -
  have "''x-admin-api-key'' \<notin> fst ` set (req_headers req)"
    using assms(1) by (auto simp: needs_preflight_def unsafe_headers_def filter_empty_conv)
  then have "map_of (req_headers (from_page og req)) ''x-admin-api-key'' = None"
    by (simp add: from_page_header map_of_eq_None_iff)
  then show ?thesis using assms(2) by (simp add: server_routes_def AdminAuth_def request.truncate_def Let_def)
qed


text \<open>A library as documented, and two servers: the one of the compose file, which lists every port of localhost.\<close>

definition plain_cors :: cors_library where
  "plain_cors =
     \<lparr>cors_headers = (\<lambda>opts og m h.
        if listed (opt_origins opts) og \<and> m \<in> set (AllowedMethods opts) then h(ALLOW_ORIGIN \<mapsto> og) else h),
      cors_preflight = (\<lambda>opts og m hs.
        if listed (opt_origins opts) og \<and> m \<in> set (AllowedMethods opts) \<and> set hs \<subseteq> set (AllowedHeaders opts)
        then \<lparr>pf_origin = Some og, pf_methods = [m], pf_headers = hs\<rparr>
        else \<lparr>pf_origin = None, pf_methods = [], pf_headers = []\<rparr>)\<rparr>"

definition compose_env :: environment where
  "compose_env k = (if k = ''ALLOWED_ORIGINS'' then js ''http://localhost:*'' else [])"

lemma compose_config:
  "AllowedOrigins (Load P compose_env) = [js ''http://localhost:*'']" "SDKAPIKey (Load P compose_env) = js ''sdk-secret-key''"
  by (simp_all add: Load_def getEnv_def getEnvList_def compose_env_def js_def TrimSpace_def go_space_def)

lemma compose_listed:
  "listed (AllowedOrigins (Load P compose_env)) (js ''http://localhost:3000'')"
  "\<not> listed (AllowedOrigins (Load P compose_env)) (js ''http://evil.example'')"
  by (simp_all add: compose_config listed_def origin_match_def cut_at_def lower_unit_def js_def)

definition quick_probes :: "unit probe \<times> unit probe \<times> int probe" where
  "quick_probes = (\<lambda>t. (Inr (), 0), \<lambda>t. (Inr (), 0), \<lambda>t. (Inr 1, 0))"


end
