(* ===== verification/Instruments.thy ===== *)
theory Instruments
  imports Service Broker
begin

text \<open>
  The metrics of a server (\<open>internal/metrics/metrics.go\<close>) beside what they count: the mutations handed to Redis and the
  failures to publish, over the operations of theory Service, and the gauge of connected clients, over the steps of
  theory Broker. The histograms of durations are third-party accumulators; only what is put into the one of the
  propagation delays is kept.
\<close>

section \<open>The instruments\<close>

record instruments =
  FlagUpdates :: "string \<Rightarrow> nat"
  ConfigPropagation :: "int list"
  SSEConnectedClients :: int
  RedisPublishErrors :: nat

definition no_instruments :: instruments where
  "no_instruments = \<lparr>FlagUpdates = (\<lambda>t. 0), ConfigPropagation = [], SSEConnectedClients = 0, RedisPublishErrors = 0\<rparr>"

definition ObserveFlagUpdate :: "string \<Rightarrow> instruments \<Rightarrow> instruments" where
  "ObserveFlagUpdate eventType m = m\<lparr>FlagUpdates := (FlagUpdates m)(eventType := Suc (FlagUpdates m eventType))\<rparr>"

text \<open>A delay in nanoseconds.\<close>

definition ObservePropagation :: "int \<Rightarrow> instruments \<Rightarrow> instruments" where
  "ObservePropagation d m = m\<lparr>ConfigPropagation := ConfigPropagation m @ [if d < 0 then 0 else d]\<rparr>"

definition SetConnectedClients :: "nat \<Rightarrow> instruments \<Rightarrow> instruments" where
  "SetConnectedClients n m = m\<lparr>SSEConnectedClients := int n\<rparr>"

definition IncRedisPublishError :: "instruments \<Rightarrow> instruments" where
  "IncRedisPublishError m = m\<lparr>RedisPublishErrors := Suc (RedisPublishErrors m)\<rparr>"

text \<open>
  What \<open>Subscribe\<close> observes of an envelope published at \<open>ts\<close> and read at \<open>now\<close>, by the clocks of two machines; an
  envelope without a time is skipped.
\<close>

definition observed :: "int \<times> int \<Rightarrow> instruments \<Rightarrow> instruments" where
  "observed e m = (case e of (ts, now) \<Rightarrow> if 0 < ts then ObservePropagation (now - ts) m else m)"

lemma delays_observed:
  "ConfigPropagation (fold observed es m) =
     ConfigPropagation m @ map (\<lambda>(ts, now). max 0 (now - ts)) (filter (\<lambda>(ts, now). 0 < ts) es)"
  by (induction es arbitrary: m) (auto simp: observed_def ObservePropagation_def)

section \<open>Mutations\<close>

text \<open>
  \<open>publishFlagUpdate\<close> and \<open>publishFlagDelete\<close> count the mutation before they publish, \<open>Publish\<close> counts its failure;
  they run when the operation on the repository gave a flag, or a version for a deletion.
\<close>

definition counted :: "string \<Rightarrow> server \<Rightarrow> instruments \<Rightarrow> instruments" where
  "counted action s m =
     (let m1 = ObserveFlagUpdate action m in if redis_up s then m1 else IncRedisPublishError m1)"

fun metered :: "op \<Rightarrow> server \<times> instruments \<Rightarrow> server \<times> instruments" where
  "metered (OpCreate now uuid req) (s, m) =
     (case CreateFlag now uuid req s of
        (Inr flag, s1) \<Rightarrow> (s1, counted ''created'' s m)
      | (Inl e, s1) \<Rightarrow> (s1, m))"
| "metered (OpUpdate now i req) (s, m) =
     (case UpdateFlag now i req s of
        (Inr (Some flag), s1) \<Rightarrow> (s1, counted ''updated'' s m)
      | (r, s1) \<Rightarrow> (s1, m))"
| "metered (OpToggle now i) (s, m) =
     (case ToggleFlag now i s of
        (Inr (Some flag), s1) \<Rightarrow> (s1, counted ''toggled'' s m)
      | (r, s1) \<Rightarrow> (s1, m))"
| "metered (OpDelete now i) (s, m) =
     (case DeleteFlag now i s of
        (Inr u, s1) \<Rightarrow> (s1, counted ''deleted'' s m)
      | (Inl e, s1) \<Rightarrow> (s1, m))"
| "metered w (s, m) = (run_op w s, m)"

definition metered_run :: "op list \<Rightarrow> server \<times> instruments \<Rightarrow> server \<times> instruments" where
  "metered_run ws x = foldl (\<lambda>x w. metered w x) x ws"

lemma metered_server: "fst (metered w (s, m)) = run_op w s"
  by (cases w) (simp_all split: prod.split sum.split option.split)

definition updates_total :: "instruments \<Rightarrow> nat" where
  "updates_total m = FlagUpdates m ''created'' + FlagUpdates m ''updated'' + FlagUpdates m ''toggled'' + FlagUpdates m ''deleted''"

text \<open>An update without a field changes nothing, but its flag is published and counted.\<close>

fun empty_update :: "op \<Rightarrow> bool" where
  "empty_update (OpUpdate now i req) \<longleftrightarrow> no_fields req"
| "empty_update _ \<longleftrightarrow> False"

lemma counted_sel [simp]:
  "a \<in> {''created'', ''updated'', ''toggled'', ''deleted''} \<Longrightarrow> updates_total (counted a s m) = Suc (updates_total m)"
  "RedisPublishErrors (counted a s m) = RedisPublishErrors m + (if redis_up s then 0 else 1)"
  by (auto simp: counted_def updates_total_def ObserveFlagUpdate_def IncRedisPublishError_def Let_def)

text \<open>The books after one operation that counted \<open>c\<close> mutations and logged \<open>n\<close> events.\<close>

definition booked :: "nat \<Rightarrow> nat \<Rightarrow> server \<times> instruments \<Rightarrow> server \<times> instruments \<Rightarrow> bool" where
  "booked c n x y \<longleftrightarrow>
     updates_total (snd y) = updates_total (snd x) + c \<and>
     length (bus (fst y)) + publish_errors (fst y) = length (bus (fst x)) + publish_errors (fst x) + c \<and>
     RedisPublishErrors (snd y) + publish_errors (fst x) = RedisPublishErrors (snd x) + publish_errors (fst y) \<and>
     length (events (sdb (fst y))) = length (events (sdb (fst x))) + n"

lemma booked_end:
  assumes "a \<in> {''created'', ''updated'', ''toggled'', ''deleted''}" "length (events d) = length (events (sdb s)) + n"
    and "y = (case p of None \<Rightarrow> (s\<lparr>sdb := d\<rparr>, m) | Some env \<Rightarrow> (Publish env (s\<lparr>sdb := d\<rparr>), counted a s m))"
  shows "booked (if p = None then 0 else 1) n (s, m) y"
  using assms by (cases p) (simp_all add: booked_def Publish_def)

lemma logged_by:
  "Create now uuid creq d = (Inr flag, d1) \<Longrightarrow> length (events d1) = length (events d) + 1"
  "Create now uuid creq d = (Inl e, d1) \<Longrightarrow> events d1 = events d"
  "Update now i req d = (Inr (Some flag), d1) \<Longrightarrow> length (events d1) = length (events d) + (if no_fields req then 0 else 1)"
  "Update now i req d = (Inr None, d1) \<Longrightarrow> events d1 = events d"
  "Update now i req d = (Inl e, d1) \<Longrightarrow> events d1 = events d"
  "Toggle now i d = (Inr (Some flag), d1) \<Longrightarrow> length (events d1) = length (events d) + 1"
  "Toggle now i d = (Inr None, d1) \<Longrightarrow> events d1 = events d"
  "Toggle now i d = (Inl e, d1) \<Longrightarrow> events d1 = events d"
  "Delete now i d = (Inr v, d1) \<Longrightarrow> length (events d1) = length (events d) + 1"
  "Delete now i d = (Inl e, d1) \<Longrightarrow> events d1 = events d"
  by (auto simp: Create_def create_tx_def Update_def update_tx_def Toggle_def toggle_tx_def Delete_def delete_tx_def
      nextVersion_def appendEvent_def replace_row_def Let_def split: option.splits if_splits)

lemma metered_booked:
  "\<exists>c n. booked c n x (metered w x) \<and> n \<le> c \<and> (\<not> empty_update w \<longrightarrow> n = c)"
proof -
  obtain s m where x: "x = (s, m)" by (cases x)
  have silent: ?thesis if "metered w x = (s, m)"
    using that by (intro exI [of _ 0]) (simp add: x booked_def)
  have ended: ?thesis
    if "metered w x = (case p of None \<Rightarrow> (s\<lparr>sdb := d\<rparr>, m) | Some env \<Rightarrow> (Publish env (s\<lparr>sdb := d\<rparr>), counted a s m))"
      "a \<in> {''created'', ''updated'', ''toggled'', ''deleted''}"
      "length (events d) = length (events (sdb s)) + (if p = None \<or> empty_update w then 0 else 1)" for p d a
    using booked_end [OF that(2,3,1)] unfolding x by (intro exI conjI) auto
  show ?thesis
  proof (cases w)
    case (OpCreate now uuid req)
    obtain r d where c: "Create now uuid req (sdb s) = (r, d)" by fastforce
    define p where "p = (case r of Inl e \<Rightarrow> None | Inr flag \<Rightarrow> Some (EnvUpdated (version flag) flag))"
    have "metered w x = (s, m) \<or> metered w x =
        (case p of None \<Rightarrow> (s\<lparr>sdb := d\<rparr>, m) | Some env \<Rightarrow> (Publish env (s\<lparr>sdb := d\<rparr>), counted ''created'' s m))"
      unfolding x OpCreate
      by (simp add: CreateFlag_def c p_def publishFlagUpdate_def Let_def split: option.split sum.split)
    moreover have "length (events d) = length (events (sdb s)) + (if p = None \<or> empty_update w then 0 else 1)"
      using c OpCreate by (cases r) (simp_all add: p_def logged_by)
    ultimately show ?thesis using silent ended by blast
  next
    case (OpUpdate now i req)
    obtain r d where c: "Update now i req (sdb s) = (r, d)" by fastforce
    define p where "p = (case r of Inr (Some flag) \<Rightarrow> Some (EnvUpdated (version flag) flag) | _ \<Rightarrow> None)"
    have "metered w x = (s, m) \<or> metered w x =
        (case p of None \<Rightarrow> (s\<lparr>sdb := d\<rparr>, m) | Some env \<Rightarrow> (Publish env (s\<lparr>sdb := d\<rparr>), counted ''updated'' s m))"
      unfolding x OpUpdate
      by (simp add: UpdateFlag_def c p_def publishFlagUpdate_def Let_def split: option.split sum.split)
    moreover have "length (events d) = length (events (sdb s)) + (if p = None \<or> empty_update w then 0 else 1)"
      using c OpUpdate by (auto simp: p_def logged_by split: sum.split option.split)
    ultimately show ?thesis using silent ended by blast
  next
    case (OpToggle now i)
    obtain r d where c: "Toggle now i (sdb s) = (r, d)" by fastforce
    define p where "p = (case r of Inr (Some flag) \<Rightarrow> Some (EnvUpdated (version flag) flag) | _ \<Rightarrow> None)"
    have "metered w x =
        (case p of None \<Rightarrow> (s\<lparr>sdb := d\<rparr>, m) | Some env \<Rightarrow> (Publish env (s\<lparr>sdb := d\<rparr>), counted ''toggled'' s m))"
      unfolding x OpToggle
      by (simp add: ToggleFlag_def c p_def publishFlagUpdate_def Let_def split: option.split sum.split)
    moreover have "length (events d) = length (events (sdb s)) + (if p = None \<or> empty_update w then 0 else 1)"
      using c OpToggle by (auto simp: p_def logged_by split: sum.split option.split)
    ultimately show ?thesis using ended by blast
  next
    case (OpDelete now i)
    obtain r d where c: "Delete now i (sdb s) = (r, d)" by fastforce
    define p where "p k = (case r of Inl e \<Rightarrow> None | Inr v \<Rightarrow> Some (EnvDeleted v k))" for k
    have "metered w x = (s, m) \<or> (\<exists>k. metered w x =
        (case p k of None \<Rightarrow> (s\<lparr>sdb := d\<rparr>, m) | Some env \<Rightarrow> (Publish env (s\<lparr>sdb := d\<rparr>), counted ''deleted'' s m)))"
      unfolding x OpDelete
      by (auto simp: DeleteFlag_def c p_def publishFlagDelete_def Let_def split: option.split sum.split)
    moreover have "length (events d) = length (events (sdb s)) + (if p k = None \<or> empty_update w then 0 else 1)" for k
      using c OpDelete by (cases r) (simp_all add: p_def logged_by)
    ultimately show ?thesis using silent ended by blast
  next
    case (OpDatabase b)
    then show ?thesis by (intro exI [of _ 0]) (simp add: x booked_def)
  next
    case (OpRedis b)
    then show ?thesis by (intro exI [of _ 0]) (simp add: x booked_def)
  qed
qed

lemma booked_trans: "booked c n x y \<Longrightarrow> booked c' n' y z \<Longrightarrow> booked (c + c') (n + n') x z"
  by (auto simp: booked_def)

lemma metered_run_booked:
  "\<exists>c n. booked c n x (metered_run ws x) \<and> n \<le> c \<and> (list_all (\<lambda>w. \<not> empty_update w) ws \<longrightarrow> n = c)"
proof (induction ws arbitrary: x)
  case Nil
  show ?case by (intro exI [of _ 0]) (simp add: metered_run_def booked_def)
next
  case (Cons w ws)
  obtain c n where one: "booked c n x (metered w x)" "n \<le> c" "\<not> empty_update w \<longrightarrow> n = c"
    using metered_booked by blast
  obtain c' n' where rest: "booked c' n' (metered w x) (metered_run ws (metered w x))" "n' \<le> c'"
      "list_all (\<lambda>w. \<not> empty_update w) ws \<longrightarrow> n' = c'"
    using Cons.IH by blast
  have "metered_run (w # ws) x = metered_run ws (metered w x)" by (simp add: metered_run_def)
  then have "booked (c + c') (n + n') x (metered_run (w # ws) x)" using booked_trans [OF one(1) rest(1)] by simp
  then show ?case using one(2,3) rest(2,3) by (intro exI [of _ "c + c'"] exI [of _ "n + n'"]) auto
qed

lemma metered_run_server: "fst (metered_run ws x) = foldl (\<lambda>s w. run_op w s) (fst x) ws"
proof (induction ws arbitrary: x)
  case (Cons w ws)
  then show ?case using metered_server [of w "fst x" "snd x"] by (simp add: metered_run_def)
qed (simp add: metered_run_def)

section \<open>Connected clients\<close>

text \<open>The calls of \<open>SetConnectedClients\<close> in the branches of \<open>Run\<close>.\<close>

fun gauged :: "'e node_input \<Rightarrow> 'e node \<Rightarrow> instruments \<Rightarrow> instruments" where
  "gauged Connect n m =
     (if br_down (nd_broker n) then m
      else SetConnectedClients (length (br_clients (nd_broker (node_do Connect n)))) m)"
| "gauged (Announce e) n m =
     (if br_down (nd_broker n) then m
      else SetConnectedClients (length (br_clients (nd_broker (node_do (Announce e) n)))) m)"
| "gauged (Deliver c) n m = m"
| "gauged (SeeClosed c) n m =
     (if \<not> br_down (nd_broker n) \<and> c \<in> set (br_clients (nd_broker n))
      then SetConnectedClients (length (br_clients (nd_broker (node_do (SeeClosed c) n)))) m else m)"
| "gauged (Quit c) n m =
     (if \<not> br_down (nd_broker n) \<and> c \<in> set (br_clients (nd_broker n))
      then SetConnectedClients (length (br_clients (nd_broker (node_do (Quit c) n)))) m else m)"
| "gauged Stop n m = (if br_down (nd_broker n) then m else SetConnectedClients 0 m)"

inductive metered_node :: "'e node \<Rightarrow> instruments \<Rightarrow> bool" where
  metered_start: "metered_node node_start no_instruments"
| metered_step: "metered_node n m \<Longrightarrow> node_can i n \<Longrightarrow> metered_node (node_do i n) (gauged i n m)"

lemma gauge_counts:
  assumes "metered_node n m"
  shows "SSEConnectedClients m = int (ClientCount (nd_broker n))"
  using assms
proof induction
  case metered_start
  show ?case by (simp add: node_start_def NewBroker_def ClientCount_def no_instruments_def)
next
  case (metered_step n m i)
  have down: "br_down (Broadcast e b) = br_down b" for e :: 'a and b
  proof -
    have "br_down (foldl (send_client e) b cs) = br_down b" for cs b
      by (induction cs arbitrary: b) (simp_all add: send_client_def)
    then show ?thesis by (simp add: Broadcast_def)
  qed
  have shut: "br_down (Shutdown b)" for b :: "'a broker" by (simp add: Shutdown_def)
  show ?case
    using metered_step.IH
    by (cases i)
      (auto simp: ClientCount_def SetConnectedClients_def handler_returns_def broker_register_def broker_unregister_def
        down shut Let_def)
qed

section \<open>The instruments tell what happened\<close>

text \<open>C39: Every mutation that is counted was published or is among the failures, and none else is; every event of the log is
  counted, and when no update was empty nothing else is, whatever the outages of Redis and of the database. So the counter,
  said to count what was published, counts mutations nobody was told of, and empty updates that changed nothing. The gauge
  of connected clients is, after every step of the broker, the number of clients it has registered. The propagation delays
  are those of the dated envelopes, none of them negative however the clocks differ.\<close>

theorem metrics_tell_what_happened:
  fixes ws :: "op list"
  assumes "metered_node n g"
  defines "x \<equiv> metered_run ws (empty_server, no_instruments)"
  shows "fst x = foldl (\<lambda>s w. run_op w s) empty_server ws \<and>
    updates_total (snd x) = length (bus (fst x)) + RedisPublishErrors (snd x) \<and>
    RedisPublishErrors (snd x) = publish_errors (fst x) \<and>
    length (events (sdb (fst x))) \<le> updates_total (snd x) \<and>
    (list_all (\<lambda>w. \<not> empty_update w) ws \<longrightarrow> length (events (sdb (fst x))) = updates_total (snd x)) \<and>
    SSEConnectedClients g = int (ClientCount (nd_broker n)) \<and>
    ConfigPropagation (fold observed es no_instruments) =
      map (\<lambda>(ts, now). max 0 (now - ts)) (filter (\<lambda>(ts, now). 0 < ts) es)"
proof -
  have "updates_total no_instruments = 0" "RedisPublishErrors no_instruments = 0" "ConfigPropagation no_instruments = []"
    by (simp_all add: updates_total_def no_instruments_def)
  then show ?thesis
    using metered_run_booked [of "(empty_server, no_instruments)" ws] metered_run_server [of ws "(empty_server, no_instruments)"]
      gauge_counts [OF assms(1)] delays_observed [of es no_instruments]
    by (auto simp: x_def booked_def empty_server_def empty_db_def)
qed

text \<open>A create, an empty update, and a toggle while Redis is down: three mutations counted, two announced, two logged.\<close>

definition one_flag :: "utext CreateFlagInput" where
  "one_flag = \<lparr>c_key = ascii ''a'', c_description = [], c_enabled = False, c_rollout_percentage = 0, c_targeted_users = []\<rparr>"

definition three_mutations :: "op list" where
  "three_mutations =
     [OpCreate 0 (ascii ''1'') one_flag,
      OpUpdate 1 (ascii ''1'') \<lparr>u_description = None, u_enabled = None, u_rollout_percentage = None, u_targeted_users = None,
        ExpectedVersion = None\<rparr>,
      OpRedis False, OpToggle 2 (ascii ''1'')]"

theorem metrics_tell_what_happened_witness:
  "updates_total (snd (metered_run three_mutations (empty_server, no_instruments))) = 3 \<and>
   length (bus (fst (metered_run three_mutations (empty_server, no_instruments)))) = 2 \<and>
   length (events (sdb (fst (metered_run three_mutations (empty_server, no_instruments))))) = 2 \<and>
   SSEConnectedClients (gauged Connect (node_start :: nat node) no_instruments) = 1 \<and>
   ConfigPropagation (fold observed [(5, 9), (0, 9), (7, 6)] no_instruments) = [4, 0]"
proof -
  let ?x = "metered_run three_mutations (empty_server, no_instruments)"
  have n: "metered_node (node_do Connect (node_start :: nat node)) (gauged Connect (node_start :: nat node) no_instruments)"
    by (rule metered_step [OF metered_start]) simp
  have s: "foldl (\<lambda>s w. run_op w s) empty_server three_mutations = fst ?x" by (simp add: metered_run_server)
  have "length (bus (fst ?x)) = 2" "length (events (sdb (fst ?x))) = 2" "publish_errors (fst ?x) = 1"
    unfolding s [symmetric]
    by (simp_all add: three_mutations_def one_flag_def empty_server_def empty_db_def CreateFlag_def create_error_def GetByKey_def
        row_by_key_def Create_def nextVersion_def create_tx_def constraint_error_def row_by_id_def appendEvent_def publish_defs
        Publish_def UpdateFlag_def Update_def no_fields_def GetByID_def ToggleFlag_def Toggle_def toggle_tx_def replace_row_def
        utf8_def utf8_char_def ascii_def keyRegex_def key_byte_def Let_def)
  then show ?thesis
    using metrics_tell_what_happened [OF n, of three_mutations "[(5, 9), (0, 9), (7, 6)]"]
    by (simp add: node_start_def NewBroker_def ClientCount_def broker_register_def Let_def)
qed

end
