(* ===== verification/Drain.thy ===== *)
theory Drain
  imports Broker
begin

text \<open>
  The end of a server process (\<^verbatim>\<open>cmd/server/main.go\<close>): the signal, the subscriber's context, the broker that is
  shut down in a goroutine of its own, \<^verbatim>\<open>srv.Shutdown\<close> with its deadline, and the exit. Around the node of theory
  Broker, its handlers and the requests that are under way; the goroutines take their steps in any order.
  \<^verbatim>\<open>srv.Shutdown\<close> is what its documentation says: the listeners are closed, idle connections too, and it waits until
  no connection is busy or the context ends.
\<close>

section \<open>The process\<close>

text \<open>Where \<^verbatim>\<open>main\<close> is; the flag says whether \<^verbatim>\<open>srv.Shutdown\<close> returned without an error.\<close>

datatype main_at =
    Serving | AtStopSub | AtGoShutdown | AtHttpShutdown | InHttpShutdown | HttpDown bool | Finished bool
  | FailStopSub | FailShutdown | FailWait | FailedExit

text \<open>
  \<open>sp_new\<close> counts connections that were accepted and have not sent their request, \<open>sp_plain\<close> requests that are
  not streams. As a history: the streams whose client went away, and those registered when the broker stopped.
\<close>

record 'e process =
  sp_main :: main_at
  sp_listening :: bool
  sp_cancelled :: bool
  sp_subscriber :: bool
  sp_asked :: bool
  sp_new :: nat
  sp_plain :: nat
  sp_node :: "'e node"
  sp_quit :: "nat list"
  sp_stopped :: "nat list"

definition process_start :: "'e process" where
  "process_start =
     \<lparr>sp_main = Serving, sp_listening = True, sp_cancelled = False, sp_subscriber = True, sp_asked = False,
      sp_new = 0, sp_plain = 0, sp_node = node_start, sp_quit = [], sp_stopped = []\<rparr>"

datatype 'e process_input =
    Signal | ServeError | MainNext | ShutdownReturns | DeadlineEnds
  | Accept | HangUp | StreamRequest | PlainRequest | PlainDone
  | Message 'e | SubscriberEnds | BrokerStops
  | Handler "'e node_input"

text \<open>The steps a handler of the node takes by itself or because its client goes.\<close>

fun handler_step :: "'e node_input \<Rightarrow> bool" where
  "handler_step (Deliver c) \<longleftrightarrow> True"
| "handler_step (SeeClosed c) \<longleftrightarrow> True"
| "handler_step (Quit c) \<longleftrightarrow> True"
| "handler_step _ \<longleftrightarrow> False"

definition streams_running :: "'e node \<Rightarrow> nat set" where
  "streams_running n = {..<nd_next n} - set (nd_ended n)"

definition busy :: "'e process \<Rightarrow> bool" where
  "busy s \<longleftrightarrow> sp_new s \<noteq> 0 \<or> sp_plain s \<noteq> 0 \<or> streams_running (sp_node s) \<noteq> {}"

definition over :: "main_at \<Rightarrow> bool" where
  "over m \<longleftrightarrow> m = FailedExit \<or> m = Finished True \<or> m = Finished False"

fun main_next :: "main_at \<Rightarrow> bool \<Rightarrow> main_at option" where
  "main_next AtStopSub down = Some AtGoShutdown"
| "main_next AtGoShutdown down = Some AtHttpShutdown"
| "main_next AtHttpShutdown down = Some InHttpShutdown"
| "main_next (HttpDown ok) down = Some (Finished ok)"
| "main_next FailStopSub down = Some FailShutdown"
| "main_next FailShutdown down = Some FailWait"
| "main_next FailWait down = (if down then Some FailedExit else None)"
| "main_next _ down = None"

fun process_can :: "'e process_input \<Rightarrow> 'e process \<Rightarrow> bool" where
  "process_can Signal s \<longleftrightarrow> sp_main s = Serving"
| "process_can ServeError s \<longleftrightarrow> sp_main s = Serving"
| "process_can MainNext s \<longleftrightarrow> main_next (sp_main s) (br_down (nd_broker (sp_node s))) \<noteq> None"
| "process_can ShutdownReturns s \<longleftrightarrow> sp_main s = InHttpShutdown \<and> \<not> busy s"
| "process_can DeadlineEnds s \<longleftrightarrow> sp_main s = InHttpShutdown"
| "process_can Accept s \<longleftrightarrow> sp_listening s \<and> \<not> over (sp_main s)"
| "process_can HangUp s \<longleftrightarrow> sp_new s \<noteq> 0 \<and> \<not> over (sp_main s)"
| "process_can StreamRequest s \<longleftrightarrow> sp_new s \<noteq> 0 \<and> \<not> over (sp_main s)"
| "process_can PlainRequest s \<longleftrightarrow> sp_new s \<noteq> 0 \<and> \<not> over (sp_main s)"
| "process_can PlainDone s \<longleftrightarrow> sp_plain s \<noteq> 0 \<and> \<not> over (sp_main s)"
| "process_can (Message e) s \<longleftrightarrow> sp_subscriber s \<and> \<not> over (sp_main s)"
| "process_can SubscriberEnds s \<longleftrightarrow> sp_subscriber s \<and> sp_cancelled s \<and> \<not> over (sp_main s)"
| "process_can BrokerStops s \<longleftrightarrow> sp_asked s \<and> \<not> br_down (nd_broker (sp_node s)) \<and> \<not> over (sp_main s)"
| "process_can (Handler i) s \<longleftrightarrow> handler_step i \<and> node_can i (sp_node s) \<and> \<not> over (sp_main s)"

text \<open>What a step of \<^verbatim>\<open>main\<close> does beside moving on.\<close>

definition main_acts :: "main_at \<Rightarrow> 'e process \<Rightarrow> 'e process" where
  "main_acts m s =
     (if m = AtStopSub \<or> m = FailStopSub then s\<lparr>sp_cancelled := True\<rparr>
      else if m = AtGoShutdown \<or> m = FailShutdown then s\<lparr>sp_asked := True\<rparr>
      else if m = AtHttpShutdown then s\<lparr>sp_listening := False\<rparr>
      else s)"

fun process_do :: "'e process_input \<Rightarrow> 'e process \<Rightarrow> 'e process" where
  "process_do Signal s = s\<lparr>sp_main := AtStopSub\<rparr>"
| "process_do ServeError s = s\<lparr>sp_main := FailStopSub, sp_listening := False\<rparr>"
| "process_do MainNext s =
     (case main_next (sp_main s) (br_down (nd_broker (sp_node s))) of
        None \<Rightarrow> s
      | Some m \<Rightarrow> (main_acts (sp_main s) s)\<lparr>sp_main := m\<rparr>)"
| "process_do ShutdownReturns s = s\<lparr>sp_main := HttpDown True\<rparr>"
| "process_do DeadlineEnds s = s\<lparr>sp_main := HttpDown False\<rparr>"
| "process_do Accept s = s\<lparr>sp_new := Suc (sp_new s)\<rparr>"
| "process_do HangUp s = s\<lparr>sp_new := sp_new s - 1\<rparr>"
| "process_do StreamRequest s = s\<lparr>sp_new := sp_new s - 1, sp_node := node_do Connect (sp_node s)\<rparr>"
| "process_do PlainRequest s = s\<lparr>sp_new := sp_new s - 1, sp_plain := Suc (sp_plain s)\<rparr>"
| "process_do PlainDone s = s\<lparr>sp_plain := sp_plain s - 1\<rparr>"
| "process_do (Message e) s = s\<lparr>sp_node := node_do (Announce e) (sp_node s)\<rparr>"
| "process_do SubscriberEnds s = s\<lparr>sp_subscriber := False\<rparr>"
| "process_do BrokerStops s =
     s\<lparr>sp_node := node_do Stop (sp_node s), sp_stopped := br_clients (nd_broker (sp_node s))\<rparr>"
| "process_do (Handler i) s =
     s\<lparr>sp_node := node_do i (sp_node s), sp_quit := (case i of Quit c \<Rightarrow> c # sp_quit s | _ \<Rightarrow> sp_quit s)\<rparr>"

inductive process_reach :: "'e process \<Rightarrow> bool" where
  process_init: "process_reach process_start"
| process_next: "process_reach s \<Longrightarrow> process_can i s \<Longrightarrow> process_reach (process_do i s)"

section \<open>What the handlers keep\<close>

text \<open>A handler that ended although its client was there has read its channel to the end.\<close>

definition read_out :: "nat list \<Rightarrow> 'e node \<Rightarrow> bool" where
  "read_out quit n \<longleftrightarrow> (\<forall>c \<in> set (nd_ended n) - set quit. br_chan (nd_broker n) c = [])"

definition complete :: "'e node \<Rightarrow> nat \<Rightarrow> bool" where
  "complete n c \<longleftrightarrow> behind n c = drop (nd_joined n c) (nd_log n)"

lemma read_outD: "read_out quit n \<Longrightarrow> c \<in> set (nd_ended n) \<Longrightarrow> c \<notin> set quit \<Longrightarrow> br_chan (nd_broker n) c = []"
  by (simp add: read_out_def)

lemma announced_chan:
  assumes "node_inv n" "c \<notin> set (br_clients (nd_broker n))"
  shows "br_chan (nd_broker (node_do (Announce e) n)) c = br_chan (nd_broker n) c"
proof -
  have "distinct (br_clients (nd_broker n))" using assms(1) by (simp add: node_inv_def clients_ok_def Let_def)
  then show ?thesis using assms(2) send_all [of "br_clients (nd_broker n)" e "nd_broker n"] by (simp add: Broadcast_def)
qed

lemma unregister_chan [simp]: "br_chan (broker_unregister c b) = br_chan b"
  by (simp add: broker_unregister_def)

lemma register_chan [simp]: "br_chan (broker_register c b) = br_chan b" "br_down (broker_register c b) = br_down b"
  by (simp_all add: broker_register_def)

lemma shutdown_chan [simp]: "br_chan (Shutdown b) = br_chan b" "br_down (Shutdown b)"
  using close_all [of b "br_clients b"] by (auto simp: Shutdown_def)

lemma read_out_step:
  assumes "node_inv n" "node_can i n" "read_out quit n"
  shows "read_out (case i of Quit c \<Rightarrow> c # quit | _ \<Rightarrow> quit) (node_do i n)"
proof (cases i)
  case Connect
  have "br_chan (nd_broker n) (nd_next n) = []" using assms(1) by (simp add: node_inv_def behind_def)
  then show ?thesis using Connect assms(3) by (auto simp: read_out_def Let_def)
next
  case (Announce e)
  have "br_chan (nd_broker (node_do (Announce e) n)) c = []" if "c \<in> set (nd_ended n) - set quit" for c
  proof -
    have "c \<notin> set (br_clients (nd_broker n))" using that assms(1) by (auto simp: node_inv_def clients_ok_def Let_def)
    from announced_chan [OF assms(1) this, of e] show ?thesis using that assms(3) by (simp add: read_out_def)
  qed
  then show ?thesis using Announce by (auto simp: read_out_def)
qed (use assms in \<open>auto simp: read_out_def handler_returns_def serving_handler_def Let_def\<close>)

lemma complete_step:
  assumes "node_inv n" "node_can i n" "br_down (nd_broker n)" "complete n c"
  shows "complete (node_do i n) c"
  using assms by (cases i) (auto simp: complete_def behind_def handler_returns_def Let_def)

lemma down_step: "br_down (nd_broker n) \<Longrightarrow> br_down (nd_broker (node_do i n))"
  by (cases i) (auto simp: handler_returns_def broker_unregister_def Let_def)

lemma stop_complete:
  assumes "node_inv n" "c \<in> set (br_clients (nd_broker n))"
  shows "complete (node_do Stop n) c"
  using assms by (auto simp: complete_def behind_def node_inv_def channel_ok_def)

section \<open>The invariant of the process\<close>

definition shutting :: "main_at \<Rightarrow> bool" where
  "shutting m \<longleftrightarrow> (case m of InHttpShutdown \<Rightarrow> True | HttpDown b \<Rightarrow> True | Finished b \<Rightarrow> True | _ \<Rightarrow> False)"

definition went_well :: "main_at \<Rightarrow> bool" where
  "went_well m \<longleftrightarrow> m = HttpDown True \<or> m = Finished True"

definition process_inv :: "'e process \<Rightarrow> bool" where
  "process_inv s \<longleftrightarrow> node_reach (sp_node s) \<and> read_out (sp_quit s) (sp_node s) \<and>
     (\<forall>c \<in> set (sp_stopped s). complete (sp_node s) c) \<and>
     (\<not> br_down (nd_broker (sp_node s)) \<longrightarrow> sp_stopped s = []) \<and>
     (shutting (sp_main s) \<longrightarrow> \<not> sp_listening s \<and> sp_asked s \<and> sp_cancelled s) \<and>
     (sp_main s = AtHttpShutdown \<longrightarrow> sp_asked s \<and> sp_cancelled s) \<and> (sp_main s = AtGoShutdown \<longrightarrow> sp_cancelled s) \<and>
     (went_well (sp_main s) \<longrightarrow> \<not> busy s)"

lemma busy_cong:
  "sp_new s' = sp_new s \<Longrightarrow> sp_plain s' = sp_plain s \<Longrightarrow> streams_running (sp_node s') = streams_running (sp_node s) \<Longrightarrow>
     busy s' = busy s"
  by (simp add: busy_def)

text \<open>A step that a goroutine of the node takes.\<close>

lemma process_inv_node:
  assumes "process_inv s" "node_can i (sp_node s)" "i \<noteq> Stop" "sp_main s' = sp_main s" "sp_node s' = node_do i (sp_node s)"
    "sp_listening s' = sp_listening s" "sp_asked s' = sp_asked s" "sp_cancelled s' = sp_cancelled s"
    "sp_quit s' = (case i of Quit c \<Rightarrow> c # sp_quit s | _ \<Rightarrow> sp_quit s)" "sp_stopped s' = sp_stopped s"
    "went_well (sp_main s) \<Longrightarrow> \<not> busy s'"
  shows "process_inv s'"
proof -
  let ?n = "sp_node s"
  have inv: "node_reach ?n" "read_out (sp_quit s) ?n" using assms(1) by (simp_all add: process_inv_def)
  note n = node_inv_reach [OF inv(1)]
  have down: "br_down (nd_broker ?n)" if "sp_stopped s \<noteq> []" using assms(1) that by (auto simp: process_inv_def)
  have "complete (node_do i ?n) c" if "c \<in> set (sp_stopped s)" for c
  proof -
    have "sp_stopped s \<noteq> []" using that by auto
    then show ?thesis using complete_step [OF n assms(2) down] that assms(1) by (simp add: process_inv_def)
  qed
  moreover have "read_out (sp_quit s') (node_do i ?n)"
    using read_out_step [OF n assms(2) inv(2)] assms(9) by simp
  moreover have "node_reach (node_do i ?n)" using inv(1) assms(2) by (rule node_next)
  moreover have "sp_stopped s = []" if "\<not> br_down (nd_broker (node_do i ?n))"
    using that down down_step [of ?n i] by blast
  ultimately show ?thesis using assms unfolding process_inv_def by (simp del: node_do.simps)
qed

lemma process_inv_rest:
  assumes "process_inv s" "sp_node s' = sp_node s" "sp_quit s' = sp_quit s" "sp_stopped s' = sp_stopped s"
    "shutting (sp_main s') \<Longrightarrow> \<not> sp_listening s' \<and> sp_asked s' \<and> sp_cancelled s'"
    "sp_main s' = AtHttpShutdown \<Longrightarrow> sp_asked s' \<and> sp_cancelled s'" "sp_main s' = AtGoShutdown \<Longrightarrow> sp_cancelled s'"
    "went_well (sp_main s') \<Longrightarrow> \<not> busy s'"
  shows "process_inv s'"
  using assms unfolding process_inv_def by simp

lemma went_well_shutting: "went_well m \<Longrightarrow> shutting m"
  by (auto simp: went_well_def shutting_def)

lemma main_next_inv:
  assumes "process_inv s" "process_can MainNext s"
  shows "process_inv (process_do MainNext s)"
  using assms
  by (cases "sp_main s"; simp add: main_acts_def process_inv_def shutting_def went_well_def busy_def streams_running_def
      split: if_splits)

lemma process_inv_step:
  assumes "process_inv s" "process_can i s"
  shows "process_inv (process_do i s)"
proof (cases i)
  case MainNext
  then show ?thesis using main_next_inv assms by blast
next
  case (Handler j)
  have "serving_handler c (sp_node s)" if "j = Quit c \<or> j = Deliver c \<or> j = SeeClosed c" for c
    using assms(2) that Handler by auto
  then have "streams_running (sp_node s) \<noteq> {}"
    using assms(2) Handler by (cases j) (auto simp: streams_running_def serving_handler_def)
  then have "\<not> went_well (sp_main s)" using assms(1) by (auto simp: process_inv_def busy_def)
  then show ?thesis
    using assms Handler by - (rule process_inv_node [of s j], auto simp del: node_do.simps node_can.simps)
next
  case StreamRequest
  then have "\<not> went_well (sp_main s)" using assms by (auto simp: process_inv_def busy_def)
  then show ?thesis using assms StreamRequest
    by - (rule process_inv_node [of s Connect], auto simp del: node_do.simps)
next
  case (Message e)
  have "busy (process_do (Message e) s) = busy s" by (simp add: busy_def streams_running_def)
  then show ?thesis
    using assms Message by - (rule process_inv_node [of s "Announce e"], auto simp: process_inv_def simp del: node_do.simps)
next
  case BrokerStops
  let ?n = "sp_node s"
  have inv: "node_reach ?n" "read_out (sp_quit s) ?n" using assms(1) by (simp_all add: process_inv_def)
  note n = node_inv_reach [OF inv(1)]
  have "node_reach (node_do Stop ?n)" by (rule node_next [OF inv(1)]) simp
  moreover have "read_out (sp_quit s) (node_do Stop ?n)" using read_out_step [OF n _ inv(2), of Stop] by simp
  moreover have "complete (node_do Stop ?n) c" if "c \<in> set (br_clients (nd_broker ?n))" for c
    using n that by (rule stop_complete)
  moreover have "busy (process_do BrokerStops s) = busy s" by (simp add: busy_def streams_running_def)
  ultimately show ?thesis using assms(1) BrokerStops by (auto simp: process_inv_def)
qed (use assms went_well_shutting in \<open>auto intro!: process_inv_rest [OF assms(1)] simp: process_inv_def shutting_def busy_def went_well_def split: if_splits\<close>)

lemma process_inv_reach: "process_reach s \<Longrightarrow> process_inv s"
proof (induction rule: process_reach.induct)
  case process_init
  show ?case by (simp add: process_inv_def process_start_def node_init read_out_def shutting_def went_well_def)
    (simp add: node_start_def)
next
  case (process_next s i)
  then show ?case by (blast intro: process_inv_step)
qed

section \<open>How much is left to do\<close>

text \<open>A step each for a stream that runs and for every event in its channel.\<close>

definition stream_load :: "'e node \<Rightarrow> nat \<Rightarrow> nat" where
  "stream_load n c = (if c \<in> set (nd_ended n) then 0 else Suc (length (br_chan (nd_broker n) c)))"

definition load :: "'e process \<Rightarrow> nat" where
  "load s = 2 * sp_new s + sp_plain s + (\<Sum>c<nd_next (sp_node s). stream_load (sp_node s) c)"

text \<open>Work is what answers requests and empties channels; the subscriber may still hand over messages.\<close>

fun work :: "'e process_input \<Rightarrow> bool" where
  "work HangUp \<longleftrightarrow> True"
| "work StreamRequest \<longleftrightarrow> True"
| "work PlainRequest \<longleftrightarrow> True"
| "work PlainDone \<longleftrightarrow> True"
| "work (Handler i) \<longleftrightarrow> True"
| "work _ \<longleftrightarrow> False"

fun background :: "'e process_input \<Rightarrow> bool" where
  "background (Message e) \<longleftrightarrow> True"
| "background SubscriberEnds \<longleftrightarrow> True"
| "background _ \<longleftrightarrow> False"

fun drain_run :: "'e process_input list \<Rightarrow> 'e process \<Rightarrow> 'e process option" where
  "drain_run [] s = Some s"
| "drain_run (i # is) s = (if (work i \<or> background i) \<and> process_can i s then drain_run is (process_do i s) else None)"

lemma handler_load:
  assumes "handler_step i" "node_can i n" "br_down (nd_broker n)"
  shows "(\<Sum>c<nd_next (node_do i n). stream_load (node_do i n) c) < (\<Sum>c<nd_next n. stream_load n c)"
proof -
  have nxt: "nd_next (node_do i n) = nd_next n"
    using assms(1) by (cases i) (simp_all add: handler_returns_def Let_def)
  have "stream_load (node_do i n) c \<le> stream_load n c" for c
    using assms by (cases i) (auto simp: stream_load_def handler_returns_def Let_def)
  moreover have "\<exists>c \<in> {..<nd_next n}. stream_load (node_do i n) c < stream_load n c"
    using assms by (cases i) (auto simp: stream_load_def handler_returns_def serving_handler_def Let_def)
  ultimately show ?thesis unfolding nxt by (intro sum_strict_mono_ex1) auto
qed

lemma connect_load:
  assumes "br_down (nd_broker n)"
  shows "(\<Sum>c<nd_next (node_do Connect n). stream_load (node_do Connect n) c) = (\<Sum>c<nd_next n. stream_load n c)"
proof -
  have "stream_load (node_do Connect n) c = stream_load n c" if "c < nd_next n" for c
    using that assms by (simp add: stream_load_def Let_def)
  moreover have "stream_load (node_do Connect n) (nd_next n) = 0" using assms by (simp add: stream_load_def Let_def)
  moreover have "nd_next (node_do Connect n) = Suc (nd_next n)" using assms by (simp add: Let_def)
  ultimately show ?thesis by (simp del: node_do.simps)
qed

lemma work_load:
  assumes "work i" "process_can i s" "br_down (nd_broker (sp_node s))"
  shows "load (process_do i s) < load s"
proof (cases i)
  case (Handler j)
  then show ?thesis using assms handler_load [of j "sp_node s"] by (simp add: load_def del: node_do.simps node_can.simps)
next
  case PlainRequest
  then show ?thesis using assms by (cases "sp_new s") (simp_all add: load_def)
qed (use assms connect_load [of "sp_node s"] in \<open>simp_all add: load_def del: node_do.simps\<close>)

lemma background_load:
  assumes "background i" "br_down (nd_broker (sp_node s))"
  shows "load (process_do i s) = load s"
  using assms by (cases i) (simp_all add: load_def)

lemma drain_keeps:
  assumes "work i \<or> background i" "process_can i s"
  shows "sp_main (process_do i s) = sp_main s" "br_down (nd_broker (sp_node s)) \<Longrightarrow> br_down (nd_broker (sp_node (process_do i s)))"
  using assms down_step [of "sp_node s"] by (cases i; simp del: node_do.simps)+

text \<open>As long as something is busy, the server can do some of the work itself.\<close>

lemma work_left:
  assumes "process_inv s" "sp_main s = InHttpShutdown" "br_down (nd_broker (sp_node s))" "busy s"
  shows "\<exists>i. work i \<and> process_can i s \<and> (\<forall>c. i \<noteq> Handler (Quit c))"
proof -
  let ?n = "sp_node s"
  have live: "\<not> over (sp_main s)" using assms(2) by (simp add: over_def)
  consider "sp_new s \<noteq> 0" | "sp_plain s \<noteq> 0" | c where "c \<in> streams_running ?n" using assms(4) by (auto simp: busy_def)
  then show ?thesis
  proof cases
    case 1
    then show ?thesis using live by (intro exI [of _ HangUp]) simp
  next
    case 2
    then show ?thesis using live by (intro exI [of _ PlainDone]) simp
  next
    case (3 c)
    have reach: "node_reach ?n" using assms(1) by (simp add: process_inv_def)
    have "br_clients (nd_broker ?n) = []"
      using node_inv_reach [OF reach] assms(3) by (simp add: node_inv_def clients_ok_def Let_def)
    then have "c \<in> set (br_closed (nd_broker ?n))"
      using node_never_stranded [OF reach] 3 by (auto simp: none_stranded_def streams_running_def)
    then have "node_can (if br_chan (nd_broker ?n) c = [] then SeeClosed c else Deliver c) ?n"
      using 3 by (simp add: serving_handler_def streams_running_def)
    then show ?thesis
      using live by (intro exI [of _ "Handler (if br_chan (nd_broker ?n) c = [] then SeeClosed c else Deliver c)"]) auto
  qed
qed

lemma drain_run_load:
  assumes "drain_run is s = Some s'" "process_reach s" "br_down (nd_broker (sp_node s))"
  shows "process_reach s' \<and> sp_main s' = sp_main s \<and> br_down (nd_broker (sp_node s')) \<and>
    length (filter work is) + load s' \<le> load s"
  using assms
proof (induction "is" arbitrary: s)
  case (Cons i "is")
  let ?s = "process_do i s"
  have i: "work i \<or> background i" "process_can i s" and run: "drain_run is ?s = Some s'"
    using Cons.prems(1) by (auto split: if_splits)
  have "process_reach ?s" using Cons.prems(2) i(2) by (rule process_next)
  then have "process_reach s' \<and> sp_main s' = sp_main ?s \<and> br_down (nd_broker (sp_node s')) \<and>
      length (filter work is) + load s' \<le> load ?s"
    using Cons.IH [OF run] drain_keeps(2) [OF i] Cons.prems(3) by blast
  moreover have "load ?s + (if work i then 1 else 0) \<le> load s"
    using i work_load [of i s] background_load [of i s] Cons.prems(3) by (auto simp: Suc_le_eq)
  ultimately show ?case using drain_keeps(1) [OF i] by (auto split: if_splits)
qed simp

section \<open>Properties of the shutdown\<close>

text \<open>C24: Once the broker has stopped, a server that waits in Shutdown drains by itself: however the remaining work is
  scheduled, and whatever the subscriber still hands over, at most as many steps are left as there are streams,
  events in their channels and requests; whenever something is still busy there is a step that needs no client to go
  away; and when nothing is left to do Shutdown can return.\<close>

theorem shutdown_drains:
  assumes "process_reach s" "sp_main s = InHttpShutdown" "br_down (nd_broker (sp_node s))" "drain_run is s = Some s'"
  shows "length (filter work is) \<le> load s \<and>
         (if busy s' then \<exists>i. work i \<and> process_can i s' \<and> (\<forall>c. i \<noteq> Handler (Quit c)) else process_can ShutdownReturns s')"
proof -
  have s': "process_reach s'" "sp_main s' = InHttpShutdown" "br_down (nd_broker (sp_node s'))"
    and len: "length (filter work is) \<le> load s"
    using drain_run_load [OF assms(4,1,3)] assms(2) by auto
  then show ?thesis using work_left [OF process_inv_reach [OF s'(1)] s'(2,3)] by auto
qed

fun process_run :: "'e process_input list \<Rightarrow> 'e process \<Rightarrow> 'e process" where
  "process_run [] s = s"
| "process_run (i # is) s = (if process_can i s then process_run is (process_do i s) else s)"

lemma process_run_reach: "process_reach s \<Longrightarrow> process_reach (process_run is s)"
  by (induction "is" arbitrary: s) (simp_all add: process_next)

text \<open>A stream with two events in its channel when the signal comes.\<close>

definition draining :: "nat process" where
  "draining = process_run [Accept, StreamRequest, Message 1, Message 2, Signal, MainNext, MainNext, MainNext, BrokerStops]
     process_start"

lemmas process_eval = process_start_def node_start_def NewBroker_def broker_register_def Broadcast_def send_client_def
  CHANNEL_CAP_def serving_handler_def handler_returns_def broker_unregister_def close_client_def Shutdown_def over_def
  main_acts_def Let_def

lemma draining_state:
  "sp_main draining = InHttpShutdown" "br_down (nd_broker (sp_node draining))" "load draining = 3"
  by (simp_all add: draining_def process_eval load_def stream_load_def lessThan_Suc)

theorem shutdown_drains_witness:
  "\<exists>s'. drain_run [Handler (Deliver 0), Message 3, Handler (Deliver 0), Handler (SeeClosed 0)] draining = Some s' \<and>
     process_can ShutdownReturns s'"
proof -
  have "\<exists>s'. drain_run [Handler (Deliver 0), Message 3, Handler (Deliver 0), Handler (SeeClosed 0)] draining = Some s' \<and> \<not> busy s'"
    by (simp add: draining_def process_eval busy_def streams_running_def lessThan_Suc)
  then show ?thesis
    using shutdown_drains [OF process_run_reach [OF process_init] draining_state(1,2) [unfolded draining_def]]
    unfolding draining_def by metis
qed

text \<open>C25: When Shutdown has returned in time nothing is under way any more, and no stream was cut off: one that was
  registered when the broker stopped, and whose client stayed, has been sent every event the node broadcast since it registered,
  and every other stream whose client stayed has been sent all that was ever put into its channel.\<close>

theorem drained_streams_are_complete:
  assumes "process_reach s" "went_well (sp_main s)"
  shows "\<not> busy s \<and> \<not> sp_listening s \<and>
         (\<forall>c \<in> set (sp_stopped s) - set (sp_quit s).
            nd_written (sp_node s) c = drop (nd_joined (sp_node s) c) (nd_log (sp_node s))) \<and>
         (\<forall>c \<in> {..<nd_next (sp_node s)} - set (sp_quit s).
            c \<in> set (nd_ended (sp_node s)) \<and> nd_written (sp_node s) c = behind (sp_node s) c)"
proof -
  let ?n = "sp_node s"
  have inv: "process_inv s" using assms(1) by (rule process_inv_reach)
  have idle: "\<not> busy s" "\<not> sp_listening s" using inv assms(2) went_well_shutting by (auto simp: process_inv_def)
  have all: "c \<in> set (nd_ended ?n) \<and> nd_written ?n c = behind ?n c" if "c < nd_next ?n" "c \<notin> set (sp_quit s)" for c
  proof -
    have "c \<in> set (nd_ended ?n)" using idle(1) that(1) by (auto simp: busy_def streams_running_def)
    then show ?thesis using inv that(2) by (auto simp: process_inv_def read_out_def behind_def)
  qed
  have "nd_written ?n c = drop (nd_joined ?n c) (nd_log ?n)" if "c \<in> set (sp_stopped s)" "c \<notin> set (sp_quit s)" for c
  proof (cases "c < nd_next ?n")
    case True
    then show ?thesis using all [of c] that inv by (auto simp: process_inv_def complete_def)
  next
    case False
    have "node_reach ?n" using inv by (simp add: process_inv_def)
    then have "behind ?n c = []" using False node_inv_reach [of ?n] by (simp add: node_inv_def)
    moreover have "complete ?n c" using that inv by (simp add: process_inv_def)
    ultimately show ?thesis by (metis append_is_Nil_conv behind_def complete_def)
  qed
  then show ?thesis using idle all by blast
qed

theorem drained_streams_are_complete_witness:
  "\<exists>s. process_reach s \<and> sp_main s = (Finished True :: main_at) \<and> sp_stopped s = [0] \<and> nd_written (sp_node s) 0 = [1, 2 :: nat] \<and>
     nd_log (sp_node s) = [1, 2]"
proof -
  define s :: "nat process" where
    "s = process_run [Handler (Deliver 0), Handler (Deliver 0), Handler (SeeClosed 0), ShutdownReturns, MainNext] draining"
  have r: "process_reach s" unfolding s_def draining_def by (intro process_run_reach process_init)
  have s: "sp_main s = Finished True" "sp_stopped s = [0]" "sp_quit s = []" "nd_joined (sp_node s) 0 = 0"
      "nd_log (sp_node s) = [1, 2]"
    by (simp_all add: s_def draining_def process_eval busy_def streams_running_def lessThan_Suc)
  then show ?thesis
    using drained_streams_are_complete [OF r] r by (auto simp: went_well_def)
qed

text \<open>Why the broker is stopped beside the wait: before, a stream with an empty channel takes no step of its own.\<close>

lemma idle_stream_waits:
  assumes "process_reach s" "c \<in> set (br_clients (nd_broker (sp_node s)))" "br_chan (nd_broker (sp_node s)) c = []"
  shows "\<not> node_can (Deliver c) (sp_node s) \<and> \<not> node_can (SeeClosed c) (sp_node s)"
proof -
  have "node_reach (sp_node s)" using process_inv_reach [OF assms(1)] by (simp add: process_inv_def)
  then show ?thesis using node_inv_reach [of "sp_node s"] assms(2,3) by (auto simp: node_inv_def clients_ok_def Let_def)
qed

end
