(* ===== verification/LoadStats.thy ===== *)
theory LoadStats
  imports Complex_Main "HOL-Library.Multiset" Prelude
begin

text \<open>
  The summary of measured samples in the load driver (\<^verbatim>\<open>pkg/ffclient/loadgen.go\<close>). Samples are the rationals that
  the floating-point numbers stand for, and arithmetic on them is exact: the rank is the ceiling of a product of a
  small number and a length, the mean is up to rounding.
\<close>

record stats =
  st_count :: nat
  st_min :: rat
  st_p50 :: rat
  st_p95 :: rat
  st_p99 :: rat
  st_max :: rat
  st_mean :: rat

definition rank :: "nat \<Rightarrow> rat \<Rightarrow> int" where
  "rank n p =
     (let r = \<lceil>p / 100 * of_nat n\<rceil>;
          r1 = (if r < 1 then 1 else r)
      in if r1 > int n then int n else r1)"

definition nearestRank :: "rat list \<Rightarrow> rat \<Rightarrow> rat" where
  "nearestRank sorted0 p =
     (let n = length sorted0
      in if n = 0 then 0 else sorted0 ! nat (rank n p - 1))"

definition Percentiles :: "rat list \<Rightarrow> stats" where
  "Percentiles samples =
     (let n = length samples
      in if n = 0
         then \<lparr>st_count = 0, st_min = 0, st_p50 = 0, st_p95 = 0, st_p99 = 0, st_max = 0, st_mean = 0\<rparr>
         else let sorted0 = sort samples
              in \<lparr>st_count = n, st_min = sorted0 ! 0, st_p50 = nearestRank sorted0 50, st_p95 = nearestRank sorted0 95,
                  st_p99 = nearestRank sorted0 99, st_max = sorted0 ! (n - 1),
                  st_mean = sum_list sorted0 / of_nat n\<rparr>)"

lemma rank_bounds:
  assumes "0 < n" "0 < p" "p \<le> 100"
  shows "1 \<le> rank n p" "rank n p \<le> int n" "p / 100 * of_nat n \<le> of_int (rank n p)" "of_int (rank n p) - 1 < p / 100 * of_nat n"
proof -
  let ?q = "p / 100 * of_nat n :: rat"
  have "0 < ?q" using assms by simp
  then have low: "1 \<le> \<lceil>?q\<rceil>" by (simp add: le_ceiling_iff)
  have "?q \<le> 1 * of_nat n" using assms by (intro mult_right_mono) simp_all
  then have "\<lceil>?q\<rceil> \<le> int n" by (simp add: ceiling_le_iff)
  then have r: "rank n p = \<lceil>?q\<rceil>" using low by (simp add: rank_def Let_def)
  show "1 \<le> rank n p" "rank n p \<le> int n" "?q \<le> of_int (rank n p)" "of_int (rank n p) - 1 < ?q"
    unfolding r using low \<open>\<lceil>?q\<rceil> \<le> int n\<close> by (simp_all, linarith)
qed

lemma sorted_counts:
  assumes "sorted xs" "i < length xs"
  shows "Suc i \<le> length (filter (\<lambda>x. x \<le> xs ! i) xs)" "length (filter (\<lambda>x. x < xs ! i) xs) \<le> i"
proof -
  have split: "xs = take (Suc i) xs @ drop (Suc i) xs" by simp
  have "\<forall>x \<in> set (take (Suc i) xs). x \<le> xs ! i"
    using assms by (auto simp: in_set_conv_nth sorted_nth_mono)
  then have "filter (\<lambda>x. x \<le> xs ! i) (take (Suc i) xs) = take (Suc i) xs" by (simp add: filter_id_conv)
  then have "length (filter (\<lambda>x. x \<le> xs ! i) xs) = Suc i + length (filter (\<lambda>x. x \<le> xs ! i) (drop (Suc i) xs))"
    using assms(2) by (subst split, simp only: filter_append length_append) simp
  then show "Suc i \<le> length (filter (\<lambda>x. x \<le> xs ! i) xs)" by simp
  have "\<forall>x \<in> set (drop i xs). \<not> x < xs ! i"
    using assms by (auto simp: in_set_conv_nth not_less sorted_nth_mono)
  then have "filter (\<lambda>x. x < xs ! i) (drop i xs) = []" by (simp add: filter_empty_conv)
  then have "length (filter (\<lambda>x. x < xs ! i) xs) = length (filter (\<lambda>x. x < xs ! i) (take i xs))"
    by (metis append_Nil2 append_take_drop_id filter_append)
  also have "\<dots> \<le> i" using length_filter_le [of _ "take i xs"] by (rule order_trans) simp
  finally show "length (filter (\<lambda>x. x < xs ! i) xs) \<le> i" .
qed

text \<open>
  The percentile is one of the samples; at least p percent of them are at most as large, and less than p percent are
  smaller.
\<close>

theorem nearest_rank_percentile:
  assumes "samples \<noteq> []" "0 < p" "p \<le> 100"
  defines "x \<equiv> nearestRank (sort samples) p"
  shows "x \<in> set samples \<and> p / 100 * of_nat (length samples) \<le> of_nat (length (filter (\<lambda>y. y \<le> x) samples)) \<and>
         of_nat (length (filter (\<lambda>y. y < x) samples)) < p / 100 * of_nat (length samples)"
proof -
  let ?n = "length samples" and ?xs = "sort samples"
  let ?i = "nat (rank ?n p - 1)"
  have "0 < ?n" using assms(1) by simp
  note r = rank_bounds [OF this assms(2,3)]
  have x: "x = ?xs ! ?i" using assms(1) by (simp add: x_def nearestRank_def)
  have i: "?i < length ?xs" using r(1,2) by simp
  have count: "length (filter P ?xs) = length (filter P samples)" for P :: "rat \<Rightarrow> bool"
    by (metis mset_filter mset_sort size_mset)
  have "x \<in> set samples" using i nth_mem [OF i] by (simp add: x)
  moreover have "of_int (rank ?n p) \<le> (of_nat (length (filter (\<lambda>y. y \<le> x) samples)) :: rat)"
  proof -
    have "rank ?n p \<le> int (length (filter (\<lambda>y. y \<le> x) samples))"
      using sorted_counts(1) [OF sorted_sort i] r(1) unfolding x count by linarith
    then show ?thesis by (metis of_int_le_iff of_int_of_nat_eq)
  qed
  moreover have "(of_nat (length (filter (\<lambda>y. y < x) samples)) :: rat) \<le> of_int (rank ?n p) - 1"
  proof -
    have "int (length (filter (\<lambda>y. y < x) samples)) \<le> rank ?n p - 1"
      using sorted_counts(2) [OF sorted_sort i] r(1) unfolding x count by linarith
    then have "(of_int (int (length (filter (\<lambda>y. y < x) samples))) :: rat) \<le> of_int (rank ?n p - 1)"
      by (simp only: of_int_le_iff)
    then show ?thesis by simp
  qed
  ultimately show ?thesis using r(3,4) by linarith
qed

end
