(* ===== verification/Typing.thy ===== *)
theory Typing
  imports System
begin

text \<open>
  The types of the data that flows through the system, beyond what the declarations of
  \<^verbatim>\<open>types/flag.ts\<close> and \<^verbatim>\<open>model/flag.go\<close> can say: which keys, percentages and versions a flag can have.
  The service checks them at its boundary (\<^verbatim>\<open>flag_service.go\<close>), and every flag anyone holds later keeps them.
\<close>

definition typed_config :: "utext FlagConfig \<Rightarrow> bool" where
  "typed_config f \<longleftrightarrow>
     keyRegex (utf8 (key f)) \<and> length (utf8 (key f)) \<le> 64 \<and>
     0 \<le> rollout_percentage f \<and> rollout_percentage f \<le> 100 \<and> 1 \<le> version f"

definition log_typed :: "db \<Rightarrow> bool" where
  "log_typed d \<longleftrightarrow> (\<forall>e \<in> set (events d). \<forall>f. payload_flag (payload e) = Some f \<longrightarrow> typed_config (as_config f))"

lemma log_typed_grow:
  assumes "log_typed d" "events d' = events d \<or>
    (\<exists>e. events d' = events d @ [e] \<and> (\<forall>f. payload_flag (payload e) = Some f \<longrightarrow> typed_config (as_config f)))"
  shows "log_typed d'"
  using assms by (auto simp: log_typed_def)

lemma row_typed:
  assumes "db_wf d" "log_typed d" "row_by_id d i = Some f"
  shows "typed_config (as_config f)" "0 \<le> seq d"
proof -
  have "f \<in> set (rows d)" using assms(1,3) by (simp add: db_wf_def row_by_id_Some)
  then have "log_state (events d) (key f) = Some f" using assms(1) by (metis db_wf_def row_by_key_Some)
  then obtain e where "e \<in> set (events d)" "payload_flag (payload e) = Some f" using log_state_Some by blast
  then show "typed_config (as_config f)" using assms(2) by (auto simp: log_typed_def)
  show "0 \<le> seq d" using assms(1) by (simp add: db_wf_def versions_ok_def)
qed

lemma Create_typed:
  assumes "db_wf d" "log_typed d" "create_error req = None"
  shows "log_typed (snd (Create now uuid req d))"
proof -
  have "0 \<le> seq d" using assms(1) by (simp add: db_wf_def versions_ok_def)
  then show ?thesis
    using assms(2,3)
    by (intro log_typed_grow [OF assms(2)])
      (auto simp: Create_def create_tx_def nextVersion_def Let_def appendEvent_def typed_config_def as_config_def
        create_error_def split: option.split if_splits)
qed

lemma Update_typed:
  assumes "db_wf d" "log_typed d" "case u_rollout_percentage req of Some p \<Rightarrow> 0 \<le> p \<and> p \<le> 100 | None \<Rightarrow> True"
  shows "log_typed (snd (Update now i req d))"
proof (cases "row_by_id d i")
  case None
  then show ?thesis
    using assms(2) by (intro log_typed_grow [OF assms(2)]) (simp add: Update_def update_tx_def nextVersion_def row_by_id_def)
next
  case (Some f)
  note row = row_typed [OF assms(1,2) Some]
  show ?thesis
    using assms(3) row Some
    by (intro log_typed_grow [OF assms(2)])
      (auto simp: Update_def update_tx_def nextVersion_def row_by_id_def Let_def appendEvent_def typed_config_def
        as_config_def set_fields_def replace_row_def split: option.splits if_splits)
qed

lemma Toggle_typed:
  assumes "db_wf d" "log_typed d"
  shows "log_typed (snd (Toggle now i d))"
proof (cases "row_by_id d i")
  case None
  then show ?thesis
    using assms(2) by (intro log_typed_grow [OF assms(2)]) (simp add: Toggle_def toggle_tx_def nextVersion_def row_by_id_def)
next
  case (Some f)
  note row = row_typed [OF assms Some]
  show ?thesis
    using row Some
    by (intro log_typed_grow [OF assms(2)])
      (auto simp: Toggle_def toggle_tx_def nextVersion_def row_by_id_def Let_def appendEvent_def typed_config_def
        as_config_def replace_row_def)
qed

lemma Delete_typed: "log_typed d \<Longrightarrow> log_typed (snd (Delete now i d))"
  by (rule log_typed_grow [of d])
    (auto simp: Delete_def delete_tx_def nextVersion_def Let_def appendEvent_def split: option.split)

lemma log_typed_op:
  assumes "db_wf (sdb s)" "log_typed (sdb s)"
  shows "log_typed (sdb (run_op w s))"
proof (cases w)
  case (OpCreate now uuid req)
  then show ?thesis
    using assms Create_typed [OF assms, of req now uuid]
    by (simp add: CreateFlag_def case_prod_beta Let_def publishFlagUpdate_def Publish_def split: option.split sum.split)
next
  case (OpUpdate now i req)
  then show ?thesis
    using assms Update_typed [OF assms, of req now i]
    by (auto simp: UpdateFlag_def case_prod_beta Let_def publishFlagUpdate_def Publish_def split: option.splits sum.splits if_splits)
next
  case (OpToggle now i)
  then show ?thesis
    using Toggle_typed [OF assms, of now i]
    by (simp add: ToggleFlag_def case_prod_beta Let_def publishFlagUpdate_def Publish_def split: option.split sum.split)
next
  case (OpDelete now i)
  then show ?thesis
    using assms Delete_typed [OF assms(2), of now i]
    by (simp add: DeleteFlag_def case_prod_beta Let_def publishFlagDelete_def Publish_def split: option.split sum.split)
qed (use assms in \<open>simp_all add: log_typed_def\<close>)

lemma hist_nonempty: "sys_reach y \<Longrightarrow> hist y \<noteq> []"
proof (induction rule: sys_reach.induct)
  case (sys_next y y')
  from sys_next(2) show ?case by cases (use sys_next in \<open>simp_all add: server_op_def client_input_def Let_def\<close>)
qed (simp add: sys_start_def)

text \<open>A history ends with the state the server started in.\<close>

lemma log_typed_reach: "sys_reach y \<Longrightarrow> log_typed (sdb (last (hist y))) \<Longrightarrow> log_typed (sdb (srv y))"
proof (induction rule: sys_reach.induct)
  case (sys_next y y')
  have wf: "db_wf (sdb (srv y))"
    using sys_inv_reach [OF sys_next(1)] by (simp add: sys_inv_def hist_ok_def server_inv_def)
  from sys_next(2) show ?case
  proof cases
    case (sys_write w)
    then have "log_typed (sdb (srv y))"
      using sys_next hist_nonempty [OF sys_next(1)] by (simp add: server_op_def Let_def)
    then show ?thesis using log_typed_op [OF wf] sys_write by (simp add: server_op_def Let_def)
  qed (use sys_next in \<open>simp add: client_input_def Let_def\<close>)
qed (simp add: sys_start_def)

lemma held_config_typed:
  assumes "sys_reach y" "log_typed (sdb (last (hist y)))" "map_get (cflags (sdk y)) k = Some f"
  shows "typed_config f \<and> key f = k \<and> version f \<le> configVersion (sdk y)"
proof -
  obtain e where e: "e \<in> set (events (sdb (srv y)))" "ev_version e = version f" "ev_version e \<le> configVersion (sdk y)"
      "key f = k" "map_option as_config (payload_flag (payload e)) = Some f"
    using client_flag_logged [OF assms(1,3)] by blast
  then show ?thesis using log_typed_reach [OF assms(1,2)] by (auto simp: log_typed_def)
qed

end
