(* ===== verification/Migrate.thy ===== *)
theory Migrate
  imports SseWire "HOL-Library.List_Lexorder" "HOL-Library.Char_ord"
begin

text \<open>
  Schema migrations at start-up (\<^verbatim>\<open>internal/migrate/migrate.go\<close>): every \<^verbatim>\<open>*.sql\<close> file, in the order of the
  names, applied in one transaction with the row that records it. Several replicas start at once and serialize on an
  advisory lock of the database. A replica is a program counter over the statements of \<^verbatim>\<open>Run\<close>; replicas take
  steps in any order, a statement can fail, a commit can succeed with its reply lost, a process can be
  killed and started again, and the connection that holds the lock can break while the others of the pool
  go on. What a script does to the database is a parameter.
\<close>

section \<open>One database, many replicas\<close>

record 'd mig_db =
  mg_table :: bool
  mg_applied :: "string list"
  mg_content :: 'd
  mg_lock :: "nat option"

datatype mig_pc =
    Boot
  | Blocked
  | Creating
  | Loop "string list"
  | Apply string "string list"
  | Done
  | Failed

record 'd migration =
  mf_db :: "'d mig_db"
  mf_pc :: "nat \<Rightarrow> mig_pc"

text \<open>How a statement goes: well, not at all, or well with the reply lost.\<close>

datatype outcome = Fine | Fails | LostReply

type_synonym files = "(string \<times> jsstring) list"
type_synonym 'd script = "jsstring \<Rightarrow> 'd \<Rightarrow> 'd option"

text \<open>\<^verbatim>\<open>fs.Glob(fsys, "*.sql")\<close> and \<^verbatim>\<open>sort.Strings\<close>.\<close>

definition sql_name :: "string \<Rightarrow> bool" where
  "sql_name n \<longleftrightarrow> length n \<ge> 4 \<and> drop (length n - 4) n = ''.sql'' \<and> CHR ''/'' \<notin> set n"

definition migration_names :: "files \<Rightarrow> string list" where
  "migration_names fsys = sort (filter sql_name (map fst fsys))"

definition run_body :: "'d script \<Rightarrow> jsstring \<Rightarrow> 'd \<Rightarrow> 'd option" where
  "run_body exec body d = (if TrimSpace body \<noteq> [] then exec body d else Some d)"

definition file_body :: "files \<Rightarrow> string \<Rightarrow> jsstring" where
  "file_body fsys n = (case map_of fsys n of Some b \<Rightarrow> b | None \<Rightarrow> [])"

text \<open>The transaction of \<^verbatim>\<open>applyOne\<close>: the state it commits, if it does. The name is the primary key.\<close>

definition applyOne :: "'d script \<Rightarrow> string \<Rightarrow> jsstring \<Rightarrow> 'd mig_db \<Rightarrow> 'd mig_db option" where
  "applyOne exec n body d =
     (case run_body exec body (mg_content d) of
        None \<Rightarrow> None
      | Some x \<Rightarrow> if n \<in> set (mg_applied d) then None
                 else Some (d\<lparr>mg_content := x, mg_applied := mg_applied d @ [n]\<rparr>))"

text \<open>\<^verbatim>\<open>Run\<close> returns, or its process ends: the deferred unlock, or the end of the session, frees the lock.\<close>

definition leave :: "nat \<Rightarrow> mig_pc \<Rightarrow> 'd migration \<Rightarrow> 'd migration" where
  "leave p r st =
     (let d = mf_db st
      in st\<lparr>mf_pc := (mf_pc st)(p := r),
            mf_db := d\<lparr>mg_lock := (if mg_lock d = Some p then None else mg_lock d)\<rparr>\<rparr>)"

definition goto :: "nat \<Rightarrow> mig_pc \<Rightarrow> 'd mig_db \<Rightarrow> 'd migration \<Rightarrow> 'd migration" where
  "goto p r d st = st\<lparr>mf_pc := (mf_pc st)(p := r), mf_db := d\<rparr>"

text \<open>One statement of replica \<open>p\<close>.\<close>

definition mig_do :: "files \<Rightarrow> 'd script \<Rightarrow> outcome \<Rightarrow> nat \<Rightarrow> 'd migration \<Rightarrow> 'd migration" where
  "mig_do fsys exec out p st =
     (let d = mf_db st
      in case mf_pc st p of
           Boot \<Rightarrow> if out = Fine then goto p Blocked d st else leave p Failed st
         | Blocked \<Rightarrow> if out = Fine then goto p Creating (d\<lparr>mg_lock := Some p\<rparr>) st else leave p Failed st
         | Creating \<Rightarrow>
             (case out of
                Fine \<Rightarrow> goto p (Loop (migration_names fsys)) (d\<lparr>mg_table := True\<rparr>) st
              | Fails \<Rightarrow> leave p Failed st
              | LostReply \<Rightarrow> leave p Failed (st\<lparr>mf_db := d\<lparr>mg_table := True\<rparr>\<rparr>))
         | Loop [] \<Rightarrow> leave p Done st
         | Loop (n # ns) \<Rightarrow>
             if out \<noteq> Fine then leave p Failed st
             else if n \<in> set (mg_applied d) then goto p (Loop ns) d st
             else goto p (Apply n ns) d st
         | Apply n ns \<Rightarrow>
             if out = Fails then leave p Failed st
             else (case applyOne exec n (file_body fsys n) d of
                     None \<Rightarrow> leave p Failed st
                   | Some d' \<Rightarrow> if out = Fine then goto p (Loop ns) d' st
                               else leave p Failed (st\<lparr>mf_db := d'\<rparr>))
         | Done \<Rightarrow> st
         | Failed \<Rightarrow> st)"

text \<open>\<^verbatim>\<open>pg_advisory_lock\<close> waits until the lock is free; a wait can be interrupted.\<close>

definition mig_can :: "outcome \<Rightarrow> nat \<Rightarrow> 'd migration \<Rightarrow> bool" where
  "mig_can out p st \<longleftrightarrow> (mf_pc st p = Blocked \<and> out = Fine \<longrightarrow> mg_lock (mf_db st) = None)"

text \<open>The connection with the lock breaks; the process does not notice.\<close>

definition sever :: "nat \<Rightarrow> 'd migration \<Rightarrow> 'd migration" where
  "sever p st =
     (let d = mf_db st in st\<lparr>mf_db := d\<lparr>mg_lock := (if mg_lock d = Some p then None else mg_lock d)\<rparr>\<rparr>)"

definition mig_start :: "'d \<Rightarrow> 'd migration" where
  "mig_start d0 =
     \<lparr>mf_db = \<lparr>mg_table = False, mg_applied = [], mg_content = d0, mg_lock = None\<rparr>, mf_pc = (\<lambda>p. Boot)\<rparr>"

inductive mig_reach :: "files \<Rightarrow> 'd script \<Rightarrow> 'd \<Rightarrow> 'd migration \<Rightarrow> bool" for fsys exec d0 where
  mig_init: "mig_reach fsys exec d0 (mig_start d0)"
| mig_step: "mig_reach fsys exec d0 st \<Longrightarrow> mig_can out p st \<Longrightarrow> mig_reach fsys exec d0 (mig_do fsys exec out p st)"
| mig_kill: "mig_reach fsys exec d0 st \<Longrightarrow> mig_reach fsys exec d0 (leave p Boot st)"
| mig_sever: "mig_reach fsys exec d0 st \<Longrightarrow> mig_reach fsys exec d0 (sever p st)"

text \<open>Runs in which every statement goes well and no lock is lost; processes may still be killed.\<close>

inductive mig_calm :: "files \<Rightarrow> 'd script \<Rightarrow> 'd \<Rightarrow> 'd migration \<Rightarrow> bool" for fsys exec d0 where
  calm_init: "mig_calm fsys exec d0 (mig_start d0)"
| calm_step: "mig_calm fsys exec d0 st \<Longrightarrow> mig_can Fine p st \<Longrightarrow> mig_calm fsys exec d0 (mig_do fsys exec Fine p st)"
| calm_kill: "mig_calm fsys exec d0 st \<Longrightarrow> mig_calm fsys exec d0 (leave p Boot st)"

section \<open>What the scripts leave when they run in order\<close>

fun scripts :: "files \<Rightarrow> 'd script \<Rightarrow> string list \<Rightarrow> 'd \<Rightarrow> 'd option" where
  "scripts fsys exec [] d = Some d"
| "scripts fsys exec (n # ns) d = Option.bind (run_body exec (file_body fsys n) d) (scripts fsys exec ns)"

lemma scripts_append:
  "scripts fsys exec (xs @ ys) d = Option.bind (scripts fsys exec xs d) (scripts fsys exec ys)"
  by (induction xs arbitrary: d) (simp_all add: bind_assoc cong: bind_option_cong)

text \<open>How far a replica is: the names it has still to see.\<close>

fun ahead :: "mig_pc \<Rightarrow> string list option" where
  "ahead (Loop ns) = Some ns"
| "ahead (Apply n ns) = Some (n # ns)"
| "ahead Done = Some []"
| "ahead _ = None"

definition mig_inv :: "files \<Rightarrow> 'd script \<Rightarrow> 'd \<Rightarrow> 'd migration \<Rightarrow> bool" where
  "mig_inv fsys exec d0 st \<longleftrightarrow>
     (let N = migration_names fsys; d = mf_db st
      in take (length (mg_applied d)) N = mg_applied d \<and> scripts fsys exec (mg_applied d) d0 = Some (mg_content d) \<and>
         (\<forall>p ns. ahead (mf_pc st p) = Some ns \<longrightarrow> (\<exists>j \<le> length (mg_applied d). ns = drop j N)))"

lemma names_distinct: "distinct (map fst fsys) \<Longrightarrow> distinct (migration_names fsys)"
  by (simp add: migration_names_def)

lemma mig_inv_move:
  assumes "mig_inv fsys exec d0 st" "mg_applied d' = mg_applied (mf_db st)" "mg_content d' = mg_content (mf_db st)"
    and "\<forall>ns. ahead r = Some ns \<longrightarrow> (\<exists>j \<le> length (mg_applied (mf_db st)). ns = drop j (migration_names fsys))"
  shows "mig_inv fsys exec d0 (goto p r d' st)"
  using assms by (simp add: mig_inv_def goto_def Let_def)

lemma leave_goto:
  "leave p r st = goto p r (mf_db (sever p st)) st"
  by (simp add: leave_def goto_def sever_def Let_def)

lemma sever_db [simp]:
  "mg_applied (mf_db (sever p st)) = mg_applied (mf_db st)" "mg_content (mf_db (sever p st)) = mg_content (mf_db st)"
  "mf_pc (sever p st) = mf_pc st" "mg_table (mf_db (sever p st)) = mg_table (mf_db st)"
  by (simp_all add: sever_def Let_def)

lemma mig_inv_leave:
  "mig_inv fsys exec d0 st \<Longrightarrow> ahead r = None \<Longrightarrow> mig_inv fsys exec d0 (leave p r st)"
  unfolding leave_goto by (rule mig_inv_move) simp_all

lemma mig_inv_sever: "mig_inv fsys exec d0 st \<Longrightarrow> mig_inv fsys exec d0 (sever p st)"
  by (simp add: mig_inv_def Let_def)

lemma mig_inv_table: "mig_inv fsys exec d0 (st\<lparr>mf_db := (mf_db st)\<lparr>mg_table := b\<rparr>\<rparr>) = mig_inv fsys exec d0 st"
  by (simp add: mig_inv_def Let_def)

lemma mig_inv_ahead:
  "mig_inv fsys exec d0 st \<Longrightarrow> ahead (mf_pc st p) = Some ns \<Longrightarrow>
     \<exists>j \<le> length (mg_applied (mf_db st)). ns = drop j (migration_names fsys)"
  by (simp add: mig_inv_def Let_def)

lemma drop_head:
  assumes "n # ns = drop j N"
  shows "j < length N" "n = N ! j" "ns = drop (Suc j) N"
proof -
  show j: "j < length N" using assms by (metis drop_all list.simps(3) not_less)
  then show "n = N ! j" "ns = drop (Suc j) N" using assms by (simp_all add: Cons_nth_drop_Suc [symmetric])
qed

text \<open>A name behind the recorded ones is the next one.\<close>

lemma next_name:
  assumes "distinct N" "take (length A) N = A" "j \<le> length A" "n # ns = drop j N" "n \<notin> set A"
  shows "j = length A" "take (Suc (length A)) N = A @ [n]"
proof -
  note h = drop_head [OF assms(4)]
  have "\<not> j < length A"
  proof
    assume "j < length A"
    then have "N ! j \<in> set A" using assms(2) h(1) by (metis in_set_conv_nth nth_take)
    then show False using assms(5) h(2) by simp
  qed
  then show j: "j = length A" using assms(3) by simp
  show "take (Suc (length A)) N = A @ [n]" using j h(1,2) assms(2) by (metis take_Suc_conv_app_nth)
qed

lemma mig_inv_apply:
  assumes "mig_inv fsys exec d0 st" "distinct (map fst fsys)" "mf_pc st p = Apply n ns"
    and "applyOne exec n (file_body fsys n) (mf_db st) = Some d'"
  shows "mig_inv fsys exec d0 (goto p (Loop ns) d' st)"
proof -
  let ?N = "migration_names fsys" and ?A = "mg_applied (mf_db st)"
  from assms(4) obtain x where x: "run_body exec (file_body fsys n) (mg_content (mf_db st)) = Some x"
    "n \<notin> set ?A" "d' = (mf_db st)\<lparr>mg_content := x, mg_applied := ?A @ [n]\<rparr>"
    by (auto simp: applyOne_def split: option.splits if_splits)
  from assms(1,3) obtain j where j: "j \<le> length ?A" "n # ns = drop j ?N"
    using mig_inv_ahead [of fsys exec d0 st p "n # ns"] by auto
  have A: "take (length ?A) ?N = ?A" using assms(1) by (simp add: mig_inv_def Let_def)
  note nx = next_name [OF names_distinct [OF assms(2)] A j x(2)]
  have "\<exists>j' \<le> length (?A @ [n]). ns' = drop j' ?N" if "ahead (((mf_pc st)(p := Loop ns)) q) = Some ns'" for q ns'
  proof (cases "q = p")
    case True
    then show ?thesis using that drop_head(3) [OF j(2)] j(1) by auto
  next
    case False
    then have "ahead (mf_pc st q) = Some ns'" using that by simp
    then obtain j' where "j' \<le> length ?A" "ns' = drop j' ?N" using mig_inv_ahead [OF assms(1)] by blast
    then show ?thesis by (auto intro: exI [of _ j'])
  qed
  moreover have "scripts fsys exec (?A @ [n]) d0 = Some x"
    using assms(1) x(1) by (simp add: mig_inv_def Let_def scripts_append)
  ultimately show ?thesis using nx(2) by (auto simp: mig_inv_def goto_def x(3) Let_def)
qed

lemma mig_inv_do:
  assumes "mig_inv fsys exec d0 st" "distinct (map fst fsys)"
  shows "mig_inv fsys exec d0 (mig_do fsys exec out p st)"
proof (cases "mf_pc st p")
  case (Loop ns)
  then obtain j where j: "j \<le> length (mg_applied (mf_db st))" "ns = drop j (migration_names fsys)"
    using mig_inv_ahead [OF assms(1), of p ns] by auto
  show ?thesis
  proof (cases ns)
    case (Cons n ms)
    note h = drop_head [OF j(2) [unfolded Cons]]
    have skip: "\<exists>i \<le> length (mg_applied (mf_db st)). ms = drop i (migration_names fsys)"
      if "n \<in> set (mg_applied (mf_db st))"
    proof -
      have "j \<noteq> length (mg_applied (mf_db st))"
      proof
        assume "j = length (mg_applied (mf_db st))"
        then have "n \<in> set (drop j (migration_names fsys)) \<inter> set (take j (migration_names fsys))"
          using that assms(1) Cons j(2) by (auto simp: mig_inv_def Let_def)
        then show False using names_distinct [OF assms(2)] set_take_disj_set_drop_if_distinct [of _ j j] by blast
      qed
      then show ?thesis using h(3) j(1) by (intro exI [of _ "Suc j"]) auto
    qed
    have "n # ms = drop j (migration_names fsys)" using j(2) Cons by simp
    then have here: "\<exists>i \<le> length (mg_applied (mf_db st)). n # ms = drop i (migration_names fsys)"
      using j(1) by (intro exI [of _ j] conjI)
    have "mig_do fsys exec out p st =
        (if out \<noteq> Fine then leave p Failed st
         else if n \<in> set (mg_applied (mf_db st)) then goto p (Loop ms) (mf_db st) st
         else goto p (Apply n ms) (mf_db st) st)"
      using Loop Cons by (simp add: mig_do_def)
    moreover have "mig_inv fsys exec d0 (goto p (Loop ms) (mf_db st) st)" if "n \<in> set (mg_applied (mf_db st))"
      by (rule mig_inv_move [OF assms(1) refl refl]) (simp add: skip [OF that])
    moreover have "mig_inv fsys exec d0 (goto p (Apply n ms) (mf_db st) st)"
      by (rule mig_inv_move [OF assms(1) refl refl]) (simp add: here)
    ultimately show ?thesis by (simp add: mig_inv_leave [OF assms(1)])
  next
    case Nil
    then have "\<exists>j \<le> length (mg_applied (mf_db st)). [] = drop j (migration_names fsys)"
      using mig_inv_ahead [OF assms(1), of p "[]"] Loop by simp
    then have "mig_inv fsys exec d0 (leave p Done st)"
      unfolding leave_goto by (intro mig_inv_move [OF assms(1)]) simp_all
    then show ?thesis using Loop Nil by (simp add: mig_do_def)
  qed
next
  case (Apply n ns)
  show ?thesis
  proof (cases "applyOne exec n (file_body fsys n) (mf_db st)")
    case (Some d')
    have "mig_inv fsys exec d0 (goto p (Loop ns) d' st)" by (rule mig_inv_apply [OF assms Apply Some])
    moreover have "leave p Failed (st\<lparr>mf_db := d'\<rparr>) = leave p Failed (goto p (Loop ns) d' st)"
      by (simp add: leave_def goto_def Let_def)
    ultimately show ?thesis
      using assms(1) Apply Some by (auto simp: mig_do_def Let_def mig_inv_leave)
  qed (use assms(1) Apply in \<open>simp add: mig_do_def Let_def mig_inv_leave\<close>)
next
  case Creating
  then show ?thesis using assms(1)
    by (cases out) (auto simp: mig_do_def Let_def mig_inv_table intro!: mig_inv_move mig_inv_leave)
qed (use assms(1) in \<open>auto simp: mig_do_def Let_def intro!: mig_inv_move mig_inv_leave\<close>)

lemma mig_inv_reach:
  assumes "mig_reach fsys exec d0 st" "distinct (map fst fsys)"
  shows "mig_inv fsys exec d0 st"
  using assms(1)
proof induction
  case mig_init
  show ?case by (simp add: mig_inv_def mig_start_def)
qed (simp_all add: mig_inv_do assms(2) mig_inv_leave mig_inv_sever)

section \<open>Runs without faults\<close>

fun inside :: "mig_pc \<Rightarrow> bool" where
  "inside Creating = True"
| "inside (Loop ns) = True"
| "inside (Apply n ns) = True"
| "inside _ = False"

definition calm_inv :: "files \<Rightarrow> 'd script \<Rightarrow> 'd \<Rightarrow> 'd migration \<Rightarrow> bool" where
  "calm_inv fsys exec d0 st \<longleftrightarrow>
     mig_inv fsys exec d0 st \<and>
     (\<forall>p. inside (mf_pc st p) \<longleftrightarrow> mg_lock (mf_db st) = Some p) \<and>
     (\<forall>p. mf_pc st p \<noteq> Failed) \<and>
     (\<forall>p n ns. mf_pc st p = Apply n ns \<longrightarrow> n \<notin> set (mg_applied (mf_db st)))"

lemma calm_apply:
  assumes "calm_inv fsys exec d0 st" "distinct (map fst fsys)" "mf_pc st p = Apply n ns"
    and "scripts fsys exec (migration_names fsys) d0 \<noteq> None"
  shows "applyOne exec n (file_body fsys n) (mf_db st) \<noteq> None"
proof -
  let ?N = "migration_names fsys" and ?A = "mg_applied (mf_db st)"
  have mig: "mig_inv fsys exec d0 st" and new: "n \<notin> set ?A" using assms(1,3) unfolding calm_inv_def by blast+
  then have inv: "take (length ?A) ?N = ?A" "scripts fsys exec ?A d0 = Some (mg_content (mf_db st))" "n \<notin> set ?A"
    by (simp_all add: mig_inv_def Let_def)
  obtain j where j: "j \<le> length ?A" "n # ns = drop j ?N"
    using mig_inv_ahead [OF mig, of p "n # ns"] assms(3) by auto
  have "take (Suc (length ?A)) ?N = ?A @ [n]"
    by (rule next_name(2) [OF names_distinct [OF assms(2)] inv(1) j inv(3)])
  then have "?N = ?A @ n # drop (Suc (length ?A)) ?N"
    by (metis append.assoc append_Cons append_Nil append_take_drop_id)
  then have "scripts fsys exec (?A @ n # drop (Suc (length ?A)) ?N) d0 \<noteq> None" using assms(4) by simp
  then have "run_body exec (file_body fsys n) (mg_content (mf_db st)) \<noteq> None"
    by (cases "run_body exec (file_body fsys n) (mg_content (mf_db st))") (simp_all add: scripts_append inv(2))
  then show ?thesis using inv(3) by (auto simp: applyOne_def)
qed

lemma applyOne_lock: "applyOne exec n b d = Some d' \<Longrightarrow> mg_lock d' = mg_lock d \<and> mg_applied d' = mg_applied d @ [n]"
  by (auto simp: applyOne_def split: option.splits if_splits)

lemma calm_inv_do:
  assumes "calm_inv fsys exec d0 st" "mig_can Fine p st" "distinct (map fst fsys)"
    and "scripts fsys exec (migration_names fsys) d0 \<noteq> None"
  shows "calm_inv fsys exec d0 (mig_do fsys exec Fine p st)"
proof -
  have inv: "mig_inv fsys exec d0 (mig_do fsys exec Fine p st)"
    using assms(1,3) mig_inv_do by (auto simp: calm_inv_def)
  have lock: "inside (mf_pc st q) \<longleftrightarrow> mg_lock (mf_db st) = Some q" for q using assms(1) by (simp add: calm_inv_def)
  have other: "\<not> inside (mf_pc st q)" if "inside (mf_pc st p)" "q \<noteq> p" for q
    using that assms(1) by (auto simp: calm_inv_def)
  show ?thesis
  proof (cases "mf_pc st p")
    case (Apply n ns)
    then obtain d' where d': "applyOne exec n (file_body fsys n) (mf_db st) = Some d'"
      using calm_apply [OF assms(1,3) Apply assms(4)] by blast
    have "\<not> inside (mf_pc st q)" if "q \<noteq> p" for q using other that Apply by simp
    then have "mf_pc st q \<noteq> Apply m ms" if "q \<noteq> p" for q m ms using that by (metis inside.simps(3))
    then show ?thesis
      using assms(1) inv applyOne_lock [OF d'] Apply d' by (auto simp: calm_inv_def mig_do_def goto_def Let_def)
  next
    case (Loop ns)
    then show ?thesis
      using assms(1) inv by (cases ns) (auto simp: calm_inv_def mig_do_def goto_def leave_def Let_def)
  next
    case Blocked
    then have "mg_lock (mf_db st) = None" using assms(2) by (simp add: mig_can_def)
    then show ?thesis using assms(1) inv Blocked by (auto simp: calm_inv_def mig_do_def goto_def Let_def)
  qed (use assms(1) inv lock [of p] in \<open>auto simp: calm_inv_def mig_do_def goto_def leave_def Let_def\<close>)
qed

lemma calm_inv_kill: "calm_inv fsys exec d0 st \<Longrightarrow> calm_inv fsys exec d0 (leave p Boot st)"
  using mig_inv_leave [of fsys exec d0 st Boot p] by (auto simp: calm_inv_def leave_def Let_def)

lemma calm_inv_reach:
  assumes "mig_calm fsys exec d0 st" "distinct (map fst fsys)" "scripts fsys exec (migration_names fsys) d0 \<noteq> None"
  shows "calm_inv fsys exec d0 st"
  using assms(1)
proof induction
  case calm_init
  show ?case by (simp add: calm_inv_def mig_inv_def mig_start_def)
qed (simp_all add: calm_inv_do assms(2,3) calm_inv_kill)

text \<open>How many statements a replica has still to run.\<close>

fun statements_left :: "files \<Rightarrow> mig_pc \<Rightarrow> nat" where
  "statements_left fsys Boot = 2 * length (migration_names fsys) + 4"
| "statements_left fsys Blocked = 2 * length (migration_names fsys) + 3"
| "statements_left fsys Creating = 2 * length (migration_names fsys) + 2"
| "statements_left fsys (Loop ns) = 2 * length ns + 1"
| "statements_left fsys (Apply n ns) = 2 * length ns + 2"
| "statements_left fsys _ = 0"

definition unhindered :: "nat \<Rightarrow> 'd migration \<Rightarrow> bool" where
  "unhindered p st \<longleftrightarrow> mg_lock (mf_db st) = None \<or> mg_lock (mf_db st) = Some p"

lemma alone_step:
  assumes "calm_inv fsys exec d0 st" "unhindered p st" "distinct (map fst fsys)"
    and "scripts fsys exec (migration_names fsys) d0 \<noteq> None" "mf_pc st p \<noteq> Done"
  shows "mig_can Fine p st" "unhindered p (mig_do fsys exec Fine p st)"
    "statements_left fsys (mf_pc (mig_do fsys exec Fine p st) p) < statements_left fsys (mf_pc st p)"
proof -
  have lock: "inside (mf_pc st p) \<longleftrightarrow> mg_lock (mf_db st) = Some p" and ok: "mf_pc st p \<noteq> Failed"
    using assms(1) by (auto simp: calm_inv_def)
  show "mig_can Fine p st" using lock assms(2) by (auto simp: mig_can_def unhindered_def)
  have "unhindered p (mig_do fsys exec Fine p st) \<and>
      statements_left fsys (mf_pc (mig_do fsys exec Fine p st) p) < statements_left fsys (mf_pc st p)"
  proof (cases "mf_pc st p")
    case (Apply n ns)
    then obtain d' where d': "applyOne exec n (file_body fsys n) (mf_db st) = Some d'"
      using calm_apply [OF assms(1,3) Apply assms(4)] by blast
    then show ?thesis
      using assms(2) applyOne_lock [OF d'] Apply by (simp add: mig_do_def goto_def unhindered_def Let_def)
  next
    case (Loop ns)
    then show ?thesis
      using assms(2) by (cases ns) (auto simp: mig_do_def goto_def leave_def unhindered_def Let_def)
  qed (use ok assms(2,5) in \<open>auto simp: mig_do_def goto_def unhindered_def Let_def\<close>)
  then show "unhindered p (mig_do fsys exec Fine p st)"
    "statements_left fsys (mf_pc (mig_do fsys exec Fine p st) p) < statements_left fsys (mf_pc st p)" by auto
qed

lemma alone_done:
  assumes "calm_inv fsys exec d0 st" "unhindered p st" "distinct (map fst fsys)"
    and "scripts fsys exec (migration_names fsys) d0 \<noteq> None" "statements_left fsys (mf_pc st p) \<le> n"
  shows "mf_pc ((mig_do fsys exec Fine p ^^ n) st) p = Done \<and> calm_inv fsys exec d0 ((mig_do fsys exec Fine p ^^ n) st)"
  using assms(1,2,5)
proof (induction n arbitrary: st)
  case 0
  then have "mf_pc st p = Done \<or> mf_pc st p = Failed" by (cases "mf_pc st p") auto
  then show ?case using 0 by (auto simp: calm_inv_def)
next
  case (Suc n)
  show ?case
  proof (cases "mf_pc st p = Done")
    case True
    then have "mig_do fsys exec Fine p st = st" by (simp add: mig_do_def)
    then show ?thesis using Suc.IH [of st] Suc.prems True by (simp add: funpow_swap1)
  next
    case False
    note step = alone_step [OF Suc.prems(1,2) assms(3,4) False]
    have "calm_inv fsys exec d0 (mig_do fsys exec Fine p st)"
      by (rule calm_inv_do [OF Suc.prems(1) step(1) assms(3,4)])
    then show ?thesis using Suc.IH [OF _ step(2)] step(3) Suc.prems(3) by (simp add: funpow_swap1)
  qed
qed

section \<open>Properties of the migrations\<close>

text \<open>C18: However many replicas migrate, whatever statement fails, whoever is killed and even when the
  lock is lost: the recorded migrations are at every moment a beginning of the sorted list of files, each of
  them once; the database is what these scripts leave when they run in this order; and a replica
  that reports success finds all of them applied.\<close>

theorem migrations_run_once_in_order:
  assumes "mig_reach fsys exec d0 st" "distinct (map fst fsys)"
  shows "take (length (mg_applied (mf_db st))) (migration_names fsys) = mg_applied (mf_db st) \<and>
         distinct (mg_applied (mf_db st)) \<and>
         scripts fsys exec (mg_applied (mf_db st)) d0 = Some (mg_content (mf_db st)) \<and>
         (mf_pc st p = Done \<longrightarrow> mg_applied (mf_db st) = migration_names fsys)"
proof -
  note inv = mig_inv_reach [OF assms]
  have A: "take (length (mg_applied (mf_db st))) (migration_names fsys) = mg_applied (mf_db st)"
    using inv by (simp add: mig_inv_def Let_def)
  then have "distinct (mg_applied (mf_db st))" using names_distinct [OF assms(2)] by (metis distinct_take)
  moreover have "mg_applied (mf_db st) = migration_names fsys" if "mf_pc st p = Done"
    using mig_inv_ahead [OF inv, of p "[]"] that A by auto
  ultimately show ?thesis using A inv by (simp add: mig_inv_def Let_def)
qed

datatype mig_event = Do outcome nat | Kill nat | Sever nat

fun mig_run :: "files \<Rightarrow> 'd script \<Rightarrow> mig_event list \<Rightarrow> 'd migration \<Rightarrow> 'd migration" where
  "mig_run fsys exec [] st = st"
| "mig_run fsys exec (Do out p # es) st =
     (if mig_can out p st then mig_run fsys exec es (mig_do fsys exec out p st) else st)"
| "mig_run fsys exec (Kill p # es) st = mig_run fsys exec es (leave p Boot st)"
| "mig_run fsys exec (Sever p # es) st = mig_run fsys exec es (sever p st)"

lemma mig_run_cases:
  "mig_run fsys exec (e # es) st =
     (case e of
        Do out p \<Rightarrow> if mig_can out p st then mig_run fsys exec es (mig_do fsys exec out p st) else st
      | Kill p \<Rightarrow> mig_run fsys exec es (leave p Boot st)
      | Sever p \<Rightarrow> mig_run fsys exec es (sever p st))"
  by (cases e) simp_all

lemma mig_run_reach: "mig_reach fsys exec d0 st \<Longrightarrow> mig_reach fsys exec d0 (mig_run fsys exec es st)"
  by (induction es arbitrary: st) (auto intro: mig_step mig_kill mig_sever simp: mig_run_cases split: mig_event.split)

definition two_files :: files where
  "two_files = [(''002_add_versioning.sql'', js ''ALTER''), (''001_create_flags.sql'', js ''CREATE''), (''embed.go'', [])]"

definition count_up :: "nat script" where
  "count_up body d = Some (d + length body)"

text \<open>The first replica is killed right after its first commit; the second one does the rest.\<close>

definition killed_run :: "nat migration" where
  "killed_run = mig_run two_files count_up
     (replicate 5 (Do Fine 0) @ [Do LostReply 0, Kill 0] @ replicate 8 (Do Fine 1)) (mig_start 0)"

lemma two_files_names: "migration_names two_files = [''001_create_flags.sql'', ''002_add_versioning.sql'']"
  by (simp add: migration_names_def two_files_def sql_name_def)

lemma run_two_files:
  "run_body count_up (file_body two_files ''001_create_flags.sql'') d = Some (d + 6)"
  "run_body count_up (file_body two_files ''002_add_versioning.sql'') d = Some (d + 5)"
  by (simp_all add: run_body_def count_up_def file_body_def two_files_def TrimSpace_def go_space_def js_def)

lemmas mig_eval = mig_start_def mig_can_def mig_do_def goto_def leave_def sever_def two_files_names
  applyOne_def run_two_files eval_nat_numeral Let_def

theorem migrations_run_once_in_order_witness:
  "mg_applied (mf_db killed_run) = [''001_create_flags.sql'', ''002_add_versioning.sql''] \<and>
   scripts two_files count_up (mg_applied (mf_db killed_run)) 0 = Some (mg_content (mf_db killed_run))"
proof -
  have "mf_pc killed_run 1 = Done"
    by (simp add: killed_run_def mig_eval)
  moreover have "mig_reach two_files count_up 0 killed_run"
    unfolding killed_run_def by (rule mig_run_reach [OF mig_init])
  moreover have "distinct (map fst two_files)" by (simp add: two_files_def)
  ultimately show ?thesis
    using migrations_run_once_in_order [of two_files count_up 0 killed_run 1] two_files_names by metis
qed

text \<open>C19: As long as statements go well and no lock is lost, replicas never get in each other's way, also when
  some are killed: none fails, at most one is past the lock, and one that finds the lock free, or holds it,
  finishes within four statements more than twice the number of files.\<close>

theorem replicas_migrate_one_at_a_time:
  assumes "mig_calm fsys exec d0 st" "distinct (map fst fsys)"
    and "scripts fsys exec (migration_names fsys) d0 \<noteq> None"
  shows "mf_pc st p \<noteq> Failed \<and> (inside (mf_pc st p) \<and> inside (mf_pc st q) \<longrightarrow> p = q) \<and>
         (mg_lock (mf_db st) = None \<or> inside (mf_pc st p) \<longrightarrow>
            mf_pc ((mig_do fsys exec Fine p ^^ (2 * length (migration_names fsys) + 4)) st) p = Done)"
proof -
  note inv = calm_inv_reach [OF assms]
  have "statements_left fsys (mf_pc st p) \<le> 2 * length (migration_names fsys) + 4"
  proof (cases "ahead (mf_pc st p)")
    case (Some ns)
    have "mig_inv fsys exec d0 st" using inv by (simp add: calm_inv_def)
    then have "length ns \<le> length (migration_names fsys)" using mig_inv_ahead Some by fastforce
    then show ?thesis using Some by (cases "mf_pc st p") auto
  qed (cases "mf_pc st p"; simp)
  moreover have "unhindered p st" if "mg_lock (mf_db st) = None \<or> inside (mf_pc st p)"
    using that inv by (auto simp: calm_inv_def unhindered_def)
  ultimately show ?thesis
    using inv alone_done [OF inv _ assms(2,3)] by (auto simp: calm_inv_def)
qed

theorem replicas_migrate_one_at_a_time_witness:
  "mf_pc ((mig_do two_files count_up Fine 3 ^^ 8) (mig_start 0)) 3 = Done"
proof -
  have "scripts two_files count_up (migration_names two_files) 0 \<noteq> None"
    by (simp add: two_files_names run_two_files)
  moreover have "distinct (map fst two_files)" by (simp add: two_files_def)
  ultimately show ?thesis
    using replicas_migrate_one_at_a_time [OF calm_init, of two_files count_up 0 3 3] two_files_names
    by (simp add: mig_start_def)
qed

text \<open>The lock is needed for that: when its connection breaks, a second replica runs beside the first, and
  the one that commits last fails at start-up, although every statement went well.\<close>

definition severed_run :: "nat migration" where
  "severed_run = mig_run two_files count_up
     (replicate 4 (Do Fine 0) @ [Sever 0] @ replicate 5 (Do Fine 1) @ [Do Fine 0]) (mig_start 0)"

lemma severed_lock_fails_a_replica:
  "mf_pc severed_run 0 = Failed" "mg_applied (mf_db severed_run) = [''001_create_flags.sql'']"
  by (simp_all add: severed_run_def mig_eval)

end
