(* ===== verification/View.thy ===== *)
theory View
  imports Encoding
begin

text \<open>
  Rendered components. A component's render function gives a tree of elements with their
  text, the attributes that carry behaviour or meaning (ids, links, roles, labels,
  \<^verbatim>\<open>disabled\<close>, \<^verbatim>\<open>checked\<close>, values) and the handlers an event runs. Class names, inline
  styles, icons and React keys are left out. Events are messages; the component's update
  function says what a message does.
\<close>

text \<open>What an event carries: nothing that matters, the text of a field or the name of a key,
  the new state of a switch, the positions of a slider's thumbs (at least one).\<close>

datatype event_arg = NoArg | Str jsstring | Flag_arg bool | Thumbs int "int list"

fun str_arg :: "event_arg \<Rightarrow> jsstring" where
  "str_arg (Str s) = s"
| "str_arg _ = []"

fun bool_arg :: "event_arg \<Rightarrow> bool" where
  "bool_arg (Flag_arg b) = b"
| "bool_arg _ = False"

fun num_arg :: "event_arg \<Rightarrow> int" where
  "num_arg (Thumbs v vs) = v"
| "num_arg _ = 0"

datatype 'm view =
    Txt jsstring
  | Elem string "(string \<times> jsstring) list" "(string \<times> (event_arg \<Rightarrow> 'm)) list" "'m view list"

abbreviation msg :: "'m \<Rightarrow> event_arg \<Rightarrow> 'm" where
  "msg m \<equiv> (\<lambda>_. m)"

abbreviation el :: "string \<Rightarrow> 'm view list \<Rightarrow> 'm view" where
  "el tag cs \<equiv> Elem tag [] [] cs"

abbreviation ela :: "string \<Rightarrow> (string \<times> jsstring) list \<Rightarrow> 'm view list \<Rightarrow> 'm view" where
  "ela tag as cs \<equiv> Elem tag as [] cs"

abbreviation lit :: "string \<Rightarrow> 'm view" where
  "lit s \<equiv> Txt (js s)"

text \<open>\<^verbatim>\<open>{cond && <X/>}\<close>: an element or nothing.\<close>

definition shown :: "bool \<Rightarrow> 'm view list \<Rightarrow> 'm view list" where
  "shown b vs = (if b then vs else [])"

definition js_bool :: "bool \<Rightarrow> jsstring" where
  "js_bool b = js (if b then ''true'' else ''false'')"

text \<open>Characters of the source's literals outside ASCII.\<close>

definition ellipsis :: jsstring where "ellipsis = [0x2026]"
definition mdash :: jsstring where "mdash = [0x2014]"
definition middot :: jsstring where "middot = [0xB7]"

section \<open>Reading a tree\<close>

fun texts :: "'m view \<Rightarrow> jsstring list" where
  "texts (Txt s) = [s]"
| "texts (Elem tag as hs cs) = concat (map texts cs)"

fun handlers :: "'m view \<Rightarrow> (string \<times> (event_arg \<Rightarrow> 'm)) list" where
  "handlers (Txt s) = []"
| "handlers (Elem tag as hs cs) = hs @ concat (map handlers cs)"

fun elements :: "'m view \<Rightarrow> (string \<times> (string \<times> jsstring) list) list" where
  "elements (Txt s) = []"
| "elements (Elem tag as hs cs) = (tag, as) # concat (map elements cs)"

definition text_of :: "'m view \<Rightarrow> jsstring" where
  "text_of v = concat (texts v)"

lemma texts_shown [simp]: "concat (map texts (shown b vs)) = (if b then concat (map texts vs) else [])"
  by (simp add: shown_def)

lemma handlers_shown [simp]: "concat (map handlers (shown b vs)) = (if b then concat (map handlers vs) else [])"
  by (simp add: shown_def)

lemma elements_shown [simp]: "concat (map elements (shown b vs)) = (if b then concat (map elements vs) else [])"
  by (simp add: shown_def)

text \<open>Handlers of a subtree, renamed to messages of the parent.\<close>

fun map_view :: "('a \<Rightarrow> 'b) \<Rightarrow> 'a view \<Rightarrow> 'b view" where
  "map_view f (Txt s) = Txt s"
| "map_view f (Elem tag as hs cs) = Elem tag as (map (\<lambda>(e, h). (e, f \<circ> h)) hs) (map (map_view f) cs)"

lemma texts_map_view [simp]: "texts (map_view f v) = texts v"
  by (induction v) (simp_all add: comp_def cong: map_cong)

lemma handlers_map_view [simp]: "handlers (map_view f v) = map (\<lambda>(e, h). (e, f \<circ> h)) (handlers v)"
  by (induction v) (simp_all add: comp_def map_concat cong: map_cong)

end
