(* ===== verification/Primitives.thy ===== *)
theory Primitives
  imports View
begin

text \<open>
  The interface primitives (\<^verbatim>\<open>components/ui/*.tsx\<close>): wrappers that give the components of a third-party
  library their class names, marks and defaults. An element is a tag with its properties, the children
  among them; properties are a list in which the first entry for a name counts, so that
  \<^verbatim>\<open>{...props}\<close> after other attributes goes in front of them. \<^verbatim>\<open>twMerge\<close>, \<^verbatim>\<open>clsx\<close> and \<^verbatim>\<open>cva\<close> are
  arguments.
\<close>

section \<open>Elements and properties\<close>

datatype node =
    Text jsstring
  | Node string "(string \<times> pval) list"
and pval =
    PUndef
  | PBool bool
  | PNum int
  | PStr jsstring
  | PNums "int list"
  | PFun nat
  | PObj "(string \<times> pval) list"
  | PElem node
  | PElems "node list"

type_synonym props = "(string \<times> pval) list"
type_synonym tw_merge = "jsstring \<Rightarrow> jsstring"
type_synonym class_join = "pval list \<Rightarrow> jsstring"

text \<open>\<^verbatim>\<open>lib/utils.ts\<close>\<close>

definition cn :: "tw_merge \<Rightarrow> class_join \<Rightarrow> pval list \<Rightarrow> jsstring" where
  "cn twMerge clsx inputs = twMerge (clsx inputs)"

text \<open>Destructuring: a missing or undefined property has its default; the rest is what is left.\<close>

definition the_prop :: "props \<Rightarrow> string \<Rightarrow> pval \<Rightarrow> pval" where
  "the_prop p k d = (case map_of p k of Some v \<Rightarrow> if v = PUndef then d else v | None \<Rightarrow> d)"

definition rest :: "string list \<Rightarrow> props \<Rightarrow> props" where
  "rest own p = filter (\<lambda>(k, v). k \<notin> set own) p"

definition overriding :: "props \<Rightarrow> props \<Rightarrow> props" where
  "overriding attrs p = p @ attrs"

definition jsx :: "string \<Rightarrow> props \<Rightarrow> props \<Rightarrow> node" where
  "jsx tag attrs p = Node tag (overriding attrs p)"

definition jsx_with :: "string \<Rightarrow> props \<Rightarrow> props \<Rightarrow> node list \<Rightarrow> node" where
  "jsx_with tag attrs p cs = Node tag ((''children'', PElems cs) # overriding attrs p)"

fun child_elems :: "pval \<Rightarrow> node list" where
  "child_elems (PStr s) = [Text s]"
| "child_elems (PNum n) = [Text (js_num n)]"
| "child_elems (PElem e) = [e]"
| "child_elems (PElems es) = es"
| "child_elems _ = []"

fun truthy :: "pval \<Rightarrow> bool" where
  "truthy PUndef \<longleftrightarrow> False"
| "truthy (PBool b) \<longleftrightarrow> b"
| "truthy (PNum n) \<longleftrightarrow> n \<noteq> 0"
| "truthy (PStr s) \<longleftrightarrow> s \<noteq> []"
| "truthy _ \<longleftrightarrow> True"

text \<open>The arguments of \<^verbatim>\<open>cva\<close>; what it does with them is a parameter of the components.\<close>

record cva_config =
  cva_base :: jsstring
  cva_variants :: "(string \<times> (string \<times> jsstring) list) list"
  cva_defaults :: "(string \<times> string) list"

type_synonym class_variants = "cva_config \<Rightarrow> props \<Rightarrow> jsstring"

section \<open>Buttons and badges\<close>

definition buttonVariants_config :: cva_config where
  "buttonVariants_config =
     \<lparr>cva_base = js ''group/button inline-flex shrink-0 items-center justify-center rounded-lg border '' @
              js ''border-transparent bg-clip-padding text-sm font-medium whitespace-nowrap transition-all '' @
              js ''outline-none select-none focus-visible:border-ring focus-visible:ring-3 '' @
              js ''focus-visible:ring-ring/50 disabled:pointer-events-none disabled:opacity-50 '' @
              js ''aria-invalid:border-destructive aria-invalid:ring-3 aria-invalid:ring-destructive/20 '' @
              js ''dark:aria-invalid:border-destructive/50 dark:aria-invalid:ring-destructive/40 '' @
              js ''[&_svg]:pointer-events-none [&_svg]:shrink-0 [&_svg:not([class*='size-'])]:size-4'',
      cva_variants =
       [(''variant'',
         [(''default'', js ''bg-primary text-primary-foreground [a]:hover:bg-primary/80''),
          (''outline'', js ''border-border bg-background hover:bg-muted hover:text-foreground aria-expanded:bg-muted '' @
              js ''aria-expanded:text-foreground dark:border-input dark:bg-input/30 dark:hover:bg-input/50''),
          (''secondary'', js ''bg-secondary text-secondary-foreground hover:bg-secondary/80 aria-expanded:bg-secondary '' @
              js ''aria-expanded:text-secondary-foreground''),
          (''ghost'', js ''hover:bg-muted hover:text-foreground aria-expanded:bg-muted aria-expanded:text-foreground '' @
              js ''dark:hover:bg-muted/50''),
          (''destructive'', js ''bg-destructive/10 text-destructive hover:bg-destructive/20 '' @
              js ''focus-visible:border-destructive/40 focus-visible:ring-destructive/20 '' @
              js ''dark:bg-destructive/20 dark:hover:bg-destructive/30 dark:focus-visible:ring-destructive/40''),
          (''link'', js ''text-primary underline-offset-4 hover:underline'')]),
        (''size'',
         [(''default'', js ''h-8 gap-1.5 px-2.5 has-data-[icon=inline-end]:pr-2 has-data-[icon=inline-start]:pl-2''),
          (''xs'', js ''h-6 gap-1 rounded-[min(var(--radius-md),10px)] px-2 text-xs '' @
              js ''in-data-[slot=button-group]:rounded-lg has-data-[icon=inline-end]:pr-1.5 '' @
              js ''has-data-[icon=inline-start]:pl-1.5 [&_svg:not([class*='size-'])]:size-3''),
          (''sm'', js ''h-7 gap-1 rounded-[min(var(--radius-md),12px)] px-2.5 text-[0.8rem] '' @
              js ''in-data-[slot=button-group]:rounded-lg has-data-[icon=inline-end]:pr-1.5 '' @
              js ''has-data-[icon=inline-start]:pl-1.5 [&_svg:not([class*='size-'])]:size-3.5''),
          (''lg'', js ''h-9 gap-1.5 px-2.5 has-data-[icon=inline-end]:pr-3 has-data-[icon=inline-start]:pl-3''),
          (''icon'', js ''size-8''),
          (''icon-xs'', js ''size-6 rounded-[min(var(--radius-md),10px)] in-data-[slot=button-group]:rounded-lg '' @
              js ''[&_svg:not([class*='size-'])]:size-3''),
          (''icon-sm'', js ''size-7 rounded-[min(var(--radius-md),12px)] in-data-[slot=button-group]:rounded-lg''),
          (''icon-lg'', js ''size-9'')])],
      cva_defaults = [(''variant'', ''default''), (''size'', ''default'')]\<rparr>"

definition Button :: "tw_merge \<Rightarrow> class_join \<Rightarrow> class_variants \<Rightarrow> props \<Rightarrow> node" where
  "Button tw clsx cva p =
     (let className = the_prop p ''className'' PUndef;
          variant = the_prop p ''variant'' (PStr (js ''default''));
          size = the_prop p ''size'' (PStr (js ''default''));
          props = rest [''className'', ''variant'', ''size''] p
      in jsx ''ButtonPrimitive''
           [(''data-slot'', PStr (js ''button'')),
            (''className'', PStr (cn tw clsx [PStr (cva buttonVariants_config
               [(''variant'', variant), (''size'', size), (''className'', className)])]))] props)"

definition badgeVariants_config :: cva_config where
  "badgeVariants_config =
     \<lparr>cva_base = js ''group/badge inline-flex h-5 w-fit shrink-0 items-center justify-center gap-1 '' @
              js ''overflow-hidden rounded-4xl border border-transparent px-2 py-0.5 text-xs font-medium '' @
              js ''whitespace-nowrap transition-all focus-visible:border-ring focus-visible:ring-[3px] '' @
              js ''focus-visible:ring-ring/50 has-data-[icon=inline-end]:pr-1.5 '' @
              js ''has-data-[icon=inline-start]:pl-1.5 aria-invalid:border-destructive '' @
              js ''aria-invalid:ring-destructive/20 dark:aria-invalid:ring-destructive/40 '' @
              js ''[&>svg]:pointer-events-none [&>svg]:size-3!'',
      cva_variants =
       [(''variant'',
         [(''default'', js ''bg-primary text-primary-foreground [a]:hover:bg-primary/80''),
          (''secondary'', js ''bg-secondary text-secondary-foreground [a]:hover:bg-secondary/80''),
          (''destructive'', js ''bg-destructive/10 text-destructive focus-visible:ring-destructive/20 dark:bg-destructive/20 '' @
              js ''dark:focus-visible:ring-destructive/40 [a]:hover:bg-destructive/20''),
          (''outline'', js ''border-border text-foreground [a]:hover:bg-muted [a]:hover:text-muted-foreground''),
          (''ghost'', js ''hover:bg-muted hover:text-muted-foreground dark:hover:bg-muted/50''),
          (''link'', js ''text-primary underline-offset-4 hover:underline'')])],
      cva_defaults = [(''variant'', ''default'')]\<rparr>"

text \<open>\<^verbatim>\<open>useRender\<close> and \<^verbatim>\<open>mergeProps\<close> are the library's.\<close>

definition Badge ::
  "tw_merge \<Rightarrow> class_join \<Rightarrow> class_variants \<Rightarrow> (string \<Rightarrow> props \<Rightarrow> pval \<Rightarrow> props \<Rightarrow> node) \<Rightarrow> (props \<Rightarrow> props \<Rightarrow> props) \<Rightarrow> props \<Rightarrow> node" where
  "Badge tw clsx cva useRender mergeProps p =
     (let className = the_prop p ''className'' PUndef;
          variant = the_prop p ''variant'' (PStr (js ''default''));
          render = the_prop p ''render'' PUndef;
          props = rest [''className'', ''variant'', ''render''] p
      in useRender ''span''
           (mergeProps [(''className'', PStr (cn tw clsx [PStr (cva badgeVariants_config [(''variant'', variant)]), className]))] props)
           render [(''slot'', PStr (js ''badge'')), (''variant'', variant)])"

section \<open>Fields\<close>

definition UiInput :: "tw_merge \<Rightarrow> class_join \<Rightarrow> props \<Rightarrow> node" where
  "UiInput tw clsx p =
     (let className = the_prop p ''className'' PUndef;
          type = the_prop p ''type'' PUndef;
          props = rest [''className'', ''type''] p
      in jsx ''InputPrimitive''
           [(''type'', type),
            (''data-slot'', PStr (js ''input'')),
            (''className'', PStr (cn tw clsx [PStr (js ''h-8 w-full min-w-0 rounded-lg border border-input bg-transparent px-2.5 py-1 text-base '' @
              js ''transition-colors outline-none file:inline-flex file:h-6 file:border-0 file:bg-transparent '' @
              js ''file:text-sm file:font-medium file:text-foreground placeholder:text-muted-foreground '' @
              js ''focus-visible:border-ring focus-visible:ring-3 focus-visible:ring-ring/50 '' @
              js ''disabled:pointer-events-none disabled:cursor-not-allowed disabled:bg-input/50 '' @
              js ''disabled:opacity-50 aria-invalid:border-destructive aria-invalid:ring-3 '' @
              js ''aria-invalid:ring-destructive/20 md:text-sm dark:bg-input/30 dark:disabled:bg-input/80 '' @
              js ''dark:aria-invalid:border-destructive/50 dark:aria-invalid:ring-destructive/40''), className]))] props)"

definition UiLabel :: "tw_merge \<Rightarrow> class_join \<Rightarrow> props \<Rightarrow> node" where
  "UiLabel tw clsx p =
     (let className = the_prop p ''className'' PUndef;
          props = rest [''className''] p
      in jsx ''label''
           [(''data-slot'', PStr (js ''label'')),
            (''className'', PStr (cn tw clsx [PStr (js ''flex items-center gap-2 text-sm leading-none font-medium select-none '' @
              js ''group-data-[disabled=true]:pointer-events-none group-data-[disabled=true]:opacity-50 '' @
              js ''peer-disabled:cursor-not-allowed peer-disabled:opacity-50''), className]))] props)"

definition Textarea :: "tw_merge \<Rightarrow> class_join \<Rightarrow> props \<Rightarrow> node" where
  "Textarea tw clsx p =
     (let className = the_prop p ''className'' PUndef;
          props = rest [''className''] p
      in jsx ''textarea''
           [(''data-slot'', PStr (js ''textarea'')),
            (''className'', PStr (cn tw clsx [PStr (js ''flex field-sizing-content min-h-16 w-full rounded-lg border border-input bg-transparent '' @
              js ''px-2.5 py-2 text-base transition-colors outline-none placeholder:text-muted-foreground '' @
              js ''focus-visible:border-ring focus-visible:ring-3 focus-visible:ring-ring/50 '' @
              js ''disabled:cursor-not-allowed disabled:bg-input/50 disabled:opacity-50 '' @
              js ''aria-invalid:border-destructive aria-invalid:ring-3 aria-invalid:ring-destructive/20 '' @
              js ''md:text-sm dark:bg-input/30 dark:disabled:bg-input/80 '' @
              js ''dark:aria-invalid:border-destructive/50 dark:aria-invalid:ring-destructive/40''), className]))] props)"

definition UiSwitch :: "tw_merge \<Rightarrow> class_join \<Rightarrow> props \<Rightarrow> node" where
  "UiSwitch tw clsx p =
     (let className = the_prop p ''className'' PUndef;
          size = the_prop p ''size'' (PStr (js ''default''));
          props = rest [''className'', ''size''] p
      in jsx_with ''SwitchPrimitive.Root''
           [(''data-slot'', PStr (js ''switch'')),
            (''data-size'', size),
            (''className'', PStr (cn tw clsx [PStr (js ''peer group/switch relative inline-flex shrink-0 items-center rounded-full border '' @
              js ''border-transparent transition-all outline-none after:absolute after:-inset-x-3 '' @
              js ''after:-inset-y-2 focus-visible:border-ring focus-visible:ring-3 focus-visible:ring-ring/50 '' @
              js ''aria-invalid:border-destructive aria-invalid:ring-3 aria-invalid:ring-destructive/20 '' @
              js ''data-[size=default]:h-[18.4px] data-[size=default]:w-[32px] data-[size=sm]:h-[14px] '' @
              js ''data-[size=sm]:w-[24px] dark:aria-invalid:border-destructive/50 '' @
              js ''dark:aria-invalid:ring-destructive/40 data-checked:bg-primary data-unchecked:bg-input '' @
              js ''dark:data-unchecked:bg-input/80 data-disabled:cursor-not-allowed data-disabled:opacity-50''), className]))] props
           ([jsx ''SwitchPrimitive.Thumb''
              [(''data-slot'', PStr (js ''switch-thumb'')),
               (''className'', PStr (js ''pointer-events-none block rounded-full bg-background ring-0 transition-transform '' @
              js ''group-data-[size=default]/switch:size-4 group-data-[size=sm]/switch:size-3 '' @
              js ''group-data-[size=default]/switch:data-checked:translate-x-[calc(100%-2px)] '' @
              js ''group-data-[size=sm]/switch:data-checked:translate-x-[calc(100%-2px)] '' @
              js ''dark:data-checked:bg-primary-foreground '' @
              js ''group-data-[size=default]/switch:data-unchecked:translate-x-0 '' @
              js ''group-data-[size=sm]/switch:data-unchecked:translate-x-0 dark:data-unchecked:bg-foreground''))] []]))"

section \<open>Cards and tables\<close>

definition Card :: "tw_merge \<Rightarrow> class_join \<Rightarrow> props \<Rightarrow> node" where
  "Card tw clsx p =
     (let className = the_prop p ''className'' PUndef;
          size = the_prop p ''size'' (PStr (js ''default''));
          props = rest [''className'', ''size''] p
      in jsx ''div''
           [(''data-slot'', PStr (js ''card'')),
            (''data-size'', size),
            (''className'', PStr (cn tw clsx [PStr (js ''group/card flex flex-col gap-4 overflow-hidden rounded-xl bg-card py-4 text-sm '' @
              js ''text-card-foreground ring-1 ring-foreground/10 has-data-[slot=card-footer]:pb-0 '' @
              js ''has-[>img:first-child]:pt-0 data-[size=sm]:gap-3 data-[size=sm]:py-3 '' @
              js ''data-[size=sm]:has-data-[slot=card-footer]:pb-0 *:[img:first-child]:rounded-t-xl '' @
              js ''*:[img:last-child]:rounded-b-xl''), className]))] props)"

definition CardHeader :: "tw_merge \<Rightarrow> class_join \<Rightarrow> props \<Rightarrow> node" where
  "CardHeader tw clsx p =
     (let className = the_prop p ''className'' PUndef;
          props = rest [''className''] p
      in jsx ''div''
           [(''data-slot'', PStr (js ''card-header'')),
            (''className'', PStr (cn tw clsx [PStr (js ''group/card-header @container/card-header grid auto-rows-min items-start gap-1 rounded-t-xl '' @
              js ''px-4 group-data-[size=sm]/card:px-3 has-data-[slot=card-action]:grid-cols-[1fr_auto] '' @
              js ''has-data-[slot=card-description]:grid-rows-[auto_auto] [.border-b]:pb-4 '' @
              js ''group-data-[size=sm]/card:[.border-b]:pb-3''), className]))] props)"

definition CardTitle :: "tw_merge \<Rightarrow> class_join \<Rightarrow> props \<Rightarrow> node" where
  "CardTitle tw clsx p =
     (let className = the_prop p ''className'' PUndef;
          props = rest [''className''] p
      in jsx ''div''
           [(''data-slot'', PStr (js ''card-title'')),
            (''className'', PStr (cn tw clsx [PStr (js ''text-base leading-snug font-medium group-data-[size=sm]/card:text-sm''), className]))] props)"

definition CardDescription :: "tw_merge \<Rightarrow> class_join \<Rightarrow> props \<Rightarrow> node" where
  "CardDescription tw clsx p =
     (let className = the_prop p ''className'' PUndef;
          props = rest [''className''] p
      in jsx ''div''
           [(''data-slot'', PStr (js ''card-description'')),
            (''className'', PStr (cn tw clsx [PStr (js ''text-sm text-muted-foreground''), className]))] props)"

definition CardAction :: "tw_merge \<Rightarrow> class_join \<Rightarrow> props \<Rightarrow> node" where
  "CardAction tw clsx p =
     (let className = the_prop p ''className'' PUndef;
          props = rest [''className''] p
      in jsx ''div''
           [(''data-slot'', PStr (js ''card-action'')),
            (''className'', PStr (cn tw clsx [PStr (js ''col-start-2 row-span-2 row-start-1 self-start justify-self-end''), className]))] props)"

definition CardContent :: "tw_merge \<Rightarrow> class_join \<Rightarrow> props \<Rightarrow> node" where
  "CardContent tw clsx p =
     (let className = the_prop p ''className'' PUndef;
          props = rest [''className''] p
      in jsx ''div''
           [(''data-slot'', PStr (js ''card-content'')),
            (''className'', PStr (cn tw clsx [PStr (js ''px-4 group-data-[size=sm]/card:px-3''), className]))] props)"

definition CardFooter :: "tw_merge \<Rightarrow> class_join \<Rightarrow> props \<Rightarrow> node" where
  "CardFooter tw clsx p =
     (let className = the_prop p ''className'' PUndef;
          props = rest [''className''] p
      in jsx ''div''
           [(''data-slot'', PStr (js ''card-footer'')),
            (''className'', PStr (cn tw clsx [PStr (js ''flex items-center rounded-b-xl border-t bg-muted/50 p-4 group-data-[size=sm]/card:p-3''), className]))] props)"

definition UiTable :: "tw_merge \<Rightarrow> class_join \<Rightarrow> props \<Rightarrow> node" where
  "UiTable tw clsx p =
     (let className = the_prop p ''className'' PUndef;
          props = rest [''className''] p
      in jsx_with ''div''
           [(''data-slot'', PStr (js ''table-container'')),
            (''className'', PStr (js ''relative w-full overflow-x-auto''))] []
           ([jsx ''table''
              [(''data-slot'', PStr (js ''table'')),
               (''className'', PStr (cn tw clsx [PStr (js ''w-full caption-bottom text-sm''), className]))] props]))"

definition TableHeader :: "tw_merge \<Rightarrow> class_join \<Rightarrow> props \<Rightarrow> node" where
  "TableHeader tw clsx p =
     (let className = the_prop p ''className'' PUndef;
          props = rest [''className''] p
      in jsx ''thead''
           [(''data-slot'', PStr (js ''table-header'')),
            (''className'', PStr (cn tw clsx [PStr (js ''[&_tr]:border-b''), className]))] props)"

definition TableBody :: "tw_merge \<Rightarrow> class_join \<Rightarrow> props \<Rightarrow> node" where
  "TableBody tw clsx p =
     (let className = the_prop p ''className'' PUndef;
          props = rest [''className''] p
      in jsx ''tbody''
           [(''data-slot'', PStr (js ''table-body'')),
            (''className'', PStr (cn tw clsx [PStr (js ''[&_tr:last-child]:border-0''), className]))] props)"

definition TableFooter :: "tw_merge \<Rightarrow> class_join \<Rightarrow> props \<Rightarrow> node" where
  "TableFooter tw clsx p =
     (let className = the_prop p ''className'' PUndef;
          props = rest [''className''] p
      in jsx ''tfoot''
           [(''data-slot'', PStr (js ''table-footer'')),
            (''className'', PStr (cn tw clsx [PStr (js ''border-t bg-muted/50 font-medium [&>tr]:last:border-b-0''), className]))] props)"

definition TableRow :: "tw_merge \<Rightarrow> class_join \<Rightarrow> props \<Rightarrow> node" where
  "TableRow tw clsx p =
     (let className = the_prop p ''className'' PUndef;
          props = rest [''className''] p
      in jsx ''tr''
           [(''data-slot'', PStr (js ''table-row'')),
            (''className'', PStr (cn tw clsx [PStr (js ''border-b transition-colors hover:bg-muted/50 data-[state=selected]:bg-muted''), className]))] props)"

definition TableHead :: "tw_merge \<Rightarrow> class_join \<Rightarrow> props \<Rightarrow> node" where
  "TableHead tw clsx p =
     (let className = the_prop p ''className'' PUndef;
          props = rest [''className''] p
      in jsx ''th''
           [(''data-slot'', PStr (js ''table-head'')),
            (''className'', PStr (cn tw clsx [PStr (js ''h-10 px-2 text-left align-middle font-medium whitespace-nowrap text-foreground '' @
              js ''[&:has([role=checkbox])]:pr-0''), className]))] props)"

definition TableCell :: "tw_merge \<Rightarrow> class_join \<Rightarrow> props \<Rightarrow> node" where
  "TableCell tw clsx p =
     (let className = the_prop p ''className'' PUndef;
          props = rest [''className''] p
      in jsx ''td''
           [(''data-slot'', PStr (js ''table-cell'')),
            (''className'', PStr (cn tw clsx [PStr (js ''p-2 align-middle whitespace-nowrap [&:has([role=checkbox])]:pr-0''), className]))] props)"

definition TableCaption :: "tw_merge \<Rightarrow> class_join \<Rightarrow> props \<Rightarrow> node" where
  "TableCaption tw clsx p =
     (let className = the_prop p ''className'' PUndef;
          props = rest [''className''] p
      in jsx ''caption''
           [(''data-slot'', PStr (js ''table-caption'')),
            (''className'', PStr (cn tw clsx [PStr (js ''mt-4 text-sm text-muted-foreground''), className]))] props)"

end
