(* ===== verification/Overlays.thy ===== *)
theory Overlays
  imports Primitives
begin

text \<open>
  The interface primitives that open above the page or hold several parts: dialogs, menus, selects,
  tooltips, the slider and the toaster (\<^verbatim>\<open>components/ui/*.tsx\<close>).
\<close>

section \<open>Dialogs\<close>

definition Dialog :: "props \<Rightarrow> node" where
  "Dialog p =
     (let props = p
      in jsx ''DialogPrimitive.Root''
           [(''data-slot'', PStr (js ''dialog''))] props)"

definition DialogTrigger :: "props \<Rightarrow> node" where
  "DialogTrigger p =
     (let props = p
      in jsx ''DialogPrimitive.Trigger''
           [(''data-slot'', PStr (js ''dialog-trigger''))] props)"

definition DialogPortal :: "props \<Rightarrow> node" where
  "DialogPortal p =
     (let props = p
      in jsx ''DialogPrimitive.Portal''
           [(''data-slot'', PStr (js ''dialog-portal''))] props)"

definition DialogClose :: "props \<Rightarrow> node" where
  "DialogClose p =
     (let props = p
      in jsx ''DialogPrimitive.Close''
           [(''data-slot'', PStr (js ''dialog-close''))] props)"

definition DialogOverlay :: "tw_merge \<Rightarrow> class_join \<Rightarrow> props \<Rightarrow> node" where
  "DialogOverlay tw clsx p =
     (let className = the_prop p ''className'' PUndef;
          props = rest [''className''] p
      in jsx ''DialogPrimitive.Backdrop''
           [(''data-slot'', PStr (js ''dialog-overlay'')),
            (''className'', PStr (cn tw clsx [PStr (js ''fixed inset-0 isolate z-50 bg-black/10 duration-100 '' @
              js ''supports-backdrop-filter:backdrop-blur-xs data-open:animate-in data-open:fade-in-0 '' @
              js ''data-closed:animate-out data-closed:fade-out-0''), className]))] props)"

definition DialogContent :: "tw_merge \<Rightarrow> class_join \<Rightarrow> class_variants \<Rightarrow> props \<Rightarrow> node" where
  "DialogContent tw clsx cva p =
     (let className = the_prop p ''className'' PUndef;
          children = the_prop p ''children'' PUndef;
          showCloseButton = the_prop p ''showCloseButton'' (PBool True);
          props = rest [''className'', ''children'', ''showCloseButton''] p
      in DialogPortal (overriding [] ((''children'', PElems
           ([DialogOverlay tw clsx [],
            jsx_with ''DialogPrimitive.Popup''
              [(''data-slot'', PStr (js ''dialog-content'')),
               (''className'', PStr (cn tw clsx [PStr (js ''fixed top-1/2 left-1/2 z-50 grid w-full max-w-[calc(100%-2rem)] -translate-x-1/2 '' @
              js ''-translate-y-1/2 gap-4 rounded-xl bg-background p-4 text-sm ring-1 ring-foreground/10 '' @
              js ''duration-100 outline-none sm:max-w-sm data-open:animate-in data-open:fade-in-0 '' @
              js ''data-open:zoom-in-95 data-closed:animate-out data-closed:fade-out-0 data-closed:zoom-out-95''), className]))] props
              (child_elems children @
               (if truthy showCloseButton
               then [jsx_with ''DialogPrimitive.Close''
                      [(''data-slot'', PStr (js ''dialog-close'')),
                       (''render'', PElem (Button tw clsx cva [(''variant'', PStr (js ''ghost'')),
                         (''className'', PStr (js ''absolute top-2 right-2'')),
                         (''size'', PStr (js ''icon-sm''))]))] []
                      ([jsx ''XIcon'' [] [],
                       jsx_with ''span''
                         [(''className'', PStr (js ''sr-only''))] []
                         ([Text (js ''Close'')])])] else []))])) # [])))"

definition DialogHeader :: "tw_merge \<Rightarrow> class_join \<Rightarrow> props \<Rightarrow> node" where
  "DialogHeader tw clsx p =
     (let className = the_prop p ''className'' PUndef;
          props = rest [''className''] p
      in jsx ''div''
           [(''data-slot'', PStr (js ''dialog-header'')),
            (''className'', PStr (cn tw clsx [PStr (js ''flex flex-col gap-2''), className]))] props)"

definition DialogFooter :: "tw_merge \<Rightarrow> class_join \<Rightarrow> class_variants \<Rightarrow> props \<Rightarrow> node" where
  "DialogFooter tw clsx cva p =
     (let className = the_prop p ''className'' PUndef;
          showCloseButton = the_prop p ''showCloseButton'' (PBool False);
          children = the_prop p ''children'' PUndef;
          props = rest [''className'', ''showCloseButton'', ''children''] p
      in jsx_with ''div''
           [(''data-slot'', PStr (js ''dialog-footer'')),
            (''className'', PStr (cn tw clsx [PStr (js ''-mx-4 -mb-4 flex flex-col-reverse gap-2 rounded-b-xl border-t bg-muted/50 p-4 sm:flex-row '' @
              js ''sm:justify-end''), className]))] props
           (child_elems children @
            (if truthy showCloseButton
            then [jsx_with ''DialogPrimitive.Close''
                   [(''render'', PElem (Button tw clsx cva [(''variant'', PStr (js ''outline''))]))] []
                   ([Text (js ''Close'')])] else [])))"

definition DialogTitle :: "tw_merge \<Rightarrow> class_join \<Rightarrow> props \<Rightarrow> node" where
  "DialogTitle tw clsx p =
     (let className = the_prop p ''className'' PUndef;
          props = rest [''className''] p
      in jsx ''DialogPrimitive.Title''
           [(''data-slot'', PStr (js ''dialog-title'')),
            (''className'', PStr (cn tw clsx [PStr (js ''text-base leading-none font-medium''), className]))] props)"

definition DialogDescription :: "tw_merge \<Rightarrow> class_join \<Rightarrow> props \<Rightarrow> node" where
  "DialogDescription tw clsx p =
     (let className = the_prop p ''className'' PUndef;
          props = rest [''className''] p
      in jsx ''DialogPrimitive.Description''
           [(''data-slot'', PStr (js ''dialog-description'')),
            (''className'', PStr (cn tw clsx [PStr (js ''text-sm text-muted-foreground *:[a]:underline *:[a]:underline-offset-3 '' @
              js ''*:[a]:hover:text-foreground''), className]))] props)"

section \<open>Menus\<close>

definition DropdownMenu :: "props \<Rightarrow> node" where
  "DropdownMenu p =
     (let props = p
      in jsx ''MenuPrimitive.Root''
           [(''data-slot'', PStr (js ''dropdown-menu''))] props)"

definition DropdownMenuPortal :: "props \<Rightarrow> node" where
  "DropdownMenuPortal p =
     (let props = p
      in jsx ''MenuPrimitive.Portal''
           [(''data-slot'', PStr (js ''dropdown-menu-portal''))] props)"

definition DropdownMenuTrigger :: "props \<Rightarrow> node" where
  "DropdownMenuTrigger p =
     (let props = p
      in jsx ''MenuPrimitive.Trigger''
           [(''data-slot'', PStr (js ''dropdown-menu-trigger''))] props)"

definition DropdownMenuContent :: "tw_merge \<Rightarrow> class_join \<Rightarrow> props \<Rightarrow> node" where
  "DropdownMenuContent tw clsx p =
     (let align = the_prop p ''align'' (PStr (js ''start''));
          alignOffset = the_prop p ''alignOffset'' (PNum 0);
          side = the_prop p ''side'' (PStr (js ''bottom''));
          sideOffset = the_prop p ''sideOffset'' (PNum 4);
          className = the_prop p ''className'' PUndef;
          props = rest [''align'', ''alignOffset'', ''side'', ''sideOffset'', ''className''] p
      in jsx_with ''MenuPrimitive.Portal''
           [] []
           ([jsx_with ''MenuPrimitive.Positioner''
              [(''className'', PStr (js ''isolate z-50 outline-none'')),
               (''align'', align),
               (''alignOffset'', alignOffset),
               (''side'', side),
               (''sideOffset'', sideOffset)] []
              ([jsx ''MenuPrimitive.Popup''
                 [(''data-slot'', PStr (js ''dropdown-menu-content'')),
                  (''className'', PStr (cn tw clsx [PStr (js ''z-50 max-h-(--available-height) w-(--anchor-width) min-w-32 origin-(--transform-origin) '' @
              js ''overflow-x-hidden overflow-y-auto rounded-lg bg-popover p-1 text-popover-foreground '' @
              js ''shadow-md ring-1 ring-foreground/10 duration-100 outline-none '' @
              js ''data-[side=bottom]:slide-in-from-top-2 data-[side=inline-end]:slide-in-from-left-2 '' @
              js ''data-[side=inline-start]:slide-in-from-right-2 data-[side=left]:slide-in-from-right-2 '' @
              js ''data-[side=right]:slide-in-from-left-2 data-[side=top]:slide-in-from-bottom-2 '' @
              js ''data-open:animate-in data-open:fade-in-0 data-open:zoom-in-95 data-closed:animate-out '' @
              js ''data-closed:overflow-hidden data-closed:fade-out-0 data-closed:zoom-out-95''), className]))] props])]))"

definition DropdownMenuGroup :: "props \<Rightarrow> node" where
  "DropdownMenuGroup p =
     (let props = p
      in jsx ''MenuPrimitive.Group''
           [(''data-slot'', PStr (js ''dropdown-menu-group''))] props)"

definition DropdownMenuLabel :: "tw_merge \<Rightarrow> class_join \<Rightarrow> props \<Rightarrow> node" where
  "DropdownMenuLabel tw clsx p =
     (let className = the_prop p ''className'' PUndef;
          inset = the_prop p ''inset'' PUndef;
          props = rest [''className'', ''inset''] p
      in jsx ''MenuPrimitive.GroupLabel''
           [(''data-slot'', PStr (js ''dropdown-menu-label'')),
            (''data-inset'', inset),
            (''className'', PStr (cn tw clsx [PStr (js ''px-1.5 py-1 text-xs font-medium text-muted-foreground data-inset:pl-7''), className]))] props)"

definition DropdownMenuItem :: "tw_merge \<Rightarrow> class_join \<Rightarrow> props \<Rightarrow> node" where
  "DropdownMenuItem tw clsx p =
     (let className = the_prop p ''className'' PUndef;
          inset = the_prop p ''inset'' PUndef;
          variant = the_prop p ''variant'' (PStr (js ''default''));
          props = rest [''className'', ''inset'', ''variant''] p
      in jsx ''MenuPrimitive.Item''
           [(''data-slot'', PStr (js ''dropdown-menu-item'')),
            (''data-inset'', inset),
            (''data-variant'', variant),
            (''className'', PStr (cn tw clsx [PStr (js ''group/dropdown-menu-item relative flex cursor-default items-center gap-1.5 rounded-md '' @
              js ''px-1.5 py-1 text-sm outline-hidden select-none focus:bg-accent focus:text-accent-foreground '' @
              js ''not-data-[variant=destructive]:focus:**:text-accent-foreground data-inset:pl-7 '' @
              js ''data-[variant=destructive]:text-destructive '' @
              js ''data-[variant=destructive]:focus:bg-destructive/10 '' @
              js ''data-[variant=destructive]:focus:text-destructive '' @
              js ''dark:data-[variant=destructive]:focus:bg-destructive/20 data-disabled:pointer-events-none '' @
              js ''data-disabled:opacity-50 [&_svg]:pointer-events-none [&_svg]:shrink-0 '' @
              js ''[&_svg:not([class*='size-'])]:size-4 data-[variant=destructive]:*:[svg]:text-destructive''), className]))] props)"

definition DropdownMenuSub :: "props \<Rightarrow> node" where
  "DropdownMenuSub p =
     (let props = p
      in jsx ''MenuPrimitive.SubmenuRoot''
           [(''data-slot'', PStr (js ''dropdown-menu-sub''))] props)"

definition DropdownMenuSubTrigger :: "tw_merge \<Rightarrow> class_join \<Rightarrow> props \<Rightarrow> node" where
  "DropdownMenuSubTrigger tw clsx p =
     (let className = the_prop p ''className'' PUndef;
          inset = the_prop p ''inset'' PUndef;
          children = the_prop p ''children'' PUndef;
          props = rest [''className'', ''inset'', ''children''] p
      in jsx_with ''MenuPrimitive.SubmenuTrigger''
           [(''data-slot'', PStr (js ''dropdown-menu-sub-trigger'')),
            (''data-inset'', inset),
            (''className'', PStr (cn tw clsx [PStr (js ''flex cursor-default items-center gap-1.5 rounded-md px-1.5 py-1 text-sm outline-hidden '' @
              js ''select-none focus:bg-accent focus:text-accent-foreground '' @
              js ''not-data-[variant=destructive]:focus:**:text-accent-foreground data-inset:pl-7 '' @
              js ''data-popup-open:bg-accent data-popup-open:text-accent-foreground data-open:bg-accent '' @
              js ''data-open:text-accent-foreground [&_svg]:pointer-events-none [&_svg]:shrink-0 '' @
              js ''[&_svg:not([class*='size-'])]:size-4''), className]))] props
           (child_elems children @
            [jsx ''ChevronRightIcon''
              [(''className'', PStr (js ''ml-auto''))] []]))"

definition DropdownMenuSubContent :: "tw_merge \<Rightarrow> class_join \<Rightarrow> props \<Rightarrow> node" where
  "DropdownMenuSubContent tw clsx p =
     (let align = the_prop p ''align'' (PStr (js ''start''));
          alignOffset = the_prop p ''alignOffset'' (PNum (-3));
          side = the_prop p ''side'' (PStr (js ''right''));
          sideOffset = the_prop p ''sideOffset'' (PNum 0);
          className = the_prop p ''className'' PUndef;
          props = rest [''align'', ''alignOffset'', ''side'', ''sideOffset'', ''className''] p
      in DropdownMenuContent tw clsx
           (overriding [(''data-slot'', PStr (js ''dropdown-menu-sub-content'')),
            (''className'', PStr (cn tw clsx [PStr (js ''w-auto min-w-[96px] rounded-lg bg-popover p-1 text-popover-foreground shadow-lg ring-1 '' @
              js ''ring-foreground/10 duration-100 data-[side=bottom]:slide-in-from-top-2 '' @
              js ''data-[side=left]:slide-in-from-right-2 data-[side=right]:slide-in-from-left-2 '' @
              js ''data-[side=top]:slide-in-from-bottom-2 data-open:animate-in data-open:fade-in-0 '' @
              js ''data-open:zoom-in-95 data-closed:animate-out data-closed:fade-out-0 data-closed:zoom-out-95''), className])),
            (''align'', align),
            (''alignOffset'', alignOffset),
            (''side'', side),
            (''sideOffset'', sideOffset)] props))"

definition DropdownMenuCheckboxItem :: "tw_merge \<Rightarrow> class_join \<Rightarrow> props \<Rightarrow> node" where
  "DropdownMenuCheckboxItem tw clsx p =
     (let className = the_prop p ''className'' PUndef;
          children = the_prop p ''children'' PUndef;
          checked = the_prop p ''checked'' PUndef;
          inset = the_prop p ''inset'' PUndef;
          props = rest [''className'', ''children'', ''checked'', ''inset''] p
      in jsx_with ''MenuPrimitive.CheckboxItem''
           [(''data-slot'', PStr (js ''dropdown-menu-checkbox-item'')),
            (''data-inset'', inset),
            (''className'', PStr (cn tw clsx [PStr (js ''relative flex cursor-default items-center gap-1.5 rounded-md py-1 pr-8 pl-1.5 text-sm '' @
              js ''outline-hidden select-none focus:bg-accent focus:text-accent-foreground '' @
              js ''focus:**:text-accent-foreground data-inset:pl-7 data-disabled:pointer-events-none '' @
              js ''data-disabled:opacity-50 [&_svg]:pointer-events-none [&_svg]:shrink-0 '' @
              js ''[&_svg:not([class*='size-'])]:size-4''), className])),
            (''checked'', checked)] props
           ([jsx_with ''span''
              [(''className'', PStr (js ''pointer-events-none absolute right-2 flex items-center justify-center'')),
               (''data-slot'', PStr (js ''dropdown-menu-checkbox-item-indicator''))] []
              ([jsx_with ''MenuPrimitive.CheckboxItemIndicator''
                 [] []
                 ([jsx ''CheckIcon'' [] []])])] @
            child_elems children))"

definition DropdownMenuRadioGroup :: "props \<Rightarrow> node" where
  "DropdownMenuRadioGroup p =
     (let props = p
      in jsx ''MenuPrimitive.RadioGroup''
           [(''data-slot'', PStr (js ''dropdown-menu-radio-group''))] props)"

definition DropdownMenuRadioItem :: "tw_merge \<Rightarrow> class_join \<Rightarrow> props \<Rightarrow> node" where
  "DropdownMenuRadioItem tw clsx p =
     (let className = the_prop p ''className'' PUndef;
          children = the_prop p ''children'' PUndef;
          inset = the_prop p ''inset'' PUndef;
          props = rest [''className'', ''children'', ''inset''] p
      in jsx_with ''MenuPrimitive.RadioItem''
           [(''data-slot'', PStr (js ''dropdown-menu-radio-item'')),
            (''data-inset'', inset),
            (''className'', PStr (cn tw clsx [PStr (js ''relative flex cursor-default items-center gap-1.5 rounded-md py-1 pr-8 pl-1.5 text-sm '' @
              js ''outline-hidden select-none focus:bg-accent focus:text-accent-foreground '' @
              js ''focus:**:text-accent-foreground data-inset:pl-7 data-disabled:pointer-events-none '' @
              js ''data-disabled:opacity-50 [&_svg]:pointer-events-none [&_svg]:shrink-0 '' @
              js ''[&_svg:not([class*='size-'])]:size-4''), className]))] props
           ([jsx_with ''span''
              [(''className'', PStr (js ''pointer-events-none absolute right-2 flex items-center justify-center'')),
               (''data-slot'', PStr (js ''dropdown-menu-radio-item-indicator''))] []
              ([jsx_with ''MenuPrimitive.RadioItemIndicator''
                 [] []
                 ([jsx ''CheckIcon'' [] []])])] @
            child_elems children))"

definition DropdownMenuSeparator :: "tw_merge \<Rightarrow> class_join \<Rightarrow> props \<Rightarrow> node" where
  "DropdownMenuSeparator tw clsx p =
     (let className = the_prop p ''className'' PUndef;
          props = rest [''className''] p
      in jsx ''MenuPrimitive.Separator''
           [(''data-slot'', PStr (js ''dropdown-menu-separator'')),
            (''className'', PStr (cn tw clsx [PStr (js ''-mx-1 my-1 h-px bg-border''), className]))] props)"

definition DropdownMenuShortcut :: "tw_merge \<Rightarrow> class_join \<Rightarrow> props \<Rightarrow> node" where
  "DropdownMenuShortcut tw clsx p =
     (let className = the_prop p ''className'' PUndef;
          props = rest [''className''] p
      in jsx ''span''
           [(''data-slot'', PStr (js ''dropdown-menu-shortcut'')),
            (''className'', PStr (cn tw clsx [PStr (js ''ml-auto text-xs tracking-widest text-muted-foreground '' @
              js ''group-focus/dropdown-menu-item:text-accent-foreground''), className]))] props)"

section \<open>Selects\<close>

definition UiSelect :: "props \<Rightarrow> node" where
  "UiSelect p = jsx ''SelectPrimitive.Root'' [] p"

definition SelectScrollUpButton :: "tw_merge \<Rightarrow> class_join \<Rightarrow> props \<Rightarrow> node" where
  "SelectScrollUpButton tw clsx p =
     (let className = the_prop p ''className'' PUndef;
          props = rest [''className''] p
      in jsx_with ''SelectPrimitive.ScrollUpArrow''
           [(''data-slot'', PStr (js ''select-scroll-up-button'')),
            (''className'', PStr (cn tw clsx [PStr (js ''top-0 z-10 flex w-full cursor-default items-center justify-center bg-popover py-1 '' @
              js ''[&_svg:not([class*='size-'])]:size-4''), className]))] props
           ([jsx ''ChevronUpIcon'' [] []]))"

definition SelectScrollDownButton :: "tw_merge \<Rightarrow> class_join \<Rightarrow> props \<Rightarrow> node" where
  "SelectScrollDownButton tw clsx p =
     (let className = the_prop p ''className'' PUndef;
          props = rest [''className''] p
      in jsx_with ''SelectPrimitive.ScrollDownArrow''
           [(''data-slot'', PStr (js ''select-scroll-down-button'')),
            (''className'', PStr (cn tw clsx [PStr (js ''bottom-0 z-10 flex w-full cursor-default items-center justify-center bg-popover py-1 '' @
              js ''[&_svg:not([class*='size-'])]:size-4''), className]))] props
           ([jsx ''ChevronDownIcon'' [] []]))"

definition SelectGroup :: "tw_merge \<Rightarrow> class_join \<Rightarrow> props \<Rightarrow> node" where
  "SelectGroup tw clsx p =
     (let className = the_prop p ''className'' PUndef;
          props = rest [''className''] p
      in jsx ''SelectPrimitive.Group''
           [(''data-slot'', PStr (js ''select-group'')),
            (''className'', PStr (cn tw clsx [PStr (js ''scroll-my-1 p-1''), className]))] props)"

definition SelectValue :: "tw_merge \<Rightarrow> class_join \<Rightarrow> props \<Rightarrow> node" where
  "SelectValue tw clsx p =
     (let className = the_prop p ''className'' PUndef;
          props = rest [''className''] p
      in jsx ''SelectPrimitive.Value''
           [(''data-slot'', PStr (js ''select-value'')),
            (''className'', PStr (cn tw clsx [PStr (js ''flex flex-1 text-left''), className]))] props)"

definition SelectTrigger :: "tw_merge \<Rightarrow> class_join \<Rightarrow> props \<Rightarrow> node" where
  "SelectTrigger tw clsx p =
     (let className = the_prop p ''className'' PUndef;
          size = the_prop p ''size'' (PStr (js ''default''));
          children = the_prop p ''children'' PUndef;
          props = rest [''className'', ''size'', ''children''] p
      in jsx_with ''SelectPrimitive.Trigger''
           [(''data-slot'', PStr (js ''select-trigger'')),
            (''data-size'', size),
            (''className'', PStr (cn tw clsx [PStr (js ''flex w-fit items-center justify-between gap-1.5 rounded-lg border border-input '' @
              js ''bg-transparent py-2 pr-2 pl-2.5 text-sm whitespace-nowrap transition-colors outline-none '' @
              js ''select-none focus-visible:border-ring focus-visible:ring-3 focus-visible:ring-ring/50 '' @
              js ''disabled:cursor-not-allowed disabled:opacity-50 aria-invalid:border-destructive '' @
              js ''aria-invalid:ring-3 aria-invalid:ring-destructive/20 data-placeholder:text-muted-foreground '' @
              js ''data-[size=default]:h-8 data-[size=sm]:h-7 '' @
              js ''data-[size=sm]:rounded-[min(var(--radius-md),10px)] *:data-[slot=select-value]:line-clamp-1 '' @
              js ''*:data-[slot=select-value]:flex *:data-[slot=select-value]:items-center '' @
              js ''*:data-[slot=select-value]:gap-1.5 dark:bg-input/30 dark:hover:bg-input/50 '' @
              js ''dark:aria-invalid:border-destructive/50 dark:aria-invalid:ring-destructive/40 '' @
              js ''[&_svg]:pointer-events-none [&_svg]:shrink-0 [&_svg:not([class*='size-'])]:size-4''), className]))] props
           (child_elems children @
            [jsx ''SelectPrimitive.Icon''
              [(''render'', PElem (jsx ''ChevronDownIcon''
                [(''className'', PStr (js ''pointer-events-none size-4 text-muted-foreground''))] []))] []]))"

definition SelectContent :: "tw_merge \<Rightarrow> class_join \<Rightarrow> props \<Rightarrow> node" where
  "SelectContent tw clsx p =
     (let className = the_prop p ''className'' PUndef;
          children = the_prop p ''children'' PUndef;
          side = the_prop p ''side'' (PStr (js ''bottom''));
          sideOffset = the_prop p ''sideOffset'' (PNum 4);
          align = the_prop p ''align'' (PStr (js ''center''));
          alignOffset = the_prop p ''alignOffset'' (PNum 0);
          alignItemWithTrigger = the_prop p ''alignItemWithTrigger'' (PBool True);
          props = rest [''className'', ''children'', ''side'', ''sideOffset'', ''align'', ''alignOffset'', ''alignItemWithTrigger''] p
      in jsx_with ''SelectPrimitive.Portal''
           [] []
           ([jsx_with ''SelectPrimitive.Positioner''
              [(''side'', side),
               (''sideOffset'', sideOffset),
               (''align'', align),
               (''alignOffset'', alignOffset),
               (''alignItemWithTrigger'', alignItemWithTrigger),
               (''className'', PStr (js ''isolate z-50''))] []
              ([jsx_with ''SelectPrimitive.Popup''
                 [(''data-slot'', PStr (js ''select-content'')),
                  (''data-align-trigger'', alignItemWithTrigger),
                  (''className'', PStr (cn tw clsx [PStr (js ''relative isolate z-50 max-h-(--available-height) w-(--anchor-width) min-w-36 '' @
              js ''origin-(--transform-origin) overflow-x-hidden overflow-y-auto rounded-lg bg-popover '' @
              js ''text-popover-foreground shadow-md ring-1 ring-foreground/10 duration-100 '' @
              js ''data-[align-trigger=true]:animate-none data-[side=bottom]:slide-in-from-top-2 '' @
              js ''data-[side=inline-end]:slide-in-from-left-2 data-[side=inline-start]:slide-in-from-right-2 '' @
              js ''data-[side=left]:slide-in-from-right-2 data-[side=right]:slide-in-from-left-2 '' @
              js ''data-[side=top]:slide-in-from-bottom-2 data-open:animate-in data-open:fade-in-0 '' @
              js ''data-open:zoom-in-95 data-closed:animate-out data-closed:fade-out-0 data-closed:zoom-out-95''), className]))] props
                 ([SelectScrollUpButton tw clsx [],
                  jsx_with ''SelectPrimitive.List''
                    [] []
                    (child_elems children),
                  SelectScrollDownButton tw clsx []])])]))"

definition SelectLabel :: "tw_merge \<Rightarrow> class_join \<Rightarrow> props \<Rightarrow> node" where
  "SelectLabel tw clsx p =
     (let className = the_prop p ''className'' PUndef;
          props = rest [''className''] p
      in jsx ''SelectPrimitive.GroupLabel''
           [(''data-slot'', PStr (js ''select-label'')),
            (''className'', PStr (cn tw clsx [PStr (js ''px-1.5 py-1 text-xs text-muted-foreground''), className]))] props)"

definition SelectItem :: "tw_merge \<Rightarrow> class_join \<Rightarrow> props \<Rightarrow> node" where
  "SelectItem tw clsx p =
     (let className = the_prop p ''className'' PUndef;
          children = the_prop p ''children'' PUndef;
          props = rest [''className'', ''children''] p
      in jsx_with ''SelectPrimitive.Item''
           [(''data-slot'', PStr (js ''select-item'')),
            (''className'', PStr (cn tw clsx [PStr (js ''relative flex w-full cursor-default items-center gap-1.5 rounded-md py-1 pr-8 pl-1.5 '' @
              js ''text-sm outline-hidden select-none focus:bg-accent focus:text-accent-foreground '' @
              js ''not-data-[variant=destructive]:focus:**:text-accent-foreground '' @
              js ''data-disabled:pointer-events-none data-disabled:opacity-50 [&_svg]:pointer-events-none '' @
              js ''[&_svg]:shrink-0 [&_svg:not([class*='size-'])]:size-4 *:[span]:last:flex '' @
              js ''*:[span]:last:items-center *:[span]:last:gap-2''), className]))] props
           ([jsx_with ''SelectPrimitive.ItemText''
              [(''className'', PStr (js ''flex flex-1 shrink-0 gap-2 whitespace-nowrap''))] []
              (child_elems children),
            jsx_with ''SelectPrimitive.ItemIndicator''
              [(''render'', PElem (jsx ''span''
                [(''className'', PStr (js ''pointer-events-none absolute right-2 flex size-4 items-center justify-center''))] []))] []
              ([jsx ''CheckIcon''
                 [(''className'', PStr (js ''pointer-events-none''))] []])]))"

definition SelectSeparator :: "tw_merge \<Rightarrow> class_join \<Rightarrow> props \<Rightarrow> node" where
  "SelectSeparator tw clsx p =
     (let className = the_prop p ''className'' PUndef;
          props = rest [''className''] p
      in jsx ''SelectPrimitive.Separator''
           [(''data-slot'', PStr (js ''select-separator'')),
            (''className'', PStr (cn tw clsx [PStr (js ''pointer-events-none -mx-1 my-1 h-px bg-border''), className]))] props)"

section \<open>Tooltips\<close>

definition TooltipProvider :: "props \<Rightarrow> node" where
  "TooltipProvider p =
     (let delay = the_prop p ''delay'' (PNum 0);
          props = rest [''delay''] p
      in jsx ''TooltipPrimitive.Provider''
           [(''data-slot'', PStr (js ''tooltip-provider'')),
            (''delay'', delay)] props)"

definition Tooltip :: "props \<Rightarrow> node" where
  "Tooltip p =
     (let props = p
      in jsx ''TooltipPrimitive.Root''
           [(''data-slot'', PStr (js ''tooltip''))] props)"

definition TooltipTrigger :: "props \<Rightarrow> node" where
  "TooltipTrigger p =
     (let props = p
      in jsx ''TooltipPrimitive.Trigger''
           [(''data-slot'', PStr (js ''tooltip-trigger''))] props)"

definition TooltipContent :: "tw_merge \<Rightarrow> class_join \<Rightarrow> props \<Rightarrow> node" where
  "TooltipContent tw clsx p =
     (let className = the_prop p ''className'' PUndef;
          side = the_prop p ''side'' (PStr (js ''top''));
          sideOffset = the_prop p ''sideOffset'' (PNum 4);
          align = the_prop p ''align'' (PStr (js ''center''));
          alignOffset = the_prop p ''alignOffset'' (PNum 0);
          children = the_prop p ''children'' PUndef;
          props = rest [''className'', ''side'', ''sideOffset'', ''align'', ''alignOffset'', ''children''] p
      in jsx_with ''TooltipPrimitive.Portal''
           [] []
           ([jsx_with ''TooltipPrimitive.Positioner''
              [(''align'', align),
               (''alignOffset'', alignOffset),
               (''side'', side),
               (''sideOffset'', sideOffset),
               (''className'', PStr (js ''isolate z-50''))] []
              ([jsx_with ''TooltipPrimitive.Popup''
                 [(''data-slot'', PStr (js ''tooltip-content'')),
                  (''className'', PStr (cn tw clsx [PStr (js ''z-50 inline-flex w-fit max-w-xs origin-(--transform-origin) items-center gap-1.5 rounded-md '' @
              js ''bg-foreground px-3 py-1.5 text-xs text-background has-data-[slot=kbd]:pr-1.5 '' @
              js ''data-[side=bottom]:slide-in-from-top-2 data-[side=inline-end]:slide-in-from-left-2 '' @
              js ''data-[side=inline-start]:slide-in-from-right-2 data-[side=left]:slide-in-from-right-2 '' @
              js ''data-[side=right]:slide-in-from-left-2 data-[side=top]:slide-in-from-bottom-2 '' @
              js ''**:data-[slot=kbd]:relative **:data-[slot=kbd]:isolate **:data-[slot=kbd]:z-50 '' @
              js ''**:data-[slot=kbd]:rounded-sm data-[state=delayed-open]:animate-in '' @
              js ''data-[state=delayed-open]:fade-in-0 data-[state=delayed-open]:zoom-in-95 '' @
              js ''data-open:animate-in data-open:fade-in-0 data-open:zoom-in-95 data-closed:animate-out '' @
              js ''data-closed:fade-out-0 data-closed:zoom-out-95''), className]))] props
                 (child_elems children @
                  [jsx ''TooltipPrimitive.Arrow''
                    [(''className'', PStr (js ''z-50 size-2.5 translate-y-[calc(-50%-2px)] rotate-45 rounded-[2px] bg-foreground '' @
              js ''fill-foreground data-[side=bottom]:top-1 data-[side=inline-end]:top-1/2! '' @
              js ''data-[side=inline-end]:-left-1 data-[side=inline-end]:-translate-y-1/2 '' @
              js ''data-[side=inline-start]:top-1/2! data-[side=inline-start]:-right-1 '' @
              js ''data-[side=inline-start]:-translate-y-1/2 data-[side=left]:top-1/2! '' @
              js ''data-[side=left]:-right-1 data-[side=left]:-translate-y-1/2 data-[side=right]:top-1/2! '' @
              js ''data-[side=right]:-left-1 data-[side=right]:-translate-y-1/2 data-[side=top]:-bottom-2.5''))] []])])]))"

section \<open>The slider and the toaster\<close>

definition slider_values :: "pval \<Rightarrow> pval \<Rightarrow> pval \<Rightarrow> pval \<Rightarrow> pval list" where
  "slider_values val defaultValue mn mx =
     (case val of
        PNums vs \<Rightarrow> map PNum vs
      | _ \<Rightarrow> (case defaultValue of PNums vs \<Rightarrow> map PNum vs | _ \<Rightarrow> [mn, mx]))"

definition slider_thumb :: "pval \<Rightarrow> pval \<Rightarrow> nat \<Rightarrow> node" where
  "slider_thumb ariaLabel ariaLabelledby index =
     jsx ''SliderPrimitive.Thumb''
       [(''data-slot'', PStr (js ''slider-thumb'')),
        (''key'', PNum (int index)),
        (''aria-label'', ariaLabel),
        (''aria-labelledby'', ariaLabelledby),
        (''className'', PStr (js ''relative block size-3 shrink-0 rounded-full border border-ring bg-white ring-ring/50 '' @
              js ''transition-[color,box-shadow] select-none after:absolute after:-inset-2 hover:ring-3 '' @
              js ''focus-visible:ring-3 focus-visible:outline-hidden active:ring-3 '' @
              js ''disabled:pointer-events-none disabled:opacity-50''))] []"

definition Slider :: "tw_merge \<Rightarrow> class_join \<Rightarrow> props \<Rightarrow> node" where
  "Slider tw clsx p =
     (let className = the_prop p ''className'' PUndef;
          defaultValue = the_prop p ''defaultValue'' PUndef;
          val = the_prop p ''value'' PUndef;
          mn = the_prop p ''min'' (PNum 0);
          mx = the_prop p ''max'' (PNum 100);
          ariaLabel = the_prop p ''aria-label'' PUndef;
          ariaLabelledby = the_prop p ''aria-labelledby'' PUndef;
          props = rest [''className'', ''defaultValue'', ''value'', ''min'', ''max'', ''aria-label'', ''aria-labelledby''] p
      in jsx_with ''SliderPrimitive.Root''
           [(''className'', PStr (cn tw clsx [PStr (js ''data-horizontal:w-full data-vertical:h-full''), className])),
            (''data-slot'', PStr (js ''slider'')),
            (''defaultValue'', defaultValue),
            (''value'', val),
            (''min'', mn),
            (''max'', mx),
            (''thumbAlignment'', PStr (js ''edge''))] props
           [jsx_with ''SliderPrimitive.Control''
              [(''className'', PStr (js ''relative flex w-full touch-none items-center select-none data-disabled:opacity-50 '' @
              js ''data-vertical:h-full data-vertical:min-h-40 data-vertical:w-auto data-vertical:flex-col''))] []
              (jsx_with ''SliderPrimitive.Track''
                 [(''data-slot'', PStr (js ''slider-track'')),
                  (''className'', PStr (js ''relative grow overflow-hidden rounded-full bg-muted select-none data-horizontal:h-1 '' @
              js ''data-horizontal:w-full data-vertical:h-full data-vertical:w-1''))] []
                 [jsx ''SliderPrimitive.Indicator''
                    [(''data-slot'', PStr (js ''slider-range'')),
                     (''className'', PStr (js ''bg-primary select-none data-horizontal:h-full data-vertical:w-full''))] []] #
               map (slider_thumb ariaLabel ariaLabelledby) [0..<length (slider_values val defaultValue mn mx)])])"

text \<open>\<open>theme\<close> is what \<^verbatim>\<open>useTheme\<close> answers.\<close>

definition Toaster :: "pval \<Rightarrow> props \<Rightarrow> node" where
  "Toaster theme p =
     (let icon = (\<lambda>name cls. PElem (jsx name [(''className'', PStr (js cls))] []));
          shade = (if theme = PUndef then PStr (js ''system'') else theme)
      in jsx ''Sonner''
           [(''theme'', shade),
            (''className'', PStr (js ''toaster group'')),
            (''icons'', PObj
               [(''success'', icon ''CircleCheckIcon'' ''size-4''), (''info'', icon ''InfoIcon'' ''size-4''),
                (''warning'', icon ''TriangleAlertIcon'' ''size-4''), (''error'', icon ''OctagonXIcon'' ''size-4''),
                (''loading'', icon ''Loader2Icon'' ''size-4 animate-spin'')]),
            (''style'', PObj
               [(''--normal-bg'', PStr (js ''var(--popover)'')), (''--normal-text'', PStr (js ''var(--popover-foreground)'')),
                (''--normal-border'', PStr (js ''var(--border)'')), (''--border-radius'', PStr (js ''var(--radius)''))]),
            (''toastOptions'', PObj [(''classNames'', PObj [(''toast'', PStr (js ''cn-toast''))])])] p)"

end
