(* ===== verification/Wrappers.thy ===== *)
theory Wrappers
  imports Overlays
begin

text \<open>
  What the interface primitives promise to the components that use them: their own marks and defaults
  never hide what a caller passes, a slider has a labelled thumb for each value, a dialog a close button.
\<close>

section \<open>What a wrapper promises\<close>

text \<open>The elements of a tree: an element's children are the first entry of that name.\<close>

fun parts :: "node \<Rightarrow> (string \<times> props) list"
  and child_parts :: "props \<Rightarrow> (string \<times> props) list"
  and value_parts :: "pval \<Rightarrow> (string \<times> props) list"
  and all_parts :: "node list \<Rightarrow> (string \<times> props) list" where
  "parts (Text s) = []"
| "parts (Node tag p) = (tag, p) # child_parts p"
| "child_parts [] = []"
| "child_parts ((k, v) # p) = (if k = ''children'' then value_parts v else child_parts p)"
| "value_parts (PElem e) = parts e"
| "value_parts (PElems es) = all_parts es"
| "value_parts v = []"
| "all_parts [] = []"
| "all_parts (e # es) = parts e @ all_parts es"

text \<open>
  A wrapper with the mark \<open>slot\<close> that reads the properties \<open>own\<close> itself: whatever its caller passes, an element of
  the tree has the mark and, for every other property, what the caller gave, before any default.
\<close>

definition forwards :: "string \<Rightarrow> (props \<Rightarrow> node) \<Rightarrow> string list \<Rightarrow> bool" where
  "forwards slot component own \<longleftrightarrow>
     (\<forall>p. map_of p ''data-slot'' = None \<longrightarrow>
        (\<exists>(tag, q) \<in> set (parts (component p)).
           map_of q ''data-slot'' = Some (PStr (js slot)) \<and>
           (\<forall>k v. k \<notin> set own \<and> map_of p k = Some v \<longrightarrow> map_of q k = Some v)))"

lemma map_of_rest: "map_of (rest own p) k = (if k \<in> set own then None else map_of p k)"
  by (induction p) (auto simp: rest_def)

lemma all_parts_append [simp]: "all_parts (xs @ ys) = all_parts xs @ all_parts ys"
  by (induction xs) simp_all

lemma forwardsI:
  assumes "\<And>p. \<exists>tag attrs. (tag, cs p @ overriding attrs (rest own p)) \<in> set (parts (component p)) \<and>
      map_of attrs ''data-slot'' = Some (PStr (js slot))"
    and "\<And>p. fst ` set (cs p) \<subseteq> set own - {''data-slot''}" "''data-slot'' \<notin> set own"
  shows "forwards slot component own"
  unfolding forwards_def
proof (intro allI impI)
  fix p :: props assume p: "map_of p ''data-slot'' = None"
  obtain tag attrs where a: "(tag, cs p @ overriding attrs (rest own p)) \<in> set (parts (component p))"
      "map_of attrs ''data-slot'' = Some (PStr (js slot))"
    using assms(1) by blast
  have none: "map_of (cs p) k = None" if "k \<notin> set own \<or> k = ''data-slot''" for k
    using assms(2) [of p] that by (auto simp: map_of_eq_None_iff)
  have "map_of (cs p @ overriding attrs (rest own p)) ''data-slot'' = Some (PStr (js slot))"
    using none [of "''data-slot''"] p a(2) assms(3) by (simp add: overriding_def map_of_rest map_add_def)
  moreover have "\<forall>k v. k \<notin> set own \<and> map_of p k = Some v \<longrightarrow> map_of (cs p @ overriding attrs (rest own p)) k = Some v"
    using none by (auto simp: overriding_def map_of_rest map_add_def)
  ultimately show "\<exists>(tag, q) \<in> set (parts (component p)). map_of q ''data-slot'' = Some (PStr (js slot)) \<and>
      (\<forall>k v. k \<notin> set own \<and> map_of p k = Some v \<longrightarrow> map_of q k = Some v)"
    using a(1) by blast
qed

lemma forwards_jsx:
  assumes "\<And>p. component p = jsx tag (attrs p) (rest own p)" "\<And>p. map_of (attrs p) ''data-slot'' = Some (PStr (js slot))"
    "''data-slot'' \<notin> set own"
  shows "forwards slot component own"
proof (rule forwardsI [of "\<lambda>p. []"])
  show "\<exists>tag' attrs'. (tag', [] @ overriding attrs' (rest own p)) \<in> set (parts (component p)) \<and>
      map_of attrs' ''data-slot'' = Some (PStr (js slot))" for p
    unfolding assms(1) using assms(2) [of p] by (intro exI [of _ tag] exI [of _ "attrs p"]) (simp add: jsx_def)
qed (simp_all add: assms(3))

lemma forwards_jsx_with:
  assumes "\<And>p. component p = jsx_with tag (attrs p) (rest own p) (cs p)"
    "\<And>p. map_of (attrs p) ''data-slot'' = Some (PStr (js slot))" "''data-slot'' \<notin> set own"
  shows "forwards slot component (''children'' # own)"
  unfolding forwards_def
proof (intro allI impI)
  fix p :: props assume p: "map_of p ''data-slot'' = None"
  let ?q = "(''children'', PElems (cs p)) # overriding (attrs p) (rest own p)"
  have "(tag, ?q) \<in> set (parts (component p))" by (simp add: assms(1) jsx_with_def)
  moreover have "map_of ?q ''data-slot'' = Some (PStr (js slot))"
    using p assms(2) [of p] by (simp add: overriding_def map_of_rest map_add_def)
  moreover have "\<forall>k v. k \<notin> set (''children'' # own) \<and> map_of p k = Some v \<longrightarrow> map_of ?q k = Some v"
    by (auto simp: overriding_def map_of_rest map_add_def)
  ultimately show "\<exists>(tag, q) \<in> set (parts (component p)). map_of q ''data-slot'' = Some (PStr (js slot)) \<and>
      (\<forall>k v. k \<notin> set (''children'' # own) \<and> map_of p k = Some v \<longrightarrow> map_of q k = Some v)"
    by blast
qed

lemma rest_Nil [simp]: "rest own [] = []"
  by (simp add: rest_def)

lemma rest_none [simp]: "rest [] p = p"
  by (simp add: rest_def case_prod_beta)

lemma forwards_jsx_all:
  assumes "\<And>p. component p = jsx tag attrs p" "map_of attrs ''data-slot'' = Some (PStr (js slot))"
  shows "forwards slot component []"
  by (rule forwards_jsx [of _ tag "\<lambda>p. attrs"]) (simp_all add: assms)

lemma forwards_inside:
  assumes "forwards slot inner own" "\<And>p. set (parts (inner p)) \<subseteq> set (parts (component p))"
  shows "forwards slot component own"
  using assms unfolding forwards_def by blast

lemma Button_forwards: "forwards ''button'' (Button tw clsx cva) [''className'', ''variant'', ''size'']"
  by (rule forwards_jsx, simp only: Button_def Let_def, simp_all)

lemma UiInput_forwards: "forwards ''input'' (UiInput tw clsx) [''className'', ''type'']"
  by (rule forwards_jsx, simp only: UiInput_def Let_def, simp_all)

lemma UiLabel_forwards: "forwards ''label'' (UiLabel tw clsx) [''className'']"
  by (rule forwards_jsx, simp only: UiLabel_def Let_def, simp_all)

lemma Textarea_forwards: "forwards ''textarea'' (Textarea tw clsx) [''className'']"
  by (rule forwards_jsx, simp only: Textarea_def Let_def, simp_all)

lemma UiSwitch_forwards: "forwards ''switch'' (UiSwitch tw clsx) [''children'', ''className'', ''size'']"
  by (rule forwards_jsx_with, simp only: UiSwitch_def Let_def, simp_all)

lemma Card_forwards: "forwards ''card'' (Card tw clsx) [''className'', ''size'']"
  by (rule forwards_jsx, simp only: Card_def Let_def, simp_all)

lemma CardHeader_forwards: "forwards ''card-header'' (CardHeader tw clsx) [''className'']"
  by (rule forwards_jsx, simp only: CardHeader_def Let_def, simp_all)

lemma CardTitle_forwards: "forwards ''card-title'' (CardTitle tw clsx) [''className'']"
  by (rule forwards_jsx, simp only: CardTitle_def Let_def, simp_all)

lemma CardDescription_forwards: "forwards ''card-description'' (CardDescription tw clsx) [''className'']"
  by (rule forwards_jsx, simp only: CardDescription_def Let_def, simp_all)

lemma CardAction_forwards: "forwards ''card-action'' (CardAction tw clsx) [''className'']"
  by (rule forwards_jsx, simp only: CardAction_def Let_def, simp_all)

lemma CardContent_forwards: "forwards ''card-content'' (CardContent tw clsx) [''className'']"
  by (rule forwards_jsx, simp only: CardContent_def Let_def, simp_all)

lemma CardFooter_forwards: "forwards ''card-footer'' (CardFooter tw clsx) [''className'']"
  by (rule forwards_jsx, simp only: CardFooter_def Let_def, simp_all)

lemma TableHeader_forwards: "forwards ''table-header'' (TableHeader tw clsx) [''className'']"
  by (rule forwards_jsx, simp only: TableHeader_def Let_def, simp_all)

lemma TableBody_forwards: "forwards ''table-body'' (TableBody tw clsx) [''className'']"
  by (rule forwards_jsx, simp only: TableBody_def Let_def, simp_all)

lemma TableFooter_forwards: "forwards ''table-footer'' (TableFooter tw clsx) [''className'']"
  by (rule forwards_jsx, simp only: TableFooter_def Let_def, simp_all)

lemma TableRow_forwards: "forwards ''table-row'' (TableRow tw clsx) [''className'']"
  by (rule forwards_jsx, simp only: TableRow_def Let_def, simp_all)

lemma TableHead_forwards: "forwards ''table-head'' (TableHead tw clsx) [''className'']"
  by (rule forwards_jsx, simp only: TableHead_def Let_def, simp_all)

lemma TableCell_forwards: "forwards ''table-cell'' (TableCell tw clsx) [''className'']"
  by (rule forwards_jsx, simp only: TableCell_def Let_def, simp_all)

lemma TableCaption_forwards: "forwards ''table-caption'' (TableCaption tw clsx) [''className'']"
  by (rule forwards_jsx, simp only: TableCaption_def Let_def, simp_all)

lemma Dialog_forwards: "forwards ''dialog'' Dialog []"
  by (rule forwards_jsx_all, simp only: Dialog_def Let_def, simp_all)

lemma DialogTrigger_forwards: "forwards ''dialog-trigger'' DialogTrigger []"
  by (rule forwards_jsx_all, simp only: DialogTrigger_def Let_def, simp_all)

lemma DialogPortal_forwards: "forwards ''dialog-portal'' DialogPortal []"
  by (rule forwards_jsx_all, simp only: DialogPortal_def Let_def, simp_all)

lemma DialogClose_forwards: "forwards ''dialog-close'' DialogClose []"
  by (rule forwards_jsx_all, simp only: DialogClose_def Let_def, simp_all)

lemma DialogOverlay_forwards: "forwards ''dialog-overlay'' (DialogOverlay tw clsx) [''className'']"
  by (rule forwards_jsx, simp only: DialogOverlay_def Let_def, simp_all)

lemma DialogHeader_forwards: "forwards ''dialog-header'' (DialogHeader tw clsx) [''className'']"
  by (rule forwards_jsx, simp only: DialogHeader_def Let_def, simp_all)

lemma DialogFooter_forwards: "forwards ''dialog-footer'' (DialogFooter tw clsx cva) [''children'', ''className'', ''showCloseButton'', ''children'']"
  by (rule forwards_jsx_with, simp only: DialogFooter_def Let_def, simp_all)

lemma DialogTitle_forwards: "forwards ''dialog-title'' (DialogTitle tw clsx) [''className'']"
  by (rule forwards_jsx, simp only: DialogTitle_def Let_def, simp_all)

lemma DialogDescription_forwards: "forwards ''dialog-description'' (DialogDescription tw clsx) [''className'']"
  by (rule forwards_jsx, simp only: DialogDescription_def Let_def, simp_all)

lemma DropdownMenu_forwards: "forwards ''dropdown-menu'' DropdownMenu []"
  by (rule forwards_jsx_all, simp only: DropdownMenu_def Let_def, simp_all)

lemma DropdownMenuPortal_forwards: "forwards ''dropdown-menu-portal'' DropdownMenuPortal []"
  by (rule forwards_jsx_all, simp only: DropdownMenuPortal_def Let_def, simp_all)

lemma DropdownMenuTrigger_forwards: "forwards ''dropdown-menu-trigger'' DropdownMenuTrigger []"
  by (rule forwards_jsx_all, simp only: DropdownMenuTrigger_def Let_def, simp_all)

lemma DropdownMenuGroup_forwards: "forwards ''dropdown-menu-group'' DropdownMenuGroup []"
  by (rule forwards_jsx_all, simp only: DropdownMenuGroup_def Let_def, simp_all)

lemma DropdownMenuLabel_forwards: "forwards ''dropdown-menu-label'' (DropdownMenuLabel tw clsx) [''className'', ''inset'']"
  by (rule forwards_jsx, simp only: DropdownMenuLabel_def Let_def, simp_all)

lemma DropdownMenuItem_forwards: "forwards ''dropdown-menu-item'' (DropdownMenuItem tw clsx) [''className'', ''inset'', ''variant'']"
  by (rule forwards_jsx, simp only: DropdownMenuItem_def Let_def, simp_all)

lemma DropdownMenuSub_forwards: "forwards ''dropdown-menu-sub'' DropdownMenuSub []"
  by (rule forwards_jsx_all, simp only: DropdownMenuSub_def Let_def, simp_all)

lemma DropdownMenuSubTrigger_forwards: "forwards ''dropdown-menu-sub-trigger'' (DropdownMenuSubTrigger tw clsx) [''children'', ''className'', ''inset'', ''children'']"
  by (rule forwards_jsx_with, simp only: DropdownMenuSubTrigger_def Let_def, simp_all)

lemma DropdownMenuCheckboxItem_forwards: "forwards ''dropdown-menu-checkbox-item'' (DropdownMenuCheckboxItem tw clsx) [''children'', ''className'', ''children'', ''checked'', ''inset'']"
  by (rule forwards_jsx_with, simp only: DropdownMenuCheckboxItem_def Let_def, simp_all)

lemma DropdownMenuRadioGroup_forwards: "forwards ''dropdown-menu-radio-group'' DropdownMenuRadioGroup []"
  by (rule forwards_jsx_all, simp only: DropdownMenuRadioGroup_def Let_def, simp_all)

lemma DropdownMenuRadioItem_forwards: "forwards ''dropdown-menu-radio-item'' (DropdownMenuRadioItem tw clsx) [''children'', ''className'', ''children'', ''inset'']"
  by (rule forwards_jsx_with, simp only: DropdownMenuRadioItem_def Let_def, simp_all)

lemma DropdownMenuSeparator_forwards: "forwards ''dropdown-menu-separator'' (DropdownMenuSeparator tw clsx) [''className'']"
  by (rule forwards_jsx, simp only: DropdownMenuSeparator_def Let_def, simp_all)

lemma DropdownMenuShortcut_forwards: "forwards ''dropdown-menu-shortcut'' (DropdownMenuShortcut tw clsx) [''className'']"
  by (rule forwards_jsx, simp only: DropdownMenuShortcut_def Let_def, simp_all)

lemma SelectScrollUpButton_forwards: "forwards ''select-scroll-up-button'' (SelectScrollUpButton tw clsx) [''children'', ''className'']"
  by (rule forwards_jsx_with, simp only: SelectScrollUpButton_def Let_def, simp_all)

lemma SelectScrollDownButton_forwards: "forwards ''select-scroll-down-button'' (SelectScrollDownButton tw clsx) [''children'', ''className'']"
  by (rule forwards_jsx_with, simp only: SelectScrollDownButton_def Let_def, simp_all)

lemma SelectGroup_forwards: "forwards ''select-group'' (SelectGroup tw clsx) [''className'']"
  by (rule forwards_jsx, simp only: SelectGroup_def Let_def, simp_all)

lemma SelectValue_forwards: "forwards ''select-value'' (SelectValue tw clsx) [''className'']"
  by (rule forwards_jsx, simp only: SelectValue_def Let_def, simp_all)

lemma SelectTrigger_forwards: "forwards ''select-trigger'' (SelectTrigger tw clsx) [''children'', ''className'', ''size'', ''children'']"
  by (rule forwards_jsx_with, simp only: SelectTrigger_def Let_def, simp_all)

lemma SelectLabel_forwards: "forwards ''select-label'' (SelectLabel tw clsx) [''className'']"
  by (rule forwards_jsx, simp only: SelectLabel_def Let_def, simp_all)

lemma SelectItem_forwards: "forwards ''select-item'' (SelectItem tw clsx) [''children'', ''className'', ''children'']"
  by (rule forwards_jsx_with, simp only: SelectItem_def Let_def, simp_all)

lemma SelectSeparator_forwards: "forwards ''select-separator'' (SelectSeparator tw clsx) [''className'']"
  by (rule forwards_jsx, simp only: SelectSeparator_def Let_def, simp_all)

lemma TooltipProvider_forwards: "forwards ''tooltip-provider'' TooltipProvider [''delay'']"
  by (rule forwards_jsx, simp only: TooltipProvider_def Let_def, simp_all)

lemma Tooltip_forwards: "forwards ''tooltip'' Tooltip []"
  by (rule forwards_jsx_all, simp only: Tooltip_def Let_def, simp_all)

lemma TooltipTrigger_forwards: "forwards ''tooltip-trigger'' TooltipTrigger []"
  by (rule forwards_jsx_all, simp only: TooltipTrigger_def Let_def, simp_all)

lemmas tree_simps = Let_def jsx_def jsx_with_def overriding_def map_of_rest map_add_def

lemma rest_append [simp]: "rest own (p @ q) = rest own p @ rest own q"
  by (simp add: rest_def)

lemma UiTable_forwards: "forwards ''table'' (UiTable tw clsx) [''className'']"
  by (simp add: forwards_def UiTable_def tree_simps)

lemma DialogContent_forwards: "forwards ''dialog-content'' (DialogContent tw clsx cva) [''children'', ''className'', ''showCloseButton'']"
  by (simp add: forwards_def DialogContent_def DialogPortal_def tree_simps)

lemma DropdownMenuContent_forwards: "forwards ''dropdown-menu-content'' (DropdownMenuContent tw clsx) [''align'', ''alignOffset'', ''side'', ''sideOffset'', ''className'']"
  by (simp add: forwards_def DropdownMenuContent_def tree_simps)

lemma DropdownMenuSubContent_forwards: "forwards ''dropdown-menu-sub-content'' (DropdownMenuSubContent tw clsx) [''align'', ''alignOffset'', ''side'', ''sideOffset'', ''className'']"
  by (simp add: forwards_def DropdownMenuSubContent_def DropdownMenuContent_def tree_simps)

lemma SelectContent_forwards: "forwards ''select-content'' (SelectContent tw clsx) [''children'', ''className'', ''side'', ''sideOffset'', ''align'', ''alignOffset'', ''alignItemWithTrigger'']"
  by (simp add: forwards_def SelectContent_def tree_simps)

lemma TooltipContent_forwards: "forwards ''tooltip-content'' (TooltipContent tw clsx) [''children'', ''className'', ''side'', ''sideOffset'', ''align'', ''alignOffset'']"
  by (simp add: forwards_def TooltipContent_def tree_simps)

text \<open>Every wrapper with its mark and the properties it reads itself.\<close>

definition wrappers :: "tw_merge \<Rightarrow> class_join \<Rightarrow> class_variants \<Rightarrow> (string \<times> (props \<Rightarrow> node) \<times> string list) list" where
  "wrappers tw clsx cva =
     [(''button'', Button tw clsx cva, [''className'', ''variant'', ''size'']),
      (''input'', UiInput tw clsx, [''className'', ''type'']),
      (''label'', UiLabel tw clsx, [''className'']),
      (''textarea'', Textarea tw clsx, [''className'']),
      (''switch'', UiSwitch tw clsx, [''children'', ''className'', ''size'']),
      (''card'', Card tw clsx, [''className'', ''size'']),
      (''card-header'', CardHeader tw clsx, [''className'']),
      (''card-title'', CardTitle tw clsx, [''className'']),
      (''card-description'', CardDescription tw clsx, [''className'']),
      (''card-action'', CardAction tw clsx, [''className'']),
      (''card-content'', CardContent tw clsx, [''className'']),
      (''card-footer'', CardFooter tw clsx, [''className'']),
      (''table'', UiTable tw clsx, [''className'']),
      (''table-header'', TableHeader tw clsx, [''className'']),
      (''table-body'', TableBody tw clsx, [''className'']),
      (''table-footer'', TableFooter tw clsx, [''className'']),
      (''table-row'', TableRow tw clsx, [''className'']),
      (''table-head'', TableHead tw clsx, [''className'']),
      (''table-cell'', TableCell tw clsx, [''className'']),
      (''table-caption'', TableCaption tw clsx, [''className'']),
      (''dialog'', Dialog, []),
      (''dialog-trigger'', DialogTrigger, []),
      (''dialog-portal'', DialogPortal, []),
      (''dialog-close'', DialogClose, []),
      (''dialog-overlay'', DialogOverlay tw clsx, [''className'']),
      (''dialog-content'', DialogContent tw clsx cva, [''children'', ''className'', ''showCloseButton'']),
      (''dialog-header'', DialogHeader tw clsx, [''className'']),
      (''dialog-footer'', DialogFooter tw clsx cva, [''children'', ''className'', ''showCloseButton'', ''children'']),
      (''dialog-title'', DialogTitle tw clsx, [''className'']),
      (''dialog-description'', DialogDescription tw clsx, [''className'']),
      (''dropdown-menu'', DropdownMenu, []),
      (''dropdown-menu-portal'', DropdownMenuPortal, []),
      (''dropdown-menu-trigger'', DropdownMenuTrigger, []),
      (''dropdown-menu-content'', DropdownMenuContent tw clsx, [''align'', ''alignOffset'', ''side'', ''sideOffset'', ''className'']),
      (''dropdown-menu-group'', DropdownMenuGroup, []),
      (''dropdown-menu-label'', DropdownMenuLabel tw clsx, [''className'', ''inset'']),
      (''dropdown-menu-item'', DropdownMenuItem tw clsx, [''className'', ''inset'', ''variant'']),
      (''dropdown-menu-sub'', DropdownMenuSub, []),
      (''dropdown-menu-sub-trigger'', DropdownMenuSubTrigger tw clsx, [''children'', ''className'', ''inset'', ''children'']),
      (''dropdown-menu-sub-content'', DropdownMenuSubContent tw clsx, [''align'', ''alignOffset'', ''side'', ''sideOffset'', ''className'']),
      (''dropdown-menu-checkbox-item'', DropdownMenuCheckboxItem tw clsx, [''children'', ''className'', ''children'', ''checked'', ''inset'']),
      (''dropdown-menu-radio-group'', DropdownMenuRadioGroup, []),
      (''dropdown-menu-radio-item'', DropdownMenuRadioItem tw clsx, [''children'', ''className'', ''children'', ''inset'']),
      (''dropdown-menu-separator'', DropdownMenuSeparator tw clsx, [''className'']),
      (''dropdown-menu-shortcut'', DropdownMenuShortcut tw clsx, [''className'']),
      (''select-scroll-up-button'', SelectScrollUpButton tw clsx, [''children'', ''className'']),
      (''select-scroll-down-button'', SelectScrollDownButton tw clsx, [''children'', ''className'']),
      (''select-group'', SelectGroup tw clsx, [''className'']),
      (''select-value'', SelectValue tw clsx, [''className'']),
      (''select-trigger'', SelectTrigger tw clsx, [''children'', ''className'', ''size'', ''children'']),
      (''select-content'', SelectContent tw clsx, [''children'', ''className'', ''side'', ''sideOffset'', ''align'', ''alignOffset'', ''alignItemWithTrigger'']),
      (''select-label'', SelectLabel tw clsx, [''className'']),
      (''select-item'', SelectItem tw clsx, [''children'', ''className'', ''children'']),
      (''select-separator'', SelectSeparator tw clsx, [''className'']),
      (''tooltip-provider'', TooltipProvider, [''delay'']),
      (''tooltip'', Tooltip, []),
      (''tooltip-trigger'', TooltipTrigger, []),
      (''tooltip-content'', TooltipContent tw clsx, [''children'', ''className'', ''side'', ''sideOffset'', ''align'', ''alignOffset''])]"

lemmas wrapper_facts =
  Button_forwards
  UiInput_forwards
  UiLabel_forwards
  Textarea_forwards
  UiSwitch_forwards
  Card_forwards
  CardHeader_forwards
  CardTitle_forwards
  CardDescription_forwards
  CardAction_forwards
  CardContent_forwards
  CardFooter_forwards
  UiTable_forwards
  TableHeader_forwards
  TableBody_forwards
  TableFooter_forwards
  TableRow_forwards
  TableHead_forwards
  TableCell_forwards
  TableCaption_forwards
  Dialog_forwards
  DialogTrigger_forwards
  DialogPortal_forwards
  DialogClose_forwards
  DialogOverlay_forwards
  DialogContent_forwards
  DialogHeader_forwards
  DialogFooter_forwards
  DialogTitle_forwards
  DialogDescription_forwards
  DropdownMenu_forwards
  DropdownMenuPortal_forwards
  DropdownMenuTrigger_forwards
  DropdownMenuContent_forwards
  DropdownMenuGroup_forwards
  DropdownMenuLabel_forwards
  DropdownMenuItem_forwards
  DropdownMenuSub_forwards
  DropdownMenuSubTrigger_forwards
  DropdownMenuSubContent_forwards
  DropdownMenuCheckboxItem_forwards
  DropdownMenuRadioGroup_forwards
  DropdownMenuRadioItem_forwards
  DropdownMenuSeparator_forwards
  DropdownMenuShortcut_forwards
  SelectScrollUpButton_forwards
  SelectScrollDownButton_forwards
  SelectGroup_forwards
  SelectValue_forwards
  SelectTrigger_forwards
  SelectContent_forwards
  SelectLabel_forwards
  SelectItem_forwards
  SelectSeparator_forwards
  TooltipProvider_forwards
  Tooltip_forwards
  TooltipTrigger_forwards
  TooltipContent_forwards

text \<open>Every primitive passes what its caller gives on to the element that carries its mark, before its own
  defaults, except the properties it reads itself.\<close>

theorem primitives_forward_their_props:
  "list_all (\<lambda>(slot, component, own). forwards slot component own) (wrappers tw clsx cva)"
  by (simp add: wrappers_def wrapper_facts)

section \<open>Thumbs and close buttons\<close>

definition named_thumbs :: "node \<Rightarrow> pval option list" where
  "named_thumbs e = map (\<lambda>(tag, q). map_of q ''aria-label'') (filter (\<lambda>(tag, q). tag = ''SliderPrimitive.Thumb'') (parts e))"

lemma thumbs_parts:
  "filter (\<lambda>(tag, q). tag = ''SliderPrimitive.Thumb'') (all_parts (map (slider_thumb l b) xs)) =
   concat (map (\<lambda>i. parts (slider_thumb l b i)) xs)"
  by (induction xs) (simp_all add: slider_thumb_def tree_simps)

lemma thumb_name: "map (\<lambda>(tag, q). map_of q ''aria-label'') (parts (slider_thumb l b i)) = [Some l]"
  by (simp add: slider_thumb_def tree_simps)

text \<open>The sliders of the form, of the rollout explorer and of the playground.\<close>

definition form_slider :: "int \<Rightarrow> props" where
  "form_slider localValue =
     [(''value'', PNums [localValue]), (''onValueChange'', PFun 0), (''max'', PNum 100), (''min'', PNum 0),
      (''step'', PNum 1), (''className'', PStr (js ''flex-1'')), (''aria-label'', PStr (js ''Rollout percentage''))]"

definition explorer_slider :: "int \<Rightarrow> props" where
  "explorer_slider pct =
     [(''value'', PNums [pct]), (''onValueChange'', PFun 0), (''min'', PNum 0), (''max'', PNum 100),
      (''step'', PNum 1), (''className'', PStr (js ''flex-1'')),
      (''aria-label'', PStr (js ''Explore rollout percentage''))]"

definition playground_slider :: "int \<Rightarrow> bool \<Rightarrow> props" where
  "playground_slider rollout enabled =
     [(''value'', PNums [rollout]), (''onValueChange'', PFun 0), (''min'', PNum 0), (''max'', PNum 100),
      (''step'', PNum 1), (''className'', PStr (js ''mt-3'')), (''aria-label'', PStr (js ''Rollout percentage'')),
      (''disabled'', PBool (\<not> enabled))]"

lemma slider_named_thumbs:
  "named_thumbs (Slider tw clsx p) =
     replicate (length (slider_values (the_prop p ''value'' PUndef) (the_prop p ''defaultValue'' PUndef)
                  (the_prop p ''min'' (PNum 0)) (the_prop p ''max'' (PNum 100))))
       (Some (the_prop p ''aria-label'' PUndef))"
proof -
  have "map (\<lambda>(tag, q). map_of q ''aria-label'') (concat (map (\<lambda>i. parts (slider_thumb l b i)) xs)) =
      replicate (length xs) (Some l)" for l b xs
    by (induction xs) (simp_all add: thumb_name)
  then show ?thesis by (simp add: named_thumbs_def Slider_def tree_simps thumbs_parts)
qed

text \<open>A slider has one thumb for every value it is given, each with the caller's label, and two when it is given a
  bare number; the three sliders of the page have one labelled thumb.\<close>

theorem sliders_have_one_named_thumb:
  "named_thumbs (Slider tw clsx ((''value'', PNums vs) # p)) =
     replicate (length vs) (Some (the_prop p ''aria-label'' PUndef)) \<and>
   named_thumbs (Slider tw clsx [(''value'', PNum v), (''aria-label'', l)]) = replicate 2 (Some l) \<and>
   named_thumbs (Slider tw clsx (form_slider n)) = [Some (PStr (js ''Rollout percentage''))] \<and>
   named_thumbs (Slider tw clsx (explorer_slider n)) = [Some (PStr (js ''Explore rollout percentage''))] \<and>
   named_thumbs (Slider tw clsx (playground_slider n b)) = [Some (PStr (js ''Rollout percentage''))]"
  by (simp add: slider_named_thumbs slider_values_def the_prop_def form_slider_def explorer_slider_def
      playground_slider_def numeral_2_eq_2)

text \<open>A dialog has its own close button unless it is told not to.\<close>

definition close_buttons :: "node \<Rightarrow> nat" where
  "close_buttons e = length (filter (\<lambda>(tag, q). tag = ''DialogPrimitive.Close'') (parts e))"

lemma dialog_close_button:
  "close_buttons (DialogContent tw clsx cva p) =
     length (filter (\<lambda>(tag, q). tag = ''DialogPrimitive.Close'') (all_parts (child_elems (the_prop p ''children'' PUndef)))) +
     (if truthy (the_prop p ''showCloseButton'' (PBool True)) then 1 else 0)"
  by (simp add: close_buttons_def DialogContent_def DialogPortal_def DialogOverlay_def rest_Nil tree_simps)


end
