(* ===== verification/FlagForms.thy ===== *)
theory FlagForms
  imports View Service
begin

text \<open>
  The components under \<^verbatim>\<open>components/flags\<close> that edit a flag: \<^verbatim>\<open>FlagForm\<close>,
  \<^verbatim>\<open>TargetedUsersInput\<close>, \<^verbatim>\<open>RolloutSlider\<close> with its debounce timer, and the small displays
  \<^verbatim>\<open>RolloutBar\<close>, \<^verbatim>\<open>StatusBadge\<close>, \<^verbatim>\<open>ToggleSwitch\<close>. Each has its React state as a record,
  its callbacks as operations and its markup as a view. The lemmas relate the form's
  validation to the one of the service, and say what a submit sends.
\<close>

section \<open>TargetedUsersInput\<close>

record users_input =
  ui_input :: jsstring
  ui_users :: "jsstring list"

datatype users_msg = TypeUser jsstring | PressKey jsstring | ClickAdd | ClickRemove jsstring

definition addUser :: "users_input \<Rightarrow> users_input" where
  "addUser s =
     (let trimmed = trim (ui_input s)
      in if trimmed \<noteq> [] \<and> trimmed \<notin> set (ui_users s)
         then s\<lparr>ui_users := ui_users s @ [trimmed], ui_input := []\<rparr> else s)"

definition removeUser :: "jsstring \<Rightarrow> users_input \<Rightarrow> users_input" where
  "removeUser u s = s\<lparr>ui_users := filter (\<lambda>v. v \<noteq> u) (ui_users s)\<rparr>"

definition users_handleKeyDown :: "jsstring \<Rightarrow> users_input \<Rightarrow> users_input" where
  "users_handleKeyDown k s = (if k = js ''Enter'' then addUser s else s)"

fun users_update :: "users_msg \<Rightarrow> users_input \<Rightarrow> users_input" where
  "users_update (TypeUser t) s = s\<lparr>ui_input := t\<rparr>"
| "users_update (PressKey k) s = users_handleKeyDown k s"
| "users_update ClickAdd s = addUser s"
| "users_update (ClickRemove u) s = removeUser u s"

definition TargetedUsersInput :: "users_input \<Rightarrow> users_msg view" where
  "TargetedUsersInput s =
     el ''div''
      ([el ''div''
         [Elem ''Input''
            [(''value'', ui_input s), (''placeholder'', js ''Enter user ID and press Enter'' @ ellipsis),
             (''aria-label'', js ''Add targeted user ID'')]
            [(''change'', \<lambda>e. TypeUser (str_arg e)), (''keydown'', \<lambda>e. PressKey (str_arg e))] [],
          Elem ''Button'' [(''type'', js ''button'')] [(''click'', msg ClickAdd)] [lit ''Add'']]] @
       shown (ui_users s \<noteq> [])
        [el ''div''
          (map (\<lambda>user.
             el ''span''
              [Txt user,
               Elem ''button'' [(''type'', js ''button''), (''aria-label'', js ''Remove '' @ user)]
                 [(''click'', msg (ClickRemove user))] []]) (ui_users s))])"

section \<open>RolloutSlider\<close>

text \<open>
  \<open>handleChange\<close> takes the position of the first thumb. \<open>pending\<close> is the value the running 200 ms timer will hand to the
  parent; a new change replaces the timer.
\<close>

record slider =
  localValue :: int
  pending :: "int option"

definition slider_handleChange :: "int \<Rightarrow> slider \<Rightarrow> slider" where
  "slider_handleChange newVal s = s\<lparr>localValue := newVal, pending := Some newVal\<rparr>"

text \<open>The effect on \<^verbatim>\<open>[value]\<close>: it runs when the parent's value changed.\<close>

definition slider_effect :: "int \<Rightarrow> int \<Rightarrow> slider \<Rightarrow> slider" where
  "slider_effect oldValue value s = (if value \<noteq> oldValue then s\<lparr>localValue := value\<rparr> else s)"

definition RolloutSlider :: "slider \<Rightarrow> int view" where
  "RolloutSlider s =
     el ''div''
      [Elem ''Slider''
         [(''value'', js_num (localValue s)), (''max'', js_num 100), (''min'', js_num 0), (''step'', js_num 1),
          (''aria-label'', js ''Rollout percentage'')]
         [(''valueChange'', \<lambda>e. num_arg e)] [],
       el ''span'' [Txt (js_num (localValue s)), lit ''%'']]"

section \<open>RolloutBar, StatusBadge, ToggleSwitch\<close>

definition RolloutBar :: "int \<Rightarrow> bool \<Rightarrow> 'm view" where
  "RolloutBar percentage showLabel =
     (let pct = max 0 (min 100 percentage)
      in el ''div''
          ([ela ''div''
             [(''role'', js ''progressbar''), (''aria-valuenow'', js_num pct), (''aria-valuemin'', js_num 0),
              (''aria-valuemax'', js_num 100), (''aria-label'', js ''Rollout percentage'')]
             [ela ''div'' [(''width'', js_num pct @ js ''%'')] []]] @
           shown showLabel [el ''span'' [Txt (js_num pct), lit ''%'']]))"

definition StatusBadge :: "bool \<Rightarrow> 'm view" where
  "StatusBadge on = el ''span'' [el ''span'' [], lit (if on then ''On'' else ''Off'')]"

definition ToggleSwitch :: "bool \<Rightarrow> 'm \<Rightarrow> bool \<Rightarrow> 'm view" where
  "ToggleSwitch on onToggle disabled =
     Elem ''Switch''
       [(''checked'', js_bool on), (''disabled'', js_bool disabled),
        (''aria-label'', js (if on then ''Disable flag'' else ''Enable flag''))]
       [(''checkedChange'', msg onToggle)] []"

section \<open>FlagForm\<close>

record form =
  f_flag :: "jsstring Flag option"
  f_key :: jsstring
  f_description :: jsstring
  f_enabled :: bool
  f_rollout :: int
  f_users :: users_input
  f_slider :: slider
  f_keyError :: "jsstring option"
  f_rolloutError :: "jsstring option"
  f_focused :: bool

datatype submission =
    SubmitCreate "jsstring CreateFlagInput"
  | SubmitUpdate "jsstring UpdateFlagInput"

definition isEdit :: "form \<Rightarrow> bool" where
  "isEdit s \<longleftrightarrow> f_flag s \<noteq> None"

definition FlagForm_init :: "jsstring Flag option \<Rightarrow> form" where
  "FlagForm_init flag =
     (let v = (case flag of Some f \<Rightarrow> rollout_percentage f | None \<Rightarrow> 0)
      in \<lparr>f_flag = flag,
          f_key = (case flag of Some f \<Rightarrow> key f | None \<Rightarrow> []),
          f_description = (case flag of Some f \<Rightarrow> description f | None \<Rightarrow> []),
          f_enabled = (case flag of Some f \<Rightarrow> enabled f | None \<Rightarrow> False),
          f_rollout = v,
          f_users = \<lparr>ui_input = [], ui_users = (case flag of Some f \<Rightarrow> targeted_users f | None \<Rightarrow> [])\<rparr>,
          f_slider = \<lparr>localValue = v, pending = None\<rparr>,
          f_keyError = None, f_rolloutError = None, f_focused = False\<rparr>)"

text \<open>\<^verbatim>\<open>/^[a-zA-Z0-9-]+$/\<close> on code units.\<close>

definition key_unit :: "16 word \<Rightarrow> bool" where
  "key_unit u \<longleftrightarrow> 97 \<le> u \<and> u \<le> 122 \<or> 65 \<le> u \<and> u \<le> 90 \<or> 48 \<le> u \<and> u \<le> 57 \<or> u = 45"

definition key_pattern :: "jsstring \<Rightarrow> bool" where
  "key_pattern k \<longleftrightarrow> k \<noteq> [] \<and> list_all key_unit k"

definition key_error :: "form \<Rightarrow> jsstring option" where
  "key_error s =
     (if isEdit s then None
      else if f_key s = [] then Some (js ''Key is required'')
      else if \<not> key_pattern (f_key s) then Some (js ''Use letters, numbers, and hyphens only'')
      else if length (f_key s) > 64 then Some (js ''Key must be at most 64 characters'')
      else None)"

definition rollout_error :: "form \<Rightarrow> jsstring option" where
  "rollout_error s =
     (if f_rollout s < 0 \<or> f_rollout s > 100 then Some (js ''Must be between 0 and 100'') else None)"

definition validate :: "form \<Rightarrow> bool \<times> form" where
  "validate s =
     (key_error s = None \<and> rollout_error s = None,
      s\<lparr>f_keyError := key_error s, f_rolloutError := rollout_error s,
        f_focused := (f_focused s \<or> key_error s \<noteq> None)\<rparr>)"

definition handleSubmit :: "form \<Rightarrow> submission option \<times> form" where
  "handleSubmit s0 =
     (let (ok, s) = validate s0
      in (if \<not> ok then None
          else if isEdit s then
            Some (SubmitUpdate
              \<lparr>u_description = Some (f_description s), u_enabled = Some (f_enabled s),
               u_rollout_percentage = Some (f_rollout s), u_targeted_users = Some (ui_users (f_users s))\<rparr>)
          else
            Some (SubmitCreate
              \<lparr>c_key = f_key s, c_description = f_description s, c_enabled = f_enabled s,
               c_rollout_percentage = f_rollout s, c_targeted_users = ui_users (f_users s)\<rparr>), s))"

datatype form_msg =
    SetKey jsstring
  | SetDescription jsstring
  | SetEnabled bool
  | Users users_msg
  | Slide int
  | SlideTimeout
  | Submit

definition setRolloutPercentage :: "int \<Rightarrow> form \<Rightarrow> form" where
  "setRolloutPercentage v s =
     s\<lparr>f_rollout := v, f_slider := slider_effect (f_rollout s) v (f_slider s)\<rparr>"

fun FlagForm_update :: "form_msg \<Rightarrow> form \<Rightarrow> submission option \<times> form" where
  "FlagForm_update (SetKey t) s = (None, s\<lparr>f_key := t\<rparr>)"
| "FlagForm_update (SetDescription t) s = (None, s\<lparr>f_description := t\<rparr>)"
| "FlagForm_update (SetEnabled b) s = (None, s\<lparr>f_enabled := b\<rparr>)"
| "FlagForm_update (Users m) s = (None, s\<lparr>f_users := users_update m (f_users s)\<rparr>)"
| "FlagForm_update (Slide v) s = (None, s\<lparr>f_slider := slider_handleChange v (f_slider s)\<rparr>)"
| "FlagForm_update SlideTimeout s =
     (None, case pending (f_slider s) of
              None \<Rightarrow> s
            | Some v \<Rightarrow> setRolloutPercentage v (s\<lparr>f_slider := (f_slider s)\<lparr>pending := None\<rparr>\<rparr>))"
| "FlagForm_update Submit s = handleSubmit s"

definition FlagForm :: "bool \<Rightarrow> form \<Rightarrow> form_msg view" where
  "FlagForm isLoading s =
     Elem ''form'' [] [(''submit'', msg Submit)]
      [el ''div''
        [ela ''Label'' [(''for'', js ''key'')] ([lit ''Flag key ''] @ shown (\<not> isEdit s) [el ''span'' [lit ''*'']]),
         Elem ''Input''
           [(''id'', js ''key''), (''value'', f_key s), (''disabled'', js_bool (isEdit s)),
            (''placeholder'', js ''my-feature-flag''), (''aria-invalid'', js_bool (f_keyError s \<noteq> None)),
            (''aria-describedby'', js (if f_keyError s \<noteq> None then ''key-error'' else ''key-hint''))]
           [(''change'', \<lambda>e. SetKey (str_arg e))] [],
         (case f_keyError s of
            Some e \<Rightarrow> ela ''p'' [(''id'', js ''key-error''), (''role'', js ''alert'')] [Txt e]
          | None \<Rightarrow> ela ''p'' [(''id'', js ''key-hint'')]
              [lit (if isEdit s then ''The key is immutable once created.''
                    else ''Stable identifier used by SDKs. Cannot be changed later.'')])],
       el ''div''
        [ela ''Label'' [(''for'', js ''description'')] [lit ''Description''],
         Elem ''Textarea''
           [(''id'', js ''description''), (''value'', f_description s),
            (''placeholder'', js ''What does this flag control?''), (''rows'', js_num 3)]
           [(''change'', \<lambda>e. SetDescription (str_arg e))] []],
       el ''div''
        [el ''div''
          [ela ''Label'' [(''for'', js ''enabled'')] [lit ''Enabled''],
           el ''p'' [lit ''When off, the flag evaluates to false for everyone.'']],
         Elem ''Switch'' [(''id'', js ''enabled''), (''checked'', js_bool (f_enabled s))]
           [(''checkedChange'', \<lambda>e. SetEnabled (bool_arg e))] []],
       el ''div''
        [el ''Label'' [lit ''Rollout percentage''],
         map_view Slide (RolloutSlider (f_slider s)),
         (case f_rolloutError s of
            Some e \<Rightarrow> ela ''p'' [(''role'', js ''alert'')] [Txt e]
          | None \<Rightarrow> el ''p'' [Txt (js ''Deterministic per user '' @ mdash @
              js '' increasing the percentage keeps existing users in the cohort.'')])],
       el ''div''
        [el ''Label'' [lit ''Targeted users''],
         map_view Users (TargetedUsersInput (f_users s)),
         el ''p'' [lit ''Always-on for these user IDs, regardless of rollout percentage.'']],
       el ''div''
        [ela ''Button'' [(''type'', js ''submit''), (''disabled'', js_bool isLoading)]
          [Txt (if isLoading then js ''Saving'' @ ellipsis
                else js (if isEdit s then ''Save changes'' else ''Create flag''))]]]"

section \<open>The form and the service accept the same keys\<close>

lemma key_unit_byte:
  assumes "c < 0x80"
  shows "key_unit (of_nat c) \<longleftrightarrow> key_byte (of_nat c)"
proof -
  have "unat (of_nat c :: 16 word) = c" "unat (of_nat c :: 8 word) = c"
    using assms by (simp_all add: unat_of_nat16 unat_of_nat8)
  then show ?thesis
    by (simp add: key_unit_def key_byte_def word_le_nat_alt word_unat_eq_iff)
qed

lemma key_unit_ascii: "key_unit u \<Longrightarrow> unat u < 0x80"
  by (auto simp: key_unit_def word_le_nat_alt)

lemma key_byte_ascii: "key_byte b \<Longrightarrow> unat b < 0x80"
  by (auto simp: key_byte_def word_le_nat_alt)

lemma key_pattern_ascii: "valid_text t \<Longrightarrow> key_pattern (utf16 t) \<Longrightarrow> ascii_text t"
  using utf16_ascii_iff [of t] by (auto simp: key_pattern_def list_all_iff dest: key_unit_ascii)

lemma keyRegex_ascii: "valid_text t \<Longrightarrow> keyRegex (utf8 t) \<Longrightarrow> ascii_text t"
  using utf8_ascii_iff [of t] by (auto simp: keyRegex_def list_all_iff dest: key_byte_ascii)

lemma key_pattern_keyRegex:
  assumes "valid_text t"
  shows "key_pattern (utf16 t) \<longleftrightarrow> keyRegex (utf8 t)"
proof (cases "ascii_text t")
  case True
  then have "list_all key_unit (map of_nat t) = list_all key_byte (map of_nat t)"
    by (induction t) (simp_all add: key_unit_byte)
  then show ?thesis using True by (simp add: key_pattern_def keyRegex_def utf16_ascii utf8_ascii)
next
  case False
  then show ?thesis using assms key_pattern_ascii keyRegex_ascii by blast
qed

lemma key_length_agree: "ascii_text t \<Longrightarrow> length (utf16 t) = length (utf8 t)"
  by (simp add: utf16_ascii utf8_ascii)

text \<open>C37: For a new flag the form and the service accept exactly the same keys and percentages,
  although one checks UTF-16 units and the other bytes: the form lets a submit through iff
  the service reports no validation error.\<close>

theorem validate_create_error:
  assumes "valid_text (c_key req)" "f_flag s = None" "f_key s = utf16 (c_key req)"
    and "f_rollout s = c_rollout_percentage req"
  shows "fst (validate s) \<longleftrightarrow> create_error req = None"
proof -
  have "key_error s = None \<longleftrightarrow>
      key_pattern (utf16 (c_key req)) \<and> length (utf16 (c_key req)) \<le> 64"
    using assms(2,3) by (auto simp: key_error_def isEdit_def key_pattern_def)
  also have "\<dots> \<longleftrightarrow> keyRegex (utf8 (c_key req)) \<and> length (utf8 (c_key req)) \<le> 64"
    using assms(1) key_pattern_keyRegex key_length_agree key_pattern_ascii by metis
  finally show ?thesis
    using assms(4) by (auto simp: validate_def rollout_error_def create_error_def Let_def keyRegex_def)
qed

theorem validate_create_error_witness:
  "fst (validate ((FlagForm_init None)\<lparr>f_key := utf16 [0xE9]\<rparr>)) \<longleftrightarrow>
   create_error \<lparr>c_key = [0xE9], c_description = [], c_enabled = False, c_rollout_percentage = 0,
     c_targeted_users = []\<rparr> = None"
  by (rule validate_create_error) (simp_all add: FlagForm_init_def scalar_def)

section \<open>The list of targeted users\<close>

definition users_ok :: "jsstring list \<Rightarrow> bool" where
  "users_ok us \<longleftrightarrow> distinct us \<and> list_all (\<lambda>u. u \<noteq> [] \<and> trim u = u) us"

lemma users_update_ok: "users_ok (ui_users s) \<Longrightarrow> users_ok (ui_users (users_update m s))"
  by (cases m) (auto simp: users_ok_def addUser_def removeUser_def users_handleKeyDown_def Let_def list_all_iff)

lemma FlagForm_update_users:
  "users_ok (ui_users (f_users s)) \<Longrightarrow> users_ok (ui_users (f_users (snd (FlagForm_update m s))))"
  by (cases m) (auto simp: users_update_ok setRolloutPercentage_def handleSubmit_def validate_def
      split: option.split)

text \<open>Whatever is typed, pressed, added and removed, the list of targeted users stays without
  duplicates and blanks, every entry trimmed, if it was so when the form opened.\<close>

theorem FlagForm_run_users:
  "users_ok (ui_users (f_users s)) \<Longrightarrow>
   users_ok (ui_users (f_users (foldl (\<lambda>s m. snd (FlagForm_update m s)) s ms)))"
  by (induction ms arbitrary: s) (simp_all add: FlagForm_update_users)

theorem FlagForm_run_users_witness:
  "users_ok (ui_users (f_users (foldl (\<lambda>s m. snd (FlagForm_update m s)) (FlagForm_init None)
     [Users (TypeUser (js '' ann '')), Users ClickAdd, Users (TypeUser (js ''ann'')), Users (PressKey (js ''Enter''))])))"
  by (rule FlagForm_run_users) (simp add: FlagForm_init_def users_ok_def)

text \<open>What the chips of the view do.\<close>

lemma TargetedUsersInput_clicks:
  "set (map (\<lambda>(e, h). (e, h NoArg)) (filter (\<lambda>(e, h). e = ''click'') (handlers (TargetedUsersInput s)))) =
     insert (''click'', ClickAdd) ((\<lambda>u. (''click'', ClickRemove u)) ` set (ui_users s))"
  by (auto simp: TargetedUsersInput_def image_iff)

section \<open>What a submit sends\<close>

lemma handleSubmit_update:
  "f_flag s = Some f \<Longrightarrow> 0 \<le> f_rollout s \<Longrightarrow> f_rollout s \<le> 100 \<Longrightarrow>
   fst (handleSubmit s) = Some (SubmitUpdate
     \<lparr>u_description = Some (f_description s), u_enabled = Some (f_enabled s),
      u_rollout_percentage = Some (f_rollout s), u_targeted_users = Some (ui_users (f_users s))\<rparr>)"
  by (simp add: handleSubmit_def validate_def key_error_def rollout_error_def isEdit_def)

text \<open>The percentage that a submit sends lags behind the one the slider shows: between a drag
  and the end of the 200 ms debounce the form shows the new value and sends the old one;
  after the timer both are the new value.\<close>

theorem submit_within_debounce_sends_old_value:
  assumes "f_flag s = Some f" "0 \<le> f_rollout s" "f_rollout s \<le> 100" "0 \<le> v" "v \<le> 100"
  defines "s1 \<equiv> snd (FlagForm_update (Slide v) s)"
  defines "s2 \<equiv> snd (FlagForm_update SlideTimeout s1)"
  shows "localValue (f_slider s1) = v \<and>
         (\<exists>u. fst (FlagForm_update Submit s1) = Some (SubmitUpdate u) \<and> u_rollout_percentage u = Some (f_rollout s)) \<and>
         localValue (f_slider s2) = v \<and>
         (\<exists>u. fst (FlagForm_update Submit s2) = Some (SubmitUpdate u) \<and> u_rollout_percentage u = Some v)"
  using assms(1-5)
  by (simp add: s1_def s2_def slider_handleChange_def setRolloutPercentage_def slider_effect_def
      handleSubmit_update)

definition sample_form :: form where
  "sample_form = FlagForm_init (Some \<lparr>key = js ''beta'', enabled = True, rollout_percentage = 50,
     targeted_users = [js ''alice''], flag_id = js ''1'', description = [], version = 1,
     created_at = 0, updated_at = 0\<rparr>)"

theorem submit_within_debounce_sends_old_value_witness:
  "\<exists>u. fst (FlagForm_update Submit (snd (FlagForm_update (Slide 80) sample_form))) = Some (SubmitUpdate u) \<and>
     u_rollout_percentage u = Some 50"
  using submit_within_debounce_sends_old_value [of sample_form _ 80]
  by (simp add: sample_form_def FlagForm_init_def)

end
