(* ===== verification/Explain.thy ===== *)
theory Explain
  imports View
begin

text \<open>
  The explanation layer (\<^verbatim>\<open>components/explain\<close>, \<^verbatim>\<open>lib/glossary.ts\<close>): the glossary and its
  inline terms, the stored Explain switch and what it shows and hides, and the guided
  tour with its stored first-run state. Browser storage may be unavailable; the stores
  carry a flag for it, and every read and write has the branch the source has.
\<close>

section \<open>The glossary\<close>

record GlossaryEntry =
  g_id :: jsstring
  g_term :: jsstring
  g_short :: jsstring
  g_definition :: jsstring
  g_analogy :: jsstring

definition GLOSSARY :: "GlossaryEntry list" where
  "GLOSSARY =
    [\<lparr>g_id = js ''rollout'', g_term = js ''Percentage rollout'',
      g_short = js ''Turn a feature on for a fixed share of users '' @ mdash @ js '' the same people each time, no flicker.'',
      g_definition = js ''A flag can be on for only a slice of users '' @ mdash @ js '' say 25%. It isn't random per request: each user gets a fixed dice roll from a hash of their id, so the same person always lands on the same side. You can dial the percentage up as you gain confidence.'',
      g_analogy = js ''A bouncer with a permanent guest list and a dice that always rolls the same number for you.''\<rparr>,
     \<lparr>g_id = js ''targeting'', g_term = js ''Targeting'',
      g_short = js ''An always-on allow-list of specific users, regardless of the rollout %.'',
      g_definition = js ''Named users who always get the feature, no matter the rollout percentage. Targeting is checked before the percentage, so your beta testers or your own account see the change immediately while everyone else waits for the rollout.'',
      g_analogy = js ''The VIP list at the door '' @ mdash @ js '' you're in, no dice roll needed.''\<rparr>,
     \<lparr>g_id = js ''local-evaluation'', g_term = js ''Local evaluation'',
      g_short = js ''The SDK decides on/off on the device '' @ mdash @ js '' no network call per check.'',
      g_definition = js ''The SDK holds the full flag config and computes on/off right on the device using the same math everywhere. Checking a flag is a local function call, not a request to the server, so it's instant and keeps working even if the network blips.'',
      g_analogy = js ''Everyone carries the same rulebook, so nobody has to phone head office to make a call.''\<rparr>,
     \<lparr>g_id = js ''sse'', g_term = js ''SSE (real-time updates)'',
      g_short = js ''The server pushes changes to the browser over a live stream.'',
      g_definition = js ''Server-Sent Events keep a one-way stream open from the server to the client. When a flag changes, the server pushes it down the stream immediately '' @ mdash @ js '' the client doesn't poll on a timer. That's how a flip reaches every open page in milliseconds.'',
      g_analogy = js ''A live radio you leave on, not you dialing the station every few seconds.''\<rparr>,
     \<lparr>g_id = js ''propagation'', g_term = js ''Propagation'',
      g_short = js ''A change traveling from the database out to every server and client.'',
      g_definition = js ''The journey a flag change takes after you save it: written to Postgres, announced over Redis, applied by every backend, then pushed to connected clients. Propagation latency is how long that whole trip takes, measured end to end.'',
      g_analogy = js ''A memo leaving the head office and reaching every desk in the building.''\<rparr>,
     \<lparr>g_id = js ''convergence'', g_term = js ''Convergence'',
      g_short = js ''Every node agreeing on the same latest version.'',
      g_definition = js ''The cluster has converged when every reachable node reports the same config version. Right after a change they may briefly differ; convergence is the moment they all catch up and agree again.'',
      g_analogy = js ''Everyone in the meeting finally on the same page number.''\<rparr>,
     \<lparr>g_id = js ''config-version'', g_term = js ''config_version'',
      g_short = js ''A global counter that bumps by one on every committed change.'',
      g_definition = js ''One monotonically increasing number for the whole system, incremented on each committed change. It's the heartbeat you see in the top bar. Comparing versions tells you instantly whether a node or client is up to date or behind.'',
      g_analogy = js ''A save-point counter '' @ mdash @ js '' every save gets the next number.''\<rparr>,
     \<lparr>g_id = js ''versioning'', g_term = js ''Versioning'',
      g_short = js ''Numbering every change so anyone can tell what they've applied.'',
      g_definition = js ''Every change is stamped with a version number. Clients apply versions in order and never go backwards, so it's always clear which state each client is on and whether it has missed anything.'',
      g_analogy = js ''Save points in a game '' @ mdash @ js '' each has a number, and you load them in order.''\<rparr>,
     \<lparr>g_id = js ''reconcile'', g_term = js ''Reconcile'',
      g_short = js ''A client that fell behind replays the missed changes in order to catch up.'',
      g_definition = js ''If a client's stream drops and it misses events, on reconnect it asks the server for everything after its last version and replays those changes in order. It ends up at the exact latest state '' @ mdash @ js '' no full reload, no guessing.'',
      g_analogy = js ''You dozed off in the meeting, then quietly read the notes to catch up.''\<rparr>,
     \<lparr>g_id = js ''optimistic-concurrency'', g_term = js ''Optimistic concurrency'',
      g_short = js ''Edits carry the version you saw; a stale edit is rejected with a 409.'',
      g_definition = js ''When you save an edit, the client sends the version it loaded (an If-Match check). If someone changed the flag in the meantime, the server rejects your write with a 409 conflict instead of silently overwriting their change. You re-load and retry on the fresh version.'',
      g_analogy = js ''Editing a shared doc: if it changed under you, it warns you before you clobber someone's work.''\<rparr>,
     \<lparr>g_id = js ''p99'', g_term = js ''p99'',
      g_short = js ''The value 99% of measurements come in under '' @ mdash @ js '' a tail-latency check.'',
      g_definition = js ''A percentile. p99 propagation latency means 99% of changes propagated faster than this number; only the slowest 1% took longer. Watching the tail (p99), not just the average, is how you catch the bad-case experience.'',
      g_analogy = js ''Not the typical commute '' @ mdash @ js '' the near-worst day you should still plan around.''\<rparr>,
     \<lparr>g_id = js ''readyz'', g_term = js ''/readyz'',
      g_short = js ''A per-node health check: is this server ready to serve correct data?'',
      g_definition = js ''Each backend exposes /readyz. It returns ready only when the node can reach its dependencies (Postgres, Redis) and holds current config. A load balancer uses it to route traffic only to nodes that can actually serve correct answers.'',
      g_analogy = js ''A shop's 'Open' sign '' @ mdash @ js '' it only flips on when the tills and lights actually work.''\<rparr>,
     \<lparr>g_id = js ''event-log'', g_term = js ''Event log'',
      g_short = js ''The durable, ordered record of every flag change '' @ mdash @ js '' the real history.'',
      g_definition = js ''Every change is appended to a durable log in the database, each with a monotonically increasing version. Unlike the live stream (which is ephemeral and can be missed), the log is the source of truth: a client that fell behind replays from it to catch up, and the version timeline is just this log, drawn.'',
      g_analogy = js ''A ship's logbook '' @ mdash @ js '' the messenger may not always reach you, but the log is always there to read back.''\<rparr>,
     \<lparr>g_id = js ''determinism'', g_term = js ''Determinism'',
      g_short = js ''Same input, same answer, every time '' @ mdash @ js '' no randomness, no flicker.'',
      g_definition = js ''A rollout is deterministic: a given user always gets the same verdict for a flag, on every page load and on every server. It isn't a fresh coin flip each request '' @ mdash @ js '' it's a fixed roll derived from the user's id. That's why 25% means the same 25% of people, not a different quarter each time.'',
      g_analogy = js ''A dice that always rolls the same number for you '' @ mdash @ js '' your seat is fixed.''\<rparr>,
     \<lparr>g_id = js ''hash-bucket'', g_term = js ''Hash bucket'',
      g_short = js ''A user's fixed 0'' @ [0x2013] @ js ''99 slot for a flag, from a hash of their id.'',
      g_definition = js ''To decide a percentage rollout without storing per-user state, the flag key and user id are hashed (FNV-1a) into a number 0'' @ [0x2013] @ js ''99 '' @ mdash @ js '' the user's bucket. If the bucket is below the rollout percentage, they're in. Because the hash is fixed, so is the bucket, so the answer is stable and every server computes it identically.'',
      g_analogy = js ''A permanent locker number '' @ mdash @ js '' everyone can look it up and get the same one.''\<rparr>]"

text \<open>\<^verbatim>\<open>Object.fromEntries\<close>: the last entry of an id wins.\<close>

definition GLOSSARY_BY_ID :: "jsstring \<Rightarrow> GlossaryEntry option" where
  "GLOSSARY_BY_ID i = find (\<lambda>e. g_id e = i) (rev GLOSSARY)"

definition Term :: "jsstring \<Rightarrow> jsstring option \<Rightarrow> 'm view" where
  "Term name children =
     (let entry = GLOSSARY_BY_ID name;
          label = (case children of Some c \<Rightarrow> c
                   | None \<Rightarrow> (case entry of Some e \<Rightarrow> g_term e | None \<Rightarrow> name))
      in case entry of
           None \<Rightarrow> el ''span'' [Txt label]
         | Some e \<Rightarrow>
             el ''Tooltip''
              [ela ''Link'' [(''href'', js ''/glossary#'' @ g_id e)] [Txt label],
               el ''TooltipContent'' [Txt (g_short e)]])"

section \<open>The Explain switch\<close>

record explain_store =
  ex_item :: "jsstring option"
  ex_storage :: bool
  ex_listeners :: "nat list"
  ex_calls :: "nat list"

definition readExplain :: "explain_store \<Rightarrow> bool" where
  "readExplain st =
     (if ex_storage st
      then (if ex_item st = Some (js ''0'') then False
            else if ex_item st = Some (js ''1'') then True else True)
      else True)"

definition writeExplain :: "bool \<Rightarrow> explain_store \<Rightarrow> explain_store" where
  "writeExplain value st =
     (let st = (if ex_storage st then st\<lparr>ex_item := Some (js (if value then ''1'' else ''0''))\<rparr> else st)
      in st\<lparr>ex_calls := ex_calls st @ ex_listeners st\<rparr>)"

definition explain_subscribe :: "nat \<Rightarrow> explain_store \<Rightarrow> explain_store" where
  "explain_subscribe l st =
     st\<lparr>ex_listeners := (if l \<in> set (ex_listeners st) then ex_listeners st else ex_listeners st @ [l])\<rparr>"

definition explain_unsubscribe :: "nat \<Rightarrow> explain_store \<Rightarrow> explain_store" where
  "explain_unsubscribe l st = st\<lparr>ex_listeners := removeAll l (ex_listeners st)\<rparr>"

text \<open>Another tab wrote the item: the event has the key it changed.\<close>

definition explain_storage_event :: "jsstring \<Rightarrow> jsstring option \<Rightarrow> explain_store \<Rightarrow> explain_store" where
  "explain_storage_event k item st =
     (let st = (if k = js ''flagplane-explain'' then st\<lparr>ex_item := item\<rparr> else st)
      in if k = js ''flagplane-explain'' then st\<lparr>ex_calls := ex_calls st @ ex_listeners st\<rparr> else st)"

definition toggleExplain :: "explain_store \<Rightarrow> explain_store" where
  "toggleExplain st = writeExplain (\<not> readExplain st) st"

text \<open>The context value; on the server, and while hydrating, the default.\<close>

definition ExplainProvider :: "bool \<Rightarrow> explain_store \<Rightarrow> bool" where
  "ExplainProvider server st = (if server then True else readExplain st)"

text \<open>\<^verbatim>\<open>useExplain\<close> outside a provider throws.\<close>

definition useExplain :: "bool option \<Rightarrow> string + bool" where
  "useExplain ctx =
     (case ctx of
        None \<Rightarrow> Inl ''useExplain must be used within an ExplainProvider''
      | Some b \<Rightarrow> Inr b)"

datatype explain_msg = ToggleExplain

definition ExplainToggle :: "bool \<Rightarrow> explain_msg view" where
  "ExplainToggle explain =
     el ''Tooltip''
      [Elem ''button''
         [(''type'', js ''button''), (''role'', js ''switch''), (''aria-checked'', js_bool explain),
          (''aria-label'', js ''Explain mode'')]
         [(''click'', msg ToggleExplain)] [el ''span'' [lit ''Explain'']],
       el ''TooltipContent''
        [Txt (if explain
              then js ''Explain is on '' @ mdash @ js '' guide notes shown, dense detail tucked away. Click for the pro view.''
              else js ''Explain is off '' @ mdash @ js '' pro view. Click to bring back the guided explanations.'')]]"

section \<open>What the switch shows and hides\<close>

definition GuideCallout :: "bool \<Rightarrow> jsstring option \<Rightarrow> 'm view list \<Rightarrow> 'm view list" where
  "GuideCallout explain title children =
     (if \<not> explain then []
      else [ela ''div'' [(''role'', js ''note'')]
             [el ''div''
               ((case title of Some t \<Rightarrow> shown (t \<noteq> []) [el ''p'' [Txt t]] | None \<Rightarrow> []) @ children)]])"

definition PageIntro :: "'m view list \<Rightarrow> 'm view list \<Rightarrow> 'm view list \<Rightarrow> 'm view list \<Rightarrow> 'm view" where
  "PageIntro title subtitle status actions =
     el ''div''
      ([el ''div''
         ([el ''div'' [el ''h2'' title, el ''p'' subtitle]] @
          shown (actions \<noteq> []) [el ''div'' actions])] @
       shown (status \<noteq> []) [ela ''p'' [(''aria-live'', js ''polite'')] status])"

record details =
  d_open :: bool
  d_prevExplain :: bool

definition AdvancedDetails_init :: "bool \<Rightarrow> details" where
  "AdvancedDetails_init explain = \<lparr>d_open = (\<not> explain), d_prevExplain = explain\<rparr>"

definition AdvancedDetails_render :: "bool \<Rightarrow> details \<Rightarrow> details" where
  "AdvancedDetails_render explain st =
     (if explain \<noteq> d_prevExplain st then \<lparr>d_open = (\<not> explain), d_prevExplain = explain\<rparr> else st)"

definition AdvancedDetails_click :: "details \<Rightarrow> details" where
  "AdvancedDetails_click st = st\<lparr>d_open := (\<not> d_open st)\<rparr>"

definition AdvancedDetails :: "jsstring \<Rightarrow> 'm \<Rightarrow> 'm view list \<Rightarrow> details \<Rightarrow> 'm view" where
  "AdvancedDetails label toggle children st =
     el ''div''
      ([Elem ''button'' [(''type'', js ''button''), (''aria-expanded'', js_bool (d_open st))]
         [(''click'', msg toggle)] [Txt label]] @
       shown (d_open st) [el ''div'' children])"

definition ColorLegend :: "'m view" where
  "ColorLegend =
     ela ''ul'' [(''aria-label'', js ''Color legend'')]
      (map (\<lambda>(label, meaning). el ''li'' [el ''span'' [lit label], el ''span'' [lit meaning]])
        [(''Live'', ''on / healthy / caught up''), (''Down'', ''unreachable / conflict''),
         (''Act'', ''you can act here'')])"

section \<open>The guided tour\<close>

record tour_step =
  ts_chapter :: jsstring
  ts_title :: jsstring
  ts_body :: jsstring
  ts_href :: jsstring
  ts_linkLabel :: jsstring

definition STEPS :: "tour_step list" where
  "STEPS =
    [\<lparr>ts_chapter = js ''1 '' @ middot @ js '' What a flag is'', ts_title = js ''A switch for your app'',
      ts_body = js ''A feature flag turns something on or off without a redeploy. Start on the Overview and flip hero-demo to watch one change travel end to end.'',
      ts_href = js ''/'', ts_linkLabel = js ''Go to Overview''\<rparr>,
     \<lparr>ts_chapter = js ''2 '' @ middot @ js '' Percentage rollout'', ts_title = js ''25% isn't random'',
      ts_body = js ''Each user gets a fixed dice roll from a hash of their id, so the same person always lands the same side. Drag the rollout on the Demo and watch who flips.'',
      ts_href = js ''/demo'', ts_linkLabel = js ''Go to Demo''\<rparr>,
     \<lparr>ts_chapter = js ''3 '' @ middot @ js '' Why ON or OFF'', ts_title = js ''Read the decision'',
      ts_body = js ''Targeting is an always-on allow-list checked before the percentage. The Demo's '' @ [0x201C] @ js ''Why ON/OFF?'' @ [0x201D] @ js '' card shows the exact three-step verdict for any user.'',
      ts_href = js ''/demo'', ts_linkLabel = js ''Open the explainer''\<rparr>,
     \<lparr>ts_chapter = js ''4 '' @ middot @ js '' Local evaluation'', ts_title = js ''The decision is instant'',
      ts_body = js ''The SDK evaluates flags on the device with zero network calls '' @ mdash @ js '' that's why it's fast and works offline. Switch users on the Demo to see it decide per person.'',
      ts_href = js ''/demo'', ts_linkLabel = js ''Try the Demo''\<rparr>,
     \<lparr>ts_chapter = js ''5 '' @ middot @ js '' Real-time updates'', ts_title = js ''Pushed, not polled'',
      ts_body = js ''Changes are pushed to every client over a live stream (SSE). The Cluster page has a human-readable feed '' @ mdash @ js '' flip a flag and watch it appear within milliseconds.'',
      ts_href = js ''/cluster'', ts_linkLabel = js ''See the live feed''\<rparr>,
     \<lparr>ts_chapter = js ''6 '' @ middot @ js '' Many servers'', ts_title = js ''Diverge, then converge'',
      ts_body = js ''Flags run on three servers at once. Right after a change they can briefly differ, then all agree '' @ mdash @ js '' that's convergence. The Cluster hero shows it with real timings.'',
      ts_href = js ''/cluster'', ts_linkLabel = js ''Watch convergence''\<rparr>,
     \<lparr>ts_chapter = js ''7 '' @ middot @ js '' Versioning'', ts_title = js ''Every change is a save point'',
      ts_body = js ''Each edit bumps a version and is recorded durably, so edits are safe even when two people change a flag at once. Open a flag to see its history.'',
      ts_href = js ''/flags'', ts_linkLabel = js ''Go to Flags''\<rparr>,
     \<lparr>ts_chapter = js ''8 '' @ middot @ js '' Failure & recovery'', ts_title = js ''It heals itself'',
      ts_body = js ''Lose the messenger (Redis) or a server and writes still work '' @ mdash @ js '' everyone holds last-known-good and catches up when it returns. The Resilience page watches it live.'',
      ts_href = js ''/resilience'', ts_linkLabel = js ''See resilience''\<rparr>,
     \<lparr>ts_chapter = js ''You're ready'', ts_title = js ''Now make it yours'',
      ts_body = js ''That's the whole system. Build a flag with zero risk in the Playground, or browse every concept as a card in Learn.'',
      ts_href = js ''/playground'', ts_linkLabel = js ''Open the Playground''\<rparr>]"

record tour =
  override :: "bool option"
  seenItem :: "jsstring option"
  tourStorage :: bool
  step :: nat
  wasOpen :: bool

definition seen :: "tour \<Rightarrow> bool" where
  "seen t = (if tourStorage t then seenItem t = Some (js ''1'') else True)"

definition markSeen :: "tour \<Rightarrow> tour" where
  "markSeen t = (if tourStorage t then t\<lparr>seenItem := Some (js ''1'')\<rparr> else t)"

definition readOpen :: "tour \<Rightarrow> bool" where
  "readOpen t = (case override t of None \<Rightarrow> \<not> seen t | Some b \<Rightarrow> b)"

definition openTour :: "tour \<Rightarrow> tour" where
  "openTour t = t\<lparr>override := Some True\<rparr>"

definition closeTour :: "tour \<Rightarrow> tour" where
  "closeTour t = markSeen (t\<lparr>override := Some False\<rparr>)"

definition useTourOpen :: "bool \<Rightarrow> tour \<Rightarrow> bool" where
  "useTourOpen server t = (if server then False else readOpen t)"

text \<open>The state adjustment at the start of a render: reopening starts at the first step.\<close>

definition tour_render :: "tour \<Rightarrow> tour" where
  "tour_render t =
     (let open_now = readOpen t
      in if open_now \<noteq> wasOpen t
         then (let t = t\<lparr>wasOpen := open_now\<rparr> in if open_now then t\<lparr>step := 0\<rparr> else t)
         else t)"

datatype tour_msg = Close | Back | Next | Reopen | KeyDown jsstring

fun tour_update :: "tour_msg \<Rightarrow> tour \<Rightarrow> tour" where
  "tour_update Close t = tour_render (closeTour t)"
| "tour_update Back t = tour_render (t\<lparr>step := step t - 1\<rparr>)"
| "tour_update Next t = tour_render (t\<lparr>step := step t + 1\<rparr>)"
| "tour_update Reopen t = tour_render (openTour t)"
| "tour_update (KeyDown k) t =
     (if readOpen t \<and> k = js ''Escape'' then tour_render (closeTour t) else t)"

definition GuidedTour :: "tour \<Rightarrow> tour_msg view list" where
  "GuidedTour t =
     (if \<not> readOpen t then []
      else let s = STEPS ! step t; isFirst = (step t = 0); isLast = (step t = length STEPS - 1)
           in [ela ''div'' [(''role'', js ''region''), (''aria-label'', js ''Guided tour'')]
                [el ''div''
                  [el ''div'' [el ''span'' [lit ''A 60-second tour'']],
                   Elem ''button'' [(''type'', js ''button''), (''aria-label'', js ''Close tour'')]
                     [(''click'', msg Close)] []],
                 ela ''div'' [(''aria-live'', js ''polite'')]
                  [el ''p'' [Txt (ts_chapter s)],
                   el ''h3'' [Txt (ts_title s)],
                   el ''p'' [Txt (ts_body s)],
                   Elem ''Link'' [(''href'', ts_href s)] [(''click'', msg Close)] [Txt (ts_linkLabel s)]],
                 el ''div''
                  [ela ''div'' [(''aria-hidden'', js ''true'')] (map (\<lambda>i. el ''span'' []) [0..<length STEPS]),
                   el ''div''
                    [if isFirst then Elem ''Button'' [] [(''click'', msg Close)] [lit ''Skip'']
                     else Elem ''Button'' [] [(''click'', msg Back)] [lit ''Back''],
                     if isLast then Elem ''Button'' [] [(''click'', msg Close)] [lit ''Done'']
                     else Elem ''Button'' [] [(''click'', msg Next)] [lit ''Next'']]]]])"

definition TourButton :: "tour_msg view" where
  "TourButton = Elem ''Button'' [] [(''click'', msg Reopen)] [lit ''Take the tour'']"

section \<open>The switch and the tour keep their promises\<close>

lemma writeExplain_read: "ex_storage st \<Longrightarrow> readExplain (writeExplain v st) = v"
  by (simp add: readExplain_def writeExplain_def Let_def)

lemma writeExplain_no_storage: "\<not> ex_storage st \<Longrightarrow> readExplain (toggleExplain st) = readExplain st"
  by (simp add: readExplain_def writeExplain_def toggleExplain_def Let_def)

lemma length_STEPS [simp]: "length STEPS = 9"
  by (simp add: STEPS_def)

lemma tour_render_step: "step t < 9 \<Longrightarrow> step (tour_render t) < 9"
  by (simp add: tour_render_def Let_def)

lemma closeTour_closed: "readOpen (closeTour t) = False"
  by (simp add: closeTour_def readOpen_def markSeen_def)

lemma closeTour_step [simp]: "step (closeTour t) = step t"
  by (simp add: closeTour_def markSeen_def)

lemma tour_offers:
  assumes "(e, h) \<in> set (concat (map handlers (GuidedTour t)))"
  shows "h a = Close \<or> (h a = Back \<and> 0 < step t) \<or> (h a = Next \<and> step t < 8)
     \<or> (h a = Next \<and> step t > 8)"
  using assms by (auto simp: GuidedTour_def Let_def split: if_splits)

text \<open>Every control the tour offers, in whatever state it is, leads to a step that exists.\<close>

theorem tour_stays_in_range:
  assumes "step t < 9" "(e, h) \<in> set (concat (map handlers (GuidedTour t)))"
  shows "step (tour_update (h a) t) < 9"
  using tour_offers [OF assms(2), of a] assms(1) by (auto intro!: tour_render_step)

lemma glossary_ids_distinct: "distinct (map g_id GLOSSARY)"
  by (simp add: GLOSSARY_def)

theorem tour_stays_in_range_witness:
  "(let t = \<lparr>override = None, seenItem = None, tourStorage = True, step = 8, wasOpen = True\<rparr>
    in list_all (\<lambda>(e, h). step (tour_update (h NoArg) t) < 9) (concat (map handlers (GuidedTour t))))"
  unfolding Let_def list_all_iff
  using tour_stays_in_range [of "\<lparr>override = None, seenItem = None, tourStorage = True, step = 8, wasOpen = True\<rparr>" _ _ NoArg]
  by (auto simp del: tour_update.simps)

text \<open>The Explain switch flips what is read back, and keeps it, when storage works; without
  storage it does nothing at all: the value stays on, whatever is clicked.\<close>

theorem explain_switch:
  "readExplain (toggleExplain st) = (if ex_storage st then \<not> readExplain st else True) \<and>
   (ex_storage st \<longrightarrow> readExplain (toggleExplain (toggleExplain st)) = readExplain st)"
  by (auto simp: readExplain_def writeExplain_def toggleExplain_def Let_def)

theorem explain_switch_witness:
  "readExplain (toggleExplain (toggleExplain \<lparr>ex_item = None, ex_storage = True, ex_listeners = [], ex_calls = []\<rparr>))"
proof -
  have "readExplain \<lparr>ex_item = None, ex_storage = True, ex_listeners = [], ex_calls = []\<rparr>"
    by (simp add: readExplain_def)
  then show ?thesis
    using explain_switch [of "\<lparr>ex_item = None, ex_storage = True, ex_listeners = [], ex_calls = []\<rparr>"] by simp
qed

text \<open>Dismissing the tour closes it for good: it is closed at once, and, with working storage,
  a fresh page load does not open it again; opening it by hand starts at the first step.\<close>

theorem tour_dismissed:
  "readOpen (tour_update Close t) = False \<and>
   (tourStorage t \<longrightarrow> readOpen ((tour_update Close t)\<lparr>override := None\<rparr>) = False) \<and>
   step (tour_update Reopen (tour_update Close t)) = 0"
  by (auto simp: closeTour_def openTour_def markSeen_def readOpen_def seen_def tour_render_def Let_def)

theorem tour_dismissed_witness:
  "readOpen ((tour_update Close \<lparr>override = Some True, seenItem = None, tourStorage = True, step = 4, wasOpen = True\<rparr>)
     \<lparr>override := None\<rparr>) = False"
  using tour_dismissed [of "\<lparr>override = Some True, seenItem = None, tourStorage = True, step = 4, wasOpen = True\<rparr>"]
  by simp

end
