(* ===== verification/FlagViews.thy ===== *)
theory FlagViews
  imports FlagForms Explain
begin

text \<open>
  The list of flags (\<^verbatim>\<open>FlagList\<close>) and the history of one flag (\<^verbatim>\<open>FlagHistoryDrawer\<close>): what
  each shows in every state of its query, and what its controls do. Formatting a time
  stamp in the reader's locale is an argument.
\<close>

record 'a query_state =
  q_data :: "'a option"
  q_isLoading :: bool
  q_isError :: bool

section \<open>FlagHistoryDrawer\<close>

fun event_label :: "event_kind \<Rightarrow> jsstring" where
  "event_label EvCreated = js ''Created''"
| "event_label EvUpdated = js ''Updated''"
| "event_label EvDeleted = js ''Deleted''"

definition EventRow :: "(int \<Rightarrow> jsstring) \<Rightarrow> jsstring FlagEvent \<Rightarrow> 'm view" where
  "EventRow toLocaleString e =
     (let en = map_option enabled (payload_flag (payload e));
          rollout = map_option rollout_percentage (payload_flag (payload e))
      in el ''li''
          ([el ''div''
             [el ''span'' [Txt (event_label (event_type e))],
              el ''span'' [Txt (js ''v'' @ js_num (ev_version e))]],
            el ''p'' [Txt (toLocaleString (ev_created_at e))]] @
           shown (event_type e \<noteq> EvDeleted \<and> (en \<noteq> None \<or> rollout \<noteq> None))
            [el ''p''
              ((case en of Some b \<Rightarrow> [el ''span'' [lit (if b then ''enabled'' else ''disabled'')]] | None \<Rightarrow> []) @
               (case rollout of
                  Some p \<Rightarrow> [el ''span'' [Txt (js '' '' @ middot @ js '' '' @ js_num p @ js ''% rollout'')]]
                | None \<Rightarrow> []))]))"

datatype drawer_msg = OpenChange bool

definition drawer_update :: "drawer_msg \<Rightarrow> bool \<Rightarrow> bool" where
  "drawer_update m s = (case m of OpenChange b \<Rightarrow> b)"

definition drawer_body :: "(int \<Rightarrow> jsstring) \<Rightarrow> jsstring FlagEvent list query_state \<Rightarrow> 'm view" where
  "drawer_body toLocaleString q =
     el ''div''
      [if q_isLoading q then el ''div'' (map (\<lambda>i. el ''div'' []) [0..<4::nat])
       else case q_data q of
              Some (e # es) \<Rightarrow> el ''ol'' (map (EventRow toLocaleString) (e # es))
            | _ \<Rightarrow> el ''p'' [lit ''No events yet.'']]"

definition FlagHistoryDrawer ::
  "(int \<Rightarrow> jsstring) \<Rightarrow> jsstring FlagEvent list query_state \<Rightarrow> bool \<Rightarrow> drawer_msg view" where
  "FlagHistoryDrawer toLocaleString q opened =
     ela ''Dialog'' [(''open'', js_bool opened)]
      ([Elem ''Trigger'' [] [(''click'', msg (OpenChange True))] [lit ''History'']] @
       shown opened
        [el ''Popup''
          [el ''div''
            [el ''div''
              [el ''Title'' [lit ''Change history''],
               el ''Description'' [Txt (js ''From the durable event log '' @ mdash @ js '' newest first.'')]],
             Elem ''Close'' [(''aria-label'', js ''Close'')] [(''click'', msg (OpenChange False))] []],
           drawer_body toLocaleString q]])"

section \<open>FlagList\<close>

datatype list_msg = ToggleMutate jsstring

definition Th :: "string \<Rightarrow> 'm view" where
  "Th label = el ''TableHead'' [lit label]"

definition flag_row :: "bool \<Rightarrow> jsstring Flag \<Rightarrow> list_msg view" where
  "flag_row isPending flag =
     el ''TableRow''
      [el ''TableCell'' [StatusBadge (enabled flag)],
       el ''TableCell''
        [ela ''Link'' [(''href'', js ''/flags/'' @ flag_id flag)] [el ''span'' [Txt (key flag)]]],
       el ''TableCell''
        [el ''Tooltip''
          ([el ''TooltipTrigger'' [Txt (if description flag \<noteq> [] then description flag else mdash)]] @
           shown (description flag \<noteq> []) [el ''TooltipContent'' [Txt (description flag)]])],
       el ''TableCell'' [RolloutBar (rollout_percentage flag) True],
       el ''TableCell'' [el ''span'' [Txt (js ''v'' @ js_num (version flag))]],
       el ''TableCell''
        [if targeted_users flag \<noteq> []
         then el ''span'' [el ''span'' [Txt (js_num (int (length (targeted_users flag))))]]
         else el ''span'' [Txt mdash]],
       el ''TableCell'' [ToggleSwitch (enabled flag) (ToggleMutate (flag_id flag)) isPending]]"

definition SkeletonTable :: "'m view" where
  "SkeletonTable =
     el ''div''
      [el ''div''
        (map (\<lambda>i. el ''div'' [el ''div'' [], el ''div'' [], el ''div'' [], el ''div'' []]) [0..<6::nat])]"

definition EmptyState :: "'m view" where
  "EmptyState =
     el ''div''
      [el ''p'' [lit ''No flags yet''],
       el ''p'' [Txt (js ''A feature flag is a named switch for your app. Turn a feature on or off, or open it to a percentage of users '' @ mdash @ js '' all without shipping new code. Create one to see it evaluate live in the Demo.'')],
       ela ''Link'' [(''href'', js ''/flags/new'')] [lit ''Create your first flag'']]"

definition ErrorState :: "'m view" where
  "ErrorState =
     el ''div''
      [el ''p'' [lit ''Couldn't reach the control plane''],
       el ''p'' [lit ''Check that the API is running on :8080, then retry.'']]"

definition FlagList_body :: "bool \<Rightarrow> jsstring FlagsResponse query_state \<Rightarrow> list_msg view" where
  "FlagList_body isPending q =
     (if q_isError q then ErrorState
      else if q_isLoading q then SkeletonTable
      else case map_option flags (q_data q) of
             Some (f # fs) \<Rightarrow>
               el ''Table''
                [el ''TableHeader''
                  [el ''TableRow''
                    [Th ''Status'', Th ''Key'', Th ''Description'', Th ''Rollout'', Th ''Version'',
                     Th ''Targeting'', Th ''Enabled'']],
                 el ''TableBody'' (map (flag_row isPending) (f # fs))]
           | _ \<Rightarrow> EmptyState)"

definition FlagList :: "bool \<Rightarrow> bool \<Rightarrow> jsstring FlagsResponse query_state \<Rightarrow> list_msg view" where
  "FlagList explain isPending q =
     el ''div''
      ([PageIntro [lit ''Feature flags'']
         [lit ''Every switch you can flip, with its rollout and version. Each device '',
          Term (js ''local-evaluation'') (Some (js ''evaluates flags locally'')),
          lit '' and gets changes in real time.'']
         [] [ela ''Link'' [(''href'', js ''/flags/new'')] [lit ''New flag'']]] @
       GuideCallout explain None
        [lit ''Each row is one flag. The toggle turns it on or off for everyone; the '',
         Term (js ''rollout'') (Some (js ''rollout'')), lit '' % opens it to a slice of users; the '',
         Term (js ''config-version'') (Some (js ''version'')),
         lit '' bumps on every change so clients always know what they've applied. Click a key to edit, target users, or see its history.''] @
       [FlagList_body isPending q])"

section \<open>What the two show\<close>

lemma handlers_ToggleSwitch [simp]: "handlers (ToggleSwitch on m d) = [(''checkedChange'', msg m)]"
  by (simp add: ToggleSwitch_def)

lemma handlers_static [simp]:
  "handlers (StatusBadge b) = []" "handlers (RolloutBar p l) = []" "handlers SkeletonTable = []"
  "handlers EmptyState = []" "handlers ErrorState = []" "handlers (Th s) = []"
  by (simp_all add: StatusBadge_def RolloutBar_def Let_def SkeletonTable_def EmptyState_def ErrorState_def Th_def comp_def)

lemma handlers_flag_row:
  "handlers (flag_row p f) = [(''checkedChange'', msg (ToggleMutate (flag_id f)))]"
  by (simp add: flag_row_def)

text \<open>The controls of the list are exactly the switches of the flags it was given, in order,
  each toggling its own flag by id; while loading, on an error and with no flags there is
  none.\<close>

theorem list_controls:
  "handlers (FlagList_body p q) =
     (if q_isError q \<or> q_isLoading q then []
      else case q_data q of
             None \<Rightarrow> []
           | Some r \<Rightarrow> map (\<lambda>f. (''checkedChange'', msg (ToggleMutate (flag_id f)))) (flags r))"
  by (auto simp: FlagList_body_def handlers_flag_row comp_def split: option.split list.split)

lemma drawer_rows:
  "\<not> q_isLoading q \<Longrightarrow> q_data q = Some (e # es) \<Longrightarrow>
   drawer_body fmt q = el ''div'' [el ''ol'' (map (EventRow fmt) (e # es))]"
  by (simp add: drawer_body_def)

end
