(* ===== verification/Teaching.thy ===== *)
theory Teaching
  imports Evaluate Explain "HOL-Library.Multiset"
begin

text \<open>
  The two components that explain a decision: \<^verbatim>\<open>WhyExplainer\<close>, which turns a trace of the
  evaluator into three steps, and \<^verbatim>\<open>RolloutVisualizer\<close>, which places a hundred sample users
  by their bucket and colours them for a percentage the reader drags. The lemmas say that
  what they show is what the evaluator decides.
\<close>

section \<open>WhyExplainer\<close>

datatype StepStatus = Pass | Fail | Skipped

record 'm why_step =
  w_label :: jsstring
  w_detail :: "'m view list"
  w_status :: StepStatus

text \<open>\<^verbatim>\<open>t.hashInput.split(":").slice(1).join(":")\<close>\<close>

definition after_colon :: "jsstring \<Rightarrow> jsstring" where
  "after_colon s = join_with 58 (tl (split_on 58 s))"

definition rollout_step :: "EvalTrace \<Rightarrow> (jsstring, 'z) EvaluableFlag_scheme \<Rightarrow> 'm why_step" where
  "rollout_step t flag =
     (let rolloutReached = (enabled flag \<and> \<not> t_targeted t);
          (status, detail) =
            (if \<not> rolloutReached then
               (Skipped, [if \<not> enabled flag then Txt (js ''Not reached '' @ mdash @ js '' the flag is disabled.'')
                          else Txt (js ''Not reached '' @ mdash @ js '' targeting already decided it (ON).'')])
             else if t_reason t = RolloutFull then (Pass, [Txt (js ''Rollout is 100% '' @ mdash @ js '' everyone is in.'')])
             else if t_reason t = RolloutZero then
               (Fail, [Txt (js ''Rollout is 0% '' @ mdash @ js '' no one is in (via the percentage).'')])
             else
               (if t_on t then Pass else Fail,
                [el ''span''
                  [Txt (js ''bucket '' @ (case t_bucket t of Some b \<Rightarrow> js_num b | None \<Rightarrow> []) @ js '' '' @
                        (if t_on t then js ''<'' else [0x2265]) @ js '' '' @ js_num (t_percentage t) @ js ''%'')],
                 Txt (js '' '' @ mdash @ js '' ''),
                 lit (if t_on t then ''inside the rollout, so ON.'' else ''outside the rollout, so OFF.''),
                 lit '' '',
                 el ''span''
                  [lit ''The bucket is a fixed hash of '',
                   el ''span'' [Txt ([34] @ key flag @ js '':'' @ after_colon (t_hashInput t) @ [34])],
                   lit '', so it never changes for this user.'']]))
      in \<lparr>w_label = js ''Inside the rollout percentage?'', w_detail = detail, w_status = status\<rparr>)"

definition buildSteps :: "EvalTrace \<Rightarrow> (jsstring, 'z) EvaluableFlag_scheme \<Rightarrow> 'm why_step list" where
  "buildSteps t flag =
     [\<lparr>w_label = js ''Is the flag enabled?'',
       w_detail = [if enabled flag
                   then Txt (js ''Yes '' @ mdash @ js '' the flag is on globally, so evaluation continues.'')
                   else Txt (js ''No '' @ mdash @ js '' the flag is off for everyone (a global kill switch). Nothing else matters.'')],
       w_status = (if enabled flag then Pass else Fail)\<rparr>,
      \<lparr>w_label = js ''Is this user targeted?'',
       w_detail = [if \<not> enabled flag then Txt (js ''Not reached '' @ mdash @ js '' the flag is disabled.'')
                   else if t_targeted t
                   then Txt (js ''Yes '' @ mdash @ js '' this user is on the always-on allow-list, which overrides the percentage.'')
                   else Txt (js ''No '' @ mdash @ js '' not on the allow-list, so it comes down to the rollout dice roll.'')],
       w_status = (if \<not> enabled flag then Skipped else if t_targeted t then Pass else Fail)\<rparr>,
      rollout_step t flag]"

fun REASON_COPY :: "EvalReason \<Rightarrow> jsstring" where
  "REASON_COPY NoFlag = js ''This flag doesn't exist, so it's off.''"
| "REASON_COPY Disabled = js ''The flag is disabled globally.''"
| "REASON_COPY Targeted = js ''This user is targeted '' @ mdash @ js '' an always-on override.''"
| "REASON_COPY RolloutZero = js ''Rollout is 0% and the user isn't targeted.''"
| "REASON_COPY RolloutFull = js ''Rollout is 100% '' @ mdash @ js '' everyone's in.''"
| "REASON_COPY InRollout = js ''The user's fixed bucket falls inside the rollout.''"
| "REASON_COPY OutOfRollout = js ''The user's fixed bucket falls outside the rollout.''"

datatype why_msg = SetUser jsstring

fun status_label :: "StepStatus \<Rightarrow> jsstring" where
  "status_label Pass = js ''yes''"
| "status_label Fail = js ''no''"
| "status_label Skipped = js ''not reached''"

definition WhyExplainer :: "(jsstring, 'z) EvaluableFlag_scheme \<Rightarrow> jsstring \<Rightarrow> why_msg view" where
  "WhyExplainer flag user =
     (let trimmed = trim user; trace = evaluate (Some flag) trimmed; steps = buildSteps trace flag
      in ela ''section'' [(''aria-label'', js ''Why is this user on or off?'')]
          [el ''h3'' [lit ''Why is a user '', Term (js ''local-evaluation'') (Some (js ''ON or OFF'')), lit ''?''],
           el ''p'' [lit ''Enter any user id and watch the three checks the SDK runs, in order.''],
           el ''div''
            [ela ''Label'' [(''for'', js ''why-user'')] [lit ''User id''],
             Elem ''Input'' [(''id'', js ''why-user''), (''value'', user), (''placeholder'', js ''user-42'')]
               [(''change'', \<lambda>e. SetUser (str_arg e))] []],
           ela ''div'' [(''aria-live'', js ''polite'')]
            [el ''span'' [Txt (if trimmed \<noteq> [] then trimmed else mdash)],
             el ''span'' [lit (if t_on trace then ''ON'' else ''OFF'')],
             el ''span'' [Txt (REASON_COPY (t_reason trace))]],
           el ''ol''
            (map (\<lambda>st. el ''li''
                [ela ''span'' [(''aria-label'', status_label (w_status st))] [],
                 el ''div'' [el ''p'' [Txt (w_label st)], el ''p'' (w_detail st)]]) steps)])"

section \<open>RolloutVisualizer\<close>

definition GRID :: nat where
  "GRID = 10"

definition SAMPLE :: "jsstring list" where
  "SAMPLE = map (\<lambda>i. js ''user-'' @ js_num (int i + 1)) [0..<GRID * GRID]"

datatype CellState = OnRollout | OnTargeted | Off

record cell =
  c_user :: jsstring
  c_bucket :: int

record explorer =
  pct :: int
  prevFlagPct :: int
  selected :: "jsstring option"
  focusIdx :: nat

definition cells :: "jsstring \<Rightarrow> cell list" where
  "cells flagKey =
     sort_key (\<lambda>c. (c_bucket c, c_user c))
       (map (\<lambda>user. \<lparr>c_user = user, c_bucket = rolloutBucket flagKey user\<rparr>) SAMPLE)"

definition explorer_init :: "(jsstring, 'z) EvaluableFlag_scheme \<Rightarrow> explorer" where
  "explorer_init flag =
     \<lparr>pct = rollout_percentage flag, prevFlagPct = rollout_percentage flag, selected = None, focusIdx = 0\<rparr>"

text \<open>The state adjustment at the start of a render: follow the flag's own percentage.\<close>

definition explorer_render :: "(jsstring, 'z) EvaluableFlag_scheme \<Rightarrow> explorer \<Rightarrow> explorer" where
  "explorer_render flag s =
     (if rollout_percentage flag \<noteq> prevFlagPct s
      then s\<lparr>prevFlagPct := rollout_percentage flag, pct := rollout_percentage flag\<rparr> else s)"

definition explored :: "(jsstring, 'z) EvaluableFlag_scheme \<Rightarrow> explorer \<Rightarrow> (jsstring, 'z) EvaluableFlag_scheme" where
  "explored flag s = flag\<lparr>rollout_percentage := pct s\<rparr>"

definition stateOf :: "(jsstring, 'z) EvaluableFlag_scheme \<Rightarrow> explorer \<Rightarrow> jsstring \<Rightarrow> CellState" where
  "stateOf flag s user =
     (let t = evaluate (Some (explored flag s)) user
      in if \<not> t_on t then Off else if t_reason t = Targeted then OnTargeted else OnRollout)"

definition onCount :: "(jsstring, 'z) EvaluableFlag_scheme \<Rightarrow> explorer \<Rightarrow> nat" where
  "onCount flag s = length (filter (\<lambda>c. stateOf flag s (c_user c) \<noteq> Off) (cells (key flag)))"

definition onGridKeyDown :: "nat \<Rightarrow> jsstring \<Rightarrow> explorer \<Rightarrow> explorer" where
  "onGridKeyDown n k s =
     (if k = js ''ArrowRight'' then s\<lparr>focusIdx := min (focusIdx s + 1) (n - 1)\<rparr>
      else if k = js ''ArrowLeft'' then s\<lparr>focusIdx := focusIdx s - 1\<rparr>
      else if k = js ''ArrowDown'' then s\<lparr>focusIdx := min (focusIdx s + GRID) (n - 1)\<rparr>
      else if k = js ''ArrowUp'' then s\<lparr>focusIdx := focusIdx s - GRID\<rparr>
      else if k = js ''Home'' then s\<lparr>focusIdx := 0\<rparr>
      else if k = js ''End'' then s\<lparr>focusIdx := n - 1\<rparr>
      else s)"

datatype explorer_msg =
    Focus nat
  | Select "jsstring option"
  | SetPct int
  | GridKey jsstring

fun explorer_update :: "explorer_msg \<Rightarrow> explorer \<Rightarrow> explorer" where
  "explorer_update (Focus i) s = s\<lparr>focusIdx := i\<rparr>"
| "explorer_update (Select u) s = s\<lparr>selected := u\<rparr>"
| "explorer_update (SetPct p) s = s\<lparr>pct := p\<rparr>"
| "explorer_update (GridKey k) s = onGridKeyDown (GRID * GRID) k s"

definition Legend :: "jsstring \<Rightarrow> 'm view" where
  "Legend label = el ''span'' [Txt label]"

definition SelectedRoll :: "(jsstring, 'z) EvaluableFlag_scheme \<Rightarrow> jsstring \<Rightarrow> int \<Rightarrow> 'm view" where
  "SelectedRoll flag user bucket =
     (let t = evaluate (Some flag) user
      in el ''div''
          [el ''p'' [Txt (js ''fnv1a32('' @ [34] @ t_hashInput t @ [34] @ js '') % 100'')],
           el ''p''
            [lit ''= '', el ''span'' [Txt (js_num bucket)],
             if t_reason t = Targeted
             then el ''span''
                   [Txt (js ''  '' @ [0x2192] @ js '' but ''), el ''span'' [Txt user], Txt (js '' is targeted '' @ [0x2192] @ js '' ''),
                    el ''span'' [lit ''ON'']]
             else el ''span''
                   [Txt (js ''  '' @ [0x2192] @ js '' '' @ js_num bucket @ js '' < '' @ js_num (rollout_percentage flag) @ js ''? ''),
                    if t_on t then el ''span'' [Txt (js ''yes '' @ [0x2192] @ js '' ON'')] else el ''span'' [Txt (js ''no '' @ [0x2192] @ js '' OFF'')]]]])"

fun state_name :: "CellState \<Rightarrow> jsstring" where
  "state_name OnRollout = js ''on-rollout''"
| "state_name OnTargeted = js ''on-targeted''"
| "state_name Off = js ''off''"

definition grid_button ::
  "(jsstring, 'z) EvaluableFlag_scheme \<Rightarrow> jsstring option \<Rightarrow> explorer \<Rightarrow> nat \<Rightarrow> cell \<Rightarrow> explorer_msg view" where
  "grid_button flag highlightUser s i c =
     (let st = stateOf flag s (c_user c); isSel = (selected s = Some (c_user c));
          isHighlight = (highlightUser = Some (c_user c))
      in Elem ''button''
          [(''type'', js ''button''), (''data-state'', state_name st),
           (''tabIndex'', js_num (if i = focusIdx s then 0 else - 1)),
           (''aria-pressed'', js_bool isSel),
           (''aria-label'', c_user c @ js '': bucket '' @ js_num (c_bucket c) @ js '', '' @
              js (if st = Off then ''off'' else ''on'') @ (if st = OnTargeted then js '' (targeted)'' else []) @
              (if isHighlight then js '', current user'' else [])),
           (''title'', c_user c @ js '' '' @ middot @ js '' bucket '' @ js_num (c_bucket c))]
          [(''focus'', msg (Focus i)), (''click'', msg (Select (if isSel then None else Some (c_user c))))] [])"

definition RolloutVisualizer ::
  "bool \<Rightarrow> (jsstring, 'z) EvaluableFlag_scheme \<Rightarrow> jsstring option \<Rightarrow> explorer \<Rightarrow> explorer_msg view" where
  "RolloutVisualizer explain flag highlightUser s =
     (let cs = cells (key flag); actualPct = rollout_percentage flag; dirty = (pct s \<noteq> actualPct)
      in ela ''section'' [(''aria-label'', js ''Rollout visualizer'')]
          ([el ''div''
             [el ''h3'' [lit ''Who gets it at '', el ''span'' [Txt (js_num (pct s)), lit ''%''], lit ''?''],
              el ''p'' [Txt (js_num (int (onCount flag s)) @ js '' of '' @ js_num (int (length cs)) @
                             js '' sample users on'')]]] @
           GuideCallout explain None
            [Txt (js ''Each square is a user. Drag the slider '' @ mdash @ js '' squares flip on or off ''),
             el ''em'' [lit ''in place''], lit '', never reshuffling, because every user has one fixed '',
             Term (js ''hash-bucket'') (Some (js ''dice roll'')), lit ''. That's '',
             Term (js ''determinism'') (Some (js ''determinism'')),
             lit '': the same person always lands on the same side. Click any square to see its roll.''] @
           [Elem ''div''
             [(''role'', js ''group''),
              (''aria-label'', js_num (int (length cs)) @ js '' sample users, '' @ js_num (int (onCount flag s)) @
                 js '' currently on at '' @ js_num (pct s) @
                 js '' percent. Use arrow keys to move between users, Enter to inspect.'')]
             [(''keydown'', \<lambda>e. GridKey (str_arg e))]
             (map (\<lambda>(i, c). grid_button flag highlightUser s i c) (enumerate 0 cs)),
            el ''div''
             ([Legend (js ''On (in rollout)''), Legend (js ''On (targeted '' @ mdash @ js '' overrides %)''), Legend (js ''Off'')] @
              (case highlightUser of
                 Some u \<Rightarrow> shown (u \<noteq> []) [Legend (js ''Current user ('' @ u @ js '')'')] | None \<Rightarrow> [])),
            el ''div''
             [el ''div''
               [Elem ''Slider''
                  [(''value'', js_num (pct s)), (''min'', js_num 0), (''max'', js_num 100), (''step'', js_num 1),
                   (''aria-label'', js ''Explore rollout percentage'')]
                  [(''valueChange'', \<lambda>e. SetPct (num_arg e))] [],
                el ''span'' [Txt (js_num (pct s)), lit ''%'']],
              el ''div''
               ([el ''span''
                  [Txt (js ''Exploring hypothetically '' @ mdash @ js '' this doesn't change the flag. ''),
                   el ''span'' [lit ''Actual rollout: ''], el ''span'' [Txt (js_num actualPct), lit ''%'']]] @
                shown dirty
                 [Elem ''button'' [(''type'', js ''button'')] [(''click'', msg (SetPct actualPct))]
                   [lit ''Reset to actual'']])]] @
           (case find (\<lambda>c. selected s = Some (c_user c)) cs of
              Some c \<Rightarrow> [SelectedRoll (explored flag s) (c_user c) (c_bucket c)]
            | None \<Rightarrow> [])))"

section \<open>The three steps agree with the verdict\<close>

lemma rollout_step_status:
  "w_status (rollout_step (evaluate (Some f) u) f) =
     (if \<not> enabled f \<or> u \<in> set (targeted_users f) then Skipped
      else if t_on (evaluate (Some f) u) then Pass else Fail)"
  by (auto simp: rollout_step_def Let_def evaluate_reason evaluate_on_reason split: prod.split if_splits)

lemma buildSteps_statuses:
  "map w_status (buildSteps (evaluate (Some f) u) f) =
     (if \<not> enabled f then [Fail, Skipped, Skipped]
      else if u \<in> set (targeted_users f) then [Pass, Pass, Skipped]
      else if t_on (evaluate (Some f) u) then [Pass, Fail, Pass]
      else [Pass, Fail, Fail])"
  by (simp add: buildSteps_def rollout_step_status)

lemma after_colon_hashInput:
  assumes "58 \<notin> set (key f)"
  shows "after_colon (t_hashInput (evaluate (Some f) u)) = u"
proof -
  have "js '':'' = [58]" by (simp add: js_def)
  then have "split_on 58 (t_hashInput (evaluate (Some f) u)) = key f # split_on 58 u"
    using split_on_append [OF assms, of u] by simp
  then show ?thesis by (simp add: after_colon_def)
qed

section \<open>The grid\<close>

lemma length_cells [simp]: "length (cells k) = 100"
  by (simp add: cells_def SAMPLE_def GRID_def)

lemma cells_bucket: "c \<in> set (cells k) \<Longrightarrow> c_bucket c = rolloutBucket k (c_user c)"
  by (auto simp: cells_def)

lemma cells_sorted: "sorted (map c_bucket (cells k))"
proof -
  have "sorted (map (\<lambda>c. (c_bucket c, c_user c)) (cells k))" by (simp add: cells_def)
  then show ?thesis by (auto simp: sorted_wrt_map elim!: sorted_wrt_mono_rel [rotated])
qed

lemma stateOf_on:
  "stateOf f s u \<noteq> Off \<longleftrightarrow> enabled f \<and> (u \<in> set (targeted_users f) \<or> rolloutBucket (key f) u < pct s)"
  using evaluate_on [of "explored f s" u] by (simp add: stateOf_def Let_def explored_def)

lemma filter_below_takeWhile:
  fixes g :: "'a \<Rightarrow> int"
  assumes "sorted (map g xs)"
  shows "filter (\<lambda>x. g x < p) xs = takeWhile (\<lambda>x. g x < p) xs"
  using assms
proof (induction xs)
  case (Cons a xs)
  show ?case
  proof (cases "g a < p")
    case False
    then have "filter (\<lambda>x. g x < p) xs = []" using Cons.prems by (force simp: filter_empty_conv)
    with False show ?thesis by simp
  qed (use Cons in simp)
qed simp

lemma grid_meter:
  assumes "enabled f" "\<forall>c \<in> set (cells (key f)). c_user c \<notin> set (targeted_users f)"
  shows "filter (\<lambda>c. stateOf f s (c_user c) \<noteq> Off) (cells (key f)) =
         takeWhile (\<lambda>c. c_bucket c < pct s) (cells (key f))"
proof -
  have "filter (\<lambda>c. stateOf f s (c_user c) \<noteq> Off) (cells (key f)) =
      filter (\<lambda>c. c_bucket c < pct s) (cells (key f))"
    using assms cells_bucket by (intro filter_cong) (auto simp: stateOf_on)
  then show ?thesis by (simp add: filter_below_takeWhile cells_sorted)
qed

lemma onGridKeyDown_range: "0 < n \<Longrightarrow> focusIdx s < n \<Longrightarrow> focusIdx (onGridKeyDown n k s) < n"
  by (auto simp: onGridKeyDown_def)

section \<open>Properties of the explanations\<close>

text \<open>The three steps shown are the evaluator's decision: what is marked as passed, failed or
  not reached follows from the flag and the user exactly as the evaluation order says, and
  the last step reached is a pass iff the verdict is on.\<close>

theorem steps_match_verdict:
  "map w_status (buildSteps (evaluate (Some f) u) f) =
     (if \<not> enabled f then [Fail, Skipped, Skipped]
      else if u \<in> set (targeted_users f) then [Pass, Pass, Skipped]
      else if t_on (evaluate (Some f) u) then [Pass, Fail, Pass]
      else [Pass, Fail, Fail]) \<and>
   (t_on (evaluate (Some f) u) \<longleftrightarrow>
      last (filter (\<lambda>st. st \<noteq> Skipped) (map w_status (buildSteps (evaluate (Some f) u) f))) = Pass)"
  using evaluate_on [of f u] by (auto simp: buildSteps_statuses)

text \<open>With no sample user targeted, the squares that are on are exactly an initial part of the
  grid, those whose bucket is below the explored percentage: the grid fills like a meter
  and no user ever moves, because the order does not depend on the percentage.\<close>

theorem grid_fills_like_a_meter:
  assumes "enabled f" "\<forall>c \<in> set (cells (key f)). c_user c \<notin> set (targeted_users f)"
  shows "filter (\<lambda>c. stateOf f s (c_user c) \<noteq> Off) (cells (key f)) =
           takeWhile (\<lambda>c. c_bucket c < pct s) (cells (key f)) \<and>
         onCount f s = length (takeWhile (\<lambda>c. c_bucket c < pct s) (cells (key f)))"
  using grid_meter [OF assms] by (simp add: onCount_def)

theorem grid_fills_like_a_meter_witness:
  "onCount \<lparr>key = js ''beta'', enabled = True, rollout_percentage = 50, targeted_users = []\<rparr>
     \<lparr>pct = 25, prevFlagPct = 50, selected = None, focusIdx = 0\<rparr> =
   length (takeWhile (\<lambda>c. c_bucket c < 25) (cells (js ''beta'')))"
  using grid_fills_like_a_meter [of "\<lparr>key = js ''beta'', enabled = True, rollout_percentage = 50, targeted_users = []\<rparr>"
      "\<lparr>pct = 25, prevFlagPct = 50, selected = None, focusIdx = 0\<rparr>"] by simp

text \<open>For a disabled flag the panel under the grid contradicts itself: for a user whose bucket is
  below the percentage it asks whether the bucket is below the percentage and answers no.\<close>

theorem selected_roll_of_disabled_flag:
  assumes "\<not> enabled f" "b = rolloutBucket (key f) u" "b < rollout_percentage f"
  shows "last (texts (SelectedRoll f u b)) = js ''no '' @ [0x2192] @ js '' OFF'' \<and>
         js_num b @ js '' < '' @ js_num (rollout_percentage f) @ js ''? '' =
           drop 4 (last (butlast (texts (SelectedRoll f u b))))"
  using assms(1) by (simp add: SelectedRoll_def Let_def evaluate_reason evaluate_on)

theorem selected_roll_of_disabled_flag_witness:
  "last (texts (SelectedRoll \<lparr>key = js ''checkout'', enabled = False, rollout_percentage = 60, targeted_users = []\<rparr>
     (js ''user-2'') 17)) = js ''no '' @ [0x2192] @ js '' OFF''"
proof -
  have "rolloutBucket (js ''checkout'') (js ''user-2'') = 17" by code_simp
  then show ?thesis by (intro selected_roll_of_disabled_flag [THEN conjunct1]) simp_all
qed

end
