(* ===== verification/Pages.thy ===== *)
theory Pages
  imports Hooks FlagViews Teaching
begin

text \<open>
  The two pages that write flags, \<^verbatim>\<open>app/flags/new\<close> and \<^verbatim>\<open>app/flags/[id]\<close>: what a submit or a
  delete sends, what happens when the mutation succeeds or fails, and what the pages show.
  Calls to the query cache, the router and the toaster are effects, recorded in order.
  React keeps a component's state while it stays mounted; a reloaded flag therefore
  reaches the form as a new property but not as new field values.
\<close>

section \<open>Between the page's strings and the text it sends\<close>

definition js_flag :: "utext Flag \<Rightarrow> jsstring Flag" where
  "js_flag f =
     \<lparr>key = utf16 (key f), enabled = enabled f, rollout_percentage = rollout_percentage f,
      targeted_users = map utf16 (targeted_users f), flag_id = utf16 (flag_id f),
      description = utf16 (description f), version = version f,
      created_at = created_at f, updated_at = updated_at f\<rparr>"

definition text_update :: "jsstring UpdateFlagInput \<Rightarrow> utext UpdateFlagInput" where
  "text_update u =
     \<lparr>u_description = map_option utf16_decode (u_description u), u_enabled = u_enabled u,
      u_rollout_percentage = u_rollout_percentage u,
      u_targeted_users = map_option (map utf16_decode) (u_targeted_users u)\<rparr>"

definition text_create :: "jsstring CreateFlagInput \<Rightarrow> utext CreateFlagInput" where
  "text_create c =
     \<lparr>c_key = utf16_decode (c_key c), c_description = utf16_decode (c_description c),
      c_enabled = c_enabled c, c_rollout_percentage = c_rollout_percentage c,
      c_targeted_users = map utf16_decode (c_targeted_users c)\<rparr>"

datatype page_effect =
    Mutate flag_mutation
  | ToastSuccess string
  | ToastError string
  | Invalidate "jsstring list" bool
  | CancelQueries "jsstring list"
  | RemoveQueries "jsstring list"
  | RouterPush string

section \<open>The page of one flag\<close>

record detail =
  dp_id :: utext
  dp_deleting :: bool
  dp_loading :: bool
  dp_flag :: "utext Flag option"
  dp_form :: "form option"
  dp_why :: jsstring
  dp_explorer :: "explorer option"
  dp_meta :: details
  dp_drawer :: bool
  dp_effects :: "page_effect list"

definition detail_init :: "utext \<Rightarrow> bool \<Rightarrow> detail" where
  "detail_init i explain =
     \<lparr>dp_id = i, dp_deleting = False, dp_loading = True, dp_flag = None, dp_form = None,
      dp_why = js ''user-1'', dp_explorer = None, dp_meta = AdvancedDetails_init explain,
      dp_drawer = False, dp_effects = []\<rparr>"

definition emit :: "page_effect list \<Rightarrow> detail \<Rightarrow> detail" where
  "emit es s = s\<lparr>dp_effects := dp_effects s @ es\<rparr>"

text \<open>The query of the page, and what its result does to the mounted components.\<close>

definition detail_query :: "detail \<Rightarrow> flag_query" where
  "detail_query s = useFlag (dp_id s) (\<not> dp_deleting s)"

definition detail_loaded :: "utext Flag \<Rightarrow> detail \<Rightarrow> detail" where
  "detail_loaded f s =
     s\<lparr>dp_loading := False, dp_flag := Some f,
       dp_form := Some (case dp_form s of
           None \<Rightarrow> FlagForm_init (Some (js_flag f))
         | Some fm \<Rightarrow> fm\<lparr>f_flag := Some (js_flag f)\<rparr>),
       dp_explorer := Some (case dp_explorer s of
           None \<Rightarrow> explorer_init (js_flag f)
         | Some x \<Rightarrow> explorer_render (js_flag f) x)\<rparr>"

definition detail_load_failed :: "detail \<Rightarrow> detail" where
  "detail_load_failed s = s\<lparr>dp_loading := False\<rparr>"

definition detail_handleSubmit :: "jsstring UpdateFlagInput \<Rightarrow> detail \<Rightarrow> detail" where
  "detail_handleSubmit u s =
     emit [Mutate (useUpdateFlag (dp_id s) (text_update u) (map_option version (dp_flag s)))] s"

definition update_succeeded :: "detail \<Rightarrow> detail" where
  "update_succeeded s = emit [Invalidate [js ''flags''] False, ToastSuccess ''Flag updated''] s"

definition update_failed :: "string \<Rightarrow> detail \<Rightarrow> detail" where
  "update_failed m s = emit [ToastError m, Invalidate [js ''flags'', utf16 (dp_id s)] False] s"

definition detail_handleDelete :: "detail \<Rightarrow> detail" where
  "detail_handleDelete s =
     emit [CancelQueries [js ''flags'', utf16 (dp_id s)], Mutate (useDeleteFlag (dp_id s))]
       (s\<lparr>dp_deleting := True\<rparr>)"

definition delete_succeeded :: "detail \<Rightarrow> detail" where
  "delete_succeeded s =
     emit [Invalidate [js ''flags''] True, ToastSuccess ''Flag deleted'',
           RemoveQueries [js ''flags'', utf16 (dp_id s)], RouterPush ''/flags''] s"

definition delete_failed :: "string \<Rightarrow> detail \<Rightarrow> detail" where
  "delete_failed m s = emit [ToastError m] (s\<lparr>dp_deleting := False\<rparr>)"

datatype detail_msg =
    FormMsg form_msg
  | DeleteClicked
  | WhyMsg why_msg
  | ExplorerMsg explorer_msg
  | MetaClicked
  | DrawerMsg drawer_msg

definition detail_form_msg :: "form_msg \<Rightarrow> detail \<Rightarrow> detail" where
  "detail_form_msg m s =
     (case dp_form s of
        None \<Rightarrow> s
      | Some fm \<Rightarrow>
          (let (out, fm') = FlagForm_update m fm; s' = s\<lparr>dp_form := Some fm'\<rparr>
           in case out of Some (SubmitUpdate u) \<Rightarrow> detail_handleSubmit u s' | _ \<Rightarrow> s'))"

fun detail_update :: "detail_msg \<Rightarrow> detail \<Rightarrow> detail" where
  "detail_update (FormMsg m) s = detail_form_msg m s"
| "detail_update DeleteClicked s = detail_handleDelete s"
| "detail_update (WhyMsg (SetUser u)) s = s\<lparr>dp_why := u\<rparr>"
| "detail_update (ExplorerMsg m) s = s\<lparr>dp_explorer := map_option (explorer_update m) (dp_explorer s)\<rparr>"
| "detail_update MetaClicked s = s\<lparr>dp_meta := AdvancedDetails_click (dp_meta s)\<rparr>"
| "detail_update (DrawerMsg m) s = s\<lparr>dp_drawer := drawer_update m (dp_drawer s)\<rparr>"

definition detail_header :: "jsstring Flag \<Rightarrow> bool \<Rightarrow> detail_msg view \<Rightarrow> detail_msg view" where
  "detail_header f deletePending drawer =
     el ''div''
      [ela ''Link'' [(''href'', js ''/flags'')] [lit ''Flags''],
       el ''div''
        [el ''div''
          ([el ''div''
             [el ''h2'' [Txt (key f)], StatusBadge (enabled f),
              el ''span'' [Txt (js ''v'' @ js_num (version f))]]] @
           shown (description f \<noteq> []) [el ''p'' [Txt (description f)]]),
         el ''div''
          [drawer,
           el ''Dialog''
            [el ''DialogTrigger'' [lit ''Delete''],
             el ''DialogContent''
              [el ''DialogTitle'' [lit ''Delete flag?''],
               el ''DialogDescription''
                [lit ''This permanently deletes '', el ''span'' [Txt (key f)],
                 lit ''. This action cannot be undone.''],
               Elem ''Button'' [(''disabled'', js_bool deletePending)] [(''click'', msg DeleteClicked)]
                [Txt (if deletePending then js ''Deleting'' @ ellipsis else js ''Delete flag'')]]]]]]"

definition FlagDetailPage ::
  "(int \<Rightarrow> jsstring) \<Rightarrow> bool \<Rightarrow> bool \<Rightarrow> bool \<Rightarrow> jsstring FlagEvent list query_state \<Rightarrow> detail \<Rightarrow> detail_msg view" where
  "FlagDetailPage toLocaleString explain updatePending deletePending history s =
     (if dp_loading s then el ''div'' [el ''div'' [], el ''div'' [], el ''div'' []]
      else case (dp_flag s, dp_form s, dp_explorer s) of
             (Some ft, Some fm, Some x) \<Rightarrow>
               (let f = js_flag ft
                in el ''div''
                    ([detail_header f deletePending
                        (map_view DrawerMsg (FlagHistoryDrawer toLocaleString history (dp_drawer s)))] @
                     GuideCallout explain None
                      [lit ''Editing here changes the flag for real. Every save bumps the '',
                       Term (js ''config-version'') (Some (js ''version'')),
                       Txt (js '' and propagates to all servers within milliseconds. Your save carries the version you loaded, so if someone else edited it first you'll get a heads-up instead of silently overwriting them '' @ mdash @ js '' that's ''),
                       Term (js ''optimistic-concurrency'') (Some (js ''optimistic concurrency'')), lit ''.''] @
                     [el ''div'' [map_view FormMsg (FlagForm updatePending fm)],
                      map_view ExplorerMsg (RolloutVisualizer explain f None x),
                      map_view WhyMsg (WhyExplainer f (dp_why s)),
                      AdvancedDetails (js ''Metadata'') MetaClicked
                       [el ''span'' [lit ''Version '', el ''span'' [Txt (js ''v'' @ js_num (version f))]],
                        el ''span'' [lit ''Created '', el ''span'' [Txt (toLocaleString (created_at f))]],
                        el ''span'' [lit ''Updated '', el ''span'' [Txt (toLocaleString (updated_at f))]]]
                       (dp_meta s)]))
           | _ \<Rightarrow> el ''div'' [el ''p'' [lit ''Flag not found''],
                    ela ''Link'' [(''href'', js ''/flags'')] [lit ''Back to flags'']])"

section \<open>The page for a new flag\<close>

record new_page =
  np_form :: form
  np_effects :: "page_effect list"

definition new_init :: new_page where
  "new_init = \<lparr>np_form = FlagForm_init None, np_effects = []\<rparr>"

definition new_form_msg :: "form_msg \<Rightarrow> new_page \<Rightarrow> new_page" where
  "new_form_msg m s =
     (let (out, fm) = FlagForm_update m (np_form s); s' = s\<lparr>np_form := fm\<rparr>
      in case out of
           Some (SubmitCreate c) \<Rightarrow> s'\<lparr>np_effects := np_effects s' @ [Mutate (useCreateFlag (text_create c))]\<rparr>
         | _ \<Rightarrow> s')"

definition create_succeeded :: "new_page \<Rightarrow> new_page" where
  "create_succeeded s =
     s\<lparr>np_effects := np_effects s @ [Invalidate [js ''flags''] False, ToastSuccess ''Flag created'', RouterPush ''/flags'']\<rparr>"

definition create_failed :: "string \<Rightarrow> new_page \<Rightarrow> new_page" where
  "create_failed m s = s\<lparr>np_effects := np_effects s @ [ToastError m]\<rparr>"

definition NewFlagPage :: "bool \<Rightarrow> bool \<Rightarrow> new_page \<Rightarrow> form_msg view" where
  "NewFlagPage explain isPending s =
     el ''div''
      ([el ''div''
         [ela ''Link'' [(''href'', js ''/flags'')] [lit ''Flags''],
          el ''h2'' [lit ''New flag''],
          el ''p'' [Txt (js ''Give it a key, then choose who sees it '' @ mdash @ js '' everyone, a percentage, or a named list.'')]]] @
       GuideCallout explain None
        [lit ''The '', el ''span'' [lit ''key''],
         lit '' is how your code asks for this flag, so keep it stable. Start it off or at a small '',
         Term (js ''rollout'') (Some (js ''rollout'')),
         lit '' %, then dial it up as you gain confidence. You can always add specific '',
         Term (js ''targeting'') (Some (js ''targeted users'')), lit '' who get it right away.''] @
       [el ''div'' [FlagForm isPending (np_form s)]])"

section \<open>What a save carries\<close>

lemma detail_submit_effect:
  assumes "dp_form s = Some fm" "f_flag fm = Some g" "0 \<le> f_rollout fm" "f_rollout fm \<le> 100"
  shows "dp_effects (detail_update (FormMsg Submit) s) = dp_effects s @
     [Mutate (useUpdateFlag (dp_id s)
        \<lparr>u_description = Some (utf16_decode (f_description fm)), u_enabled = Some (f_enabled fm),
         u_rollout_percentage = Some (f_rollout fm),
         u_targeted_users = Some (map utf16_decode (ui_users (f_users fm)))\<rparr>
        (map_option version (dp_flag s)))]"
  using assms
  by (simp add: detail_form_msg_def handleSubmit_def validate_def key_error_def rollout_error_def
      isEdit_def detail_handleSubmit_def emit_def text_update_def Let_def)

lemma detail_loaded_keeps_fields:
  assumes "dp_form s = Some fm"
  shows "dp_form (detail_loaded f s) = Some (fm\<lparr>f_flag := Some (js_flag f)\<rparr>)"
  using assms by (simp add: detail_loaded_def)

section \<open>Properties of the pages\<close>



text \<open>When the page reloads the flag after a conflict (or for any other reason), the next save
  sends the field values from before the reload under the version from after it, so the
  version check no longer protects what the other writer changed.\<close>

theorem save_after_reload_sends_old_fields:
  assumes "dp_form s = Some fm" "f_flag fm = Some g" "0 \<le> f_rollout fm" "f_rollout fm \<le> 100"
  shows "dp_effects (detail_update (FormMsg Submit) (detail_loaded f' s)) = dp_effects s @
     [Mutate (useUpdateFlag (dp_id s)
        \<lparr>u_description = Some (utf16_decode (f_description fm)), u_enabled = Some (f_enabled fm),
         u_rollout_percentage = Some (f_rollout fm),
         u_targeted_users = Some (map utf16_decode (ui_users (f_users fm)))\<rparr>
        (Some (version f')))]"
proof -
  let ?s = "detail_loaded f' s"
  have "dp_id ?s = dp_id s" "dp_flag ?s = Some f'" "dp_effects ?s = dp_effects s"
    by (simp_all add: detail_loaded_def)
  then show ?thesis
    using detail_submit_effect [OF detail_loaded_keeps_fields [OF assms(1), of f']] assms(3,4) by simp
qed

text \<open>Somebody switches the flag off while the page shows it on; after the reload, saving the
  untouched form asks for on again, with the version that is now current.\<close>

theorem save_after_reload_sends_old_fields_witness:
  "(let f' = flag_on\<lparr>enabled := False, version := 3, updated_at := 6\<rparr>;
        s = detail_loaded f' (detail_loaded flag_on (detail_init (ascii ''1'') True))
    in \<exists>u. dp_effects (detail_update (FormMsg Submit) s) = [Mutate (useUpdateFlag (ascii ''1'') u (Some 3))] \<and>
         u_enabled u = Some True)"
proof -
  let ?f' = "flag_on\<lparr>enabled := False, version := 3, updated_at := 6\<rparr>"
  let ?s = "detail_loaded flag_on (detail_init (ascii ''1'') True)"
  let ?fm = "FlagForm_init (Some (js_flag flag_on))"
  have form: "dp_form ?s = Some ?fm" "f_flag ?fm = Some (js_flag flag_on)" "0 \<le> f_rollout ?fm" "f_rollout ?fm \<le> 100"
    by (simp_all add: detail_loaded_def detail_init_def FlagForm_init_def js_flag_def flag_on_def)
  let ?u = "\<lparr>u_description = Some (utf16_decode (f_description ?fm)), u_enabled = Some (f_enabled ?fm),
         u_rollout_percentage = Some (f_rollout ?fm),
         u_targeted_users = Some (map utf16_decode (ui_users (f_users ?fm)))\<rparr>"
  have s: "dp_id ?s = ascii ''1''" "dp_effects ?s = []"
    by (simp_all add: detail_loaded_def detail_init_def)
  have "version ?f' = 3" by simp
  then have "dp_effects (detail_update (FormMsg Submit) (detail_loaded ?f' ?s)) =
      [Mutate (useUpdateFlag (ascii ''1'') ?u (Some 3))]"
    by (metis save_after_reload_sends_old_fields [OF form, of ?f'] s append_Nil)
  moreover have "u_enabled ?u = Some True" by (simp add: FlagForm_init_def js_flag_def flag_on_def)
  ultimately show ?thesis unfolding Let_def by blast
qed

end
