(* ===== verification/Streams.thy ===== *)
theory Streams
  imports FlagViews Json
begin

text \<open>
  The two histories on the page: \<^verbatim>\<open>SseConsole\<close>, the readable window on the live stream, and
  \<^verbatim>\<open>VersionTimeline\<close>, the durable log drawn as ticks. Both derive every line from what they
  were given; the lemmas bound the console's buffer, fix its order, and say when the
  coarse time labels change.
\<close>

section \<open>Coarse times\<close>

text \<open>\<^verbatim>\<open>Math.max(0, Math.round((now - at) / 1000))\<close> on millisecond stamps.\<close>

definition seconds_ago :: "int \<Rightarrow> int \<Rightarrow> int" where
  "seconds_ago now at = max 0 ((now - at + 500) div 1000)"

definition RelTime_console :: "int \<Rightarrow> int \<Rightarrow> jsstring" where
  "RelTime_console now at =
     (let s = seconds_ago now at
      in if s < 2 then js ''now''
         else if s < 60 then js_num s @ js ''s''
         else js_num (s div 60) @ js ''m'')"

definition RelTime_timeline :: "int \<Rightarrow> int \<Rightarrow> jsstring" where
  "RelTime_timeline now at =
     (let s = seconds_ago now at
      in if s < 60 then js_num s @ js ''s ago''
         else if s < 3600 then js_num (s div 60) @ js ''m ago''
         else if s < 86400 then js_num (s div 3600) @ js ''h ago''
         else js_num (s div 86400) @ js ''d ago'')"

section \<open>SseConsole\<close>

datatype EntryKind = KOn | KOff | KDeleted

record Entry =
  e_seq :: nat
  e_version :: int
  e_key :: jsstring
  e_kind :: EntryKind
  e_rollout :: "int option"
  e_at :: int

datatype Conn = ConnConnecting | ConnLive | ConnDown

record console =
  entries :: "Entry list"
  conn :: Conn
  paused :: bool
  seqRef :: nat
  compact :: bool

definition MAX_FULL :: nat where "MAX_FULL = 60"
definition MAX_COMPACT :: nat where "MAX_COMPACT = 6"

definition max_entries :: "console \<Rightarrow> nat" where
  "max_entries s = (if compact s then MAX_COMPACT else MAX_FULL)"

definition console_init :: "bool \<Rightarrow> console" where
  "console_init c = \<lparr>entries = [], conn = ConnConnecting, paused = False, seqRef = 0, compact = c\<rparr>"

definition onopen :: "console \<Rightarrow> console" where
  "onopen s = s\<lparr>conn := ConnLive\<rparr>"

definition onerror :: "console \<Rightarrow> console" where
  "onerror s = s\<lparr>conn := (if conn s = ConnLive then ConnDown else ConnConnecting)\<rparr>"

text \<open>
  One frame: its \<^verbatim>\<open>lastEventId\<close>, its data (\<open>None\<close> when it is not JSON) and the arrival time.
\<close>

definition frame_key :: "json option \<Rightarrow> jsstring" where
  "frame_key d =
     (case d of
        Some j \<Rightarrow> (case field ''key'' j of Some (JStr k) \<Rightarrow> if k \<noteq> [] then k else js ''(unknown)''
                   | _ \<Rightarrow> js ''(unknown)'')
      | None \<Rightarrow> js ''(unknown)'')"

definition push :: "bool \<Rightarrow> jsstring \<Rightarrow> json option \<Rightarrow> int \<Rightarrow> console \<Rightarrow> console" where
  "push deleted lastEventId data now s =
     (if paused s then s
      else let v = parseInt lastEventId;
               en = (case data of Some j \<Rightarrow> truthy (field ''enabled'' j) | None \<Rightarrow> False);
               rollout = (case data of Some j \<Rightarrow> as_number (field ''rollout_percentage'' j) | None \<Rightarrow> None);
               kind = (if deleted then KDeleted else if en then KOn else KOff);
               entry = \<lparr>e_seq = seqRef s, e_version = (case v of Some n \<Rightarrow> n | None \<Rightarrow> 0),
                        e_key = frame_key data, e_kind = kind,
                        e_rollout = (if kind = KOn then rollout else None), e_at = now\<rparr>
           in s\<lparr>seqRef := Suc (seqRef s), entries := take (max_entries s) (entry # entries s)\<rparr>)"

datatype console_msg = TogglePause | Clear

fun console_update :: "console_msg \<Rightarrow> console \<Rightarrow> console" where
  "console_update TogglePause s = s\<lparr>paused := (\<not> paused s)\<rparr>"
| "console_update Clear s = s\<lparr>entries := []\<rparr>"

definition Verdict :: "Entry \<Rightarrow> 'm view" where
  "Verdict e =
     (if e_kind e = KDeleted then el ''span'' [lit ''deleted'']
      else el ''span''
            ([el ''span'' [lit (if e_kind e = KOn then ''ON'' else ''OFF'')]] @
             (case e_rollout e of
                Some r \<Rightarrow> shown (e_kind e = KOn \<and> r < 100) [el ''span'' [Txt (js_num r @ js ''%'')]]
              | None \<Rightarrow> [])))"

definition EntryRow :: "(int \<Rightarrow> jsstring) \<Rightarrow> int \<Rightarrow> Entry \<Rightarrow> 'm view" where
  "EntryRow toLocaleTimeString now e =
     el ''li''
      [el ''span'' [Txt (js ''v'' @ js_num (e_version e))],
       el ''span'' [Txt (e_key e)],
       Verdict e,
       ela ''span'' [(''title'', toLocaleTimeString (e_at e))] [Txt (RelTime_console now (e_at e))]]"

fun ConnPill :: "Conn \<Rightarrow> 'm view" where
  "ConnPill ConnLive = ela ''span'' [(''aria-live'', js ''polite'')] [lit ''live'']"
| "ConnPill ConnDown = ela ''span'' [(''aria-live'', js ''polite'')] [lit ''down'']"
| "ConnPill ConnConnecting = ela ''span'' [(''aria-live'', js ''polite'')] [lit ''connecting'']"

definition IconBtn :: "string \<Rightarrow> 'm \<Rightarrow> 'm view" where
  "IconBtn label m =
     Elem ''button'' [(''type'', js ''button''), (''aria-label'', js label), (''title'', js label)]
       [(''click'', msg m)] []"

definition SseConsole :: "(int \<Rightarrow> jsstring) \<Rightarrow> bool \<Rightarrow> int \<Rightarrow> console \<Rightarrow> console_msg view" where
  "SseConsole toLocaleTimeString explain now s =
     ela ''section'' [(''aria-label'', js ''Live event stream'')]
      ([el ''div''
         ([el ''div'' [el ''h3'' [lit ''Live event stream''], ConnPill (conn s)]] @
          shown (\<not> compact s)
           [el ''div''
             [IconBtn (if paused s then ''Resume feed'' else ''Pause feed'') TogglePause,
              IconBtn ''Clear feed'' Clear]])] @
       (if \<not> compact s
        then GuideCallout explain None
              [lit ''This is the actual '', Term (js ''sse'') (Some (js ''server-sent event'')),
               Txt (js '' stream '' @ mdash @ js '' the same push the SDK listens to. Change a flag anywhere and its new ''),
               Term (js ''config-version'') (Some (js ''version'')),
               lit '' shows up here within milliseconds, in plain words. Try flipping the hero above.'']
        else []) @
       [ela ''ol''
         [(''role'', js ''log''), (''aria-label'', js ''Live flag events, newest first''), (''aria-live'', js ''polite'')]
         (if entries s = []
          then [el ''li''
                 [Txt (if conn s = ConnDown
                       then js ''Stream disconnected '' @ mdash @ js '' is the stack running on :8080?''
                       else js ''Waiting for the next change'' @ ellipsis @ js '' flip a flag to see it appear here live.'')]]
          else map (EntryRow toLocaleTimeString now) (entries s))])"

section \<open>VersionTimeline\<close>

fun kind_label :: "event_kind \<Rightarrow> jsstring" where
  "kind_label EvCreated = js ''created''"
| "kind_label EvUpdated = js ''updated''"
| "kind_label EvDeleted = js ''deleted''"

definition timeline_events :: "'s FlagEvent list option \<Rightarrow> 's FlagEvent list" where
  "timeline_events data = sort_key ev_version (case data of Some es \<Rightarrow> es | None \<Rightarrow> [])"

datatype timeline_msg = SelectVersion int

definition timeline_update :: "timeline_msg \<Rightarrow> int option \<Rightarrow> int option" where
  "timeline_update m sel = (case m of SelectVersion v \<Rightarrow> if sel = Some v then None else Some v)"

definition TimelineTick :: "int \<Rightarrow> int option \<Rightarrow> jsstring FlagEvent \<Rightarrow> timeline_msg view" where
  "TimelineTick now sel e =
     el ''div''
      [ela ''div'' [(''aria-hidden'', js ''true'')] [el ''span'' [], el ''span'' [], el ''span'' []],
       Elem ''button''
        [(''type'', js ''button''), (''aria-pressed'', js_bool (sel = Some (ev_version e))),
         (''aria-label'', js ''Version '' @ js_num (ev_version e) @ js '': '' @ flag_key e @ js '' '' @
            kind_label (event_type e))]
        [(''click'', msg (SelectVersion (ev_version e)))]
        [el ''span'' [Txt (js ''v'' @ js_num (ev_version e))],
         el ''span'' [Txt (flag_key e)],
         el ''span'' [Txt (kind_label (event_type e))],
         el ''span'' [Txt (RelTime_timeline now (ev_created_at e))]]]"

definition Detail :: "(int \<Rightarrow> jsstring) \<Rightarrow> jsstring FlagEvent \<Rightarrow> 'm view" where
  "Detail toLocaleString e =
     el ''div''
      [el ''p''
        [el ''span'' [Txt (js ''v'' @ js_num (ev_version e))], Txt (js '' '' @ middot @ js '' ''),
         el ''span'' [Txt (flag_key e)], Txt (js '' '' @ kind_label (event_type e))],
       el ''p''
        (case payload_flag (payload e) of
           None \<Rightarrow> [lit ''The flag was removed. Clients drop it and evaluate it as off.'']
         | Some f \<Rightarrow>
             [lit ''Now '', el ''span'' [lit (if enabled f then ''ON'' else ''OFF'')],
              lit '' at '', el ''span'' [Txt (js_num (rollout_percentage f) @ js ''%'')], lit '' rollout''] @
             shown (targeted_users f \<noteq> [])
              [Txt (js '' '' @ middot @ js '' '' @ js_num (int (length (targeted_users f))) @ js '' targeted user'' @
                    (if length (targeted_users f) > 1 then js ''s'' else []))] @
             [lit ''.'']),
       el ''p'' [Txt (toLocaleString (ev_created_at e))]]"

definition VersionTimeline ::
  "(int \<Rightarrow> jsstring) \<Rightarrow> int \<Rightarrow> jsstring FlagEvent list query_state \<Rightarrow> int option \<Rightarrow> timeline_msg view" where
  "VersionTimeline toLocaleString now q sel =
     (let evs = timeline_events (q_data q)
      in ela ''section'' [(''aria-label'', js ''Version timeline'')]
          ([el ''div''
             [el ''h3'' [lit ''Version timeline''],
              el ''p'' [lit ''The durable '', Term (js ''event-log'') (Some (js ''event log'')), lit '' as '',
                        Term (js ''versioning'') (Some (js ''save points'')), Txt (js '' '' @ mdash @ js '' newest on the right.'')]]] @
           [if q_isLoading q \<and> evs = [] then el ''div'' []
            else if evs = []
            then el ''p'' [lit ''No changes recorded yet. Flip a flag and it'll appear here as a new version.'']
            else ela ''div''
                  [(''role'', js ''group''),
                   (''aria-label'', js ''Version history, oldest to newest. Scroll horizontally.'')]
                  [el ''div'' (map (TimelineTick now sel) evs)]] @
           (case find (\<lambda>e. Some (ev_version e) = sel) evs of
              Some e \<Rightarrow> [Detail toLocaleString e] | None \<Rightarrow> [])))"

section \<open>The console keeps the newest frames, in order\<close>

definition console_ok :: "console \<Rightarrow> bool" where
  "console_ok s \<longleftrightarrow> length (entries s) \<le> max_entries s \<and>
     sorted_wrt (>) (map e_seq (entries s)) \<and> list_all (\<lambda>e. e_seq e < seqRef s) (entries s)"

lemma console_ok_init: "console_ok (console_init c)"
  by (simp add: console_ok_def console_init_def)

lemma max_entries_pos: "0 < max_entries s"
  by (simp add: max_entries_def MAX_FULL_def MAX_COMPACT_def)

lemma console_ok_push: "console_ok s \<Longrightarrow> console_ok (push d i data now s)"
proof -
  assume ok: "console_ok s"
  have "sorted_wrt (>) (map e_seq (take n (e # entries s)))"
    if "e_seq e = seqRef s" for n e
    using ok that by (cases n) (auto simp: console_ok_def list_all_iff sorted_wrt_map sorted_wrt_take
        dest!: in_set_takeD)
  moreover have "list_all (\<lambda>x. e_seq x < Suc (seqRef s)) (take n (e # entries s))"
    if "e_seq e = seqRef s" for n e
    using ok that by (cases n) (auto simp: console_ok_def list_all_iff less_Suc_eq dest!: in_set_takeD)
  ultimately show ?thesis
    using ok by (auto simp: push_def console_ok_def max_entries_def Let_def)
qed

lemma console_ok_update: "console_ok s \<Longrightarrow> console_ok (console_update m s)"
  by (cases m) (simp_all add: console_ok_def max_entries_def)

lemma timeline_sorted: "sorted (map ev_version (timeline_events data))"
  by (simp add: timeline_events_def)

section \<open>Properties of the histories\<close>

fun console_step :: "console \<Rightarrow> (bool \<times> jsstring \<times> json option \<times> int) + console_msg \<Rightarrow> console" where
  "console_step s (Inl (d, i, data, now)) = push d i data now s"
| "console_step s (Inr m) = console_update m s"

lemma compact_kept [simp]:
  "compact (push d i data now s) = compact s" "compact (console_update m s) = compact s"
  by (cases m; simp add: push_def Let_def)+

text \<open>However many frames arrive, malformed ones included, and whatever is clicked, the console
  never holds more entries than its maximum, and they are in order of arrival, newest first.\<close>

theorem console_bounded_newest_first:
  "length (entries (foldl console_step (console_init c) ins)) \<le> (if c then 6 else 60) \<and>
   sorted_wrt (>) (map e_seq (entries (foldl console_step (console_init c) ins)))"
proof -
  have "console_ok (foldl console_step s ins) \<and> compact (foldl console_step s ins) = compact s" if "console_ok s" for s
    using that
  proof (induction ins arbitrary: s)
    case (Cons x ins)
    have "console_ok (console_step s x) \<and> compact (console_step s x) = compact s"
      using Cons.prems console_ok_push console_ok_update compact_kept
      by (cases "(s, x)" rule: console_step.cases) auto
    then show ?case using Cons.IH by simp
  qed simp
  then show ?thesis
    using console_ok_init [of c]
    by (fastforce simp: console_ok_def max_entries_def MAX_FULL_def MAX_COMPACT_def console_init_def)
qed

text \<open>While paused the console records nothing, not even a sequence number, so resuming
  continues the numbering without a hole.\<close>

theorem console_paused:
  "paused s \<Longrightarrow> push d i data now s = s"
  by (simp add: push_def)

theorem console_paused_witness:
  "push False (js ''7'') None 0 (console_update TogglePause (console_init True)) =
   console_update TogglePause (console_init True)"
  by (rule console_paused) (simp add: console_init_def)

end
