(* ===== verification/FlipRun.thy ===== *)
theory FlipRun
  imports Hooks Explain
begin

text \<open>
  What the two "flip it" panels share (\<^verbatim>\<open>components/overview/PropagationHero.tsx\<close> and
  \<^verbatim>\<open>components/cluster/ClusterHero.tsx\<close>): the demo flag and its creation, the version a
  flip waits for, and the recording of when each node was first seen at it. Clock readings
  are whole milliseconds.
\<close>

definition HERO_KEY :: utext where
  "HERO_KEY = ascii ''hero-demo''"

definition PROPAGATION_TIMEOUT_MS :: int where
  "PROPAGATION_TIMEOUT_MS = 8000"

datatype hero_effect = HeroCall request | Refresh "jsstring list"

datatype phase = Idle | Running | Converged | Settled

definition hero_flag :: "utext FlagsResponse option \<Rightarrow> utext Flag option" where
  "hero_flag data = (case data of None \<Rightarrow> None | Some d \<Rightarrow> find (\<lambda>f. key f = HERO_KEY) (flags d))"

definition seed_request :: "utext \<Rightarrow> request" where
  "seed_request descr = api_createFlag
     \<lparr>c_key = HERO_KEY, c_description = descr, c_enabled = False, c_rollout_percentage = 100, c_targeted_users = []\<rparr>"

definition data_version :: "utext FlagsResponse option \<Rightarrow> int" where
  "data_version data = (case data of Some d \<Rightarrow> config_version d | None \<Rightarrow> 0)"

text \<open>\<^verbatim>\<open>xs[i]\<close>: nothing when the index is out of range.\<close>

definition nth_opt :: "'a list \<Rightarrow> nat \<Rightarrow> 'a option" where
  "nth_opt xs i = (if i < length xs then Some (xs ! i) else None)"

text \<open>\<^verbatim>\<open>a ?? b\<close> on a value that is a number or \<^verbatim>\<open>null\<close>.\<close>

definition or_else :: "'a option \<Rightarrow> 'a option \<Rightarrow> 'a option" where
  "or_else a b = (case a of Some v \<Rightarrow> Some v | None \<Rightarrow> b)"

definition preMax :: "int \<Rightarrow> NodeState list \<Rightarrow> int" where
  "preMax v pre =
     foldl max v (map (\<lambda>n. if n_ok n then (case n_configVersion n of Some w \<Rightarrow> w | None \<Rightarrow> 0) else 0) pre)"

definition reached :: "int \<Rightarrow> NodeState \<Rightarrow> bool" where
  "reached tgt s \<longleftrightarrow> n_ok s \<and> (case n_configVersion s of Some v \<Rightarrow> v \<ge> tgt | None \<Rightarrow> False)"

text \<open>One turn of the inner loop; the second component is the clock at that turn.\<close>

definition note_arrival ::
  "int \<Rightarrow> int \<Rightarrow> (jsstring, int) jsmap \<Rightarrow> NodeState \<times> int \<Rightarrow> (jsstring, int) jsmap" where
  "note_arrival tgt t0 arrival p =
     (let (s, now) = p
      in if reached tgt s \<and> map_get arrival (n_url s) = None
         then map_set (n_url s) (max 0 (now - t0)) arrival else arrival)"

definition note_arrivals ::
  "int \<Rightarrow> int \<Rightarrow> (NodeState \<times> int) list \<Rightarrow> (jsstring, int) jsmap \<Rightarrow> (jsstring, int) jsmap" where
  "note_arrivals tgt t0 polled arrival = foldl (note_arrival tgt t0) arrival polled"

definition allArrived :: "int \<Rightarrow> NodeState list \<Rightarrow> bool" where
  "allArrived tgt states = list_all (reached tgt) states"

text \<open>
  The local variables of \<^verbatim>\<open>runFlip\<close> in its polling loop, and what it waits for: the versions
  before the flip, the toggle, a poll, or the pause between polls.
\<close>

record flip =
  fl_tgt :: int
  fl_t0 :: int
  fl_deadline :: int
  fl_arrival :: "(jsstring, int) jsmap"

datatype waiting = Ready | WaitPre utext int | WaitToggle int int | WaitPoll flip | WaitSleep flip

text \<open>How a value of JSON shows as text. React refuses an object; the nodes send strings.\<close>

fun react_text :: "json \<Rightarrow> jsstring" where
  "react_text (JStr s) = s"
| "react_text (JNum n) = js_num n"
| "react_text (JArr xs) = concat (map react_text xs)"
| "react_text _ = []"

fun wait_target :: "waiting \<Rightarrow> int option" where
  "wait_target (WaitToggle tgt t0) = Some tgt"
| "wait_target (WaitPoll fl) = Some (fl_tgt fl)"
| "wait_target (WaitSleep fl) = Some (fl_tgt fl)"
| "wait_target _ = None"

section \<open>What the recording keeps\<close>

lemma map_enumerate: "(\<And>i x. g (f (i, x)) = h x) \<Longrightarrow> map g (map f (enumerate k xs)) = map h xs"
  by (induction xs arbitrary: k) auto

lemma set_map_enumerate:
  assumes "y \<in> set (map f (enumerate k xs))"
  obtains i x where "x \<in> set xs" "y = f (i, x)"
proof -
  obtain p where "p \<in> set (enumerate k xs)" "y = f p" using assms by auto
  moreover have "snd ` set (enumerate k xs) = set xs" by (metis map_snd_enumerate set_map)
  ultimately show thesis using that by (metis imageI prod.collapse)
qed

lemma note_arrival_get:
  "map_get (note_arrival tgt t0 arr (s, now)) u =
     (if u = n_url s \<and> reached tgt s \<and> map_get arr u = None then Some (max 0 (now - t0)) else map_get arr u)"
  by (auto simp: note_arrival_def map_get_set)

lemma note_arrivals_keeps:
  "map_get arr u = Some t \<Longrightarrow> map_get (note_arrivals tgt t0 polled arr) u = Some t"
  by (induction polled arbitrary: arr) (auto simp: note_arrivals_def note_arrival_get)

lemma note_arrivals_reached:
  "(s, now) \<in> set polled \<Longrightarrow> reached tgt s \<Longrightarrow> \<exists>t. map_get (note_arrivals tgt t0 polled arr) (n_url s) = Some t"
proof (induction polled arbitrary: arr)
  case (Cons p ps)
  show ?case
  proof (cases "p = (s, now)")
    case True
    obtain t where "map_get (note_arrival tgt t0 arr (s, now)) (n_url s) = Some t"
      using Cons.prems(2) by (cases "map_get arr (n_url s)") (auto simp: note_arrival_get)
    then show ?thesis using note_arrivals_keeps [of _ "n_url s" t tgt t0 ps] True by (auto simp: note_arrivals_def)
  qed (use Cons in \<open>simp add: note_arrivals_def\<close>)
qed simp

lemma all_noted:
  assumes "allArrived tgt (map fst polled)" "s \<in> set (map fst polled)"
  shows "map_get (note_arrivals tgt t0 polled arr) (n_url s) \<noteq> None"
proof -
  obtain now where "(s, now) \<in> set polled" using assms(2) by auto
  moreover have "reached tgt s" using assms unfolding allArrived_def list_all_iff by blast
  ultimately show ?thesis using note_arrivals_reached [of s now polled tgt t0 arr] by simp
qed

lemma note_arrivals_nonneg:
  assumes "\<forall>u t. map_get arr u = Some t \<longrightarrow> 0 \<le> t"
  shows "\<forall>u t. map_get (note_arrivals tgt t0 polled arr) u = Some t \<longrightarrow> 0 \<le> t"
  using assms
proof (induction polled arbitrary: arr)
  case (Cons p ps)
  have "\<forall>u t. map_get (note_arrival tgt t0 arr p) u = Some t \<longrightarrow> 0 \<le> t"
    using Cons.prems by (cases p) (auto simp: note_arrival_get)
  then show ?case using Cons.IH by (simp add: note_arrivals_def)
qed (simp add: note_arrivals_def)

lemma foldl_max_ge: "(v :: int) \<le> foldl max v xs"
proof (induction xs arbitrary: v)
  case (Cons x xs)
  show ?case using Cons [of "max v x"] by simp
qed simp

lemma preMax_ge: "v \<le> preMax v pre"
  by (simp add: preMax_def foldl_max_ge)

lemma preMax_same:
  assumes "v \<le> w" "pre \<noteq> []" "\<forall>n \<in> set pre. n_ok n \<and> n_configVersion n = Some w"
  shows "preMax v pre = w"
proof -
  have *: "foldl max w (map (\<lambda>n. if n_ok n then (case n_configVersion n of Some w \<Rightarrow> w | None \<Rightarrow> 0) else 0) ns) = w"
    if "\<forall>n \<in> set ns. n_ok n \<and> n_configVersion n = Some w" for ns :: "NodeState list"
    using that by (induction ns) simp_all
  obtain n ns where "pre = n # ns" using assms(2) by (cases pre) auto
  then show ?thesis using assms(1,3) * [of ns] by (simp add: preMax_def max_absorb2)
qed

end
