(* ===== verification/PropagationHero.thy ===== *)
theory PropagationHero
  imports FlipRun
begin

text \<open>
  The panel of the overview page that flips the demo flag and follows the change through
  Postgres and Redis to every node and to this browser. Beside the stages of \<^verbatim>\<open>runFlip\<close>,
  two things happen at any time: a frame of the panel's own stream, and the timer
  that paces the Redis stage.
\<close>

datatype StageState = StageIdle | StageActive | StageDone

text \<open>The stages in the order a change passes through them.\<close>

fun stage_rank :: "StageState \<Rightarrow> nat" where
  "stage_rank StageIdle = 0"
| "stage_rank StageActive = 1"
| "stage_rank StageDone = 2"

lemma stage_rank_inj: "stage_rank a = stage_rank b \<Longrightarrow> a = b"
  by (cases a; cases b) simp_all

instantiation StageState :: linorder
begin

definition less_eq_StageState :: "StageState \<Rightarrow> StageState \<Rightarrow> bool" where
  "less_eq_StageState a b \<longleftrightarrow> stage_rank a \<le> stage_rank b"

definition less_StageState :: "StageState \<Rightarrow> StageState \<Rightarrow> bool" where
  "less_StageState a b \<longleftrightarrow> stage_rank a < stage_rank b"

instance
  by standard (auto simp: less_eq_StageState_def less_StageState_def intro: stage_rank_inj)

end

lemma StageDone_greatest [simp]: "a \<le> StageDone"
  by (cases a) (simp_all add: less_eq_StageState_def)

record NodeLite =
  nl_url :: jsstring
  nl_id :: json
  nl_arrived :: bool
  nl_ms :: "int option"

definition blank_nodes :: "jsstring list \<Rightarrow> NodeLite list" where
  "blank_nodes urls = map (\<lambda>url. \<lparr>nl_url = url, nl_id = JStr url, nl_arrived = False, nl_ms = None\<rparr>) urls"

record prop_hero =
  ph_data :: "utext FlagsResponse option"
  ph_seeding :: bool
  ph_phase :: phase
  ph_admin :: StageState
  ph_postgres :: StageState
  ph_redis :: StageState
  ph_browser :: StageState
  ph_nodes :: "NodeLite list"
  ph_browserMs :: "int option"
  ph_targetVersion :: "int option"
  ph_narration :: jsstring
  ph_error :: "jsstring option"
  ph_running :: bool
  ph_t0Ref :: int
  ph_targetRef :: int
  ph_observedRef :: "int option"
  ph_redisTimer :: bool
  ph_wait :: waiting
  ph_effects :: "hero_effect list"

definition prop_idle_text :: jsstring where
  "prop_idle_text = js ''Press Flip it to change hero-demo and watch the change travel across the cluster.''"

definition PropagationHero_init :: "jsstring list \<Rightarrow> prop_hero" where
  "PropagationHero_init urls =
     \<lparr>ph_data = None, ph_seeding = False, ph_phase = Idle, ph_admin = StageIdle, ph_postgres = StageIdle,
      ph_redis = StageIdle, ph_browser = StageIdle, ph_nodes = blank_nodes urls, ph_browserMs = None,
      ph_targetVersion = None, ph_narration = prop_idle_text, ph_error = None, ph_running = False,
      ph_t0Ref = 0, ph_targetRef = 0, ph_observedRef = None, ph_redisTimer = False, ph_wait = Ready,
      ph_effects = []\<rparr>"

fun named_node :: "NodeState list \<Rightarrow> nat \<times> NodeLite \<Rightarrow> NodeLite" where
  "named_node states (i, n) = n\<lparr>nl_id := nullish (map_option n_nodeId (nth_opt states i)) (nl_id n)\<rparr>"

definition prop_mounted :: "NodeState list \<Rightarrow> prop_hero \<Rightarrow> prop_hero" where
  "prop_mounted states s = s\<lparr>ph_nodes := map (named_node states) (enumerate 0 (ph_nodes s))\<rparr>"

definition prop_data :: "utext FlagsResponse \<Rightarrow> prop_hero \<Rightarrow> prop_hero" where
  "prop_data d s0 =
     (let s = s0\<lparr>ph_data := Some d\<rparr>
      in if hero_flag (ph_data s) \<noteq> None \<or> ph_seeding s then s
         else s\<lparr>ph_seeding := True,
                ph_effects := ph_effects s @ [HeroCall (seed_request
                  (ascii ''Demo flag for the Overview propagation hero '' @ [0x2014] @ ascii '' safe to flip, not a real feature.''))]\<rparr>)"

definition prop_seeded :: "prop_hero \<Rightarrow> prop_hero" where
  "prop_seeded s = s\<lparr>ph_effects := ph_effects s @ [Refresh [js ''flags'']]\<rparr>"

definition prop_seed_failed :: "prop_hero \<Rightarrow> prop_hero" where
  "prop_seed_failed s = s\<lparr>ph_seeding := False\<rparr>"

section \<open>The panel's own stream\<close>

text \<open>The \<^verbatim>\<open>key\<close> of a frame's data: nothing when the data is not JSON, or is \<^verbatim>\<open>null\<close>.\<close>

definition update_key :: "json option \<Rightarrow> json option" where
  "update_key data = (case data of Some j \<Rightarrow> field ''key'' j | None \<Rightarrow> None)"

definition onUpdate_frame :: "jsstring \<Rightarrow> json option \<Rightarrow> int \<Rightarrow> prop_hero \<Rightarrow> prop_hero" where
  "onUpdate_frame lastEventId data now s =
     (if \<not> ph_running s \<or> ph_observedRef s \<noteq> None then s
      else let k = update_key data
           in if truthy k \<and> k \<noteq> Some (JStr (js ''hero-demo'')) then s
              else case parseInt lastEventId of
                     None \<Rightarrow> s
                   | Some v \<Rightarrow>
                       if v < ph_targetRef s then s
                       else s\<lparr>ph_observedRef := Some now,
                              ph_browserMs := Some (max 0 (now - ph_t0Ref s)),
                              ph_browser := StageDone,
                              ph_narration := js ''Pushed here live over SSE '' @ mdash @ js '' the change reached this browser.''\<rparr>)"

section \<open>runFlip\<close>

definition prop_click :: "jsstring list \<Rightarrow> prop_hero \<Rightarrow> prop_hero" where
  "prop_click urls s =
     (case hero_flag (ph_data s) of
        None \<Rightarrow> s
      | Some f \<Rightarrow>
          if ph_running s then s
          else s\<lparr>ph_running := True, ph_error := None, ph_phase := Running, ph_admin := StageActive,
                 ph_postgres := StageIdle, ph_redis := StageIdle, ph_browser := StageIdle,
                 ph_browserMs := None, ph_nodes := blank_nodes urls, ph_observedRef := None,
                 ph_narration := js ''Sending your change to the control plane'' @ ellipsis,
                 ph_wait := WaitPre (flag_id f) (data_version (ph_data s))\<rparr>)"

definition prop_pre :: "NodeState list \<Rightarrow> int \<Rightarrow> prop_hero \<Rightarrow> prop_hero" where
  "prop_pre pre t0 s =
     (case ph_wait s of
        WaitPre i v \<Rightarrow>
          (let tgt = preMax v pre + 1
           in s\<lparr>ph_targetRef := tgt, ph_targetVersion := Some tgt, ph_t0Ref := t0,
                ph_effects := ph_effects s @ [HeroCall (api_toggleFlag i)], ph_wait := WaitToggle tgt t0\<rparr>)
      | _ \<Rightarrow> s)"

definition prop_end :: "jsstring list \<Rightarrow> bool \<Rightarrow> flip \<Rightarrow> prop_hero \<Rightarrow> prop_hero" where
  "prop_end urls conv fl s0 =
     (let s = s0\<lparr>ph_redisTimer := False, ph_redis := StageDone,
                 ph_effects := ph_effects s0 @ [Refresh [js ''flags''], Refresh [js ''cluster'']],
                 ph_running := False, ph_wait := Ready\<rparr>
      in if conv
         then s\<lparr>ph_phase := Converged,
                ph_browserMs := (case ph_observedRef s of
                    Some o' \<Rightarrow> Some (max 0 (o' - fl_t0 fl)) | None \<Rightarrow> ph_browserMs s),
                ph_narration := js ''Converged '' @ mdash @ js '' every server agrees on the new version, and you saw it live.''\<rparr>
         else s\<lparr>ph_phase := Settled,
                ph_narration := js ''Still propagating '' @ mdash @ js '' '' @ js_num (int (length (fl_arrival fl))) @ js '' of '' @
                  js_num (int (length urls)) @
                  js '' servers caught up so far. A lagging node catches up on its own.''\<rparr>)"

definition prop_loop :: "jsstring list \<Rightarrow> int \<Rightarrow> flip \<Rightarrow> prop_hero \<Rightarrow> prop_hero" where
  "prop_loop urls now fl s =
     (if now < fl_deadline fl then s\<lparr>ph_wait := WaitPoll fl\<rparr> else prop_end urls False fl s)"

definition prop_toggled :: "jsstring list \<Rightarrow> int \<Rightarrow> int \<Rightarrow> prop_hero \<Rightarrow> prop_hero" where
  "prop_toggled urls now now' s =
     (case ph_wait s of
        WaitToggle tgt t0 \<Rightarrow>
          prop_loop urls now'
            \<lparr>fl_tgt = tgt, fl_t0 = t0, fl_deadline = now + PROPAGATION_TIMEOUT_MS, fl_arrival = []\<rparr>
            (s\<lparr>ph_effects := ph_effects s @ [Refresh [js ''flags''], Refresh [js ''cluster'']],
               ph_admin := StageDone, ph_postgres := StageDone,
               ph_narration := js ''Saved first '' @ mdash @ js '' written to Postgres, the source of truth. It's now v'' @
                 js_num tgt @ js ''.'',
               ph_redisTimer := True\<rparr>)
      | _ \<Rightarrow> s)"

definition prop_failed :: "prop_hero \<Rightarrow> prop_hero" where
  "prop_failed s =
     (case ph_wait s of
        WaitToggle tgt t0 \<Rightarrow>
          s\<lparr>ph_error := Some (js ''Couldn't reach the control plane. Is the stack running on :8080?''),
            ph_phase := Idle, ph_admin := StageIdle, ph_narration := prop_idle_text,
            ph_running := False, ph_wait := Ready\<rparr>
      | _ \<Rightarrow> s)"

definition prop_redis :: "prop_hero \<Rightarrow> prop_hero" where
  "prop_redis s =
     (if ph_redisTimer s
      then s\<lparr>ph_redisTimer := False, ph_redis := StageDone,
             ph_narration := js ''Announced '' @ mdash @ js '' Redis fans the change out to every server.''\<rparr>
      else s)"

definition polled_node :: "(jsstring, int) jsmap \<Rightarrow> NodeState \<Rightarrow> NodeLite" where
  "polled_node arrival s = \<lparr>nl_url = n_url s, nl_id = n_nodeId s,
     nl_arrived = (map_get arrival (n_url s) \<noteq> None), nl_ms = map_get arrival (n_url s)\<rparr>"

definition prop_poll :: "jsstring list \<Rightarrow> (NodeState \<times> int) list \<Rightarrow> prop_hero \<Rightarrow> prop_hero" where
  "prop_poll urls polled s0 =
     (case ph_wait s0 of
        WaitPoll fl0 \<Rightarrow>
          (let states = map fst polled;
               fl = fl0\<lparr>fl_arrival := note_arrivals (fl_tgt fl0) (fl_t0 fl0) polled (fl_arrival fl0)\<rparr>;
               count = length (fl_arrival fl);
               s = s0\<lparr>ph_nodes := map (polled_node (fl_arrival fl)) states,
                      ph_narration := (if count > 0 \<and> count < length urls
                        then js ''Servers catching up '' @ mdash @ js '' '' @ js_num (int count) @ js '' of '' @
                          js_num (int (length urls)) @ js '' now on v'' @ js_num (fl_tgt fl) @ js ''.''
                        else ph_narration s0)\<rparr>
           in if allArrived (fl_tgt fl) states \<and> ph_observedRef s \<noteq> None then prop_end urls True fl s
              else s\<lparr>ph_wait := WaitSleep fl\<rparr>)
      | _ \<Rightarrow> s0)"

definition prop_woken :: "jsstring list \<Rightarrow> int \<Rightarrow> prop_hero \<Rightarrow> prop_hero" where
  "prop_woken urls now s =
     (case ph_wait s of WaitSleep fl \<Rightarrow> prop_loop urls now fl s | _ \<Rightarrow> s)"

datatype prop_input =
    PhMounted "NodeState list"
  | PhData "utext FlagsResponse"
  | PhSeeded
  | PhSeedFailed
  | PhFlipIt
  | PhPreStates "NodeState list" int
  | PhToggled int int
  | PhToggleFailed
  | PhPolled "(NodeState \<times> int) list"
  | PhWoken int
  | PhFrame jsstring "json option" int
  | PhRedisTimer

fun prop_step :: "jsstring list \<Rightarrow> prop_hero \<Rightarrow> prop_input \<Rightarrow> prop_hero" where
  "prop_step urls s (PhMounted states) = prop_mounted states s"
| "prop_step urls s (PhData d) = prop_data d s"
| "prop_step urls s PhSeeded = prop_seeded s"
| "prop_step urls s PhSeedFailed = prop_seed_failed s"
| "prop_step urls s PhFlipIt = prop_click urls s"
| "prop_step urls s (PhPreStates pre t0) = prop_pre pre t0 s"
| "prop_step urls s (PhToggled now now') = prop_toggled urls now now' s"
| "prop_step urls s PhToggleFailed = prop_failed s"
| "prop_step urls s (PhPolled polled) = prop_poll urls polled s"
| "prop_step urls s (PhWoken now) = prop_woken urls now s"
| "prop_step urls s (PhFrame i data now) = onUpdate_frame i data now s"
| "prop_step urls s PhRedisTimer = prop_redis s"

section \<open>What the panel shows\<close>

text \<open>Of a stage, its state and variant select colours and the icon only.\<close>

definition Stage :: "string \<Rightarrow> jsstring \<Rightarrow> StageState \<Rightarrow> 'm view" where
  "Stage label sub st = el ''div'' [el ''span'' [], el ''div'' [el ''p'' [lit label], el ''p'' [Txt sub]]]"

definition NodeChip :: "NodeLite \<Rightarrow> 'm view" where
  "NodeChip n =
     el ''div''
      ([el ''span'' [], el ''span'' [Txt (react_text (nl_id n))]] @
       (case (nl_arrived n, nl_ms n) of
          (True, Some t) \<Rightarrow> [el ''span'' [Txt (js_num t @ js '' ms'')]] | _ \<Rightarrow> []))"

definition Connector :: "bool \<Rightarrow> bool \<Rightarrow> 'm view" where
  "Connector active reducedMotion =
     el ''div'' [el ''div'' (shown (active \<and> \<not> reducedMotion) [ela ''span'' [(''aria-hidden'', js ''true'')] []])]"

definition PropagationHero :: "jsstring list \<Rightarrow> bool \<Rightarrow> prop_hero \<Rightarrow> prop_input view" where
  "PropagationHero urls reducedMotion s =
     (let running = (ph_phase s = Running);
          arrivedCount = length (filter nl_arrived (ph_nodes s));
          ended = (ph_phase s = Converged \<or> ph_phase s = Settled)
      in el ''section''
          [el ''div''
            [el ''div''
              [el ''div'' [el ''span'' [], el ''h3'' [lit ''Flip a flag, watch it travel'']],
               el ''p''
                [el ''code'' [lit ''hero-demo''],
                 Txt (js '' is a safe, throwaway flag. Flip it and follow the change from your click all the way to this browser '' @ mdash @ js '' every step and every number is real.'')]],
             el ''div''
              ([Elem ''Button'' [(''disabled'', js_bool (running \<or> hero_flag (ph_data s) = None))]
                 [(''click'', msg PhFlipIt)] [lit ''Flip it'']] @
               shown ended
                [Elem ''Button'' [(''disabled'', js_bool running)] [(''click'', msg PhFlipIt)] [lit ''Replay'']])],
           el ''div''
            ([el ''div''
               [Stage ''You'' (js ''admin change'') (ph_admin s),
                Connector (ph_admin s = StageDone) reducedMotion,
                Stage ''Postgres'' (js ''source of truth'') (ph_postgres s),
                Connector (ph_postgres s = StageDone) reducedMotion,
                Stage ''Redis'' (js ''the messenger'') (ph_redis s),
                Connector (ph_redis s = StageDone \<and> arrivedCount > 0) reducedMotion,
                el ''div''
                 [el ''p'' [Txt (js_num (int (length urls)) @ js '' backends'')],
                  el ''div'' (map NodeChip (ph_nodes s))],
                Connector (ph_browser s = StageDone) reducedMotion,
                Stage ''This browser''
                  (case ph_browserMs s of Some t \<Rightarrow> js_num t @ js '' ms'' | None \<Rightarrow> js ''pushed live'') (ph_browser s)],
              el ''div''
               ([ela ''p'' [(''aria-live'', js ''polite'')] [Txt (ph_narration s)]] @
                (case ph_targetVersion s of
                   None \<Rightarrow> []
                 | Some t \<Rightarrow>
                     shown ended
                      [ela ''div'' [(''aria-live'', js ''polite'')]
                        [if ph_phase s = Converged
                         then el ''span''
                               ([Term (js ''convergence'') (Some (js ''Converged'')), lit '' at '',
                                 el ''span'' [Txt (js ''v'' @ js_num t)]] @
                                (case ph_browserMs s of
                                   Some m \<Rightarrow> [Txt (js '' '' @ middot @ js '' ''), el ''span'' [Txt (js_num m @ js '' ms'')]]
                                 | None \<Rightarrow> []))
                         else el ''span''
                               [Txt (js_num (int arrivedCount) @ js ''/'' @ js_num (int (length urls)) @
                                     js '' on v'' @ js_num t)]]]))] @
             (case ph_error s of Some e \<Rightarrow> [ela ''p'' [(''role'', js ''alert'')] [Txt e]] | None \<Rightarrow> []))])"

section \<open>A flip announces convergence only after seeing it\<close>

inductive prop_reach :: "jsstring list \<Rightarrow> prop_hero \<Rightarrow> bool" for urls where
  prop_start: "prop_reach urls (PropagationHero_init urls)"
| prop_next: "prop_reach urls s \<Longrightarrow> prop_reach urls (prop_step urls s i)"

lemma prop_run_reach: "prop_reach urls s \<Longrightarrow> prop_reach urls (foldl (prop_step urls) s is)"
  by (induction "is" arbitrary: s) (auto intro: prop_next)

definition prop_inv :: "prop_hero \<Rightarrow> bool" where
  "prop_inv s \<longleftrightarrow>
     (ph_running s \<longleftrightarrow> ph_wait s \<noteq> Ready) \<and> (ph_running s \<longleftrightarrow> ph_phase s = Running) \<and>
     (wait_target (ph_wait s) \<noteq> None \<longrightarrow> ph_targetVersion s = wait_target (ph_wait s)) \<and>
     (ph_phase s = Converged \<longrightarrow> ph_targetVersion s \<noteq> None \<and> ph_browserMs s \<noteq> None \<and>
        (\<forall>n \<in> set (ph_nodes s). nl_arrived n \<and> nl_ms n \<noteq> None)) \<and>
     (\<forall>t. ph_browserMs s = Some t \<longrightarrow> 0 \<le> t)"

lemma prop_inv_mounted:
  assumes "prop_inv s"
  shows "prop_inv (prop_mounted states s)"
proof -
  have "\<exists>n \<in> set (ph_nodes s). nl_arrived n' = nl_arrived n \<and> nl_ms n' = nl_ms n"
    if "n' \<in> set (map (named_node states) (enumerate 0 (ph_nodes s)))" for n'
    using that by (rule set_map_enumerate) force
  then have "\<forall>n' \<in> set (map (named_node states) (enumerate 0 (ph_nodes s))). nl_arrived n' \<and> nl_ms n' \<noteq> None"
    if "ph_phase s = Converged"
    using assms that by (metis prop_inv_def)
  then show ?thesis using assms by (auto simp: prop_inv_def prop_mounted_def)
qed

lemma prop_inv_loop:
  assumes "prop_inv s" "ph_phase s = Running" "ph_targetVersion s = Some (fl_tgt fl)"
  shows "prop_inv (prop_loop urls now fl s)"
  using assms by (auto simp: prop_inv_def prop_loop_def prop_end_def Let_def)

lemma prop_inv_poll:
  assumes "prop_inv s"
  shows "prop_inv (prop_poll urls polled s)"
proof (cases "ph_wait s")
  case (WaitPoll fl)
  then show ?thesis
    using assms all_noted [of "fl_tgt fl" polled _ "fl_t0 fl" "fl_arrival fl"]
    by (auto simp: prop_inv_def prop_poll_def prop_end_def polled_node_def Let_def)
qed (use assms in \<open>simp_all add: prop_poll_def\<close>)

lemma prop_inv_frame: "prop_inv s \<Longrightarrow> prop_inv (onUpdate_frame i data now s)"
  by (auto simp: onUpdate_frame_def prop_inv_def Let_def split: option.split)

lemma prop_inv_step:
  assumes "prop_inv s"
  shows "prop_inv (prop_step urls s i)"
proof (cases i)
  case (PhData d)
  then show ?thesis using assms by (auto simp: prop_data_def prop_inv_def Let_def)
next
  case PhFlipIt
  then show ?thesis using assms by (auto simp: prop_click_def prop_inv_def split: option.split)
next
  case (PhPreStates pre t0)
  then show ?thesis using assms by (cases "ph_wait s") (auto simp: prop_pre_def prop_inv_def Let_def)
next
  case (PhToggled now now')
  show ?thesis
  proof (cases "ph_wait s")
    case (WaitToggle tgt t0)
    then show ?thesis
      using assms PhToggled by (simp add: prop_toggled_def) (intro prop_inv_loop, auto simp: prop_inv_def)
  qed (use assms PhToggled in \<open>simp_all add: prop_toggled_def\<close>)
next
  case PhToggleFailed
  then show ?thesis using assms by (cases "ph_wait s") (auto simp: prop_failed_def prop_inv_def)
next
  case (PhWoken now)
  show ?thesis
  proof (cases "ph_wait s")
    case (WaitSleep fl)
    then show ?thesis
      using assms PhWoken by (simp add: prop_woken_def) (intro prop_inv_loop, auto simp: prop_inv_def)
  qed (use assms PhWoken in \<open>simp_all add: prop_woken_def\<close>)
next
  case PhRedisTimer
  then show ?thesis using assms by (auto simp: prop_redis_def prop_inv_def)
qed (use assms in \<open>simp_all add: prop_inv_mounted prop_inv_poll prop_inv_frame prop_seeded_def prop_seed_failed_def,
    simp_all add: prop_inv_def\<close>)

lemma prop_inv_reach: "prop_reach urls s \<Longrightarrow> prop_inv s"
proof (induction rule: prop_reach.induct)
  case prop_start
  show ?case by (simp add: prop_inv_def PropagationHero_init_def)
qed (rule prop_inv_step)

section \<open>Properties of the panel\<close>

text \<open>While a flip runs, no stage of the picture goes back, whatever arrives.\<close>

lemma loop_stages:
  "ph_admin (prop_loop urls now fl s) = ph_admin s" "ph_postgres (prop_loop urls now fl s) = ph_postgres s"
  "ph_redis s \<le> ph_redis (prop_loop urls now fl s)" "ph_browser (prop_loop urls now fl s) = ph_browser s"
  by (simp_all add: prop_loop_def prop_end_def)

lemma stages_only_advance:
  assumes "ph_running s" "ph_running (prop_step urls s i)"
  defines "s' \<equiv> prop_step urls s i"
  shows "ph_admin s \<le> ph_admin s' \<and> ph_postgres s \<le> ph_postgres s' \<and> ph_redis s \<le> ph_redis s' \<and> ph_browser s \<le> ph_browser s'"
  using assms(1,2) unfolding s'_def
  by (cases i)
    (auto simp: prop_mounted_def prop_data_def prop_seeded_def prop_seed_failed_def prop_click_def prop_pre_def
      prop_toggled_def prop_failed_def prop_poll_def prop_woken_def prop_redis_def onUpdate_frame_def prop_end_def Let_def
      loop_stages order_trans [OF _ loop_stages(3)] split: option.splits waiting.splits)


text \<open>Yet the browser's part of that can be false: while a flip still waits for the versions
  before the change, the version its stream handler compares with is the one of the
  previous flip (0 before the first). A late frame of an older change is then
  taken for this one, and the flip ends as converged, seen live after 0 ms, although the
  browser received nothing of the new version.\<close>

theorem early_frame_counts_as_live:
  fixes n1 :: int and urls :: "jsstring list"
  assumes "ph_wait s = WaitPre i v" "ph_running s" "ph_observedRef s = None"
    and "ph_targetRef s \<le> w" "w \<le> preMax v pre" "now \<le> t0" "n2 < n1 + 8000"
    and "allArrived (preMax v pre + 1) (map fst polled)" "field ''key'' j = Some (JStr (js ''hero-demo''))"
  defines "s' \<equiv> foldl (prop_step urls) s
     [PhFrame (js_num w) (Some j) now, PhPreStates pre t0, PhToggled n1 n2, PhPolled polled]"
  shows "ph_phase s' = Converged \<and> ph_browserMs s' = Some 0 \<and>
         ph_targetVersion s' = Some (preMax v pre + 1) \<and> w < preMax v pre + 1"
proof -
  have "onUpdate_frame (js_num w) (Some j) now s = s\<lparr>ph_observedRef := Some now,
      ph_browserMs := Some (max 0 (now - ph_t0Ref s)), ph_browser := StageDone,
      ph_narration := ph_narration (onUpdate_frame (js_num w) (Some j) now s)\<rparr>"
    using assms(2-4,9) by (simp add: onUpdate_frame_def update_key_def Let_def)
  then obtain b t where frame: "onUpdate_frame (js_num w) (Some j) now s =
      s\<lparr>ph_observedRef := Some now, ph_browserMs := t, ph_browser := StageDone, ph_narration := b\<rparr>" by blast
  show ?thesis
    using assms(1,5-8)
    by (simp add: s'_def frame prop_pre_def prop_toggled_def prop_loop_def prop_poll_def prop_end_def
        PROPAGATION_TIMEOUT_MS_def Let_def)
qed

definition stale_flip :: prop_hero where
  "stale_flip = foldl (prop_step [js ''a'']) (PropagationHero_init [js ''a''])
     [PhData \<lparr>flags = [\<lparr>key = HERO_KEY, enabled = False, rollout_percentage = 100, targeted_users = [],
        flag_id = ascii ''h'', description = [], version = 4, created_at = 0, updated_at = 0\<rparr>], config_version = 4\<rparr>,
      PhFlipIt]"

definition node_a :: "int \<Rightarrow> NodeState" where
  "node_a v = \<lparr>n_url = js ''a'', n_nodeId = JStr (js ''backend1''), n_configVersion = Some v,
     n_sseClients = Some 0, n_ok = True\<rparr>"

lemma stale_flip_state:
  "ph_wait stale_flip = WaitPre (ascii ''h'') 4" "ph_running stale_flip" "ph_observedRef stale_flip = None"
  "ph_targetRef stale_flip = 0"
  by (simp_all add: stale_flip_def PropagationHero_init_def prop_data_def prop_click_def hero_flag_def
      data_version_def Let_def)

definition early_run :: prop_hero where
  "early_run = foldl (prop_step [js ''a'']) stale_flip
     [PhFrame (js_num 4) (Some (JObj [(''key'', JStr (js ''hero-demo''))])) 90, PhPreStates [node_a 4] 100,
      PhToggled 110 111, PhPolled [(node_a 5, 120)]]"

theorem early_frame_counts_as_live_witness:
  "ph_phase early_run = Converged \<and> ph_browserMs early_run = Some 0 \<and> ph_targetVersion early_run = Some 5"
  using early_frame_counts_as_live [OF stale_flip_state(1-3), of 4 "[node_a 4]" 90 100 111 110 "[(node_a 5, 120)]"
      "JObj [(''key'', JStr (js ''hero-demo''))]" "[js ''a'']"]
  by (simp add: early_run_def stale_flip_state(4) preMax_def node_a_def allArrived_def reached_def)


end
