(* ===== verification/ClusterHero.thy ===== *)
theory ClusterHero
  imports FlipRun
begin

text \<open>
  The panel of the cluster page that flips the demo flag and watches every node reach the
  new version. \<^verbatim>\<open>runFlip\<close> is cut at its awaits; what it waits for, with its local variables,
  is part of the state. Input that does not fit the waiting state is ignored.
\<close>

datatype source = SourceIdle | SourceActive | SourceDone

record NodeRow =
  nr_url :: jsstring
  nr_id :: json
  nr_preVersion :: "int option"
  nr_curVersion :: "int option"
  nr_arrived :: bool
  nr_ms :: "int option"

definition initialNodes :: "jsstring list \<Rightarrow> NodeRow list" where
  "initialNodes urls = map (\<lambda>url. \<lparr>nr_url = url, nr_id = JStr url, nr_preVersion = None,
     nr_curVersion = None, nr_arrived = False, nr_ms = None\<rparr>) urls"

record cluster_hero =
  ch_data :: "utext FlagsResponse option"
  ch_seeding :: bool
  ch_phase :: phase
  ch_source :: source
  ch_nodes :: "NodeRow list"
  ch_target :: "int option"
  ch_narration :: jsstring
  ch_error :: "jsstring option"
  ch_running :: bool
  ch_wait :: waiting
  ch_effects :: "hero_effect list"

definition cluster_idle_text :: jsstring where
  "cluster_idle_text = js ''Press Flip it to change hero-demo and watch all three servers converge.''"

definition ClusterHero_init :: "jsstring list \<Rightarrow> cluster_hero" where
  "ClusterHero_init urls =
     \<lparr>ch_data = None, ch_seeding = False, ch_phase = Idle, ch_source = SourceIdle,
      ch_nodes = initialNodes urls, ch_target = None, ch_narration = cluster_idle_text,
      ch_error = None, ch_running = False, ch_wait = Ready, ch_effects = []\<rparr>"

fun mounted_row :: "NodeState list \<Rightarrow> nat \<times> NodeRow \<Rightarrow> NodeRow" where
  "mounted_row states (i, n) =
     n\<lparr>nr_id := nullish (map_option n_nodeId (nth_opt states i)) (nr_id n),
       nr_curVersion := or_else (Option.bind (nth_opt states i) n_configVersion) (nr_curVersion n)\<rparr>"

definition cluster_mounted :: "NodeState list \<Rightarrow> cluster_hero \<Rightarrow> cluster_hero" where
  "cluster_mounted states s = s\<lparr>ch_nodes := map (mounted_row states) (enumerate 0 (ch_nodes s))\<rparr>"

text \<open>New data from \<^verbatim>\<open>useFlags\<close>, and the effect that creates the demo flag once.\<close>

definition cluster_data :: "utext FlagsResponse \<Rightarrow> cluster_hero \<Rightarrow> cluster_hero" where
  "cluster_data d s0 =
     (let s = s0\<lparr>ch_data := Some d\<rparr>
      in if hero_flag (ch_data s) \<noteq> None \<or> ch_seeding s then s
         else s\<lparr>ch_seeding := True,
                ch_effects := ch_effects s @ [HeroCall (seed_request
                  (ascii ''Demo flag for the propagation hero '' @ [0x2014] @ ascii '' safe to flip, not a real feature.''))]\<rparr>)"

definition cluster_seeded :: "cluster_hero \<Rightarrow> cluster_hero" where
  "cluster_seeded s = s\<lparr>ch_effects := ch_effects s @ [Refresh [js ''flags'']]\<rparr>"

definition cluster_seed_failed :: "cluster_hero \<Rightarrow> cluster_hero" where
  "cluster_seed_failed s = s\<lparr>ch_seeding := False\<rparr>"

section \<open>runFlip\<close>

definition flip_click :: "cluster_hero \<Rightarrow> cluster_hero" where
  "flip_click s =
     (case hero_flag (ch_data s) of
        None \<Rightarrow> s
      | Some f \<Rightarrow>
          if ch_running s then s
          else s\<lparr>ch_running := True, ch_error := None, ch_phase := Running, ch_source := SourceActive,
                 ch_target := None, ch_wait := WaitPre (flag_id f) (data_version (ch_data s))\<rparr>)"

fun fresh_row :: "NodeState list \<Rightarrow> nat \<times> jsstring \<Rightarrow> NodeRow" where
  "fresh_row pre (i, url) =
     \<lparr>nr_url = url, nr_id = nullish (map_option n_nodeId (nth_opt pre i)) (JStr url),
      nr_preVersion = Option.bind (nth_opt pre i) n_configVersion,
      nr_curVersion = Option.bind (nth_opt pre i) n_configVersion,
      nr_arrived = False, nr_ms = None\<rparr>"

definition flip_pre :: "jsstring list \<Rightarrow> NodeState list \<Rightarrow> int \<Rightarrow> cluster_hero \<Rightarrow> cluster_hero" where
  "flip_pre urls pre t0 s =
     (case ch_wait s of
        WaitPre i v \<Rightarrow>
          (let tgt = preMax v pre + 1
           in s\<lparr>ch_target := Some tgt,
                ch_nodes := map (fresh_row pre) (enumerate 0 urls),
                ch_narration := js ''Saving your change to Postgres, then announcing it on Redis'' @ ellipsis,
                ch_effects := ch_effects s @ [HeroCall (api_toggleFlag i)],
                ch_wait := WaitToggle tgt t0\<rparr>)
      | _ \<Rightarrow> s)"

definition flip_end :: "jsstring list \<Rightarrow> bool \<Rightarrow> flip \<Rightarrow> cluster_hero \<Rightarrow> cluster_hero" where
  "flip_end urls conv fl s0 =
     (let s = s0\<lparr>ch_effects := ch_effects s0 @ [Refresh [js ''cluster'']], ch_running := False, ch_wait := Ready\<rparr>
      in if conv
         then s\<lparr>ch_phase := Converged,
                ch_narration := js ''Converged '' @ mdash @ js '' all three servers now agree on the new version.''\<rparr>
         else s\<lparr>ch_phase := Settled,
                ch_narration := js ''Still catching up '' @ mdash @ js '' '' @ js_num (int (length (fl_arrival fl))) @ js '' of '' @
                  js_num (int (length urls)) @ js '' on v'' @ js_num (fl_tgt fl) @
                  js ''. A lagging node reconciles on its own.''\<rparr>)"

text \<open>The head of the \<^verbatim>\<open>while\<close> loop.\<close>

definition flip_loop :: "jsstring list \<Rightarrow> int \<Rightarrow> flip \<Rightarrow> cluster_hero \<Rightarrow> cluster_hero" where
  "flip_loop urls now fl s =
     (if now < fl_deadline fl then s\<lparr>ch_wait := WaitPoll fl\<rparr> else flip_end urls False fl s)"

definition flip_toggled :: "jsstring list \<Rightarrow> int \<Rightarrow> int \<Rightarrow> cluster_hero \<Rightarrow> cluster_hero" where
  "flip_toggled urls now now' s =
     (case ch_wait s of
        WaitToggle tgt t0 \<Rightarrow>
          flip_loop urls now'
            \<lparr>fl_tgt = tgt, fl_t0 = t0, fl_deadline = now + PROPAGATION_TIMEOUT_MS, fl_arrival = []\<rparr>
            (s\<lparr>ch_effects := ch_effects s @ [Refresh [js ''flags''], Refresh [js ''cluster'']],
               ch_source := SourceDone\<rparr>)
      | _ \<Rightarrow> s)"

definition flip_failed :: "cluster_hero \<Rightarrow> cluster_hero" where
  "flip_failed s =
     (case ch_wait s of
        WaitToggle tgt t0 \<Rightarrow>
          s\<lparr>ch_error := Some (js ''Couldn't reach the control plane. Is the stack running on :8080?''),
            ch_phase := Idle, ch_source := SourceIdle, ch_narration := cluster_idle_text,
            ch_running := False, ch_wait := Ready\<rparr>
      | _ \<Rightarrow> s)"

definition polled_row :: "NodeState list \<Rightarrow> (jsstring, int) jsmap \<Rightarrow> NodeRow \<Rightarrow> NodeRow" where
  "polled_row states arrival n =
     (let s = find (\<lambda>x. n_url x = nr_url n) states
      in n\<lparr>nr_id := nullish (map_option n_nodeId s) (nr_id n),
           nr_curVersion := or_else (Option.bind s n_configVersion) (nr_curVersion n),
           nr_arrived := (map_get arrival (nr_url n) \<noteq> None),
           nr_ms := or_else (map_get arrival (nr_url n)) (nr_ms n)\<rparr>)"

definition flip_poll :: "jsstring list \<Rightarrow> (NodeState \<times> int) list \<Rightarrow> cluster_hero \<Rightarrow> cluster_hero" where
  "flip_poll urls polled s0 =
     (case ch_wait s0 of
        WaitPoll fl0 \<Rightarrow>
          (let states = map fst polled;
               fl = fl0\<lparr>fl_arrival := note_arrivals (fl_tgt fl0) (fl_t0 fl0) polled (fl_arrival fl0)\<rparr>;
               count = length (fl_arrival fl);
               s = s0\<lparr>ch_nodes := map (polled_row states (fl_arrival fl)) (ch_nodes s0),
                      ch_narration := (if count > 0 \<and> count < length urls
                        then js ''Diverged '' @ mdash @ js '' '' @ js_num (int count) @ js '' of '' @ js_num (int (length urls)) @
                          js '' servers on v'' @ js_num (fl_tgt fl) @ js '', the rest catching up.''
                        else ch_narration s0)\<rparr>
           in if allArrived (fl_tgt fl) states then flip_end urls True fl s else s\<lparr>ch_wait := WaitSleep fl\<rparr>)
      | _ \<Rightarrow> s0)"

definition flip_woken :: "jsstring list \<Rightarrow> int \<Rightarrow> cluster_hero \<Rightarrow> cluster_hero" where
  "flip_woken urls now s =
     (case ch_wait s of WaitSleep fl \<Rightarrow> flip_loop urls now fl s | _ \<Rightarrow> s)"

datatype cluster_input =
    ChMounted "NodeState list"
  | ChData "utext FlagsResponse"
  | ChSeeded
  | ChSeedFailed
  | FlipIt
  | PreStates "NodeState list" int
  | Toggled int int
  | ToggleFailed
  | Polled "(NodeState \<times> int) list"
  | Woken int

fun cluster_step :: "jsstring list \<Rightarrow> cluster_hero \<Rightarrow> cluster_input \<Rightarrow> cluster_hero" where
  "cluster_step urls s (ChMounted states) = cluster_mounted states s"
| "cluster_step urls s (ChData d) = cluster_data d s"
| "cluster_step urls s ChSeeded = cluster_seeded s"
| "cluster_step urls s ChSeedFailed = cluster_seed_failed s"
| "cluster_step urls s FlipIt = flip_click s"
| "cluster_step urls s (PreStates pre t0) = flip_pre urls pre t0 s"
| "cluster_step urls s (Toggled now now') = flip_toggled urls now now' s"
| "cluster_step urls s ToggleFailed = flip_failed s"
| "cluster_step urls s (Polled polled) = flip_poll urls polled s"
| "cluster_step urls s (Woken now) = flip_woken urls now s"

section \<open>What the panel shows\<close>

definition NodeCard :: "NodeRow \<Rightarrow> int option \<Rightarrow> 'm view" where
  "NodeCard n tgt =
     el ''div''
      [el ''div''
        ([el ''div'' [el ''span'' [], el ''span'' [Txt (react_text (nr_id n))]]] @
         (case (nr_arrived n, nr_ms n) of
            (True, Some t) \<Rightarrow> [el ''span'' [Txt (js_num t @ js '' ms'')]] | _ \<Rightarrow> [])),
       el ''div''
        [el ''p'' [lit ''config version''],
         el ''p''
          (case (tgt, nr_preVersion n, nr_arrived n) of
             (Some t, Some v, False) \<Rightarrow>
               [el ''span'' [Txt (js ''v'' @ js_num v)], el ''span'' [Txt (js ''v'' @ js_num t @ js ''?'')]]
           | _ \<Rightarrow>
               [el ''span''
                 [Txt (case nr_curVersion n of Some v \<Rightarrow> js ''v'' @ js_num v | None \<Rightarrow> mdash)]])]]"

text \<open>\<^verbatim>\<open>done\<close> only selects the colours.\<close>

definition SourceStep :: "string \<Rightarrow> bool \<Rightarrow> 'm view" where
  "SourceStep label finished = el ''span'' [lit label]"

definition ClusterHero :: "jsstring list \<Rightarrow> cluster_hero \<Rightarrow> cluster_input view" where
  "ClusterHero urls s =
     (let running = (ch_phase s = Running);
          arrivedCount = length (filter nr_arrived (ch_nodes s));
          diverged = (running \<and> arrivedCount > 0 \<and> arrivedCount < length urls)
      in el ''section''
          [el ''div''
            [el ''div''
              [el ''div'' [el ''h3'' [lit ''One change, all three servers'']],
               el ''p''
                [lit ''Flip the safe '', el ''code'' [lit ''hero-demo''],
                 Txt (js '' flag and watch each backend move to the new version '' @ mdash @ js '' diverged for a blink, then ''),
                 Term (js ''convergence'') (Some (js ''converged'')), lit ''. Real versions, real milliseconds.'']],
             el ''div''
              ([Elem ''Button'' [(''disabled'', js_bool (running \<or> hero_flag (ch_data s) = None))]
                 [(''click'', msg FlipIt)] [lit ''Flip it'']] @
               shown (ch_phase s = Converged \<or> ch_phase s = Settled)
                [Elem ''Button'' [(''disabled'', js_bool running)] [(''click'', msg FlipIt)] [lit ''Replay'']])],
           el ''div''
            ([el ''div''
               [SourceStep ''You'' (ch_source s \<noteq> SourceIdle),
                SourceStep ''Postgres'' (ch_source s = SourceDone),
                SourceStep ''Redis'' (ch_source s = SourceDone),
                el ''span'' [lit ''3 backends:'']],
              el ''div'' (map (\<lambda>n. NodeCard n (ch_target s)) (ch_nodes s)),
              el ''div''
               ([ela ''p'' [(''aria-live'', js ''polite'')] [Txt (ch_narration s)]] @
                (case ch_target s of
                   None \<Rightarrow> []
                 | Some t \<Rightarrow>
                     shown (ch_phase s = Converged \<or> ch_phase s = Settled \<or> diverged)
                      [ela ''span'' [(''aria-live'', js ''polite'')]
                        [if ch_phase s = Converged
                         then el ''span'' [lit ''Converged at '', el ''span'' [Txt (js ''v'' @ js_num t)]]
                         else el ''span''
                               [Txt (js ''Diverged '' @ middot @ js '' '' @ js_num (int arrivedCount) @ js ''/'' @
                                     js_num (int (length urls)) @ js '' on v'' @ js_num t)]]]))] @
             (case ch_error s of Some e \<Rightarrow> [ela ''p'' [(''role'', js ''alert'')] [Txt e]] | None \<Rightarrow> []))])"

section \<open>A flip announces convergence only after seeing it\<close>

definition fits :: "jsstring list \<Rightarrow> cluster_input \<Rightarrow> bool" where
  "fits urls i = (case i of Polled polled \<Rightarrow> map (n_url \<circ> fst) polled = urls | _ \<Rightarrow> True)"

inductive cluster_reach :: "jsstring list \<Rightarrow> cluster_hero \<Rightarrow> bool" for urls where
  cluster_start: "cluster_reach urls (ClusterHero_init urls)"
| cluster_next: "cluster_reach urls s \<Longrightarrow> fits urls i \<Longrightarrow> cluster_reach urls (cluster_step urls s i)"

definition row_ok :: "NodeRow \<Rightarrow> bool" where
  "row_ok n \<longleftrightarrow> (nr_arrived n \<longrightarrow> nr_ms n \<noteq> None)"

definition cluster_inv :: "jsstring list \<Rightarrow> cluster_hero \<Rightarrow> bool" where
  "cluster_inv urls s \<longleftrightarrow>
     (ch_running s \<longleftrightarrow> ch_wait s \<noteq> Ready) \<and> (ch_running s \<longleftrightarrow> ch_phase s = Running) \<and>
     map nr_url (ch_nodes s) = urls \<and> (\<forall>n \<in> set (ch_nodes s). row_ok n) \<and>
     (wait_target (ch_wait s) \<noteq> None \<longrightarrow> ch_target s = wait_target (ch_wait s)) \<and>
     (ch_phase s = Converged \<longrightarrow> ch_target s \<noteq> None \<and> (\<forall>n \<in> set (ch_nodes s). nr_arrived n))"

lemma mounted_rows:
  "map nr_url (ch_nodes (cluster_mounted states s)) = map nr_url (ch_nodes s)"
  "n' \<in> set (ch_nodes (cluster_mounted states s)) \<Longrightarrow>
     \<exists>n \<in> set (ch_nodes s). nr_arrived n' = nr_arrived n \<and> nr_ms n' = nr_ms n"
proof -
  show "map nr_url (ch_nodes (cluster_mounted states s)) = map nr_url (ch_nodes s)"
    using map_enumerate [of nr_url "mounted_row states" nr_url] by (simp add: cluster_mounted_def)
  assume "n' \<in> set (ch_nodes (cluster_mounted states s))"
  then have "n' \<in> set (map (mounted_row states) (enumerate 0 (ch_nodes s)))" by (simp add: cluster_mounted_def)
  then obtain i n where "n \<in> set (ch_nodes s)" "n' = mounted_row states (i, n)" by (rule set_map_enumerate)
  then show "\<exists>n \<in> set (ch_nodes s). nr_arrived n' = nr_arrived n \<and> nr_ms n' = nr_ms n" by auto
qed

lemma cluster_inv_mounted:
  assumes "cluster_inv urls s"
  shows "cluster_inv urls (cluster_mounted states s)"
proof -
  have same: "ch_running (cluster_mounted states s) = ch_running s" "ch_wait (cluster_mounted states s) = ch_wait s"
    "ch_phase (cluster_mounted states s) = ch_phase s" "ch_target (cluster_mounted states s) = ch_target s"
    by (simp_all add: cluster_mounted_def)
  have "row_ok n'" "ch_phase s = Converged \<longrightarrow> nr_arrived n'"
    if "n' \<in> set (ch_nodes (cluster_mounted states s))" for n'
    using mounted_rows(2) [OF that] assms by (auto simp: cluster_inv_def row_ok_def)
  then show ?thesis using assms unfolding cluster_inv_def same mounted_rows(1) by blast
qed

lemma polled_row_sel [simp]:
  "nr_url (polled_row states arr n) = nr_url n" "row_ok (polled_row states arr n)"
  "nr_arrived (polled_row states arr n) \<longleftrightarrow> map_get arr (nr_url n) \<noteq> None"
  by (auto simp: polled_row_def row_ok_def or_else_def Let_def)

lemma polled_all_arrived:
  assumes "map (n_url \<circ> fst) polled = urls" "allArrived tgt (map fst polled)" "nr_url n \<in> set urls"
  shows "nr_arrived (polled_row states (note_arrivals tgt t0 polled arr) n)"
proof -
  have "urls = map n_url (map fst polled)" using assms(1) by simp
  then have "nr_url n \<in> n_url ` set (map fst polled)" using assms(3) by (metis list.set_map)
  then obtain s where s: "nr_url n = n_url s" "s \<in> set (map fst polled)" by (rule imageE)
  have "map_get (note_arrivals tgt t0 polled arr) (nr_url n) \<noteq> None"
    unfolding s(1) by (rule all_noted [OF assms(2) s(2)])
  then show ?thesis unfolding polled_row_sel .
qed

lemma cluster_inv_loop:
  assumes "cluster_inv urls s" "ch_phase s = Running" "ch_target s = Some (fl_tgt fl)"
  shows "cluster_inv urls (flip_loop urls now fl s)"
  using assms by (auto simp: cluster_inv_def flip_loop_def flip_end_def Let_def)

lemma cluster_inv_poll:
  assumes "cluster_inv urls s" "map (n_url \<circ> fst) polled = urls"
  shows "cluster_inv urls (flip_poll urls polled s)"
proof (cases "ch_wait s")
  case (WaitPoll fl)
  have "\<forall>n \<in> set (ch_nodes s). nr_url n \<in> set urls" using assms(1) by (auto simp: cluster_inv_def)
  then show ?thesis
    using assms polled_all_arrived [OF assms(2), of "fl_tgt fl" _ "map fst polled" "fl_t0 fl" "fl_arrival fl"] WaitPoll
    by (auto simp: cluster_inv_def flip_poll_def flip_end_def Let_def comp_def)
qed (use assms in \<open>simp_all add: flip_poll_def\<close>)

lemma cluster_inv_pre:
  assumes "cluster_inv urls s"
  shows "cluster_inv urls (flip_pre urls pre t0 s)"
proof (cases "ch_wait s")
  case (WaitPre i v)
  let ?s = "flip_pre urls pre t0 s"
  have nodes: "ch_nodes ?s = map (fresh_row pre) (enumerate 0 urls)" by (simp add: flip_pre_def WaitPre Let_def)
  have rows: "map nr_url (ch_nodes ?s) = map id urls"
    unfolding nodes by (rule map_enumerate) simp
  have "\<not> nr_arrived n" if "n \<in> set (ch_nodes ?s)" for n
    using that unfolding nodes by (rule set_map_enumerate) simp
  moreover have "ch_running ?s = ch_running s" "ch_wait ?s = WaitToggle (preMax v pre + 1) t0"
    "ch_target ?s = Some (preMax v pre + 1)" "ch_phase ?s = ch_phase s"
    by (simp_all add: flip_pre_def WaitPre Let_def)
  ultimately show ?thesis using assms rows WaitPre by (auto simp: cluster_inv_def row_ok_def)
qed (use assms in \<open>simp_all add: flip_pre_def\<close>)

lemma cluster_inv_step:
  assumes "cluster_inv urls s" "fits urls i"
  shows "cluster_inv urls (cluster_step urls s i)"
proof (cases i)
  case (ChData d)
  then show ?thesis using assms(1) by (auto simp: cluster_data_def cluster_inv_def Let_def)
next
  case FlipIt
  then show ?thesis using assms(1) by (auto simp: flip_click_def cluster_inv_def split: option.split)
next
  case (Toggled now now')
  show ?thesis
  proof (cases "ch_wait s")
    case (WaitToggle tgt t0)
    then show ?thesis
      using assms(1) Toggled
      by (simp add: flip_toggled_def) (intro cluster_inv_loop, auto simp: cluster_inv_def)
  qed (use assms(1) Toggled in \<open>simp_all add: flip_toggled_def\<close>)
next
  case ToggleFailed
  then show ?thesis using assms(1) by (cases "ch_wait s") (auto simp: flip_failed_def cluster_inv_def)
next
  case (Woken now)
  show ?thesis
  proof (cases "ch_wait s")
    case (WaitSleep fl)
    then show ?thesis
      using assms(1) Woken by (simp add: flip_woken_def) (intro cluster_inv_loop, auto simp: cluster_inv_def)
  qed (use assms(1) Woken in \<open>simp_all add: flip_woken_def\<close>)
qed (use assms in \<open>simp_all add: cluster_inv_mounted cluster_inv_pre cluster_inv_poll fits_def
    cluster_seeded_def cluster_seed_failed_def, simp_all add: cluster_inv_def\<close>)

lemma cluster_inv_reach: "cluster_reach urls s \<Longrightarrow> cluster_inv urls s"
proof (induction rule: cluster_reach.induct)
  case cluster_start
  show ?case by (simp add: cluster_inv_def ClusterHero_init_def initialNodes_def row_ok_def comp_def)
qed (rule cluster_inv_step)

lemma cluster_run_reach:
  "cluster_reach urls s \<Longrightarrow> list_all (fits urls) is \<Longrightarrow> cluster_reach urls (foldl (cluster_step urls) s is)"
  by (induction "is" arbitrary: s) (auto intro: cluster_next)

section \<open>Properties of the panel\<close>

text \<open>C34: In every state the panel can be in it says "converged" only when the version to reach is
  known and every node it shows was seen at it, with its time; one flip runs at a time, and
  the nodes shown are the configured ones, in order.\<close>

theorem cluster_hero_honest:
  assumes "cluster_reach urls s"
  shows "(ch_phase s = Converged \<longrightarrow>
            ch_target s \<noteq> None \<and> (\<forall>n \<in> set (ch_nodes s). nr_arrived n \<and> nr_ms n \<noteq> None)) \<and>
         (ch_running s \<longleftrightarrow> ch_phase s = Running) \<and> (ch_running s \<longleftrightarrow> ch_wait s \<noteq> Ready) \<and>
         map nr_url (ch_nodes s) = urls"
  using cluster_inv_reach [OF assms] by (auto simp: cluster_inv_def row_ok_def)

text \<open>A flip of one node that reaches its version on the second poll.\<close>

definition hero_one :: "utext Flag" where
  "hero_one = \<lparr>key = HERO_KEY, enabled = False, rollout_percentage = 100, targeted_users = [],
     flag_id = ascii ''h'', description = [], version = 4, created_at = 0, updated_at = 0\<rparr>"

definition node_at :: "int \<Rightarrow> NodeState" where
  "node_at v = \<lparr>n_url = js ''a'', n_nodeId = JStr (js ''backend1''), n_configVersion = Some v,
     n_sseClients = Some 0, n_ok = True\<rparr>"

definition flipped :: cluster_hero where
  "flipped = foldl (cluster_step [js ''a'']) (ClusterHero_init [js ''a''])
     [ChData \<lparr>flags = [hero_one], config_version = 4\<rparr>, FlipIt, PreStates [node_at 4] 100, Toggled 110 111,
      Polled [(node_at 4, 120)], Woken 300, Polled [(node_at 5, 310)]]"

lemma flipped_state:
  "ch_phase flipped = Converged" "ch_target flipped = Some 5"
  "map nr_ms (ch_nodes flipped) = [Some 210]"
  by (simp_all add: flipped_def ClusterHero_init_def initialNodes_def cluster_data_def hero_flag_def hero_one_def
      flip_click_def flip_pre_def flip_toggled_def flip_loop_def flip_poll_def flip_woken_def flip_end_def
      polled_row_def note_arrivals_def note_arrival_def allArrived_def reached_def preMax_def nth_opt_def
      or_else_def node_at_def data_version_def PROPAGATION_TIMEOUT_MS_def Let_def)

theorem cluster_hero_honest_witness:
  "list_all (\<lambda>n. nr_arrived n \<and> nr_ms n \<noteq> None) (ch_nodes flipped)"
proof -
  have "cluster_reach [js ''a''] flipped"
    unfolding flipped_def by (rule cluster_run_reach [OF cluster_start]) (simp add: fits_def node_at_def)
  then show ?thesis using cluster_hero_honest flipped_state(1) unfolding list_all_iff by blast
qed

text \<open>When the toggle fails, the panel goes back to idle with an error, but keeps the version
  it was going to reach: a node card still shows the old version struck out and the
  new one with a question mark, although nothing was changed.\<close>

theorem failed_flip_keeps_transition:
  assumes "cluster_reach urls s" "ch_wait s = WaitToggle tgt t0" "n \<in> set (ch_nodes s)"
    and "nr_preVersion n = Some v" "\<not> nr_arrived n"
  defines "s' \<equiv> cluster_step urls s ToggleFailed"
  shows "ch_phase s' = Idle \<and> ch_error s' \<noteq> None \<and> n \<in> set (ch_nodes s') \<and>
         texts (NodeCard n (ch_target s')) =
           [react_text (nr_id n), js ''config version'', js ''v'' @ js_num v, js ''v'' @ js_num tgt @ js ''?'']"
proof -
  have "ch_target s = Some tgt" using cluster_inv_reach [OF assms(1)] assms(2) by (simp add: cluster_inv_def)
  then show ?thesis using assms(2-5) by (simp add: s'_def flip_failed_def NodeCard_def split: option.split)
qed

definition toggling :: cluster_hero where
  "toggling = foldl (cluster_step [js ''a'']) (ClusterHero_init [js ''a''])
     [ChData \<lparr>flags = [hero_one], config_version = 4\<rparr>, FlipIt, PreStates [node_at 4] 100]"

theorem failed_flip_keeps_transition_witness:
  "\<exists>n. texts (NodeCard n (ch_target (cluster_step [js ''a''] toggling ToggleFailed))) =
     [js ''backend1'', js ''config version'', js ''v'' @ js_num 4, js ''v'' @ js_num 5 @ js ''?'']"
proof -
  let ?n = "\<lparr>nr_url = js ''a'', nr_id = JStr (js ''backend1''), nr_preVersion = Some 4, nr_curVersion = Some 4,
    nr_arrived = False, nr_ms = None\<rparr>"
  have "ch_wait toggling = WaitToggle 5 100" "?n \<in> set (ch_nodes toggling)"
    by (simp_all add: toggling_def ClusterHero_init_def initialNodes_def cluster_data_def hero_flag_def hero_one_def
      flip_click_def flip_pre_def preMax_def nth_opt_def node_at_def data_version_def Let_def)
  moreover have "cluster_reach [js ''a''] toggling"
    unfolding toggling_def by (rule cluster_run_reach [OF cluster_start]) (simp add: fits_def)
  ultimately show ?thesis using failed_flip_keeps_transition [of "[js ''a'']" toggling 5 100 ?n 4] by auto
qed

section \<open>The panel over nodes that share a database\<close>

lemma Toggle_latest:
  assumes "db_wf d" "up d" "row_by_id d i = Some g"
  shows "latest_version d + 1 \<le> latest_version (snd (Toggle now i d))" "up (snd (Toggle now i d))"
proof -
  have "latest_version (snd (Toggle now i d)) = seq d + 1"
    using assms(2,3) by (simp add: Toggle_def nextVersion_def toggle_tx_def appendEvent_def replace_row_def
        latest_version_def last_version_def row_by_id_def Let_def)
  then show "latest_version d + 1 \<le> latest_version (snd (Toggle now i d))"
    using latest_version_bounds(2) [OF assms(1)] by simp
  show "up (snd (Toggle now i d))"
    using assms(2,3) by (simp add: Toggle_def nextVersion_def toggle_tx_def appendEvent_def replace_row_def
        row_by_id_def Let_def)
qed

lemma flip_run_converges:
  fixes t0 :: int
  assumes "hero_flag (ch_data s) = Some f" "\<not> ch_running s" "n2 < n1 + 8000"
    and "allArrived (preMax (data_version (ch_data s)) pre + 1) (map fst polled)"
    and "map (n_url \<circ> fst) polled = urls"
  defines "s' \<equiv> foldl (cluster_step urls) s [FlipIt, PreStates pre t0, Toggled n1 n2, Polled polled]"
  shows "ch_phase s' = Converged \<and> ch_target s' = Some (preMax (data_version (ch_data s)) pre + 1) \<and>
         (\<forall>n \<in> set (ch_nodes s'). nr_arrived n)"
proof -
  let ?tgt = "preMax (data_version (ch_data s)) pre + 1"
  define s2 where "s2 = foldl (cluster_step urls) s [FlipIt, PreStates pre t0, Toggled n1 n2]"
  have s2: "ch_wait s2 = WaitPoll \<lparr>fl_tgt = ?tgt, fl_t0 = t0, fl_deadline = n1 + 8000, fl_arrival = []\<rparr>"
    "ch_target s2 = Some ?tgt" "ch_nodes s2 = map (fresh_row pre) (enumerate 0 urls)"
    using assms(1-3) by (simp_all add: s2_def flip_click_def flip_pre_def flip_toggled_def flip_loop_def
        PROPAGATION_TIMEOUT_MS_def Let_def)
  have "nr_url n \<in> set urls" if "n \<in> set (ch_nodes s2)" for n
    using that unfolding s2(3) by (rule set_map_enumerate) simp
  then have "nr_arrived (polled_row (map fst polled) (note_arrivals ?tgt t0 polled []) n)"
    if "n \<in> set (ch_nodes s2)" for n
    using polled_all_arrived [OF assms(5,4)] that by blast
  moreover have "s' = flip_poll urls polled s2" by (simp add: s'_def s2_def)
  ultimately show ?thesis using assms(4) by (auto simp: s2(1,2) flip_poll_def flip_end_def Let_def)
qed

text \<open>The nodes answer the version request from the database they share, so a flip whose
  requests all succeed has converged at the very first poll, for every node at once: the
  page can never show the divergence between nodes that it announces, whatever each node
  has delivered.\<close>

theorem flip_on_shared_database:
  fixes t0 :: int and clock :: "jsstring \<Rightarrow> int"
  assumes "db_wf d" "up d" "row_by_id d (flag_id f) = Some g" "urls \<noteq> []"
    and "hero_flag (ch_data s) = Some f" "data_version (ch_data s) \<le> latest_version d" "\<not> ch_running s"
    and "\<forall>u. sdb (before u) = d" "\<forall>u. sdb (after u) = snd (Toggle now (flag_id f) d)" "n2 < n1 + 8000"
  defines "s' \<equiv> foldl (cluster_step urls) s
     [FlipIt, PreStates (map (\<lambda>u. fetchNode u (version_response (h_Version (before u)))) urls) t0, Toggled n1 n2,
      Polled (map (\<lambda>u. (fetchNode u (version_response (h_Version (after u))), clock u)) urls)]"
  shows "ch_phase s' = Converged \<and> ch_target s' = Some (latest_version d + 1) \<and>
         (\<forall>n \<in> set (ch_nodes s'). nr_arrived n)"
proof -
  let ?d = "snd (Toggle now (flag_id f) d)"
  let ?pre = "map (\<lambda>u. fetchNode u (version_response (h_Version (before u)))) urls"
  have pre: "preMax (data_version (ch_data s)) ?pre = latest_version d"
    using assms(1,2,4,6,8) by (intro preMax_same) (auto simp: fetchNode_version)
  have "reached (latest_version d + 1) (fetchNode u (version_response (h_Version (after u))))" for u
    using Toggle_latest [OF assms(1-3), of now] Toggle_wf [OF assms(1), of now "flag_id f"] assms(9)
    by (simp add: reached_def fetchNode_version)
  moreover have "n_url (fetchNode u (version_response (h_Version (after u)))) = u" for u
    using Toggle_latest(2) [OF assms(1-3), of now] Toggle_wf [OF assms(1), of now "flag_id f"] assms(9)
    by (simp add: fetchNode_version)
  ultimately show ?thesis
    using flip_run_converges [OF assms(5,7,10), of ?pre "map (\<lambda>u. (fetchNode u (version_response (h_Version (after u))), clock u)) urls"]
    unfolding s'_def pre by (simp add: allArrived_def list_all_iff comp_def)
qed

definition demo_hero :: cluster_hero where
  "demo_hero = (ClusterHero_init [js ''a'', js ''b''])
     \<lparr>ch_data := Some \<lparr>flags = [hero_one\<lparr>flag_id := ascii ''1''\<rparr>], config_version = 0\<rparr>\<rparr>"

theorem flip_on_shared_database_witness:
  "ch_phase (foldl (cluster_step [js ''a'', js ''b'']) demo_hero
     [FlipIt, PreStates (map (\<lambda>u. fetchNode u (version_response (h_Version demo_server))) [js ''a'', js ''b'']) 100,
      Toggled 110 111,
      Polled (map (\<lambda>u. (fetchNode u (version_response (h_Version
        (demo_server\<lparr>sdb := snd (Toggle 9 (ascii ''1'') (sdb demo_server))\<rparr>))), 120)) [js ''a'', js ''b''])]) = Converged"
proof -
  let ?f = "hero_one\<lparr>flag_id := ascii ''1''\<rparr>"
  have wf: "db_wf (sdb demo_server)" "up (sdb demo_server)" "row_by_id (sdb demo_server) (flag_id ?f) \<noteq> None"
    using demo_server_inv demo_server_db demo_server_row by (simp_all add: server_inv_def)
  have hero: "hero_flag (ch_data demo_hero) = Some ?f" "\<not> ch_running demo_hero"
    "data_version (ch_data demo_hero) \<le> latest_version (sdb demo_server)"
    using latest_version_bounds(1) [OF wf(1)]
    by (simp_all add: demo_hero_def ClusterHero_init_def hero_flag_def hero_one_def data_version_def)
  show ?thesis
    using flip_on_shared_database [OF wf(1,2) _ _ hero(1,3,2), of _ "[js ''a'', js ''b'']" "\<lambda>u. demo_server"
        "\<lambda>u. demo_server\<lparr>sdb := snd (Toggle 9 (ascii ''1'') (sdb demo_server))\<rparr>" 9 111 110 100 "\<lambda>u. 120"] wf(3)
    by (auto simp: hero_one_def)
qed

end
