(* ===== verification/FleetPages.thy ===== *)
theory FleetPages
  imports Complex_Main ClusterHero
begin

text \<open>
  The pages that watch the fleet: \<^verbatim>\<open>app/cluster\<close>, \<^verbatim>\<open>app/health\<close> and \<^verbatim>\<open>app/resilience\<close>. They keep no
  state of their own; each is a function of what the hooks of \<^verbatim>\<open>useCluster.ts\<close> and
  \<^verbatim>\<open>useHealth.ts\<close> returned. Numbers of Prometheus are rationals here, read exactly; how
  JavaScript writes such a number in full is an argument. Colours are left out.
\<close>

section \<open>The cluster page\<close>

definition plural :: "nat \<Rightarrow> jsstring" where
  "plural n = (if n > 1 then js ''s'' else [])"

definition js_nat :: "nat \<Rightarrow> jsstring" where
  "js_nat n = js_num (int n)"

definition cluster_nodes :: "ClusterState option \<Rightarrow> NodeState list" where
  "cluster_nodes data = (case data of Some c \<Rightarrow> nodes c | None \<Rightarrow> [])"

definition cluster_converged :: "ClusterState option \<Rightarrow> bool" where
  "cluster_converged data = (case data of Some c \<Rightarrow> converged c | None \<Rightarrow> False)"

definition cluster_latest :: "ClusterState option \<Rightarrow> int" where
  "cluster_latest data = (case data of Some c \<Rightarrow> latestVersion c | None \<Rightarrow> 0)"

definition cluster_reachable :: "ClusterState option \<Rightarrow> nat" where
  "cluster_reachable data = (case data of Some c \<Rightarrow> reachableCount c | None \<Rightarrow> 0)"

definition cluster_headline :: "ClusterState option \<Rightarrow> jsstring" where
  "cluster_headline data =
     (if cluster_reachable data = 0 then js ''No servers are reachable right now.''
      else if cluster_converged data
      then js ''All '' @ js_nat (cluster_reachable data) @ js '' server'' @ plural (cluster_reachable data) @
        js '' agree '' @ mdash @ js '' everyone is on v'' @ js_num (cluster_latest data) @ js ''.''
      else js ''A change is spreading '' @ mdash @ js '' the servers are catching up to each other.'')"

definition cluster_banner :: "ClusterState option \<Rightarrow> jsstring" where
  "cluster_banner data =
     (if cluster_reachable data = 0 then js ''No nodes reachable''
      else if cluster_converged data
      then js ''All '' @ js_nat (cluster_reachable data) @ js '' node'' @ plural (cluster_reachable data) @ js '' converged''
      else js ''Propagating'' @ ellipsis)"

definition ClusterPage_NodeCard :: "NodeState \<Rightarrow> 'm view" where
  "ClusterPage_NodeCard n =
     el ''div''
      [el ''div''
        [el ''div'' [el ''span'' [], el ''span'' [Txt (react_text (n_nodeId n))]],
         ela ''span'' [(''title'', js (if n_ok n then ''Reachable'' else ''Unreachable''))]
          [el ''span'' [], el ''span'' [lit (if n_ok n then ''up'' else ''down'')]]],
       el ''div''
        [el ''div''
          [el ''p'' [lit ''config version''],
           el ''p'' [Txt (case (n_ok n, n_configVersion n) of (True, Some v) \<Rightarrow> js ''v'' @ js_num v | _ \<Rightarrow> mdash)]],
         el ''span'' [el ''span'' [Txt (case n_sseClients n of Some c \<Rightarrow> js_num c | None \<Rightarrow> mdash)]]]]"

text \<open>The panels inside the page, already rendered, are arguments, and so is the message that
  opens the details.\<close>

definition ClusterPage ::
  "bool \<Rightarrow> bool \<Rightarrow> ClusterState option \<Rightarrow> 'm \<Rightarrow> details \<Rightarrow> 'm view \<Rightarrow> 'm view \<Rightarrow> 'm view \<Rightarrow> 'm view" where
  "ClusterPage explain isLoading data toggle st hero console timeline =
     el ''div''
      ([PageIntro [lit ''One change, every server'']
         [lit ''Flags run on three backends at once. This page shows whether they all agree on the latest version yet.'']
         [Txt (cluster_headline data)] []] @
       GuideCallout explain None
        [lit ''Each server keeps its own copy of the config and reports which '',
         Term (js ''config-version'') (Some (js ''version'')),
         lit '' it's on. Right after a change they can briefly differ; the moment they all match, the cluster has '',
         Term (js ''convergence'') (Some (js ''converged'')), lit ''. Green means caught up.''] @
       [hero,
        ela ''div'' [(''aria-live'', js ''polite'')]
         [el ''span'' [], el ''span'' [Txt (cluster_banner data)],
          el ''span'' [Txt (js ''latest v'' @ js_num (cluster_latest data))]],
        el ''div'' [console, timeline],
        AdvancedDetails (js ''Per-node detail'') toggle
         [el ''div''
           [el ''div''
             (if isLoading \<and> cluster_nodes data = [] then map (\<lambda>i. el ''div'' []) [0..<3::nat]
              else map ClusterPage_NodeCard (cluster_nodes data)),
            el ''p''
             [Txt (js ''Polling each node'' @ [0x2019] @ js ''s ''), el ''code'' [lit ''/api/client/version''],
              lit '' every 1.5s. Writes and streams flow through the load balancer on '',
              el ''code'' [lit '':8080''], lit ''.'']]] st])"

section \<open>The health page\<close>

text \<open>\<^verbatim>\<open>toFixed(1)\<close> of a number that is not negative.\<close>

definition toFixed1 :: "rat \<Rightarrow> jsstring" where
  "toFixed1 v = (let n = floor (v * 10 + 1 / 2) in js_num (n div 10) @ js ''.'' @ js_num (n mod 10))"

definition ms_text :: "rat option \<Rightarrow> jsstring" where
  "ms_text seconds =
     (case seconds of
        None \<Rightarrow> mdash
      | Some s \<Rightarrow>
          (let v = s * 1000
           in if v \<ge> 100 then js_num (floor (v + 1 / 2))
              else if v < 0 then js ''-'' @ toFixed1 (- v) else toFixed1 v))"

definition ready_count :: "NodeReadiness list \<Rightarrow> nat" where
  "ready_count ns = length (filter r_ready ns)"

definition allReady :: "NodeReadiness list \<Rightarrow> bool" where
  "allReady ns \<longleftrightarrow> length ns > 0 \<and> ready_count ns = length ns"

text \<open>A field of metrics that may not be there yet.\<close>

definition metric :: "(rat FleetMetrics \<Rightarrow> rat option) \<Rightarrow> rat FleetMetrics option \<Rightarrow> rat option" where
  "metric f metrics = Option.bind metrics f"

definition metrics_down :: "rat FleetMetrics option \<Rightarrow> bool" where
  "metrics_down metrics = (case metrics of Some m \<Rightarrow> unavailable m | None \<Rightarrow> False)"

definition typicalMs :: "rat FleetMetrics option \<Rightarrow> jsstring option" where
  "typicalMs metrics =
     (if metrics_down metrics then None
      else Some (ms_text (or_else (metric propagationP50 metrics) (metric propagationP99 metrics))))"

definition health_headline :: "NodeReadiness list \<Rightarrow> rat FleetMetrics option \<Rightarrow> jsstring" where
  "health_headline ns metrics =
     (if ns = [] then js ''Checking each server'' @ ellipsis
      else if allReady ns
      then (case typicalMs metrics of
              Some t \<Rightarrow>
                if t \<noteq> [] \<and> t \<noteq> mdash then js ''All healthy '' @ mdash @ js '' changes reach every server in about '' @ t @ js '' ms.''
                else js ''All healthy '' @ mdash @ js '' every server is ready to serve.''
            | None \<Rightarrow> js ''All healthy '' @ mdash @ js '' every server is ready to serve.'')
      else js ''Degraded '' @ mdash @ js '' '' @ js_nat (ready_count ns) @ js '' of '' @ js_nat (length ns) @ js '' servers ready.'')"

definition StatusPill :: "bool \<Rightarrow> bool \<Rightarrow> string \<Rightarrow> 'm view" where
  "StatusPill ready reachable label = el ''span'' [lit (if \<not> reachable then ''unreachable'' else label)]"

definition MetricTile :: "string \<Rightarrow> jsstring option \<Rightarrow> string \<Rightarrow> jsstring option \<Rightarrow> bool \<Rightarrow> 'm view" where
  "MetricTile label val unit sub down =
     el ''div''
      [el ''div'' [el ''span'' [lit label]],
       if down then el ''p'' [lit ''metrics unavailable'']
       else el ''div''
             ([ela ''div'' [(''aria-live'', js ''polite'')]
                ([el ''span'' [Txt (case val of Some t \<Rightarrow> t | None \<Rightarrow> mdash)]] @
                 shown (unit \<noteq> []) [el ''span'' [lit unit]])] @
              (case sub of Some t \<Rightarrow> shown (t \<noteq> []) [el ''p'' [Txt t]] | None \<Rightarrow> []))]"

definition DepStatus :: "string \<Rightarrow> jsstring option \<Rightarrow> 'm view" where
  "DepStatus label val =
     ela ''span'' [(''title'', case val of Some t \<Rightarrow> t | None \<Rightarrow> js ''unknown'')]
      [el ''span'' [lit label], el ''span'' []]"

definition Health_NodeCard :: "NodeReadiness \<Rightarrow> 'm view" where
  "Health_NodeCard n =
     el ''div''
      [el ''div''
        [el ''div'' [el ''span'' [], el ''span'' [Txt (react_text (r_nodeId n))]],
         StatusPill (r_ready n) (r_reachable n) (if r_ready n then ''ready'' else ''unready'')],
       el ''div''
        [el ''div''
          [el ''p'' [lit ''config version''],
           el ''p'' [Txt (case r_configVersion n of Some v \<Rightarrow> js ''v'' @ js_num v | None \<Rightarrow> mdash)]]],
       el ''div'' [DepStatus ''postgres'' (r_postgres n), DepStatus ''redis'' (r_redis n)]]"

definition HealthPage ::
  "(rat \<Rightarrow> jsstring) \<Rightarrow> jsstring \<Rightarrow> bool \<Rightarrow> bool \<Rightarrow> NodeReadiness list option \<Rightarrow> rat FleetMetrics option \<Rightarrow>
     'm \<Rightarrow> details \<Rightarrow> 'm view" where
  "HealthPage number_text GRAFANA_URL explain isLoading data metrics toggle st =
     (let ns = (case data of Some xs \<Rightarrow> xs | None \<Rightarrow> []); down = metrics_down metrics
      in el ''div''
          ([PageIntro [lit ''Is the fleet healthy?'']
             [lit ''Whether every server is ready to serve correct data, and how fast a change reaches all of them. Each server answers its own '',
              Term (js ''readyz'') (Some (js ''/readyz'')), lit '' check.'']
             [el ''span'' [el ''span'' [], Txt (health_headline ns metrics)]]
             [ela ''a'' [(''href'', GRAFANA_URL), (''target'', js ''_blank''), (''rel'', js ''noopener noreferrer'')]
               [lit ''Open Grafana'']]] @
           GuideCallout explain None
            [lit ''A server is '', Term (js ''readyz'') (Some (js ''ready'')),
             Txt (js '' only when it can reach its database and message bus and holds current config '' @ mdash @ js '' so the load balancer never sends you to one that can't answer correctly. ''),
             Term (js ''p99'') (Some (js ''p99'')),
             lit '' propagation is the near-worst case: 99% of changes land faster than that.''] @
           [AdvancedDetails (js ''Metrics & per-node readiness'') toggle
             [el ''div''
               [el ''div''
                 [MetricTile ''Live SSE clients''
                    (if down then None else map_option number_text (metric sseClients metrics)) ''connected'' None down,
                  MetricTile ''Propagation p99''
                    (if down then None else Some (ms_text (metric propagationP99 metrics))) ''ms''
                    (if down then None
                     else Some (js ''p50 '' @ ms_text (metric propagationP50 metrics) @ js '' '' @ middot @ js '' p95 '' @
                            ms_text (metric propagationP95 metrics) @ js '' ms'')) down,
                  el ''div''
                   [el ''div'' [el ''span'' [lit ''Nodes ready'']],
                    el ''div''
                     [el ''span'' [Txt (if ns = [] then mdash else js_nat (ready_count ns) @ js ''/'' @ js_nat (length ns))],
                      StatusPill (allReady ns) (ns \<noteq> []) (if allReady ns then ''healthy'' else ''degraded'')]]],
                el ''div''
                 [el ''p'' [lit ''Node readiness''],
                  el ''div''
                   (if isLoading \<and> ns = [] then map (\<lambda>i. el ''div'' []) [0..<3::nat] else map Health_NodeCard ns)],
                el ''p''
                 [lit ''Polling each node's '', el ''code'' [lit ''/readyz''],
                  lit '' every 4s; fleet metrics from Prometheus every 5s.'']]] st]))"

section \<open>The resilience page\<close>

record MergedNode =
  mg_url :: jsstring
  mg_nodeId :: json
  mg_configVersion :: "int option"
  mg_sseClients :: "int option"
  mg_reachable :: bool
  mg_ready :: bool
  mg_postgres :: "jsstring option"
  mg_redis :: "jsstring option"

definition readyByUrl :: "NodeReadiness list option \<Rightarrow> (jsstring, NodeReadiness) jsmap" where
  "readyByUrl readiness =
     foldl (\<lambda>m r. map_set (r_url r) r m) [] (case readiness of Some rs \<Rightarrow> rs | None \<Rightarrow> [])"

definition merge_node :: "NodeReadiness list option \<Rightarrow> NodeState \<Rightarrow> MergedNode" where
  "merge_node readiness n =
     (let r = map_get (readyByUrl readiness) (n_url n)
      in \<lparr>mg_url = n_url n, mg_nodeId = n_nodeId n, mg_configVersion = n_configVersion n,
          mg_sseClients = n_sseClients n, mg_reachable = n_ok n,
          mg_ready = (case r of Some x \<Rightarrow> r_ready x | None \<Rightarrow> False),
          mg_postgres = Option.bind r r_postgres, mg_redis = Option.bind r r_redis\<rparr>)"

definition merged_versions :: "MergedNode list \<Rightarrow> int list" where
  "merged_versions ns = List.map_filter (\<lambda>n. if mg_reachable n then mg_configVersion n else None) ns"

definition minVersion :: "MergedNode list \<Rightarrow> int" where
  "minVersion ns = (if merged_versions ns \<noteq> [] then Min (set (merged_versions ns)) else 0)"

definition resilience_banner :: "ClusterState option \<Rightarrow> jsstring" where
  "resilience_banner data =
     (if cluster_reachable data = 0 then js ''No nodes reachable''
      else if cluster_converged data then js ''Converged at v'' @ js_num (cluster_latest data)
      else js ''Diverging'')"

definition resilience_spread :: "ClusterState option \<Rightarrow> MergedNode list \<Rightarrow> jsstring" where
  "resilience_spread data ns =
     (let n = cluster_reachable data
      in if n = 0 then mdash
         else if cluster_converged data then js_nat n @ js '' node'' @ plural n @ js '' in sync''
         else js ''spread v'' @ js_num (minVersion ns) @ ellipsis @ js ''v'' @ js_num (cluster_latest data) @
              js '' across '' @ js_nat n @ js '' node'' @ plural n)"

definition ReadinessPill :: "bool \<Rightarrow> bool \<Rightarrow> 'm view" where
  "ReadinessPill reachable ready =
     (if \<not> reachable then el ''span'' [lit ''down''] else el ''span'' [lit (if ready then ''ready'' else ''unready'')])"

definition Resilience_DepStatus :: "string \<Rightarrow> jsstring option \<Rightarrow> 'm view" where
  "Resilience_DepStatus label val =
     ela ''span'' [(''title'', case val of Some t \<Rightarrow> t | None \<Rightarrow> js ''unknown'')]
      [el ''span'' [lit label], el ''span'' []]"

definition Resilience_NodeCard :: "MergedNode \<Rightarrow> 'm view" where
  "Resilience_NodeCard n =
     el ''div''
      [el ''div''
        [el ''div'' [el ''span'' [], el ''span'' [Txt (react_text (mg_nodeId n))]],
         ReadinessPill (mg_reachable n) (mg_ready n)],
       el ''div''
        [el ''div''
          [el ''p'' [lit ''config version''],
           el ''p'' [Txt (case (mg_reachable n, mg_configVersion n) of (True, Some v) \<Rightarrow> js ''v'' @ js_num v | _ \<Rightarrow> mdash)]],
         el ''span'' [el ''span'' [Txt (case mg_sseClients n of Some c \<Rightarrow> js_num c | None \<Rightarrow> mdash)]]],
       el ''div'' [Resilience_DepStatus ''postgres'' (mg_postgres n), Resilience_DepStatus ''redis'' (mg_redis n)]]"

definition SignalTile :: "string \<Rightarrow> jsstring \<Rightarrow> jsstring option \<Rightarrow> 'm view" where
  "SignalTile label val sub =
     el ''div''
      [el ''div'' [el ''span'' [lit label]],
       ela ''div'' [(''aria-live'', js ''polite'')]
        ([el ''span'' [Txt val]] @ (case sub of Some t \<Rightarrow> shown (t \<noteq> []) [el ''p'' [Txt t]] | None \<Rightarrow> []))]"

definition GuaranteesPanel :: "'m view" where
  "GuaranteesPanel =
     el ''div''
      [el ''div'' [el ''h3'' [lit ''What this system guarantees'']],
       el ''p''
        [el ''span'' [lit ''Eventual convergence with bounded, measured propagation latency and a durable source of truth''],
         Txt (js '' '' @ mdash @ js '' ''), el ''span'' [lit ''not''], lit '' high availability, and '', el ''span'' [lit ''not''],
         lit '' strong consistency.''],
       el ''ul''
        [el ''li''
          [el ''span'' [],
           el ''span''
            [el ''span'' [lit ''Last-known-good on infra failure.''],
             lit '' Writes commit to Postgres (the source of truth) before best-effort Redis fan-out; if Redis or a node drops, clients hold their last-known-good version and never regress or corrupt it.'']],
         el ''li''
          [el ''span'' [],
           el ''span''
            [el ''span'' [lit ''Reconcile from the durable log.''],
             lit '' Any missed live event is backfilled by replaying '',
             el ''code'' [lit ''/api/client/events?since=V''],
             lit '' in version order, so a reconnecting client catches up to the exact latest version.'']]]]"

definition ResiliencePage ::
  "(rat \<Rightarrow> jsstring) \<Rightarrow> bool \<Rightarrow> bool \<Rightarrow> ClusterState option \<Rightarrow> NodeReadiness list option \<Rightarrow>
     (rat option \<times> bool) option \<Rightarrow> 'm view" where
  "ResiliencePage number_text explain isLoading data readiness publishErrors =
     (let ns = map (merge_node readiness) (cluster_nodes data);
          readyCount = length (filter mg_ready ns);
          down = (case publishErrors of Some (t, u) \<Rightarrow> u | None \<Rightarrow> False);
          total = (case Option.bind publishErrors fst of Some t \<Rightarrow> t | None \<Rightarrow> 0)
      in el ''div''
          ([PageIntro [lit ''What happens when things break'']
             [lit ''A live, observe-only view of the cluster under failure. Faults are injected out-of-band by the '',
              el ''code'' [lit ''chaos/''], lit '' scripts; this page just watches each server '',
              el ''span'' [lit ''diverge and reconverge''], lit '' in real time.''] [] []] @
           GuideCallout explain None
            [Txt (js ''The database is the memory; Redis is the messenger. Lose the messenger and writes still work '' @ mdash @ js '' servers hold their last-known-good version and never go backwards. When the connection returns, each one quietly ''),
             Term (js ''reconcile'') (Some (js ''reconciles'')),
             lit '' by replaying what it missed, and the cluster '',
             Term (js ''convergence'') (Some (js ''converges'')), lit '' again.''] @
           [ela ''div'' [(''aria-live'', js ''polite'')]
             [el ''span'' [], el ''span'' [Txt (resilience_banner data)], el ''span'' [Txt (resilience_spread data ns)]],
            el ''div''
             [SignalTile ''Nodes ready'' (if ns = [] then mdash else js_nat readyCount @ js ''/'' @ js_nat (length ns)) None,
              SignalTile ''Latest version''
                (if cluster_reachable data = 0 then mdash else js ''v'' @ js_num (cluster_latest data)) None,
              SignalTile ''Redis publish errors'' (if down then mdash else number_text total)
                (Some (if down then js ''prometheus unavailable'' else js ''cumulative '' @ middot @ js '' fan-out health''))],
            el ''div''
             [el ''p'' [lit ''Per-node state''],
              el ''div''
               (if isLoading \<and> ns = [] then map (\<lambda>i. el ''div'' []) [0..<3::nat] else map Resilience_NodeCard ns)],
            GuaranteesPanel,
            el ''p''
             [lit ''Polling each node's '', el ''code'' [lit ''/api/client/version''], lit '' and '',
              el ''code'' [lit ''/readyz''],
              lit '' every 1.5s; Redis publish errors from Prometheus every 2s.'']]))"

section \<open>What the pages say about the fleet\<close>

lemma length_filter_all: "length (filter P xs) = length xs \<longleftrightarrow> (\<forall>x \<in> set xs. P x)"
  by (metis filter_True length_filter_less less_irrefl)

lemma fetchReadyz_ready:
  "r_ready (fetchReadyz u res) \<longleftrightarrow> (\<exists>j. res = Some (Some j) \<and> field ''ready'' j = Some (JBool True))"
  by (auto simp: fetchReadyz_def Let_def split: option.split)

lemma merged_versions_eq:
  "merged_versions (map (merge_node rd) ns) = List.map_filter (\<lambda>n. if n_ok n then n_configVersion n else None) ns"
  by (simp add: merged_versions_def merge_node_def List.map_filter_def comp_def filter_map Let_def)

lemma mem_merged_versions:
  "v \<in> set (merged_versions (map (merge_node rd) ns)) \<longleftrightarrow> (\<exists>n \<in> set ns. n_ok n \<and> n_configVersion n = Some v)"
  unfolding merged_versions_eq by (rule reported_versions)

section \<open>Properties of the pages\<close>

text \<open>The spread the resilience page shows is a real one: with a version reported by a
  reachable node, its ends enclose every reported version and are reported themselves,
  and they coincide exactly when the page says the fleet has converged.\<close>

theorem resilience_spread_is_real:
  fixes rd :: "NodeReadiness list option"
  assumes "n \<in> set ns" "n_ok n" "n_configVersion n = Some v"
  defines "ms \<equiv> map (merge_node rd) ns"
  shows "minVersion ms \<le> v \<and> v \<le> cluster_latest (Some (cluster_of ns)) \<and>
         (\<exists>m \<in> set ns. n_ok m \<and> n_configVersion m = Some (minVersion ms)) \<and>
         (\<exists>m \<in> set ns. n_ok m \<and> n_configVersion m = Some (cluster_latest (Some (cluster_of ns)))) \<and>
         (minVersion ms = cluster_latest (Some (cluster_of ns)) \<longleftrightarrow> cluster_converged (Some (cluster_of ns)))"
proof -
  let ?vs = "merged_versions ms"
  have mem: "w \<in> set ?vs \<longleftrightarrow> (\<exists>m \<in> set ns. n_ok m \<and> n_configVersion m = Some w)" for w
    unfolding ms_def by (rule mem_merged_versions)
  have v: "v \<in> set ?vs" using assms(1-3) mem by blast
  then have ne: "?vs \<noteq> []" by auto
  then have ends: "minVersion ms = Min (set ?vs)" "cluster_latest (Some (cluster_of ns)) = Max (set ?vs)"
    by (simp_all add: minVersion_def cluster_latest_def cluster_of_def Let_def ms_def merged_versions_eq)
  have conv: "cluster_converged (Some (cluster_of ns)) \<longleftrightarrow> (\<forall>w \<in> set ?vs. w = hd ?vs)"
    using ne by (simp add: cluster_converged_def cluster_of_def Let_def ms_def merged_versions_eq list_all_iff)
  have "Min (set ?vs) = Max (set ?vs) \<longleftrightarrow> (\<forall>w \<in> set ?vs. w = hd ?vs)"
  proof
    assume eq: "Min (set ?vs) = Max (set ?vs)"
    have "Min (set ?vs) \<le> w \<and> w \<le> Max (set ?vs)" if "w \<in> set ?vs" for w using that by simp
    then have "w = Min (set ?vs)" if "w \<in> set ?vs" for w using that eq by (metis order_antisym)
    then show "\<forall>w \<in> set ?vs. w = hd ?vs" using ne by (metis hd_in_set)
  next
    assume "\<forall>w \<in> set ?vs. w = hd ?vs"
    then have "set ?vs = {hd ?vs}" using ne hd_in_set by blast
    then show "Min (set ?vs) = Max (set ?vs)" by (metis Max_singleton Min_singleton)
  qed
  moreover have "Min (set ?vs) \<in> set ?vs" "Max (set ?vs) \<in> set ?vs" using ne by simp_all
  ultimately show ?thesis using v unfolding ends conv by (simp add: mem)
qed

definition two_nodes :: "NodeState list" where
  "two_nodes = [\<lparr>n_url = js ''a'', n_nodeId = JStr (js ''a''), n_configVersion = Some 7, n_sseClients = None, n_ok = True\<rparr>,
     \<lparr>n_url = js ''b'', n_nodeId = JStr (js ''b''), n_configVersion = Some 9, n_sseClients = None, n_ok = True\<rparr>]"

theorem resilience_spread_is_real_witness:
  "\<not> cluster_converged (Some (cluster_of two_nodes)) \<and>
   minVersion (map (merge_node None) two_nodes) \<le> 7 \<and> 9 \<le> cluster_latest (Some (cluster_of two_nodes))"
proof -
  have "\<not> cluster_converged (Some (cluster_of two_nodes))"
    by (simp add: two_nodes_def cluster_converged_def cluster_of_def List.map_filter_def Let_def)
  then show ?thesis
    using resilience_spread_is_real [of "hd two_nodes" two_nodes 7] resilience_spread_is_real [of "last two_nodes" two_nodes 9]
    by (simp add: two_nodes_def)
qed

text \<open>The health page counts a node as ready exactly when its own answer was read as JSON whose
  field is the boolean true: an unreachable node, an unreadable body, a missing field and
  any other value count as not ready, and with no node configured nothing is healthy.\<close>

theorem health_all_ready_iff:
  "allReady (useReadiness urls fetch) \<longleftrightarrow>
     urls \<noteq> [] \<and> (\<forall>u \<in> set urls. \<exists>j. fetch u = Some (Some j) \<and> field ''ready'' j = Some (JBool True))"
  unfolding allReady_def ready_count_def length_filter_all
  by (auto simp: useReadiness_def fetchReadyz_ready)

end
