(* ===== verification/Overview.thy ===== *)
theory Overview
  imports FleetPages
begin

text \<open>
  The first page of the app (\<^verbatim>\<open>app/page.tsx\<close>): its counts over the flag list, the strip that
  sums up the fleet, and the links. The animated hero, the console and the button that opens
  the tour, already rendered, are arguments.
\<close>

section \<open>The counts\<close>

definition flags_total :: "'s Flag list option \<Rightarrow> nat" where
  "flags_total fs = (case fs of Some xs \<Rightarrow> length xs | None \<Rightarrow> 0)"

definition flags_enabled :: "'s Flag list option \<Rightarrow> nat" where
  "flags_enabled fs = (case fs of Some xs \<Rightarrow> length (filter enabled xs) | None \<Rightarrow> 0)"

text \<open>\<^verbatim>\<open>Math.round\<close> of the quotient. Both operands are integers far below \<^verbatim>\<open>2^53\<close>, and the
  quotient is a percentage, so the double nearest to it rounds the way the fraction does.\<close>

definition avgRollout :: "'s Flag list option \<Rightarrow> int" where
  "avgRollout fs =
     (case fs of
        None \<Rightarrow> 0
      | Some xs \<Rightarrow>
          if xs = [] then 0
          else floor (rat_of_int (foldl (\<lambda>s f. s + rollout_percentage f) 0 xs) / rat_of_nat (length xs) + 1 / 2))"

definition flags_targeted :: "'s Flag list option \<Rightarrow> nat" where
  "flags_targeted fs =
     (case fs of Some xs \<Rightarrow> length (filter (\<lambda>f. length (targeted_users f) > 0) xs) | None \<Rightarrow> 0)"

section \<open>The fleet strip\<close>

definition strip_ms :: "rat option \<Rightarrow> jsstring" where
  "strip_ms seconds =
     (case seconds of
        None \<Rightarrow> mdash
      | Some s \<Rightarrow>
          (let v = s * 1000
           in if v \<ge> 100 then js_num (floor (v + 1 / 2))
              else if v < 0 then js ''-'' @ toFixed1 (- v) else toFixed1 v))"

definition StripMetric :: "jsstring option \<Rightarrow> string \<Rightarrow> 'm view" where
  "StripMetric val unit =
     el ''span''
      [el ''span'' [Txt (case val of Some t \<Rightarrow> t | None \<Rightarrow> mdash)], el ''span'' [lit unit]]"

definition HealthStrip ::
  "(rat \<Rightarrow> jsstring) \<Rightarrow> NodeReadiness list option \<Rightarrow> rat FleetMetrics option \<Rightarrow> 'm view" where
  "HealthStrip number_text nodeData metrics =
     (let nodeList = (case nodeData of Some ns \<Rightarrow> ns | None \<Rightarrow> []);
          readyCount = length (filter r_ready nodeList);
          total = length nodeList;
          down = metrics_down metrics
      in ela ''Link'' [(''href'', js ''/health'')]
          [el ''span'' [el ''span'' [lit ''Fleet health'']],
           el ''span''
            [el ''span'' [],
             el ''span'' [Txt (if total = 0 then mdash else js_nat readyCount @ js ''/'' @ js_nat total)],
             el ''span'' [lit ''ready'']],
           StripMetric (if down then None else map_option number_text (metric sseClients metrics)) ''SSE'',
           StripMetric (if down then None else Some (strip_ms (metric propagationP99 metrics))) ''ms p99'',
           el ''span'' [lit ''Health'']])"

section \<open>The page\<close>

definition StatTile :: "string \<Rightarrow> jsstring \<Rightarrow> jsstring option \<Rightarrow> 'm view" where
  "StatTile label val hint =
     el ''div''
      [el ''div'' [el ''span'' [lit label]],
       el ''div''
        ([el ''span'' [Txt val]] @
         (case hint of Some h \<Rightarrow> shown (h \<noteq> []) [el ''span'' [Txt h]] | None \<Rightarrow> []))]"

definition ActionCard :: "string \<Rightarrow> string \<Rightarrow> string \<Rightarrow> string \<Rightarrow> 'm view" where
  "ActionCard title descr href cta =
     el ''div''
      [el ''span'' [], el ''h3'' [lit title], el ''p'' [lit descr],
       ela ''Link'' [(''href'', js href)] [lit cta]]"

definition OverviewPage ::
  "(rat \<Rightarrow> jsstring) \<Rightarrow> bool \<Rightarrow> jsstring FlagsResponse option \<Rightarrow> NodeReadiness list option \<Rightarrow>
     rat FleetMetrics option \<Rightarrow> 'm \<Rightarrow> details \<Rightarrow> 'm view \<Rightarrow> 'm view \<Rightarrow> 'm view \<Rightarrow> 'm view" where
  "OverviewPage number_text explain data nodeData metrics toggle st tour_button hero console =
     (let fs = map_option flags data; total = flags_total fs
      in el ''div''
          ([PageIntro [lit ''Watch a feature flag come to life'']
             [Txt (js ''A feature flag is a switch for your app you can flip without a redeploy. This one runs for real across three servers '' @ mdash @ js '' flip it below and follow the change end to end.'')]
             [] [tour_button]] @
           GuideCallout explain None
            [lit ''Start here. Flip '', el ''code'' [lit ''hero-demo''],
             Txt (js '' and watch a single change become a new version, save to the database, and reach every server and this browser '' @ mdash @ js '' all live. That trip is called ''),
             Term (js ''propagation'') (Some (js ''propagation'')),
             lit '', and it's the whole point of the system.''] @
           [hero, console,
            HealthStrip number_text nodeData metrics,
            AdvancedDetails (js ''Flag inventory'') toggle
             [el ''div''
               [StatTile ''Total flags'' (js_nat total) None,
                StatTile ''Enabled'' (js_nat (flags_enabled fs)) (if total \<noteq> 0 then Some (js ''of '' @ js_nat total) else None),
                StatTile ''Avg rollout'' (js_num (avgRollout fs) @ js ''%'') None,
                StatTile ''With targeting'' (js_nat (flags_targeted fs)) None]] st,
            el ''div''
             [ActionCard ''Manage flags'' ''Create, roll out, target, and toggle feature flags.'' ''/flags'' ''Open flags'',
              ActionCard ''Try the demo'' ''See per-user local evaluation as flags change live.'' ''/demo'' ''Open demo'']]))"

section \<open>The counts are what they say\<close>

lemma foldl_sum: "foldl (\<lambda>s f. s + g f) (a::int) xs = a + sum_list (map g xs)"
  by (induction xs arbitrary: a) auto

lemma sum_list_between:
  "(\<And>x. x \<in> set xs \<Longrightarrow> lo \<le> g x \<and> g x \<le> hi) \<Longrightarrow>
   int (length xs) * lo \<le> sum_list (map g xs) \<and> sum_list (map g xs) \<le> int (length xs) * (hi::int)"
  by (induction xs) (force simp: algebra_simps)+

lemma rounded_mean_between:
  assumes "xs \<noteq> []" "\<And>x. x \<in> set xs \<Longrightarrow> lo \<le> g x \<and> g x \<le> (hi::int)"
  shows "lo \<le> floor (rat_of_int (sum_list (map g xs)) / rat_of_nat (length xs) + 1 / 2) \<and>
         floor (rat_of_int (sum_list (map g xs)) / rat_of_nat (length xs) + 1 / 2) \<le> hi"
proof -
  let ?s = "sum_list (map g xs)" let ?n = "rat_of_nat (length xs)"
  have n: "0 < ?n" using assms(1) by simp
  have "int (length xs) * lo \<le> ?s \<and> ?s \<le> int (length xs) * hi" using assms(2) by (rule sum_list_between)
  then have "?n * rat_of_int lo \<le> rat_of_int ?s \<and> rat_of_int ?s \<le> ?n * rat_of_int hi"
    by (metis of_int_le_iff of_int_mult of_int_of_nat_eq)
  then have "rat_of_int lo \<le> rat_of_int ?s / ?n \<and> rat_of_int ?s / ?n \<le> rat_of_int hi"
    using n by (simp add: pos_le_divide_eq pos_divide_le_eq mult.commute)
  then show ?thesis by (simp add: le_floor_iff floor_le_iff)
qed

text \<open>The average the first page shows lies between the smallest and the largest rollout of the
  flags, so it is a percentage whenever the rollouts are, and it is the common value when they agree;
  the other counts never exceed the number of flags.\<close>

theorem overview_counts_bounded:
  assumes "xs \<noteq> []" "\<forall>f \<in> set xs. lo \<le> rollout_percentage f \<and> rollout_percentage f \<le> hi"
  shows "lo \<le> avgRollout (Some xs) \<and> avgRollout (Some xs) \<le> hi \<and>
         flags_enabled (Some xs) \<le> flags_total (Some xs) \<and> flags_targeted (Some xs) \<le> flags_total (Some xs)"
  using rounded_mean_between [of xs lo rollout_percentage hi] assms
  by (simp add: avgRollout_def foldl_sum flags_enabled_def flags_total_def flags_targeted_def)

definition two_flags :: "jsstring Flag list" where
  "two_flags = map (\<lambda>p. \<lparr>key = js ''a'', enabled = True, rollout_percentage = p, targeted_users = [],
     flag_id = js ''1'', description = [], version = 1, created_at = 0, updated_at = 0\<rparr>) [25, 50]"

theorem overview_counts_bounded_witness:
  "avgRollout (Some two_flags) = 38 \<and> 25 \<le> avgRollout (Some two_flags) \<and> avgRollout (Some two_flags) \<le> 50"
  using overview_counts_bounded [of two_flags 25 50]
  by (simp add: two_flags_def avgRollout_def)

end
