(* ===== verification/Shell.thy ===== *)
theory Shell
  imports FlagViews
begin

text \<open>
  What surrounds the pages (\<^verbatim>\<open>components/layout\<close>, \<^verbatim>\<open>app/layout.tsx\<close>, \<^verbatim>\<open>app/providers.tsx\<close>) and the
  pages that only show text (\<^verbatim>\<open>app/learn\<close>, \<^verbatim>\<open>app/glossary\<close>, \<^verbatim>\<open>app/flags\<close>): the navigation, the title
  of a path, the status in the top bar, the chapters of the learning path.
\<close>

section \<open>Sidebar\<close>

datatype nav_status = NavLive | NavSoon

record NavItem =
  nav_href :: jsstring
  nav_label :: jsstring
  nav_status :: nav_status

definition navItems :: "NavItem list" where
  "navItems =
    [\<lparr>nav_href = js ''/'', nav_label = js ''Overview'', nav_status = NavLive\<rparr>,
     \<lparr>nav_href = js ''/flags'', nav_label = js ''Flags'', nav_status = NavLive\<rparr>,
     \<lparr>nav_href = js ''/demo'', nav_label = js ''Demo'', nav_status = NavLive\<rparr>,
     \<lparr>nav_href = js ''/cluster'', nav_label = js ''Cluster'', nav_status = NavLive\<rparr>,
     \<lparr>nav_href = js ''/health'', nav_label = js ''Health'', nav_status = NavLive\<rparr>,
     \<lparr>nav_href = js ''/resilience'', nav_label = js ''Resilience'', nav_status = NavLive\<rparr>]"

definition learnItems :: "NavItem list" where
  "learnItems =
    [\<lparr>nav_href = js ''/learn'', nav_label = js ''Learn'', nav_status = NavLive\<rparr>,
     \<lparr>nav_href = js ''/playground'', nav_label = js ''Playground'', nav_status = NavLive\<rparr>,
     \<lparr>nav_href = js ''/glossary'', nav_label = js ''Glossary'', nav_status = NavLive\<rparr>]"

text \<open>\<^verbatim>\<open>s.startsWith(p)\<close>.\<close>

definition starts_with :: "jsstring \<Rightarrow> jsstring \<Rightarrow> bool" where
  "starts_with p s \<longleftrightarrow> take (length p) s = p"

definition isActive :: "jsstring \<Rightarrow> NavItem \<Rightarrow> bool" where
  "isActive pathname item \<longleftrightarrow>
     pathname = nav_href item \<or>
     (nav_href item \<noteq> js ''/'' \<and> starts_with (nav_href item @ js ''/'') pathname)"

definition renderItem :: "jsstring \<Rightarrow> NavItem \<Rightarrow> 'm view" where
  "renderItem pathname item =
     (let active = isActive pathname item;
          isSoon = (nav_status item = NavSoon);
          content = [el ''span'' [Txt (nav_label item)]] @ shown isSoon [el ''span'' [lit ''soon'']]
      in if isSoon
         then ela ''span'' [(''aria-disabled'', js ''true''), (''title'', js ''Ships with its phase of the roadmap'')] content
         else ela ''Link''
               ([(''href'', nav_href item)] @ (if active then [(''aria-current'', js ''page'')] else []))
               (shown active [el ''span'' []] @ content))"

definition Sidebar :: "jsstring \<Rightarrow> 'm view" where
  "Sidebar pathname =
     el ''aside''
      [ela ''Link'' [(''href'', js ''/'')] [el ''span'' [], el ''span'' [lit ''FlagPlane'']],
       el ''nav''
        ([el ''p'' [lit ''Control plane'']] @ map (renderItem pathname) navItems @
         [el ''p'' [lit ''Learn'']] @ map (renderItem pathname) learnItems),
       el ''div'' [ColorLegend, el ''p'' [Txt (js ''Self-hosted '' @ middot @ js '' Go + Postgres + Redis'')]]]"

section \<open>TopBar\<close>

definition PAGE_TITLES :: "(jsstring \<times> jsstring) list" where
  "PAGE_TITLES =
    [(js ''/flags'', js ''Flags''), (js ''/demo'', js ''Demo''), (js ''/cluster'', js ''Cluster''),
     (js ''/health'', js ''Health''), (js ''/resilience'', js ''Resilience''), (js ''/learn'', js ''Learn''),
     (js ''/playground'', js ''Playground''), (js ''/glossary'', js ''Glossary'')]"

definition pageTitle :: "jsstring \<Rightarrow> jsstring" where
  "pageTitle pathname =
     (if pathname = js ''/'' then js ''Overview''
      else if starts_with (js ''/flags/new'') pathname then js ''New flag''
      else if starts_with (js ''/flags/'') pathname then js ''Flag detail''
      else case find (\<lambda>p. starts_with (fst p) pathname) PAGE_TITLES of
             Some p \<Rightarrow> snd p
           | None \<Rightarrow> js ''FlagPlane'')"

datatype topbar_msg = SetTheme jsstring | BarTour tour_msg | BarExplain explain_msg

definition ThemeToggle :: "topbar_msg view" where
  "ThemeToggle =
     el ''DropdownMenu''
      [ela ''Trigger'' [(''aria-label'', js ''Toggle theme'')] [],
       el ''Content''
        [Elem ''Item'' [] [(''click'', msg (SetTheme (js ''light'')))] [lit ''Light''],
         Elem ''Item'' [] [(''click'', msg (SetTheme (js ''dark'')))] [lit ''Dark''],
         Elem ''Item'' [] [(''click'', msg (SetTheme (js ''system'')))] [lit ''System'']]]"

definition MobileNav :: "'m view" where
  "MobileNav =
     el ''DropdownMenu''
      [ela ''Trigger'' [(''aria-label'', js ''Open navigation'')] [],
       el ''Content''
        [ela ''Link'' [(''href'', js ''/flags'')] [lit '' Flags''],
         ela ''Link'' [(''href'', js ''/demo'')] [lit '' Demo''],
         ela ''Link'' [(''href'', js ''/cluster'')] [lit '' Cluster''],
         ela ''Link'' [(''href'', js ''/health'')] [lit '' Health''],
         ela ''Link'' [(''href'', js ''/resilience'')] [lit '' Resilience''],
         ela ''Link'' [(''href'', js ''/learn'')] [lit '' Learn''],
         ela ''Link'' [(''href'', js ''/playground'')] [lit '' Playground''],
         ela ''Link'' [(''href'', js ''/glossary'')] [lit '' Glossary'']]]"

definition TopBar ::
  "bool \<Rightarrow> jsstring \<Rightarrow> 's FlagsResponse option \<Rightarrow> bool \<Rightarrow> bool \<Rightarrow> topbar_msg view" where
  "TopBar explain pathname data isError isSuccess =
     (let connected = (isSuccess \<and> \<not> isError); configVersion = map_option config_version data
      in el ''header''
          [MobileNav,
           el ''h1'' [Txt (pageTitle pathname)],
           el ''div''
            [el ''span'' [lit ''local''],
             el ''Tooltip''
              [ela ''span'' [(''aria-live'', js ''polite'')]
                [lit ''config '', el ''span'' [lit ''v'', Txt (case configVersion of Some v \<Rightarrow> js_num v | None \<Rightarrow> mdash)]],
               el ''TooltipContent'' [Txt (js ''Global config version '' @ mdash @ js '' bumps on every committed change'')]],
             el ''Tooltip''
              [ela ''span'' [(''aria-live'', js ''polite'')]
                [el ''span'' [], el ''span'' [lit (if connected then ''Live'' else ''Offline'')]],
               el ''TooltipContent''
                [lit (if connected then ''Connected to the control plane'' else ''Cannot reach the API at :8080'')]],
             map_view BarTour TourButton,
             map_view BarExplain (ExplainToggle explain),
             ThemeToggle]])"

section \<open>The frame of every page\<close>

text \<open>The providers hand the Explain switch to everything below them; the query cache starts
  empty, calls a result stale after five seconds and refetches when the window gets the focus.\<close>

record query_defaults =
  staleTime :: int
  refetchOnWindowFocus :: bool

definition query_client :: query_defaults where
  "query_client = \<lparr>staleTime = 5 * 1000, refetchOnWindowFocus = True\<rparr>"

definition Providers :: "bool \<Rightarrow> explain_store \<Rightarrow> (bool \<Rightarrow> 'm view list) \<Rightarrow> 'm view list" where
  "Providers server st children = children (ExplainProvider server st)"

definition RootLayout ::
  "bool \<Rightarrow> explain_store \<Rightarrow> (bool \<Rightarrow> 'm view) \<Rightarrow> (bool \<Rightarrow> 'm view) \<Rightarrow> 'm view \<Rightarrow> 'm view list \<Rightarrow> 'm view \<Rightarrow> 'm view" where
  "RootLayout server st sidebar topBar children guidedTour toaster =
     ela ''html'' [(''lang'', js ''en'')]
      [el ''body''
        (Providers server st (\<lambda>explain.
           [el ''div'' [sidebar explain, el ''div'' [topBar explain, el ''main'' [children]]]] @ guidedTour @ [toaster]))]"

definition FlagsPage :: "bool \<Rightarrow> bool \<Rightarrow> jsstring FlagsResponse query_state \<Rightarrow> list_msg view" where
  "FlagsPage explain isPending q = FlagList explain isPending q"

section \<open>Glossary\<close>

definition glossary_entry :: "GlossaryEntry \<Rightarrow> 'm view" where
  "glossary_entry entry =
     ela ''div'' [(''id'', g_id entry)]
      [el ''dt'' [Txt (g_term entry)],
       el ''dd''
        [el ''p'' [Txt (g_definition entry)],
         el ''p'' [el ''span'' [lit ''Like''], el ''span'' [Txt (g_analogy entry)]]]]"

definition GlossaryPage :: "bool \<Rightarrow> 'm view" where
  "GlossaryPage explain =
     el ''div''
      ([PageIntro [lit ''Glossary'']
         [Txt (js ''Every concept this system teaches, in plain English '' @ mdash @ js '' with the everyday analogy that makes it stick.'')] [] []] @
       GuideCallout explain None
        [lit ''These are the words the rest of the app links to. Wherever you see a '',
         el ''span'' [lit ''dotted underline''],
         Txt (js '', it points back here '' @ mdash @ js '' so you never have to already know the jargon.'')] @
       [el ''dl'' (map glossary_entry GLOSSARY)])"

section \<open>Learn\<close>

record Chapter =
  ch_n :: nat
  ch_title :: jsstring
  ch_line :: jsstring
  ch_termId :: "jsstring option"
  ch_href :: jsstring
  ch_seeLabel :: jsstring

definition CHAPTERS :: "Chapter list" where
  "CHAPTERS =
    [\<lparr>ch_n = 1, ch_title = js ''What a feature flag is'',
      ch_line = js ''A switch for your app you can flip without shipping new code '' @ mdash @ js '' turn a feature on for everyone, no one, or just some people.'',
      ch_termId = None, ch_href = js ''/'', ch_seeLabel = js ''Flip one on the Overview''\<rparr>,
     \<lparr>ch_n = 2, ch_title = js ''Percentage rollouts & determinism'',
      ch_line = js ''Turn a feature on for a fixed share of users. It isn't random per request: each user gets a stable dice roll, so the same person always lands the same side.'',
      ch_termId = Some (js ''rollout''), ch_href = js ''/demo'', ch_seeLabel = js ''Drag the rollout on the Demo''\<rparr>,
     \<lparr>ch_n = 3, ch_title = js ''Targeting'',
      ch_line = js ''An always-on allow-list of specific users, checked before the percentage '' @ mdash @ js '' so your beta testers or your own account see a feature immediately.'',
      ch_termId = Some (js ''targeting''), ch_href = js ''/demo'', ch_seeLabel = js ''Check '' @ [0x201C] @ js ''Why ON/OFF?'' @ [0x201D]\<rparr>,
     \<lparr>ch_n = 4, ch_title = js ''Local evaluation'',
      ch_line = js ''The SDK decides on the device with identical math and zero network calls '' @ mdash @ js '' that's why it's instant and keeps working offline.'',
      ch_termId = Some (js ''local-evaluation''), ch_href = js ''/demo'', ch_seeLabel = js ''Switch users on the Demo''\<rparr>,
     \<lparr>ch_n = 5, ch_title = js ''Real-time updates (SSE)'',
      ch_line = js ''Changes are pushed to every client the instant they happen over a live stream '' @ mdash @ js '' a radio you tune into, not a number you keep re-dialing.'',
      ch_termId = Some (js ''sse''), ch_href = js ''/cluster'', ch_seeLabel = js ''Watch the live feed''\<rparr>,
     \<lparr>ch_n = 6, ch_title = js ''Many servers & convergence'',
      ch_line = js ''Flags run on three backends at once. Right after a change they can briefly differ, then all agree '' @ mdash @ js '' that moment is convergence.'',
      ch_termId = Some (js ''convergence''), ch_href = js ''/cluster'', ch_seeLabel = js ''See it converge''\<rparr>,
     \<lparr>ch_n = 7, ch_title = js ''Versioning & safe edits'',
      ch_line = js ''Every change bumps a version and is recorded durably, so two people editing at once never silently clobber each other.'',
      ch_termId = Some (js ''versioning''), ch_href = js ''/flags'', ch_seeLabel = js ''Open a flag's history''\<rparr>,
     \<lparr>ch_n = 8, ch_title = js ''Failure & recovery'',
      ch_line = js ''Lose the messenger or a server and writes still work '' @ mdash @ js '' everyone holds last-known-good and quietly catches up when it returns.'',
      ch_termId = Some (js ''reconcile''), ch_href = js ''/resilience'', ch_seeLabel = js ''Watch it recover''\<rparr>]"

definition ChapterCard :: "Chapter \<Rightarrow> 'm view" where
  "ChapterCard c =
     (let entry = (case ch_termId c of Some i \<Rightarrow> (if i \<noteq> [] then GLOSSARY_BY_ID i else None) | None \<Rightarrow> None)
      in el ''li''
          [el ''div''
            [el ''span'' [],
             el ''div''
              ([el ''div''
                 [el ''span'' [Txt (replicate (2 - length (js_num (int (ch_n c)))) (hd (js ''0'')) @ js_num (int (ch_n c)))],
                  el ''h3'' [Txt (ch_title c)]],
                el ''p'' [Txt (ch_line c)]] @
               (case entry of
                  Some e \<Rightarrow> [el ''p'' [el ''span'' [lit ''Like''], el ''span'' [Txt (g_analogy e)]]]
                | None \<Rightarrow> []) @
               [el ''div''
                 ([ela ''Link'' [(''href'', ch_href c)] [Txt (ch_seeLabel c)]] @
                  (case (entry, ch_termId c) of
                     (Some e, Some i) \<Rightarrow> [ela ''Link'' [(''href'', js ''/glossary#'' @ i)] [lit ''Definition'']]
                   | _ \<Rightarrow> []))])]])"

definition LearnPage :: "bool \<Rightarrow> tour_msg view" where
  "LearnPage explain =
     el ''div''
      ([PageIntro [lit ''Learn feature flags by doing'']
         [Txt (js ''Eight short chapters, in order, from '' @ [0x201C] @ js ''what's a flag'' @ [0x201D] @ js '' to '' @ [0x201C] @ js ''how it survives a server going down.'' @ [0x201D] @ js '' Each one links to the live screen where you can watch it happen.'')]
         [] [TourButton]] @
       GuideCallout explain None
        [Txt (js ''New here? Read these top to bottom '' @ mdash @ js '' each concept builds on the last. Or jump straight to whatever you're curious about and follow the ''),
         el ''span'' [lit ''See it''], lit '' link to the real thing.''] @
       [el ''ol'' (map ChapterCard CHAPTERS),
        el ''div''
         [el ''div''
           [el ''h3'' [lit ''Ready to experiment?''],
            el ''p'' [Txt (js ''Build a flag with zero risk '' @ mdash @ js '' nothing you do there is saved.'')]],
          el ''div''
           [ela ''Link'' [(''href'', js ''/glossary'')] [lit ''Glossary''],
            ela ''Link'' [(''href'', js ''/playground'')] [lit ''Open the Playground'']]]])"

section \<open>Paths, titles and links fit together\<close>

lemma starts_with_append: "starts_with p s \<longleftrightarrow> (\<exists>r. s = p @ r)"
  unfolding starts_with_def by (metis append_eq_conv_conj append_take_drop_id)

lemma starts_with_short:
  "length a \<le> length b \<Longrightarrow> starts_with (js a) (js b @ r) \<longleftrightarrow> take (length a) b = a"
  using js_eq_iff [of "take (length a) b" a] by (simp add: starts_with_def js_def take_map)

lemma starts_with_long:
  assumes "length b < length a" "take (length b) a \<noteq> b"
  shows "\<not> starts_with (js a) (js b @ r)"
proof
  assume "starts_with (js a) (js b @ r)"
  then have "take (length b) (take (length (js a)) (js b @ r)) = take (length b) (js a)"
    by (simp add: starts_with_def)
  then have "js b = js (take (length b) a)"
    using assms(1) by (simp add: js_def take_map min_absorb1)
  then show False using assms(2) by simp
qed

lemma starts_with_longer: "length b < length a \<Longrightarrow> \<not> starts_with (js a) (js b)"
  by (auto simp: starts_with_append js_def dest: arg_cong [where f = length])

lemma path_root:
  assumes "2 \<le> length a"
  shows "js a @ r \<noteq> js ''/''"
proof
  assume "js a @ r = js ''/''"
  then have "length (js a @ r) = length (js ''/'')" by (rule arg_cong)
  then show False using assms by (simp add: js_def)
qed

lemmas path_simps = starts_with_short starts_with_long starts_with_short [where r = "[]", simplified]
  starts_with_longer

lemma isActive_cases:
  assumes "isActive p it" "nav_href it = js h"
  obtains "p = js h" | r where "h \<noteq> ''/''" "p = js (h @ ''/'') @ r"
  using assms by (auto simp: isActive_def starts_with_append simp flip: js_append)

definition nav_entries :: "NavItem list" where
  "nav_entries = navItems @ learnItems"

text \<open>The first segment of a path tells the entries apart.\<close>

definition segment :: "jsstring \<Rightarrow> jsstring" where
  "segment p = takeWhile (\<lambda>c. c \<noteq> 47) (drop 1 p)"

lemma active_segment:
  assumes "it \<in> set nav_entries" "isActive p it"
  shows "segment p = segment (nav_href it)"
  using assms
  by (auto simp: nav_entries_def navItems_def learnItems_def isActive_def segment_def starts_with_append)
    (simp_all add: js_def)

lemma active_unique:
  assumes "it \<in> set nav_entries" "isActive p it" "x \<in> set nav_entries" "isActive p x"
  shows "x = it"
proof -
  have "segment (nav_href x) = segment (nav_href it)" using assms active_segment by metis
  moreover have "inj_on (\<lambda>x. segment (nav_href x)) (set nav_entries)"
    by (simp add: nav_entries_def navItems_def learnItems_def segment_def js_def)
  ultimately show ?thesis using assms by (auto dest: inj_onD)
qed

definition nav_entry_ok :: "jsstring \<Rightarrow> NavItem \<Rightarrow> bool" where
  "nav_entry_ok p it \<longleftrightarrow>
     (isActive p it \<longrightarrow> \<not> starts_with (js ''/flags/'') p \<longrightarrow> pageTitle p = nav_label it)"

lemma active_title:
  assumes "h \<noteq> ''/''" "pageTitle (js h) = js l"
    "\<And>r. \<not> starts_with (js ''/flags/'') (js (h @ ''/'') @ r) \<Longrightarrow> pageTitle (js (h @ ''/'') @ r) = js l"
  shows "nav_entry_ok p \<lparr>nav_href = js h, nav_label = js l, nav_status = st\<rparr>"
  unfolding nav_entry_ok_def using assms by (auto elim!: isActive_cases)

lemma nav_entries_ok: "\<forall>it \<in> set nav_entries. nav_entry_ok p it"
proof -
  have root: "nav_entry_ok p \<lparr>nav_href = js ''/'', nav_label = js ''Overview'', nav_status = NavLive\<rparr>"
    by (simp add: nav_entry_ok_def isActive_def pageTitle_def)
  show ?thesis
    unfolding nav_entries_def navItems_def learnItems_def append.simps list.set ball_simps
    by (intro conjI TrueI root; rule active_title; simp add: pageTitle_def PAGE_TITLES_def path_simps path_root del: js_append)
qed

lemma filter_single: "distinct xs \<Longrightarrow> x \<in> set xs \<Longrightarrow> filter (\<lambda>y. y = x) xs = [x]"
  by (induction xs) (auto simp: filter_empty_conv)

lemma distinct_nav_entries: "distinct nav_entries"
proof -
  have "distinct (map nav_label nav_entries)" by (simp add: nav_entries_def navItems_def learnItems_def)
  then show ?thesis by (simp add: distinct_map)
qed

text \<open>The targets of the links of a tree, and the ids it offers to link to.\<close>

fun links :: "'m view \<Rightarrow> jsstring list" where
  "links (Txt s) = []"
| "links (Elem tag as hs cs) = map snd (filter (\<lambda>a. fst a = ''href'') as) @ concat (map links cs)"

fun anchors :: "'m view \<Rightarrow> jsstring list" where
  "anchors (Txt s) = []"
| "anchors (Elem tag as hs cs) = map snd (filter (\<lambda>a. fst a = ''id'') as) @ concat (map anchors cs)"

lemma links_shown [simp]: "concat (map links (shown b vs)) = (if b then concat (map links vs) else [])"
  by (simp add: shown_def)

lemma anchors_shown [simp]: "concat (map anchors (shown b vs)) = (if b then concat (map anchors vs) else [])"
  by (simp add: shown_def)

text \<open>The folders of \<^verbatim>\<open>app/\<close> that hold a page without a parameter.\<close>

definition page_routes :: "jsstring list" where
  "page_routes = [js ''/'', js ''/flags'', js ''/flags/new'', js ''/demo'', js ''/cluster'', js ''/health'',
     js ''/resilience'', js ''/learn'', js ''/playground'', js ''/glossary'']"

definition resolves :: "jsstring \<Rightarrow> bool" where
  "resolves h \<longleftrightarrow> h \<in> set page_routes \<or>
     (\<exists>i \<in> set (anchors (GlossaryPage True :: tour_msg view)). h = js ''/glossary#'' @ i)"

text \<open>On every path outside the pages of single flags, the entry of the side bar that is marked
  as current is the only one marked, and the top bar shows its label as the title.\<close>

theorem current_entry_is_the_title:
  assumes "it \<in> set nav_entries" "isActive p it" "\<not> starts_with (js ''/flags/'') p"
  shows "pageTitle p = nav_label it \<and> filter (isActive p) nav_entries = [it]"
proof
  have entry: "nav_entry_ok p it" using assms(1) nav_entries_ok by auto
  then show "pageTitle p = nav_label it" using assms(2,3) by (simp add: nav_entry_ok_def)
  have "filter (isActive p) nav_entries = filter (\<lambda>x. x = it) nav_entries"
    using active_unique [OF assms(1,2)] assms(2) by (intro filter_cong) auto
  also have "\<dots> = [it]" using distinct_nav_entries assms(1) by (rule filter_single)
  finally show "filter (isActive p) nav_entries = [it]" .
qed

theorem current_entry_is_the_title_witness:
  "pageTitle (js ''/demo/x'') = js ''Demo'' \<and>
   filter (isActive (js ''/demo/x'')) nav_entries = [\<lparr>nav_href = js ''/demo'', nav_label = js ''Demo'', nav_status = NavLive\<rparr>]"
  using current_entry_is_the_title [of "\<lparr>nav_href = js ''/demo'', nav_label = js ''Demo'', nav_status = NavLive\<rparr>" "js ''/demo/x''"]
  by (simp add: nav_entries_def navItems_def learnItems_def isActive_def path_simps flip: js_append)

lemma glossary_anchors: "anchors (GlossaryPage True :: tour_msg view) = map g_id GLOSSARY"
  by (simp add: GlossaryPage_def PageIntro_def GuideCallout_def glossary_entry_def comp_def)

lemma resolves_glossary:
  assumes "GLOSSARY_BY_ID i = Some e"
  shows "resolves (js ''/glossary#'' @ i)" "g_id e = i"
proof -
  have "e \<in> set GLOSSARY \<and> g_id e = i"
    using assms by (auto simp: GLOSSARY_BY_ID_def find_Some_iff) (metis nth_mem length_rev set_rev)
  then show "resolves (js ''/glossary#'' @ i)" "g_id e = i"
    by (auto simp: resolves_def glossary_anchors)
qed

lemma resolves_route: "h \<in> set page_routes \<Longrightarrow> resolves h"
  by (simp add: resolves_def)

lemma links_Term: "h \<in> set (links (Term n c :: 'm view)) \<Longrightarrow> resolves h"
  by (auto simp: Term_def Let_def resolves_glossary split: option.splits)

lemma links_GuideCallout:
  "concat (map links (GuideCallout e title cs)) = (if e then concat (map links cs) else [])"
  by (cases title) (simp_all add: GuideCallout_def)

lemma links_renderItem:
  assumes "it \<in> set nav_entries" "h \<in> set (links (renderItem p it))"
  shows "resolves h"
proof -
  have "h = nav_href it" using assms(2) by (auto simp: renderItem_def Let_def split: if_splits)
  moreover have "\<forall>x \<in> set nav_entries. nav_href x \<in> set page_routes"
    by (simp add: nav_entries_def navItems_def learnItems_def page_routes_def)
  ultimately show ?thesis using assms(1) resolves_route by metis
qed

lemma links_Sidebar:
  assumes "h \<in> set (links (Sidebar p :: 'm view))"
  shows "resolves h"
proof -
  have "h = js ''/'' \<or> (\<exists>it \<in> set nav_entries. h \<in> set (links (renderItem p it :: 'm view)))"
    using assms by (auto simp: Sidebar_def ColorLegend_def nav_entries_def)
  moreover have "js ''/'' \<in> set page_routes" by (simp add: page_routes_def)
  ultimately show ?thesis using links_renderItem resolves_route by metis
qed

lemma links_ChapterCard:
  assumes "c \<in> set CHAPTERS" "h \<in> set (links (ChapterCard c))"
  shows "resolves h"
proof -
  have "\<forall>c \<in> set CHAPTERS. ch_href c \<in> set page_routes" by (simp add: CHAPTERS_def page_routes_def)
  moreover have "h = ch_href c \<or> (\<exists>i e. GLOSSARY_BY_ID i = Some e \<and> h = js ''/glossary#'' @ i)"
    using assms(2) by (auto simp: ChapterCard_def Let_def split: option.splits if_splits)
  ultimately show ?thesis using assms(1) resolves_glossary(1) resolves_route by metis
qed

lemma links_LearnPage: "h \<in> set (links (LearnPage e)) \<Longrightarrow> resolves h"
  using links_ChapterCard [of _ h]
  by (auto simp: LearnPage_def PageIntro_def TourButton_def links_GuideCallout resolves_route page_routes_def split: if_splits)

lemma links_GuidedTour: "step t < 9 \<Longrightarrow> h \<in> set (concat (map links (GuidedTour t))) \<Longrightarrow> resolves h"
proof -
  assume t: "step t < 9" and h: "h \<in> set (concat (map links (GuidedTour t)))"
  have "h = ts_href (STEPS ! step t)" using h by (auto simp: GuidedTour_def Let_def split: if_splits)
  moreover have "STEPS ! step t \<in> set STEPS" using t by simp
  moreover have "\<forall>s \<in> set STEPS. ts_href s \<in> set page_routes" by (simp add: STEPS_def page_routes_def)
  ultimately show ?thesis using resolves_route by metis
qed

lemma links_MobileNav: "h \<in> set (links MobileNav) \<Longrightarrow> resolves h"
  by (rule resolves_route) (auto simp: MobileNav_def page_routes_def)

text \<open>No dead links: every link of the side bar, of the menu on small screens, of the learning
  page, of a step of the tour and of an inline term leads to a page of the app or to an entry that
  the glossary page shows.\<close>

theorem no_dead_links:
  assumes "step t < 9"
    "h \<in> set (links (Sidebar p :: 'm view)) \<union> set (links (MobileNav :: 'm view)) \<union> set (links (LearnPage e)) \<union>
         set (concat (map links (GuidedTour t))) \<union> set (links (Term n c :: 'm view))"
  shows "resolves h"
  using assms(2)
  by (elim UnE) (erule links_Sidebar links_MobileNav links_LearnPage links_GuidedTour [OF assms(1)] links_Term)+

theorem no_dead_links_witness:
  "links (ChapterCard (hd (tl CHAPTERS)) :: tour_msg view) = [js ''/demo'', js ''/glossary#rollout''] \<and>
   resolves (js ''/glossary#rollout'')"
proof
  show *: "links (ChapterCard (hd (tl CHAPTERS)) :: tour_msg view) = [js ''/demo'', js ''/glossary#rollout'']"
    by (simp add: CHAPTERS_def ChapterCard_def Let_def GLOSSARY_BY_ID_def GLOSSARY_def flip: js_append)
  have "hd (tl CHAPTERS) \<in> set CHAPTERS" by (simp add: CHAPTERS_def)
  then have "js ''/glossary#rollout'' \<in> set (links (LearnPage True))" using * by (force simp: LearnPage_def)
  then show "resolves (js ''/glossary#rollout'')"
    using no_dead_links [of "\<lparr>override = None, seenItem = None, tourStorage = True, step = 0, wasOpen = False\<rparr>"
        "js ''/glossary#rollout''" "[]" True "[]" None] by simp
qed


end
