(* ===== verification/SdkHost.thy ===== *)
theory SdkHost
  imports SdkMachine
begin

text \<open>
  A component of the app that holds a client of the SDK (\<^verbatim>\<open>app/demo/page.tsx\<close> and the failure lab of
  \<^verbatim>\<open>app/playground/page.tsx\<close>) registers one listener for updates and one for the status, and keeps
  copies of what they tell it. Here is what both share: running a method of the client and then its
  listeners, the interface of such a component as a locale, and the facts that hold for every
  component with that interface.
\<close>

section \<open>Running a method and its listeners\<close>

text \<open>The listeners run inside the method; no method changes the flags or the version after it has
  called them, so what they read is the state the method leaves.\<close>

definition with_client ::
  "('h \<Rightarrow> jsstring client) \<Rightarrow> (jsstring client \<Rightarrow> 'h \<Rightarrow> 'h) \<Rightarrow> (jsstring call \<Rightarrow> 'h \<Rightarrow> 'h) \<Rightarrow>
     (jsstring client \<Rightarrow> jsstring client) \<Rightarrow> 'h \<Rightarrow> 'h" where
  "with_client get put hear f s =
     (let c = f ((get s)\<lparr>calls := []\<rparr>)
      in foldl (\<lambda>s x. hear x s) (put (c\<lparr>calls := []\<rparr>) s) (calls c))"

text \<open>What the browser and the user of such a page can give its client.\<close>

fun page_input :: "'s input \<Rightarrow> bool" where
  "page_input Disconnect = True"
| "page_input Reconnect = True"
| "page_input (StreamOpen es) = True"
| "page_input (StreamUpdated es i f) = True"
| "page_input (StreamDeleted es i k) = True"
| "page_input (StreamError es closed) = True"
| "page_input (EventsResp r) = True"
| "page_input _ = False"

fun_cases page_inputE: "page_input i"

section \<open>What the client tells its listeners\<close>

fun told :: "ConnectionStatus \<Rightarrow> 's call \<Rightarrow> ConnectionStatus" where
  "told st (StatusCall l z) = z"
| "told st (UpdateCall l m) = st"

definition heard :: "ConnectionStatus \<Rightarrow> 's client \<Rightarrow> bool" where
  "heard st c \<longleftrightarrow> listeners c = [0] \<and> statusListeners c = [0] \<and> foldl told st (calls c) = status c"

definition updated :: "'s call list \<Rightarrow> bool" where
  "updated cs \<longleftrightarrow> (\<exists>l m. UpdateCall l m \<in> set cs)"

lemma updated_simps [simp]:
  "\<not> updated []" "updated (UpdateCall l m # cs)" "updated (StatusCall l z # cs) \<longleftrightarrow> updated cs"
  "updated (cs @ ds) \<longleftrightarrow> updated cs \<or> updated ds"
  by (auto simp: updated_def)

lemma calls_stream [simp]: "calls (closeStream c) = calls c" "calls (connectSSE c) = calls c"
  by (simp_all add: closeStream_def connectSSE_def Let_def split: option.split)

lemma heard_setStatus: "heard st c \<Longrightarrow> heard st (setStatus z c)"
  by (simp add: heard_def setStatus_def)

lemma heard_notify: "heard st c \<Longrightarrow> heard st (notifyListeners c)"
  by (simp add: heard_def notifyListeners_def)

lemma heard_frame [simp]:
  "heard st (closeStream c) = heard st c" "heard st (connectSSE c) = heard st c"
  "heard st (c\<lparr>manuallyClosed := b\<rparr>) = heard st c" "heard st (c\<lparr>reconciling := b\<rparr>) = heard st c"
  "heard st (c\<lparr>rframe := fr\<rparr>) = heard st c" "heard st (c\<lparr>cflags := m\<rparr>) = heard st c"
  "heard st (c\<lparr>configVersion := v\<rparr>) = heard st c" "heard st (c\<lparr>streams := ss\<rparr>) = heard st c"
  "heard st (c\<lparr>eventSource := es\<rparr>) = heard st c" "heard st (c\<lparr>inits := n\<rparr>) = heard st c"
  by (simp_all add: heard_def)

lemma heard_page: "heard st c \<Longrightarrow> heard st (fst (reconcile_page evs c))"
  by (simp add: reconcile_page_eq)

lemma heard_reconcile: "heard st c \<Longrightarrow> heard st (reconcile c)"
  by (simp add: reconcile_def Let_def heard_setStatus)

lemma heard_done: "heard st c \<Longrightarrow> heard st (reconcile_done ch c)"
  by (simp add: reconcile_done_def reconcile_return_def Let_def heard_setStatus heard_notify)

lemma heard_response: "heard st c \<Longrightarrow> heard st (reconcile_response r c)"
  using heard_page [of st c]
  by (auto simp: reconcile_response_def reconcile_return_def case_prod_beta Let_def heard_setStatus heard_done
      split: option.split response.split)

lemma heard_handle:
  assumes "page_input i" "heard st c"
  shows "heard st (handle i c)"
  using assms
  by (cases i) (auto simp: disconnect_def reconnect_def on_flag_updated_def on_flag_deleted_def
      applyEvent_def on_error_def closeStreamIfClosed_def heard_setStatus heard_notify heard_reconcile heard_response)

section \<open>The interface of the component\<close>

locale sdk_host =
  fixes get :: "'h \<Rightarrow> jsstring client"
    and put :: "jsstring client \<Rightarrow> 'h \<Rightarrow> 'h"
    and hear :: "jsstring call \<Rightarrow> 'h \<Rightarrow> 'h"
    and shown_status :: "'h \<Rightarrow> ConnectionStatus"
    and shown_version :: "'h \<Rightarrow> int"
  assumes get_put: "get (put c s) = c"
    and status_put: "shown_status (put c s) = shown_status s"
    and version_put: "shown_version (put c s) = shown_version s"
    and get_hear: "get (hear x s) = get s"
    and status_hear: "shown_status (hear x s) = told (shown_status s) x"
    and version_hear: "shown_version (hear x s) = (if updated [x] then configVersion (get s) else shown_version s)"
begin

lemma hear_all:
  "get (foldl (\<lambda>s x. hear x s) s cs) = get s"
  "shown_status (foldl (\<lambda>s x. hear x s) s cs) = foldl told (shown_status s) cs"
  "shown_version (foldl (\<lambda>s x. hear x s) s cs) = (if updated cs then configVersion (get s) else shown_version s)"
  by (induction cs arbitrary: s)
    (simp_all add: get_hear status_hear version_hear updated_def)

text \<open>The page shows the status of its client, and never a version the client has not reached.\<close>

definition ok :: "'h \<Rightarrow> bool" where
  "ok s \<longleftrightarrow> client_inv (get s) \<and> listeners (get s) = [0] \<and> statusListeners (get s) = [0] \<and>
     calls (get s) = [] \<and> shown_status s = status (get s) \<and> shown_version s \<le> configVersion (get s)"

lemma run_sel:
  "get (with_client get put hear f s) = (f ((get s)\<lparr>calls := []\<rparr>))\<lparr>calls := []\<rparr>"
  "shown_status (with_client get put hear f s) = foldl told (shown_status s) (calls (f ((get s)\<lparr>calls := []\<rparr>)))"
  "shown_version (with_client get put hear f s) =
     (if updated (calls (f ((get s)\<lparr>calls := []\<rparr>))) then configVersion (f ((get s)\<lparr>calls := []\<rparr>)) else shown_version s)"
  by (simp_all add: with_client_def Let_def hear_all get_put status_put version_put)

lemma ok_calls: "ok s \<Longrightarrow> (get s)\<lparr>calls := []\<rparr> = get s"
  by (simp add: ok_def)

text \<open>A method that tells the listeners nothing.\<close>

lemma run_quiet:
  assumes "ok s" "calls (f (get s)) = []"
  shows "with_client get put hear f s = put ((f (get s))\<lparr>calls := []\<rparr>) s"
  using assms ok_calls [OF assms(1)] by (simp add: with_client_def)

lemma ok_input:
  assumes "ok s" "page_input i"
  shows "ok (with_client get put hear (handle i) s)"
proof -
  let ?c = "handle i (get s)"
  have "heard (shown_status s) (get s)" using assms(1) by (simp add: ok_def heard_def)
  then have "heard (shown_status s) ?c" using assms(2) heard_handle by blast
  moreover have "client_inv ?c" using assms(1) by (simp add: ok_def client_inv_handle)
  then have "client_inv (?c\<lparr>calls := []\<rparr>)" by (auto simp: client_inv_def)
  moreover have "configVersion (get s) \<le> configVersion ?c"
    using assms(2) by (cases i) (auto intro!: handle_version_mono simp del: handle.simps)
  ultimately show ?thesis
    using assms(1) by (auto simp: ok_def run_sel ok_calls [OF assms(1)] heard_def)
qed

end

text \<open>A component that keeps a copy of the flags as well.\<close>

locale flag_host = sdk_host +
  fixes shown_flags :: "'a \<Rightarrow> (jsstring, jsstring FlagConfig) jsmap"
  assumes flags_put: "shown_flags (put c s) = shown_flags s"
    and flags_hear: "shown_flags (hear x s) = (if updated [x] then cflags (get s) else shown_flags s)"
begin

lemma hear_all_flags:
  "shown_flags (foldl (\<lambda>s x. hear x s) s cs) = (if updated cs then cflags (get s) else shown_flags s)"
  by (induction cs arbitrary: s) (simp_all add: flags_hear get_hear updated_def)

lemma run_flags:
  "shown_flags (with_client get put hear f s) =
     (if updated (calls (f ((get s)\<lparr>calls := []\<rparr>))) then cflags (f ((get s)\<lparr>calls := []\<rparr>)) else shown_flags s)"
  by (simp add: with_client_def Let_def hear_all_flags get_put flags_put)

text \<open>When the version the page shows is the client's, so are the flags.\<close>

definition fresh :: "'a \<Rightarrow> bool" where
  "fresh s \<longleftrightarrow> (shown_version s = configVersion (get s) \<longrightarrow> shown_flags s = cflags (get s))"

lemma fresh_input:
  assumes "ok s" "fresh s" "page_input i"
  shows "fresh (with_client get put hear (handle i) s)"
proof -
  have i: "\<not> is_bootstrap i" using assms(3) by (elim page_inputE) simp_all
  have "cflags (handle i (get s)) = cflags (get s) \<and> shown_version s = configVersion (get s)"
    if "shown_version s = configVersion (handle i (get s))"
    using that assms(1) handle_version_mono [OF i, of "get s"] handle_flags_same_version [OF i, of "get s"]
    by (simp add: ok_def)
  then show ?thesis
    using assms(2) by (auto simp: fresh_def run_sel run_flags ok_calls [OF assms(1)])
qed

end

end
