(* ===== verification/Demo.thy ===== *)
theory Demo
  imports SdkHost FlagForms Explain Teaching
begin

text \<open>
  The demo page (\<^verbatim>\<open>app/demo/page.tsx\<close>, \<^verbatim>\<open>components/demo\<close>): a page that runs the SDK in the browser
  and shows what it decides for one user. The client is part of the page's state; its methods run
  with the page's listeners. What the browser and the user can do is a step relation.
\<close>

section \<open>Feature cards\<close>

definition FeatureCard :: "jsstring \<Rightarrow> jsstring \<Rightarrow> bool \<Rightarrow> 'm view \<Rightarrow> jsstring \<Rightarrow> 'm view" where
  "FeatureCard title flagKey on enabledContent disabledHint =
     el ''div''
      [el ''div''
        [el ''div'' [el ''span'' [], el ''div'' [el ''h3'' [Txt title], el ''p'' [Txt flagKey]]],
         StatusBadge on],
       el ''div''
        [if on then el ''div'' [enabledContent] else el ''div'' [el ''p'' [Txt disabledHint]]]]"

definition DynamicFlagCard :: "jsstring \<Rightarrow> bool \<Rightarrow> jsstring \<Rightarrow> 'm view" where
  "DynamicFlagCard flagKey on descr =
     FeatureCard flagKey flagKey on
      (el ''div''
        [el ''p'' [lit ''Enabled for this user''],
         el ''p'' [Txt (if descr \<noteq> [] then descr else js ''This feature is currently enabled for you.'')]])
      (if descr \<noteq> [] then descr else js ''This feature is not available for this user.'')"

definition DarkModeFeature :: "bool \<Rightarrow> 'm view" where
  "DarkModeFeature on =
     FeatureCard (js ''Dark mode'') (js ''dark-mode'') on
      (el ''div''
        [el ''p'' [lit ''Dark mode is active''], el ''p'' [lit ''The UI renders in dark theme for this user.'']])
      (js ''Enable this flag to switch this user to the dark theme.'')"

definition STATS :: "(string \<times> string) list" where
  "STATS = [(''1.2k'', ''Users''), (''89%'', ''Uptime''), (''42ms'', ''Latency'')]"

definition BetaDashboard :: "bool \<Rightarrow> 'm view" where
  "BetaDashboard on =
     FeatureCard (js ''Beta dashboard'') (js ''beta-dashboard'') on
      (el ''div'' (map (\<lambda>(v, label). el ''div'' [el ''p'' [lit v], el ''p'' [lit label]]) STATS))
      (js ''Enable this flag to reveal the analytics panel for this user.'')"

definition AiAssistant :: "bool \<Rightarrow> 'm view" where
  "AiAssistant on =
     FeatureCard (js ''AI assistant'') (js ''ai-assistant'') on
      (el ''div''
        [el ''div''
          [el ''div'' [el ''p'' [lit ''Assistant''], el ''p'' [lit ''Hello! How can I help you today?'']],
           el ''div'' [el ''p'' [lit ''Tell me about feature flags'']]],
         el ''div''
          [ela ''Input'' [(''placeholder'', js ''Type a message'' @ ellipsis), (''disabled'', js_bool True)] [],
           ela ''Button'' [(''disabled'', js_bool True)] [lit ''Send'']]])
      (js ''Enable this flag to show the AI chat widget for this user.'')"

section \<open>UserSwitcher\<close>

definition PRESET_USERS :: "jsstring list" where
  "PRESET_USERS = map (\<lambda>i. js ''user-'' @ js_num (int (i + 1))) [0..<10]"

datatype user_msg = SelectUser jsstring | TypeUserId jsstring

fun user_update :: "user_msg \<Rightarrow> jsstring \<Rightarrow> jsstring" where
  "user_update (SelectUser val) u = (if val \<noteq> [] \<and> val \<noteq> js ''custom'' then val else u)"
| "user_update (TypeUserId t) u = t"

definition UserSwitcher :: "jsstring \<Rightarrow> user_msg view" where
  "UserSwitcher currentUser =
     (let isPreset = (currentUser \<in> set PRESET_USERS)
      in el ''div''
          ([el ''div''
             [ela ''Label'' [(''for'', js ''user-select'')] [lit ''Evaluate as''],
              Elem ''Select'' [(''id'', js ''user-select''), (''value'', if isPreset then currentUser else js ''custom'')]
               [(''valueChange'', \<lambda>e. SelectUser (str_arg e))]
               (map (\<lambda>user. ela ''SelectItem'' [(''value'', user)] [Txt user]) PRESET_USERS @
                [ela ''SelectItem'' [(''value'', js ''custom'')] [Txt (js ''Custom'' @ ellipsis)]])]] @
           shown (\<not> isPreset)
            [el ''div''
              [ela ''Label'' [(''for'', js ''custom-user'')] [lit ''Custom user ID''],
               Elem ''Input'' [(''id'', js ''custom-user''), (''value'', currentUser), (''placeholder'', js ''custom-user-id'')]
                [(''change'', \<lambda>e. TypeUserId (str_arg e))] []]] @
           [el ''div'' [el ''span'' [Txt currentUser]]]))"

section \<open>State and effects of the page\<close>

record demo =
  dm_client :: "jsstring client"
  dm_currentUser :: jsstring
  dm_allFlags :: "(jsstring, jsstring FlagConfig) jsmap"
  dm_isReady :: bool
  dm_status :: ConnectionStatus
  dm_clientVersion :: int
  dm_pickedVizKey :: "jsstring option"

definition DemoPage_init :: demo where
  "DemoPage_init =
     \<lparr>dm_client = constructor None, dm_currentUser = js ''user-1'', dm_allFlags = [], dm_isReady = False,
      dm_status = Connecting, dm_clientVersion = 0, dm_pickedVizKey = None\<rparr>"

definition syncFlags :: "demo \<Rightarrow> demo" where
  "syncFlags s = s\<lparr>dm_allFlags := getAllFlags (dm_client s), dm_clientVersion := getConfigVersion (dm_client s)\<rparr>"

text \<open>The listeners: \<^verbatim>\<open>setStatus\<close> and \<^verbatim>\<open>syncFlags\<close>.\<close>

fun demo_hear :: "jsstring call \<Rightarrow> demo \<Rightarrow> demo" where
  "demo_hear (StatusCall l st) s = s\<lparr>dm_status := st\<rparr>"
| "demo_hear (UpdateCall l m) s = syncFlags s"

definition demo_put :: "jsstring client \<Rightarrow> demo \<Rightarrow> demo" where
  "demo_put c s = s\<lparr>dm_client := c\<rparr>"

definition demo_sdk :: "(jsstring client \<Rightarrow> jsstring client) \<Rightarrow> demo \<Rightarrow> demo" where
  "demo_sdk f s = with_client dm_client demo_put demo_hear f s"

definition demo_mount :: "demo \<Rightarrow> demo" where
  "demo_mount s = demo_sdk (\<lambda>c. init (onUpdate 0 (onStatus 0 c))) s"

definition demo_cleanup :: "demo \<Rightarrow> demo" where
  "demo_cleanup s = demo_sdk (\<lambda>c. destroy (offUpdate 0 (offStatus 0 c))) s"

text \<open>The end of \<^verbatim>\<open>init\<close>: its \<^verbatim>\<open>then\<close> or its \<^verbatim>\<open>catch\<close>.\<close>

definition demo_booted :: "(jsstring FlagConfig list \<times> int option) response \<Rightarrow> demo \<Rightarrow> demo" where
  "demo_booted resp s0 =
     (let s = demo_sdk (bootstrap_response resp) s0
      in case resp of
           Ok _ \<Rightarrow> (syncFlags s)\<lparr>dm_isReady := True\<rparr>
         | _ \<Rightarrow> s\<lparr>dm_isReady := True\<rparr>)"

definition isOn :: "demo \<Rightarrow> jsstring \<Rightarrow> bool" where
  "isOn s k = isEnabled k (dm_currentUser s) (dm_client s)"

definition flagList :: "demo \<Rightarrow> jsstring FlagConfig list" where
  "flagList s = map_values (dm_allFlags s)"

definition defaultVizKey :: "demo \<Rightarrow> jsstring" where
  "defaultVizKey s =
     (case find (\<lambda>f. enabled f \<and> rollout_percentage f > 0 \<and> rollout_percentage f < 100) (flagList s) of
        Some f \<Rightarrow> key f
      | None \<Rightarrow> (case flagList s of f # _ \<Rightarrow> key f | [] \<Rightarrow> []))"

definition vizKey :: "demo \<Rightarrow> jsstring" where
  "vizKey s = (case dm_pickedVizKey s of Some k \<Rightarrow> k | None \<Rightarrow> defaultVizKey s)"

definition vizFlag :: "demo \<Rightarrow> jsstring FlagConfig option" where
  "vizFlag s = map_get (dm_allFlags s) (vizKey s)"

definition serverVersion :: "'s FlagsResponse option \<Rightarrow> int" where
  "serverVersion data = (case data of Some d \<Rightarrow> config_version d | None \<Rightarrow> 0)"

definition stale :: "'s FlagsResponse option \<Rightarrow> demo \<Rightarrow> bool" where
  "stale data s \<longleftrightarrow> dm_isReady s \<and> isStale (serverVersion data) (dm_client s)"

section \<open>What the page shows\<close>

datatype demo_msg =
    UserMsg user_msg
  | PickVizKey jsstring
  | DisconnectClicked
  | ReconnectClicked
  | VizMsg explorer_msg
  | WhyMsg why_msg

fun STATUS_META :: "ConnectionStatus \<Rightarrow> jsstring" where
  "STATUS_META Connecting = js ''Connecting''"
| "STATUS_META Live = js ''Live''"
| "STATUS_META Reconnecting = js ''Reconnecting''"
| "STATUS_META Reconciling = js ''Reconciling''"
| "STATUS_META Offline = js ''Disconnected''"

definition reconnect_text :: "bool \<Rightarrow> bool \<Rightarrow> int \<Rightarrow> jsstring" where
  "reconnect_text behind offline missed =
     (if offline
      then if missed > 0
           then js ''Stream closed '' @ mdash @ js '' '' @ js_num missed @ js '' update'' @
                (if missed > 1 then js ''s'' else []) @ js '' missed. Reconnect to reconcile.''
           else js ''Stream closed. Make changes in Flags, then reconnect.''
      else if behind then js ''Behind '' @ mdash @ js '' reconciling to the latest version'' @ ellipsis
      else js ''Streaming live from the control plane.'')"

definition ReconnectPanel :: "ConnectionStatus \<Rightarrow> bool \<Rightarrow> bool \<Rightarrow> int \<Rightarrow> 'm \<Rightarrow> 'm \<Rightarrow> 'm view" where
  "ReconnectPanel st behind offline missed onDisconnect onReconnect =
     el ''div''
      [el ''div''
        [el ''div''
          [ela ''span'' [(''aria-live'', js ''polite'')] [el ''span'' [], el ''span'' [Txt (STATUS_META st)]],
           el ''p'' [Txt (reconnect_text behind offline missed)]],
         el ''div''
          [Elem ''Button'' [(''disabled'', js_bool offline)] [(''click'', msg onDisconnect)] [lit '' Disconnect''],
           Elem ''Button'' [(''disabled'', js_bool (\<not> offline))] [(''click'', msg onReconnect)] [lit '' Reconnect'']]]]"

definition sync_badge :: "'s FlagsResponse option \<Rightarrow> demo \<Rightarrow> 'm view" where
  "sync_badge data s =
     ela ''div''
      [(''aria-live'', js ''polite''), (''title'', js ''The SDK's local config version vs the server's latest'')]
      [el ''span'' [],
       el ''span'' [lit (if stale data s then ''SDK behind'' else ''In sync'')],
       el ''span''
        [Txt (js ''client v'' @ js_num (dm_clientVersion s) @ js '' '' @ middot @ js '' server v'' @
              js_num (serverVersion data))]]"

text \<open>A component is looked up by indexing an object, which also finds what every object inherits.\<close>

definition CUSTOM_FLAG_COMPONENTS :: "jsstring list" where
  "CUSTOM_FLAG_COMPONENTS = [js ''dark-mode'', js ''beta-dashboard'', js ''ai-assistant'']"

definition inherited_names :: "jsstring list" where
  "inherited_names = map js
     [''constructor'', ''__proto__'', ''__defineGetter__'', ''__defineSetter__'', ''__lookupGetter__'',
      ''__lookupSetter__'', ''hasOwnProperty'', ''isPrototypeOf'', ''propertyIsEnumerable'',
      ''toLocaleString'', ''toString'', ''valueOf'']"

definition demo_cards :: "demo \<Rightarrow> 'm view list" where
  "demo_cards s =
     [DarkModeFeature (isOn s (js ''dark-mode'')), BetaDashboard (isOn s (js ''beta-dashboard'')),
      AiAssistant (isOn s (js ''ai-assistant''))] @
     map (\<lambda>(flagKey, flagConfig). DynamicFlagCard flagKey (isOn s flagKey) (description flagConfig))
       (filter (\<lambda>(flagKey, flagConfig). flagKey \<notin> set (CUSTOM_FLAG_COMPONENTS @ inherited_names)) (dm_allFlags s))"

definition viz_section ::
  "(jsstring FlagConfig \<Rightarrow> jsstring \<Rightarrow> demo_msg view) \<Rightarrow> (jsstring FlagConfig \<Rightarrow> jsstring \<Rightarrow> demo_msg view) \<Rightarrow>
     demo \<Rightarrow> demo_msg view list" where
  "viz_section visualizer explainer s =
     (case vizFlag s of
        Some f \<Rightarrow>
          shown (dm_isReady s)
           [el ''section''
             [el ''div''
               [PageIntro [lit ''Understand the rollout'']
                 [Txt (js ''A percentage isn't random '' @ mdash @ js '' it maps to a fixed set of users. Pick a flag, drag the percentage to see exactly who flips, and check why any single user lands on or off.'')] [] [],
                el ''div''
                 [ela ''Label'' [(''for'', js ''viz-flag'')] [lit ''Flag''],
                  Elem ''Select'' [(''id'', js ''viz-flag''), (''value'', vizKey s)]
                   [(''valueChange'', \<lambda>e. PickVizKey (str_arg e))]
                   (map (\<lambda>g. ela ''SelectItem'' [(''value'', key g)] [Txt (key g)]) (flagList s))]],
              el ''div'' [visualizer f (dm_currentUser s), explainer f (dm_currentUser s)]]]
      | None \<Rightarrow> [])"

definition DemoPage ::
  "bool \<Rightarrow> 's FlagsResponse option \<Rightarrow> (jsstring FlagConfig \<Rightarrow> jsstring \<Rightarrow> demo_msg view) \<Rightarrow>
     (jsstring FlagConfig \<Rightarrow> jsstring \<Rightarrow> demo_msg view) \<Rightarrow> demo \<Rightarrow> demo_msg view" where
  "DemoPage explain data visualizer explainer s =
     (let offline = (dm_status s = Offline)
      in el ''div''
          ([el ''div''
             ([PageIntro [lit ''See it decide, per user'']
                [lit ''This is a real app using the SDK. It '',
                 Term (js ''local-evaluation'') (Some (js ''evaluates every flag locally'')),
                 Txt (js '' for the selected user '' @ mdash @ js '' switch users and watch the same flags land differently.'')] [] []] @
              shown (dm_isReady s) [sync_badge data s])] @
           GuideCallout explain None
            [Txt (js ''Notice a user always gets the same answer '' @ mdash @ js '' that's the ''),
             Term (js ''rollout'') (Some (js ''rollout'')), lit '' being '',
             Term (js ''determinism'') (Some (js ''deterministic'')),
             Txt (js '', not random. Switch users below and watch the cards react '' @ mdash @ js '' then scroll down to ''),
             el ''em'' [lit ''see who a percentage includes''],
             lit '' and check exactly why any user is on or off.''] @
           shown (dm_isReady s)
            [ReconnectPanel (dm_status s) (stale data s) offline (max 0 (serverVersion data - dm_clientVersion s))
               DisconnectClicked ReconnectClicked] @
           [map_view UserMsg (UserSwitcher (dm_currentUser s)),
            if \<not> dm_isReady s then el ''div'' (map (\<lambda>i. el ''div'' []) [0..<4::nat]) else el ''div'' (demo_cards s)] @
           viz_section visualizer explainer s))"

section \<open>Steps\<close>

text \<open>The messages of the two teaching components change only their own state, which is not part of
  the page's.\<close>

fun demo_update :: "demo_msg \<Rightarrow> demo \<Rightarrow> demo" where
  "demo_update (UserMsg m) s = s\<lparr>dm_currentUser := user_update m (dm_currentUser s)\<rparr>"
| "demo_update (PickVizKey v) s = (if v \<noteq> [] then s\<lparr>dm_pickedVizKey := Some v\<rparr> else s)"
| "demo_update DisconnectClicked s = demo_sdk (handle Disconnect) s"
| "demo_update ReconnectClicked s = demo_sdk (handle Reconnect) s"
| "demo_update (VizMsg m) s = s"
| "demo_update (WhyMsg m) s = s"

text \<open>A select offers its items; an input or a button only while it is shown and not disabled.\<close>

fun demo_offers :: "demo_msg \<Rightarrow> demo \<Rightarrow> bool" where
  "demo_offers (UserMsg (SelectUser v)) s \<longleftrightarrow> v \<in> set (PRESET_USERS @ [js ''custom''])"
| "demo_offers (UserMsg (TypeUserId t)) s \<longleftrightarrow> dm_currentUser s \<notin> set PRESET_USERS"
| "demo_offers (PickVizKey v) s \<longleftrightarrow> dm_isReady s \<and> vizFlag s \<noteq> None \<and> v \<in> key ` set (flagList s)"
| "demo_offers DisconnectClicked s \<longleftrightarrow> dm_isReady s \<and> dm_status s \<noteq> Offline"
| "demo_offers ReconnectClicked s \<longleftrightarrow> dm_isReady s \<and> dm_status s = Offline"
| "demo_offers (VizMsg m) s \<longleftrightarrow> dm_isReady s \<and> vizFlag s \<noteq> None"
| "demo_offers (WhyMsg m) s \<longleftrightarrow> dm_isReady s \<and> vizFlag s \<noteq> None"

datatype demo_input =
    Booted "(jsstring FlagConfig list \<times> int option) response"
  | Network "jsstring input"
  | Click demo_msg

text \<open>Events of the network: those of the stream, and the answer to a request for the backlog.\<close>

fun network_input :: "'s input \<Rightarrow> bool" where
  "network_input Disconnect = False"
| "network_input Reconnect = False"
| "network_input i = page_input i"

fun demo_possible :: "demo_input \<Rightarrow> demo \<Rightarrow> bool" where
  "demo_possible (Booted r) s \<longleftrightarrow> possible (BootstrapResp r) (dm_client s)"
| "demo_possible (Network i) s \<longleftrightarrow> network_input i \<and> possible i (dm_client s)"
| "demo_possible (Click m) s \<longleftrightarrow> demo_offers m s"

fun demo_step :: "demo_input \<Rightarrow> demo \<Rightarrow> demo" where
  "demo_step (Booted r) s = demo_booted r s"
| "demo_step (Network i) s = demo_sdk (handle i) s"
| "demo_step (Click m) s = demo_update m s"

text \<open>In development React runs the effect, its cleanup and the effect again when the page mounts.\<close>

definition demo_started :: "bool \<Rightarrow> demo" where
  "demo_started strict =
     (let s = demo_mount DemoPage_init in if strict then demo_mount (demo_cleanup s) else s)"

inductive demo_trace :: "bool \<Rightarrow> demo_input list \<Rightarrow> demo \<Rightarrow> bool" for strict where
  demo_start: "demo_trace strict [] (demo_started strict)"
| demo_next: "demo_trace strict is s \<Longrightarrow> demo_possible i s \<Longrightarrow> demo_trace strict (is @ [i]) (demo_step i s)"

inductive_cases demo_trace_snocE: "demo_trace strict (is @ [i]) s"

section \<open>The page follows its client\<close>

text \<open>The inputs determine the state.\<close>

lemma demo_trace_deterministic: "demo_trace strict is s \<Longrightarrow> demo_trace strict is t \<Longrightarrow> s = t"
proof (induction arbitrary: t rule: demo_trace.induct)
  case demo_start
  then show ?case by (cases rule: demo_trace.cases) simp_all
next
  case (demo_next "is" s i)
  then show ?case by (elim demo_trace_snocE) auto
qed

interpretation demo_host: flag_host dm_client demo_put demo_hear dm_status dm_clientVersion dm_allFlags
proof unfold_locales
  fix x :: "jsstring call" and s :: demo and c :: "jsstring client"
  show "dm_client (demo_put c s) = c" "dm_status (demo_put c s) = dm_status s"
    "dm_clientVersion (demo_put c s) = dm_clientVersion s" "dm_allFlags (demo_put c s) = dm_allFlags s"
    by (simp_all add: demo_put_def)
  show "dm_client (demo_hear x s) = dm_client s" "dm_status (demo_hear x s) = told (dm_status s) x"
    "dm_clientVersion (demo_hear x s) = (if updated [x] then configVersion (dm_client s) else dm_clientVersion s)"
    "dm_allFlags (demo_hear x s) = (if updated [x] then cflags (dm_client s) else dm_allFlags s)"
    by (cases x; simp add: syncFlags_def getAllFlags_def getConfigVersion_def)+
qed

definition demo_ok :: "demo \<Rightarrow> bool" where
  "demo_ok s \<longleftrightarrow> demo_host.ok s \<and> demo_host.fresh s"

lemmas host_defs = demo_ok_def demo_host.ok_def demo_host.fresh_def

lemma demo_frame:
  "demo_ok (s\<lparr>dm_currentUser := u\<rparr>) = demo_ok s" "demo_ok (s\<lparr>dm_isReady := b\<rparr>) = demo_ok s"
  "demo_ok (s\<lparr>dm_pickedVizKey := p\<rparr>) = demo_ok s"
  by (simp_all add: host_defs)

lemmas mount_defs = demo_mount_def demo_cleanup_def demo_sdk_def with_client_def Let_def
  init_def destroy_def onUpdate_def onStatus_def offUpdate_def offStatus_def set_add_def
  closeStream_def setStatus_def demo_put_def DemoPage_init_def constructor_def

lemma demo_started_eq:
  "demo_started strict =
     DemoPage_init\<lparr>dm_client := (constructor None)\<lparr>listeners := [0], statusListeners := [0], status := Connecting,
       manuallyClosed := strict, inits := (if strict then 2 else 1)\<rparr>\<rparr>"
  by (cases strict) (simp_all add: demo_started_def mount_defs numeral_2_eq_2)

lemma demo_started_ok: "demo_ok (demo_started strict)"
  by (simp add: demo_started_eq host_defs DemoPage_init_def constructor_def client_inv_def)

lemma calls_bootstrap [simp]: "calls (bootstrap_response r c) = calls c"
  by (auto simp: bootstrap_response_def Let_def split: response.split option.split)

lemma listeners_bootstrap [simp]:
  "listeners (bootstrap_response r c) = listeners c" "statusListeners (bootstrap_response r c) = statusListeners c"
  "status (bootstrap_response r c) = status c"
  by (auto simp: bootstrap_response_def Let_def split: response.split option.split)

lemma bootstrap_fails:
  "(\<forall>d. r \<noteq> Ok d) \<Longrightarrow> bootstrap_response r c = c\<lparr>inits := inits c - 1\<rparr>"
  by (cases r) (auto simp: bootstrap_response_def Let_def)

lemma demo_sdk_quiet:
  "demo_ok s \<Longrightarrow> calls (f (dm_client s)) = [] \<Longrightarrow> demo_sdk f s = demo_put ((f (dm_client s))\<lparr>calls := []\<rparr>) s"
  by (simp only: demo_ok_def demo_sdk_def demo_host.run_quiet)

lemma demo_booted_ok:
  assumes "demo_ok s"
  shows "demo_ok (demo_booted r s)"
proof -
  let ?c = "bootstrap_response r (dm_client s)"
  have "client_inv (?c\<lparr>calls := []\<rparr>)"
    using assms client_inv_bootstrap [of "dm_client s" r] by (auto simp: host_defs client_inv_def)
  moreover have "demo_sdk (bootstrap_response r) s = demo_put (?c\<lparr>calls := []\<rparr>) s"
    using assms by (intro demo_sdk_quiet) (simp_all add: host_defs)
  ultimately show ?thesis
    using assms bootstrap_fails [of r "dm_client s"]
    by (cases r) (simp_all add: host_defs demo_booted_def Let_def demo_put_def
        syncFlags_def getAllFlags_def getConfigVersion_def)
qed

lemma demo_sdk_ok: "demo_ok s \<Longrightarrow> page_input i \<Longrightarrow> demo_ok (demo_sdk (handle i) s)"
  by (simp add: demo_ok_def demo_sdk_def demo_host.ok_input demo_host.fresh_input)

lemma network_page_input: "network_input i \<Longrightarrow> page_input i"
  by (cases i) auto

lemma demo_step_ok: "demo_ok s \<Longrightarrow> demo_possible i s \<Longrightarrow> demo_ok (demo_step i s)"
proof (cases i)
  case (Click m)
  then show "demo_ok s \<Longrightarrow> demo_ok (demo_step i s)"
    by (cases m) (simp_all add: demo_frame demo_sdk_ok del: handle.simps)
qed (simp_all add: demo_booted_ok demo_sdk_ok network_page_input del: handle.simps)

lemma demo_trace_ok: "demo_trace strict is s \<Longrightarrow> demo_ok s"
  by (induction rule: demo_trace.induct) (simp_all add: demo_started_ok demo_step_ok)

text \<open>C29: On every run of the demo page, in whatever order answers, frames, errors and clicks arrive
  and also when development mode mounts it twice: the status it shows is its client's, the version it
  shows is never ahead of the client's, when the two agree the flags it lists are exactly those the
  client decides with, and the page never has two streams open.\<close>

theorem demo_page_follows_sdk:
  assumes "demo_trace strict is s"
  shows "dm_status s = status (dm_client s) \<and> dm_clientVersion s \<le> configVersion (dm_client s) \<and>
         (dm_clientVersion s = configVersion (dm_client s) \<longrightarrow> dm_allFlags s = cflags (dm_client s)) \<and>
         length (streams (dm_client s)) \<le> 1"
proof -
  have ok: "demo_ok s" using assms by (rule demo_trace_ok)
  then have inv: "client_inv (dm_client s)" by (simp add: host_defs)
  have "length (streams (dm_client s)) = card (set (streams (dm_client s)))"
    using inv by (simp add: client_inv_def distinct_card)
  also have "\<dots> \<le> card (set_option (eventSource (dm_client s)))"
    using inv by (intro card_mono) (simp_all add: client_inv_def)
  also have "\<dots> \<le> 1" by (cases "eventSource (dm_client s)") simp_all
  finally show ?thesis using ok by (simp add: host_defs)
qed

definition sample_flag_config :: "jsstring FlagConfig" where
  "sample_flag_config = \<lparr>key = js ''beta'', enabled = True, rollout_percentage = 50, targeted_users = [js ''alice''],
     flag_id = js ''1'', description = [], version = 7\<rparr>"

lemma demo_first_answer: "demo_trace False [Booted r] (demo_booted r (demo_started False))"
  using demo_next [OF demo_start [of False], of "Booted r"]
  by (simp add: demo_started_eq possible_def DemoPage_init_def constructor_def)

theorem demo_page_follows_sdk_witness:
  "dm_clientVersion (demo_booted (Ok ([sample_flag_config], Some 7)) (demo_started False)) = 7 \<and>
   dm_allFlags (demo_booted (Ok ([sample_flag_config], Some 7)) (demo_started False)) =
     cflags (dm_client (demo_booted (Ok ([sample_flag_config], Some 7)) (demo_started False)))"
proof -
  let ?s = "demo_booted (Ok ([sample_flag_config], Some 7)) (demo_started False)"
  have "dm_clientVersion ?s = 7 \<and> configVersion (dm_client ?s) = 7"
    by (simp add: demo_booted_def Let_def syncFlags_def getConfigVersion_def demo_sdk_def with_client_def
        demo_put_def bootstrap_response_def demo_started_eq DemoPage_init_def constructor_def)
  then show ?thesis using demo_page_follows_sdk [OF demo_first_answer] by metis
qed

lemma demo_hear_user: "dm_currentUser (foldl (\<lambda>s x. demo_hear x s) s cs) = dm_currentUser s"
proof (induction cs arbitrary: s)
  case (Cons x cs)
  then show ?case by (cases x) (simp_all add: syncFlags_def)
qed simp

lemma demo_sdk_user: "dm_currentUser (demo_sdk f s) = dm_currentUser s"
  by (simp add: demo_sdk_def with_client_def Let_def demo_hear_user demo_put_def)

text \<open>The user ids the page offers are all it can ever evaluate: choosing "Custom" in the list
  does nothing, and the field for a custom id is shown only once the id is already custom. On every
  run the current user is one of the ten presets.\<close>

theorem custom_user_unreachable:
  assumes "demo_trace strict is s"
  shows "dm_currentUser s \<in> set PRESET_USERS"
  using assms
proof (induction rule: demo_trace.induct)
  case demo_start
  have "js ''user-1'' = js ''user-'' @ js_num (int (0 + 1))"
    by (simp add: js_num_def nat_digits.simps digit_def js_def)
  then have "js ''user-1'' \<in> set PRESET_USERS" unfolding PRESET_USERS_def by force
  then show ?case by (simp add: demo_started_eq DemoPage_init_def)
next
  case (demo_next "is" s i)
  have sdk: "dm_currentUser (demo_sdk f s) = dm_currentUser s" for f by (rule demo_sdk_user)
  show ?case
  proof (cases i)
    case (Booted r)
    then show ?thesis using demo_next.IH by (cases r) (simp_all add: demo_booted_def Let_def syncFlags_def sdk)
  next
    case (Network n)
    then show ?thesis using demo_next.IH by (simp add: sdk)
  next
    case (Click m)
    then show ?thesis using demo_next by (cases "(m, s)" rule: demo_offers.cases) (auto simp: sdk)
  qed
qed

theorem custom_user_unreachable_witness:
  "dm_currentUser (demo_step (Click (UserMsg (SelectUser (js ''custom'')))) (demo_started True)) \<in> set PRESET_USERS"
  using custom_user_unreachable [OF demo_next [OF demo_start [of True], of "Click (UserMsg (SelectUser (js ''custom'')))"]]
  by simp

section \<open>Where the page misleads\<close>

lemma demo_sdk_sel:
  assumes "demo_ok s"
  shows "dm_client (demo_sdk f s) = (f (dm_client s))\<lparr>calls := []\<rparr>"
    "dm_clientVersion (demo_sdk f s) =
       (if updated (calls (f (dm_client s))) then configVersion (f (dm_client s)) else dm_clientVersion s)"
    "dm_allFlags (demo_sdk f s) = (if updated (calls (f (dm_client s))) then cflags (f (dm_client s)) else dm_allFlags s)"
proof -
  have "(dm_client s)\<lparr>calls := []\<rparr> = dm_client s" using assms by (simp add: demo_ok_def demo_host.ok_calls)
  then show "dm_client (demo_sdk f s) = (f (dm_client s))\<lparr>calls := []\<rparr>"
    "dm_clientVersion (demo_sdk f s) =
       (if updated (calls (f (dm_client s))) then configVersion (f (dm_client s)) else dm_clientVersion s)"
    "dm_allFlags (demo_sdk f s) = (if updated (calls (f (dm_client s))) then cflags (f (dm_client s)) else dm_allFlags s)"
    by (simp_all add: demo_sdk_def demo_host.run_sel demo_host.run_flags)
qed

lemma updated_setStatus [simp]: "updated (calls (setStatus z c)) = updated (calls c)"
  by (auto simp: setStatus_def updated_def)

text \<open>A reconcile that begins, gets one page, and fails before the next: the client has moved on, the
  listeners were told nothing but the status.\<close>

lemma open_step:
  assumes "demo_ok s" "rframe (dm_client s) = None" "es \<in> set (streams (dm_client s))"
  defines "t \<equiv> demo_step (Network (StreamOpen es)) s"
  shows "demo_possible (Network (StreamOpen es)) s" "demo_ok t"
    "\<exists>p. rframe (dm_client t) = Some \<lparr>prevStatus = p, changed = False, guard = 0\<rparr>"
    "configVersion (dm_client t) = configVersion (dm_client s)" "streams (dm_client t) = streams (dm_client s)"
    "dm_clientVersion t = dm_clientVersion s" "dm_allFlags t = dm_allFlags s"
proof -
  have c: "\<not> reconciling (dm_client s)" "calls (dm_client s) = []"
    using assms(1,2) by (auto simp: host_defs client_inv_def)
  show p: "demo_possible (Network (StreamOpen es)) s" using assms(3) by (simp add: possible_def)
  show "demo_ok t" unfolding t_def using assms(1) p by (rule demo_step_ok)
  show "\<exists>p. rframe (dm_client t) = Some \<lparr>prevStatus = p, changed = False, guard = 0\<rparr>"
    "configVersion (dm_client t) = configVersion (dm_client s)" "streams (dm_client t) = streams (dm_client s)"
    "dm_clientVersion t = dm_clientVersion s" "dm_allFlags t = dm_allFlags s"
    using c by (simp_all add: t_def demo_sdk_sel [OF assms(1)] reconcile_def Let_def)
qed

lemma page_step:
  assumes "demo_ok s" "rframe (dm_client s) = Some fr" "guard fr = 0" "configVersion (dm_client s) < ev_version e"
  defines "t \<equiv> demo_step (Network (EventsResp (Ok [e]))) s"
  shows "demo_possible (Network (EventsResp (Ok [e]))) s" "demo_ok t" "rframe (dm_client t) \<noteq> None"
    "configVersion (dm_client t) = ev_version e" "streams (dm_client t) = streams (dm_client s)"
    "dm_clientVersion t = dm_clientVersion s" "dm_allFlags t = dm_allFlags s"
proof -
  have c: "calls (dm_client s) = []" using assms(1) by (auto simp: host_defs)
  show p: "demo_possible (Network (EventsResp (Ok [e]))) s" using assms(2) by (simp add: possible_def)
  show "demo_ok t" unfolding t_def using assms(1) p by (rule demo_step_ok)
  show "rframe (dm_client t) \<noteq> None"
    "configVersion (dm_client t) = ev_version e" "streams (dm_client t) = streams (dm_client s)"
    "dm_clientVersion t = dm_clientVersion s" "dm_allFlags t = dm_allFlags s"
    using c assms(2-4)
    by (simp_all add: t_def demo_sdk_sel [OF assms(1)] reconcile_response_def reconcile_page_def reconcile_event_def Let_def)
qed

lemma fail_step:
  assumes "demo_ok s" "rframe (dm_client s) \<noteq> None"
  defines "t \<equiv> demo_step (Network (EventsResp Throws)) s"
  shows "demo_possible (Network (EventsResp Throws)) s" "demo_ok t" "rframe (dm_client t) = None"
    "configVersion (dm_client t) = configVersion (dm_client s)" "streams (dm_client t) = streams (dm_client s)"
    "dm_clientVersion t = dm_clientVersion s" "dm_allFlags t = dm_allFlags s"
proof -
  have c: "calls (dm_client s) = []" using assms(1) by (auto simp: host_defs)
  show p: "demo_possible (Network (EventsResp Throws)) s" using assms(2) by (simp add: possible_def)
  show "demo_ok t" unfolding t_def using assms(1) p by (rule demo_step_ok)
  show "rframe (dm_client t) = None"
    "configVersion (dm_client t) = configVersion (dm_client s)" "streams (dm_client t) = streams (dm_client s)"
    "dm_clientVersion t = dm_clientVersion s" "dm_allFlags t = dm_allFlags s"
    using c assms(2)
    by (auto simp: t_def demo_sdk_sel [OF assms(1)] reconcile_response_def reconcile_return_def)
qed

lemma caught_up_step:
  assumes "demo_ok s" "rframe (dm_client s) = Some fr" "\<not> changed fr"
  defines "t \<equiv> demo_step (Network (EventsResp (Ok []))) s"
  shows "demo_possible (Network (EventsResp (Ok []))) s" "demo_ok t" "status (dm_client t) = Live"
    "configVersion (dm_client t) = configVersion (dm_client s)"
    "dm_clientVersion t = dm_clientVersion s" "dm_allFlags t = dm_allFlags s"
proof -
  have c: "calls (dm_client s) = []" using assms(1) by (auto simp: host_defs)
  show p: "demo_possible (Network (EventsResp (Ok []))) s" using assms(2) by (simp add: possible_def)
  show "demo_ok t" unfolding t_def using assms(1) p by (rule demo_step_ok)
  show "status (dm_client t) = Live"
    "configVersion (dm_client t) = configVersion (dm_client s)"
    "dm_clientVersion t = dm_clientVersion s" "dm_allFlags t = dm_allFlags s"
    using c assms(2,3)
    by (simp_all add: t_def demo_sdk_sel [OF assms(1)] reconcile_response_def reconcile_done_def reconcile_return_def Let_def)
qed

text \<open>A reconcile that fails after its first page leaves the page behind for good: the client has
  applied the event and, after the next reconcile found nothing more, is live and up to date, but the
  listeners were never told. The page goes on listing the old flags under the old version while its
  badge says "In sync".\<close>

theorem failed_reconcile_hides_changes:
  fixes data :: "'s FlagsResponse"
  assumes "demo_trace strict is s" "rframe (dm_client s) = None" "es \<in> set (streams (dm_client s))"
    "configVersion (dm_client s) < ev_version e" "config_version data = ev_version e"
  shows "\<exists>s'. demo_trace strict (is @ map Network [StreamOpen es, EventsResp (Ok [e]), EventsResp Throws,
                 StreamOpen es, EventsResp (Ok [])]) s' \<and>
           dm_status s' = Live \<and> \<not> stale (Some data) s' \<and> configVersion (dm_client s') = ev_version e \<and>
           dm_clientVersion s' = dm_clientVersion s \<and> dm_allFlags s' = dm_allFlags s"
proof -
  have ok: "demo_ok s" using assms(1) by (rule demo_trace_ok)
  define s1 where "s1 = demo_step (Network (StreamOpen es)) s"
  define s2 where "s2 = demo_step (Network (EventsResp (Ok [e]))) s1"
  define s3 where "s3 = demo_step (Network (EventsResp Throws)) s2"
  define s4 where "s4 = demo_step (Network (StreamOpen es)) s3"
  define s5 where "s5 = demo_step (Network (EventsResp (Ok []))) s4"
  note a = open_step [OF ok assms(2,3), folded s1_def]
  then obtain fr where fr: "rframe (dm_client s1) = Some fr" "guard fr = 0" by auto
  have "configVersion (dm_client s1) < ev_version e" using a assms(4) by simp
  note b = page_step [OF a(2) fr this, folded s2_def]
  note c = fail_step [OF b(2,3), folded s3_def]
  have "es \<in> set (streams (dm_client s3))" using a b c assms(3) by simp
  note d = open_step [OF c(2,3) this, folded s4_def]
  then obtain p where p: "rframe (dm_client s4) = Some p" "\<not> changed p" by auto
  note f = caught_up_step [OF d(2) p, folded s5_def]
  have "demo_trace strict (((((is @ [Network (StreamOpen es)]) @ [Network (EventsResp (Ok [e]))]) @
      [Network (EventsResp Throws)]) @ [Network (StreamOpen es)]) @ [Network (EventsResp (Ok []))]) s5"
    using assms(1) a(1) b(1) c(1) d(1) f(1) unfolding s5_def s4_def s3_def s2_def s1_def
    by (intro demo_next)
  moreover have "dm_status s5 = Live" using f(2,3) by (simp add: host_defs)
  moreover have "configVersion (dm_client s5) = ev_version e" using b c d f by simp
  moreover from this have "\<not> stale (Some data) s5" using assms(5) by (simp add: stale_def isStale_def serverVersion_def)
  moreover have "dm_clientVersion s5 = dm_clientVersion s \<and> dm_allFlags s5 = dm_allFlags s" using a b c d f by simp
  ultimately show ?thesis by (intro exI [of _ s5]) simp
qed

text \<open>The page after a first answer, with its stream open.\<close>

definition booted_demo :: demo where
  "booted_demo = demo_booted (Ok ([sample_flag_config], Some 7)) (demo_started False)"

lemma booted_demo_sel:
  "dm_clientVersion booted_demo = 7" "configVersion (dm_client booted_demo) = 7"
  "streams (dm_client booted_demo) = [0]" "rframe (dm_client booted_demo) = None"
  "map_keys (dm_allFlags booted_demo) = [js ''beta'']"
  by (simp_all add: booted_demo_def demo_booted_def Let_def syncFlags_def getConfigVersion_def getAllFlags_def demo_sdk_def
      with_client_def demo_put_def bootstrap_response_def bootstrap_flags_def connectSSE_def closeStream_def
      demo_started_eq DemoPage_init_def constructor_def sample_flag_config_def map_keys_def)

theorem failed_reconcile_hides_changes_witness:
  "\<exists>s'. demo_trace False ([Booted (Ok ([sample_flag_config], Some 7))] @
      map Network [StreamOpen 0, EventsResp (Ok [\<lparr>ev_version = 8, flag_key = js ''beta'', payload = Deleted [] (js ''beta''), ev_created_at = 0\<rparr>]),
        EventsResp Throws, StreamOpen 0, EventsResp (Ok [])]) s' \<and>
     dm_status s' = Live \<and> configVersion (dm_client s') = 8 \<and> dm_clientVersion s' = 7 \<and>
     map_keys (dm_allFlags s') = [js ''beta'']"
  using failed_reconcile_hides_changes [OF demo_first_answer [of "Ok ([sample_flag_config], Some 7)"], of 0
      "\<lparr>ev_version = 8, flag_key = js ''beta'', payload = Deleted [] (js ''beta''), ev_created_at = 0\<rparr>"
      "\<lparr>flags = [] :: nat Flag list, config_version = 8\<rparr>"]
  by (auto simp: booted_demo_sel simp flip: booted_demo_def)

lemma viz_client [simp]:
  "flagList (s\<lparr>dm_client := c\<rparr>) = flagList s" "vizKey (s\<lparr>dm_client := c\<rparr>) = vizKey s"
  "vizFlag (s\<lparr>dm_client := c\<rparr>) = vizFlag s" "viz_section v w (s\<lparr>dm_client := c\<rparr>) = viz_section v w s"
proof -
  show f: "flagList (s\<lparr>dm_client := c\<rparr>) = flagList s" by (simp add: flagList_def)
  have d: "defaultVizKey (s\<lparr>dm_client := c\<rparr>) = defaultVizKey s" unfolding defaultVizKey_def f by (rule refl)
  from d show k: "vizKey (s\<lparr>dm_client := c\<rparr>) = vizKey s" by (cases "dm_pickedVizKey s") (simp_all add: vizKey_def)
  then show v: "vizFlag (s\<lparr>dm_client := c\<rparr>) = vizFlag s" by (simp add: vizFlag_def)
  show "viz_section v w (s\<lparr>dm_client := c\<rparr>) = viz_section v w s"
    using f k v by (cases "vizFlag s") (simp_all add: viz_section_def)
qed

lemma closed_ops [simp]:
  "manuallyClosed (applyEvent v f c) = manuallyClosed c" "manuallyClosed (reconcile c) = manuallyClosed c"
  "manuallyClosed (reconcile_done ch c) = manuallyClosed c" "manuallyClosed (reconcile_return c) = manuallyClosed c"
  "manuallyClosed (fst (reconcile_page evs c)) = manuallyClosed c"
  "manuallyClosed (bootstrap_response r c) = manuallyClosed c"
  by (auto simp: applyEvent_def reconcile_def reconcile_done_def reconcile_return_def reconcile_page_eq Let_def
      bootstrap_response_def split: response.split option.split)

lemma handle_closed: "i \<noteq> Reconnect \<Longrightarrow> manuallyClosed c \<Longrightarrow> manuallyClosed (handle i c)"
  by (cases i) (auto simp: init_def disconnect_def destroy_def Let_def onUpdate_def offUpdate_def onStatus_def
      offStatus_def on_flag_updated_def on_flag_deleted_def on_error_def closeStreamIfClosed_def
      reconcile_response_def case_prod_beta split: option.split response.split)

lemma demo_step_closed:
  assumes "demo_ok s" "demo_possible i s" "i \<noteq> Click ReconnectClicked" "manuallyClosed (dm_client s)"
  shows "manuallyClosed (dm_client (demo_step i s))"
proof (cases i)
  case (Booted r)
  then show ?thesis using assms by (cases r) (simp_all add: demo_booted_def Let_def syncFlags_def demo_sdk_sel)
next
  case (Network n)
  then have "n \<noteq> Reconnect" using assms(2) by auto
  then show ?thesis using Network assms(1,4) handle_closed [of n "dm_client s"]
    by (simp add: demo_sdk_sel del: handle.simps)
next
  case (Click m)
  then show ?thesis using assms handle_closed [of Disconnect "dm_client s"]
    by (cases m) (simp_all add: demo_sdk_sel del: handle.simps)
qed

text \<open>In development mode, where the page's effect runs twice, the client's mark of having been
  closed on purpose stays set, so until the user presses "Reconnect" every error of the stream is
  ignored: whatever happened before, an error changes nothing the page shows.\<close>

theorem strict_mode_hides_stream_errors:
  assumes "demo_trace True is s" "Click ReconnectClicked \<notin> set is"
  shows "dm_status (demo_step (Network (StreamError es closed)) s) = dm_status s \<and>
         DemoPage explain data v w (demo_step (Network (StreamError es closed)) s) = DemoPage explain data v w s"
proof -
  have ok: "demo_ok s" using assms(1) by (rule demo_trace_ok)
  have closed: "manuallyClosed (dm_client s)"
    using assms
  proof (induction rule: demo_trace.induct)
    case demo_start
    then show ?case by (simp add: demo_started_eq DemoPage_init_def constructor_def)
  next
    case (demo_next "is" s i)
    then show ?case using demo_step_closed demo_trace_ok by force
  qed
  let ?t = "demo_step (Network (StreamError es closed)) s"
  have t: "?t = s\<lparr>dm_client := dm_client ?t\<rparr>" "cflags (dm_client ?t) = cflags (dm_client s)"
    "configVersion (dm_client ?t) = configVersion (dm_client s)"
    using ok closed by (simp_all add: demo_sdk_quiet on_error_def demo_put_def host_defs)
  have "DemoPage explain data v w (s\<lparr>dm_client := c\<rparr>) = DemoPage explain data v w s"
    if "cflags c = cflags (dm_client s)" "configVersion c = configVersion (dm_client s)" for c
    using that by (simp add: DemoPage_def sync_badge_def stale_def isStale_def demo_cards_def isOn_def isEnabled_def Let_def)
  from this [OF t(2,3)] have "DemoPage explain data v w ?t = DemoPage explain data v w s" using t(1) by simp
  moreover have "dm_status (s\<lparr>dm_client := dm_client ?t\<rparr>) = dm_status s" by simp
  ultimately show ?thesis using t(1) by metis
qed

theorem strict_mode_hides_stream_errors_witness:
  "dm_status (demo_step (Network (StreamError 0 True)) (demo_started True)) = Connecting"
  using strict_mode_hides_stream_errors [OF demo_start, THEN conjunct1, of 0 True]
  by (simp add: demo_started_eq DemoPage_init_def)

text \<open>The page after its first request failed with a status.\<close>

definition failed_start :: "int \<Rightarrow> demo" where
  "failed_start st = demo_step (Booted (NotOk st)) (demo_started False)"

lemma failed_start_eq:
  "failed_start st = (demo_started False)\<lparr>dm_isReady := True,
     dm_client := (dm_client (demo_started False))\<lparr>inits := 0\<rparr>\<rparr>"
  by (simp add: failed_start_def demo_booted_def Let_def demo_started_eq DemoPage_init_def constructor_def
      bootstrap_response_def demo_sdk_def with_client_def demo_put_def)

text \<open>A first request that fails leaves a page that claims to work: it is ready, says "In sync"
  and "Streaming live from the control plane", and no stream is open; when the server's version is
  known it says it is reconciling, and nothing is. The button to reconnect is disabled; the only way
  on is to disconnect first.\<close>

theorem failed_first_request_claims_live:
  "dm_isReady (failed_start st) \<and> streams (dm_client (failed_start st)) = [] \<and>
   \<not> reconciling (dm_client (failed_start st)) \<and>
   sync_badge (None :: 's FlagsResponse option) (failed_start st) =
     ela ''div''
      [(''aria-live'', js ''polite''), (''title'', js ''The SDK's local config version vs the server's latest'')]
      [el ''span'' [], el ''span'' [lit ''In sync''],
       el ''span'' [Txt (js ''client v'' @ js_num 0 @ js '' '' @ middot @ js '' server v'' @ js_num 0)]] \<and>
   reconnect_text False (dm_status (failed_start st) = Offline) 0 = js ''Streaming live from the control plane.'' \<and>
   \<not> demo_possible (Click ReconnectClicked) (failed_start st) \<and>
   length (streams (dm_client (demo_step (Click ReconnectClicked) (demo_step (Click DisconnectClicked) (failed_start st))))) = 1"
  by (simp add: failed_start_eq demo_started_eq DemoPage_init_def constructor_def
      demo_sdk_def with_client_def demo_put_def stale_def isStale_def serverVersion_def reconnect_text_def
      disconnect_def reconnect_def closeStream_def connectSSE_def setStatus_def sync_badge_def Let_def)

lemma demo_sdk_picked: "dm_pickedVizKey (demo_sdk f s) = dm_pickedVizKey s"
proof -
  have "dm_pickedVizKey (foldl (\<lambda>s x. demo_hear x s) s cs) = dm_pickedVizKey s" for s cs
  proof (induction cs arbitrary: s)
    case (Cons x cs)
    then show ?case by (cases x) (simp_all add: syncFlags_def)
  qed simp
  then show ?thesis by (simp add: demo_sdk_def with_client_def Let_def demo_put_def)
qed

text \<open>Deleting the flag picked for the explanations takes the whole section away, the list to pick
  another one included, although other flags are there: no control of the page can change the choice.\<close>

theorem deleted_pick_hides_section:
  assumes "dm_pickedVizKey s = Some k" "map_get (dm_allFlags s) k = None"
  shows "viz_section v w s = [] \<and> (\<forall>m. demo_offers m s \<longrightarrow> vizFlag (demo_update m s) = None \<or> dm_allFlags (demo_update m s) \<noteq> dm_allFlags s)"
proof -
  have none: "vizFlag s = None" using assms by (simp add: vizFlag_def vizKey_def)
  have "vizFlag (demo_update m s) = None \<or> dm_allFlags (demo_update m s) \<noteq> dm_allFlags s" if "demo_offers m s" for m
  proof (cases m)
    case (PickVizKey x)
    then show ?thesis using that none by simp
  next
    case DisconnectClicked
    then show ?thesis using assms by (auto simp: vizFlag_def vizKey_def demo_sdk_picked simp del: handle.simps)
  next
    case ReconnectClicked
    then show ?thesis using assms by (auto simp: vizFlag_def vizKey_def demo_sdk_picked simp del: handle.simps)
  qed (use assms in \<open>auto simp: vizFlag_def vizKey_def\<close>)
  then show ?thesis using none by (simp add: viz_section_def)
qed

end
