(* ===== verification/Playground.thy ===== *)
theory Playground
  imports Demo
begin

text \<open>
  The playground (\<^verbatim>\<open>app/playground/page.tsx\<close>): a flag that lives only in the page, edited and
  explained with the same components as the real ones, and the failure lab, a client of the real
  stream that the user can cut off and reconnect.
\<close>

section \<open>The sandbox\<close>

definition SANDBOX_KEY :: jsstring where
  "SANDBOX_KEY = js ''playground''"

record playground =
  pg_enabled :: bool
  pg_rollout :: int
  pg_targeted :: "jsstring list"
  pg_userInput :: jsstring
  pg_evalUser :: jsstring
  pg_explorer :: explorer
  pg_why :: jsstring

definition playground_flag :: "playground \<Rightarrow> jsstring EvaluableFlag" where
  "playground_flag s =
     \<lparr>key = SANDBOX_KEY, enabled = pg_enabled s, rollout_percentage = pg_rollout s, targeted_users = pg_targeted s\<rparr>"

text \<open>The components inside start from the page's first state.\<close>

definition Playground_init :: playground where
  "Playground_init =
     \<lparr>pg_enabled = True, pg_rollout = 30, pg_targeted = [js ''alice''], pg_userInput = [], pg_evalUser = js ''user-1'',
      pg_explorer = \<lparr>pct = 30, prevFlagPct = 30, selected = None, focusIdx = 0\<rparr>, pg_why = js ''user-1''\<rparr>"

definition addTargeted :: "playground \<Rightarrow> playground" where
  "addTargeted s =
     (let u = trim (pg_userInput s);
          s = (if u \<noteq> [] \<and> u \<notin> set (pg_targeted s) then s\<lparr>pg_targeted := pg_targeted s @ [u]\<rparr> else s)
      in s\<lparr>pg_userInput := []\<rparr>)"

datatype playground_msg =
    SetEnabled bool
  | SetRollout int
  | RemoveTargeted jsstring
  | SetUserInput jsstring
  | UserInputKey jsstring
  | AddClicked
  | SetEvalUser jsstring
  | GridMsg explorer_msg
  | ExplainerMsg why_msg

text \<open>After every change the grid follows the flag's percentage; the explainer has the user as its
  \<^verbatim>\<open>key\<close>, so a new user mounts it anew.\<close>

fun playground_set :: "playground_msg \<Rightarrow> playground \<Rightarrow> playground" where
  "playground_set (SetEnabled b) s = s\<lparr>pg_enabled := b\<rparr>"
| "playground_set (SetRollout p) s = s\<lparr>pg_rollout := p\<rparr>"
| "playground_set (RemoveTargeted u) s = s\<lparr>pg_targeted := filter (\<lambda>x. x \<noteq> u) (pg_targeted s)\<rparr>"
| "playground_set (SetUserInput t) s = s\<lparr>pg_userInput := t\<rparr>"
| "playground_set (UserInputKey k) s = (if k = js ''Enter'' then addTargeted s else s)"
| "playground_set AddClicked s = addTargeted s"
| "playground_set (SetEvalUser u) s = (if u = pg_evalUser s then s else s\<lparr>pg_evalUser := u, pg_why := u\<rparr>)"
| "playground_set (GridMsg m) s = s\<lparr>pg_explorer := explorer_update m (pg_explorer s)\<rparr>"
| "playground_set (ExplainerMsg (SetUser u)) s = s\<lparr>pg_why := u\<rparr>"

definition playground_update :: "playground_msg \<Rightarrow> playground \<Rightarrow> playground" where
  "playground_update m s0 =
     (let s = playground_set m s0 in s\<lparr>pg_explorer := explorer_render (playground_flag s) (pg_explorer s)\<rparr>)"

definition targeted_chip :: "jsstring \<Rightarrow> playground_msg view" where
  "targeted_chip u =
     el ''span''
      [Txt u,
       Elem ''button'' [(''type'', js ''button''), (''aria-label'', js ''Remove '' @ u)]
         [(''click'', msg (RemoveTargeted u))] []]"

definition builder :: "playground \<Rightarrow> playground_msg view" where
  "builder s =
     el ''section''
      [el ''h3'' [lit ''Build your flag''],
       el ''div''
        [el ''div''
          [el ''div''
            [ela ''Label'' [(''for'', js ''pg-enabled'')] [lit ''Enabled''],
             el ''p'' [lit ''Off = a kill switch: off for everyone, targeting included.'']],
           Elem ''Switch'' [(''id'', js ''pg-enabled''), (''checked'', js_bool (pg_enabled s))]
             [(''checkedChange'', \<lambda>e. SetEnabled (bool_arg e))] []],
         el ''div''
          [el ''div''
            [el ''Label'' [Term (js ''rollout'') (Some (js ''Rollout'')), lit '' percentage''],
             el ''span'' [Txt (js_num (pg_rollout s)), lit ''%'']],
           Elem ''Slider''
             [(''value'', js_num (pg_rollout s)), (''min'', js_num 0), (''max'', js_num 100), (''step'', js_num 1),
              (''aria-label'', js ''Rollout percentage''), (''disabled'', js_bool (\<not> pg_enabled s))]
             [(''valueChange'', \<lambda>e. SetRollout (num_arg e))] []],
         el ''div''
          [ela ''Label'' [(''for'', js ''pg-target'')] [Term (js ''targeting'') (Some (js ''Targeted'')), lit '' users''],
           el ''p'' [lit ''Always on for these users, regardless of the percentage.''],
           el ''div''
            (map targeted_chip (pg_targeted s) @
             [el ''span''
               [Elem ''Input''
                  [(''id'', js ''pg-target''), (''value'', pg_userInput s), (''placeholder'', js ''add a user id'' @ ellipsis)]
                  [(''change'', \<lambda>e. SetUserInput (str_arg e)), (''keydown'', \<lambda>e. UserInputKey (str_arg e))] [],
                Elem ''Button'' [(''type'', js ''button'')] [(''click'', msg AddClicked)] [lit ''Add'']]])]]]"

definition PlaygroundPage :: "bool \<Rightarrow> playground_msg view \<Rightarrow> playground \<Rightarrow> playground_msg view" where
  "PlaygroundPage explain failureLab s =
     (let f = playground_flag s
      in el ''div''
          ([PageIntro [lit ''Playground'']
             [Txt (js ''Build a flag and watch every concept react '' @ mdash @ js '' the rollout, who's in, and exactly why. It's a real evaluator on a make-believe flag, so you can't break anything.'')] [] [],
            ela ''div'' [(''role'', js ''note'')]
             [el ''span''
               [el ''span'' [Txt (js ''Sandbox '' @ mdash @ js '' nothing here is saved.'')],
                lit '' This flag never touches the server. To create a real one, head to '',
                ela ''Link'' [(''href'', js ''/flags'')] [lit ''Flags''], lit ''.'']],
            builder s] @
           GuideCallout explain None
            [Txt (js ''Everything below updates the instant you change the flag above '' @ mdash @ js '' same math the real SDK ships. Try dragging the rollout to 0% (a kill by percentage), then add a user to targeting and watch them stay on anyway.'')] @
           [el ''div''
             [map_view GridMsg (RolloutVisualizer explain f (Some (pg_evalUser s)) (pg_explorer s)),
              el ''div''
               [el ''div''
                 [ela ''Label'' [(''for'', js ''pg-eval'')] [lit ''Spotlight a user''],
                  el ''p'' [lit ''Highlights them in the grid and pre-fills the explainer below.''],
                  Elem ''Input'' [(''id'', js ''pg-eval''), (''value'', pg_evalUser s), (''placeholder'', js ''user-1'')]
                   [(''change'', \<lambda>e. SetEvalUser (str_arg e))] []],
                map_view ExplainerMsg (WhyExplainer f (pg_why s))]],
            failureLab]))"

section \<open>The failure lab\<close>

fun lab_status :: "ConnectionStatus \<Rightarrow> jsstring" where
  "lab_status Connecting = js ''Connecting''"
| "lab_status Live = js ''Live''"
| "lab_status Reconnecting = js ''Reconnecting''"
| "lab_status Reconciling = js ''Reconciling''"
| "lab_status Offline = js ''Disconnected''"

record lab =
  lb_client :: "jsstring client"
  lb_status :: ConnectionStatus
  lb_clientVersion :: int

definition FailureLab_init :: lab where
  "FailureLab_init = \<lparr>lb_client = constructor None, lb_status = Connecting, lb_clientVersion = 0\<rparr>"

definition lab_version :: "lab \<Rightarrow> lab" where
  "lab_version s = s\<lparr>lb_clientVersion := getConfigVersion (lb_client s)\<rparr>"

fun lab_hear :: "jsstring call \<Rightarrow> lab \<Rightarrow> lab" where
  "lab_hear (StatusCall l st) s = s\<lparr>lb_status := st\<rparr>"
| "lab_hear (UpdateCall l m) s = lab_version s"

definition lab_put :: "jsstring client \<Rightarrow> lab \<Rightarrow> lab" where
  "lab_put c s = s\<lparr>lb_client := c\<rparr>"

definition lab_sdk :: "(jsstring client \<Rightarrow> jsstring client) \<Rightarrow> lab \<Rightarrow> lab" where
  "lab_sdk f s = with_client lb_client lab_put lab_hear f s"

definition lab_mount :: "lab \<Rightarrow> lab" where
  "lab_mount s = lab_sdk (\<lambda>c. init (onUpdate 0 (onStatus 0 c))) s"

definition lab_cleanup :: "lab \<Rightarrow> lab" where
  "lab_cleanup s = lab_sdk (\<lambda>c. destroy (offUpdate 0 (offStatus 0 c))) s"

definition lab_booted :: "(jsstring FlagConfig list \<times> int option) response \<Rightarrow> lab \<Rightarrow> lab" where
  "lab_booted resp s0 =
     (let s = lab_sdk (bootstrap_response resp) s0
      in case resp of Ok _ \<Rightarrow> lab_version s | _ \<Rightarrow> s)"

datatype lab_msg = LabDisconnect | LabReconnect

definition FailureLab :: "bool \<Rightarrow> 's FlagsResponse option \<Rightarrow> lab \<Rightarrow> lab_msg view" where
  "FailureLab explain data s =
     (let offline = (lb_status s = Offline); missed = max 0 (serverVersion data - lb_clientVersion s)
      in ela ''section'' [(''aria-label'', js ''Failure and recovery'')]
          ([el ''div'' [el ''h3'' [lit ''What happens when it breaks?'']]] @
           GuideCallout explain None
            [lit ''Cut your own connection below. The client keeps its last-known-good config (never wrong, just frozen); when you reconnect it '',
             Term (js ''reconcile'') (Some (js ''reconciles'')), lit '' the gap from the durable '',
             Term (js ''event-log'') (Some (js ''log'')), lit ''. For a server or cache going down, the '',
             ela ''Link'' [(''href'', js ''/resilience'')] [lit ''Resilience''],
             lit '' page watches the real cluster recover.''] @
           [el ''div''
             [el ''div''
               [ela ''span'' [(''aria-live'', js ''polite'')] [el ''span'' [], el ''span'' [Txt (lab_status (lb_status s))]],
                el ''span''
                 ([Txt (js ''client v'' @ js_num (lb_clientVersion s) @ js '' '' @ middot @ js '' server v'' @
                        js_num (serverVersion data))] @
                  shown (offline \<and> missed > 0) [el ''span'' [Txt (js_num missed), lit '' behind'']])],
              el ''div''
               [Elem ''Button'' [(''disabled'', js_bool offline)] [(''click'', msg LabDisconnect)] [lit '' Disconnect''],
                Elem ''Button'' [(''disabled'', js_bool (\<not> offline))] [(''click'', msg LabReconnect)] [lit '' Reconnect'']]],
            ela ''Link'' [(''href'', js ''/resilience'')] [lit ''Watch real server & cache failures on Resilience'']]))"

datatype lab_input =
    LabBooted "(jsstring FlagConfig list \<times> int option) response"
  | LabNetwork "jsstring input"
  | LabClick lab_msg

fun lab_possible :: "lab_input \<Rightarrow> lab \<Rightarrow> bool" where
  "lab_possible (LabBooted r) s \<longleftrightarrow> possible (BootstrapResp r) (lb_client s)"
| "lab_possible (LabNetwork i) s \<longleftrightarrow> network_input i \<and> possible i (lb_client s)"
| "lab_possible (LabClick LabDisconnect) s \<longleftrightarrow> lb_status s \<noteq> Offline"
| "lab_possible (LabClick LabReconnect) s \<longleftrightarrow> lb_status s = Offline"

fun lab_step :: "lab_input \<Rightarrow> lab \<Rightarrow> lab" where
  "lab_step (LabBooted r) s = lab_booted r s"
| "lab_step (LabNetwork i) s = lab_sdk (handle i) s"
| "lab_step (LabClick LabDisconnect) s = lab_sdk (handle Disconnect) s"
| "lab_step (LabClick LabReconnect) s = lab_sdk (handle Reconnect) s"

definition lab_started :: "bool \<Rightarrow> lab" where
  "lab_started strict =
     (let s = lab_mount FailureLab_init in if strict then lab_mount (lab_cleanup s) else s)"

inductive lab_reach :: "lab \<Rightarrow> bool" where
  lab_start: "lab_reach (lab_started strict)"
| lab_next: "lab_reach s \<Longrightarrow> lab_possible i s \<Longrightarrow> lab_reach (lab_step i s)"

section \<open>The lab follows its client\<close>

interpretation lab_host: sdk_host lb_client lab_put lab_hear lb_status lb_clientVersion
proof unfold_locales
  fix x :: "jsstring call" and s :: lab and c :: "jsstring client"
  show "lb_client (lab_put c s) = c" "lb_status (lab_put c s) = lb_status s"
    "lb_clientVersion (lab_put c s) = lb_clientVersion s"
    by (simp_all add: lab_put_def)
  show "lb_client (lab_hear x s) = lb_client s" "lb_status (lab_hear x s) = told (lb_status s) x"
    "lb_clientVersion (lab_hear x s) = (if updated [x] then configVersion (lb_client s) else lb_clientVersion s)"
    by (cases x; simp add: lab_version_def getConfigVersion_def)+
qed

lemma lab_started_ok: "lab_host.ok (lab_started strict)"
  by (cases strict)
    (simp_all add: lab_started_def lab_mount_def lab_cleanup_def lab_sdk_def with_client_def Let_def
      init_def destroy_def onUpdate_def onStatus_def offUpdate_def offStatus_def set_add_def closeStream_def
      setStatus_def lab_put_def FailureLab_init_def constructor_def lab_host.ok_def client_inv_def)

lemma lab_booted_ok:
  assumes "lab_host.ok s"
  shows "lab_host.ok (lab_booted r s)"
proof -
  let ?c = "bootstrap_response r (lb_client s)"
  have eq: "lab_sdk (bootstrap_response r) s = lab_put (?c\<lparr>calls := []\<rparr>) s"
    unfolding lab_sdk_def using assms by (intro lab_host.run_quiet) (simp_all add: lab_host.ok_def)
  have "client_inv (?c\<lparr>calls := []\<rparr>)"
    using assms client_inv_bootstrap [of "lb_client s" r] by (auto simp: lab_host.ok_def client_inv_def)
  then show ?thesis
    using assms eq bootstrap_fails [of r "lb_client s"]
    by (cases r) (simp_all add: lab_host.ok_def lab_booted_def Let_def lab_put_def lab_version_def getConfigVersion_def)
qed

lemma lab_step_ok: "lab_host.ok s \<Longrightarrow> lab_possible i s \<Longrightarrow> lab_host.ok (lab_step i s)"
  by (cases "(i, s)" rule: lab_step.cases)
    (simp_all add: lab_booted_ok lab_sdk_def lab_host.ok_input network_page_input del: handle.simps)

theorem lab_follows_sdk:
  assumes "lab_reach s"
  shows "lb_status s = status (lb_client s) \<and> lb_clientVersion s \<le> configVersion (lb_client s)"
proof -
  have "lab_host.ok s" using assms by (induction rule: lab_reach.induct) (simp_all add: lab_started_ok lab_step_ok)
  then show ?thesis by (simp add: lab_host.ok_def)
qed

section \<open>The sandbox stays a valid flag\<close>

definition playground_ok :: "playground \<Rightarrow> bool" where
  "playground_ok s \<longleftrightarrow> users_ok (pg_targeted s) \<and> 0 \<le> pg_rollout s \<and> pg_rollout s \<le> 100 \<and>
     prevFlagPct (pg_explorer s) = pg_rollout s"

lemma explorer_update_prev [simp]: "prevFlagPct (explorer_update m x) = prevFlagPct x"
  by (cases m) (simp_all add: onGridKeyDown_def)

lemma addTargeted_sel [simp]:
  "pg_rollout (addTargeted s) = pg_rollout s" "pg_explorer (addTargeted s) = pg_explorer s"
  "pg_enabled (addTargeted s) = pg_enabled s"
  by (simp_all add: addTargeted_def Let_def)

lemma addTargeted_ok: "users_ok (pg_targeted s) \<Longrightarrow> users_ok (pg_targeted (addTargeted s))"
  by (auto simp: addTargeted_def users_ok_def Let_def)

lemma playground_update_ok:
  assumes "playground_ok s" "\<forall>p. m = SetRollout p \<longrightarrow> 0 \<le> p \<and> p \<le> 100"
  shows "playground_ok (playground_update m s)"
proof -
  have "users_ok (pg_targeted (playground_set m s)) \<and> 0 \<le> pg_rollout (playground_set m s) \<and>
        pg_rollout (playground_set m s) \<le> 100"
    using assms by (cases "(m, s)" rule: playground_set.cases)
      (auto simp: playground_ok_def addTargeted_ok, auto simp: users_ok_def list_all_iff)
  then show ?thesis
    by (simp add: playground_ok_def playground_update_def Let_def explorer_render_def playground_flag_def)
qed

definition playground_run :: "playground_msg list \<Rightarrow> playground \<Rightarrow> playground" where
  "playground_run ms s = foldl (\<lambda>s m. playground_update m s) s ms"

lemma playground_run_append: "playground_run (ms @ ns) s = playground_run ns (playground_run ms s)"
  by (simp add: playground_run_def)

lemma playground_run_inv:
  "playground_ok s \<Longrightarrow> \<forall>m \<in> set ms. \<forall>p. m = SetRollout p \<longrightarrow> 0 \<le> p \<and> p \<le> 100 \<Longrightarrow> playground_ok (playground_run ms s)"
  by (induction ms arbitrary: s) (simp_all add: playground_run_def playground_update_ok)

text \<open>However the sandbox is edited, its flag stays one the real form would accept: the list of
  users has no duplicates and no blanks, the percentage stays in range, and the grid shows the flag's
  percentage again after every change of it. The evaluator then keeps what the page promises: a user
  added to the list is on at any percentage, while the flag is enabled.\<close>

theorem playground_run_ok:
  assumes "\<forall>m \<in> set ms. \<forall>p. m = SetRollout p \<longrightarrow> 0 \<le> p \<and> p \<le> 100" "trim u \<noteq> []"
  shows "playground_ok (playground_run ms Playground_init) \<and>
         t_on (evaluate (Some (playground_flag (playground_run (ms @ [SetUserInput u, AddClicked]) Playground_init))) (trim u)) =
           pg_enabled (playground_run ms Playground_init)"
proof
  have "playground_ok Playground_init"
    by (simp add: playground_ok_def Playground_init_def users_ok_def trim_def is_space_def js_def)
  then show "playground_ok (playground_run ms Playground_init)" using assms(1) by (rule playground_run_inv)
  let ?s = "playground_run ms Playground_init"
  have "trim u \<in> set (pg_targeted (playground_run [SetUserInput u, AddClicked] ?s))"
    "pg_enabled (playground_run [SetUserInput u, AddClicked] ?s) = pg_enabled ?s"
    using assms(2) by (auto simp: playground_run_def playground_update_def Let_def addTargeted_def)
  then show "t_on (evaluate (Some (playground_flag (playground_run (ms @ [SetUserInput u, AddClicked]) Playground_init))) (trim u)) =
      pg_enabled ?s"
    by (simp add: playground_run_append evaluate_on playground_flag_def)
qed

theorem playground_run_ok_witness:
  "t_on (evaluate (Some (playground_flag (playground_run ([SetRollout 0] @ [SetUserInput (js ''bob''), AddClicked]) Playground_init))) (js ''bob''))"
proof -
  have bob: "trim (js ''bob'') = js ''bob''" by (simp add: trim_def is_space_def js_def)
  have "pg_enabled (playground_run [SetRollout 0] Playground_init)"
    by (simp add: playground_run_def playground_update_def Let_def Playground_init_def)
  then show ?thesis using playground_run_ok [of "[SetRollout 0]" "js ''bob''"] bob by simp
qed

end
