(* ===== verification/Spec2Isabelle.thy ===== *)
theory Spec2Isabelle
  imports ReplyText Scenario Front Instruments Drain LoadStats Typing Migrate ClientAccess StreamHandler Wrappers Pages Streams PropagationHero
    Overview Shell Playground
begin

text \<open>
  A feature-flag system: a control plane in Go stores flags in Postgres, with an append-only
  event log, and announces every change over Redis and server-sent events; a web page in
  TypeScript administers the flags; a browser SDK holds the flags in memory, follows the
  stream, and evaluates them locally. This library models the TypeScript program and the
  parts of the control plane it talks to, and proves that a client converges to what was
  committed, that both sides decide a flag the same way, and what the page shows and sends.

  \<^bold>\<open>How the parts interact.\<close> A page component calls a data hook (\<^verbatim>\<open>hooks/\<close>), which hands a
  request of \<^verbatim>\<open>lib/api.ts\<close> to the query library; the request goes through the server-side
  proxy (\<^verbatim>\<open>lib/admin-proxy.ts\<close>, \<^verbatim>\<open>app/api/admin\<close>), which adds the admin key, to the Go handlers
  (\<^verbatim>\<open>internal/handler\<close>), the service (\<^verbatim>\<open>internal/service\<close>) and the repository
  (\<^verbatim>\<open>internal/repository\<close>). A committed write is announced; the announcement and the event
  log reach the browser SDK (\<^verbatim>\<open>sdk/FeatureFlagClient.ts\<close>) as frames and as pages of a backlog.

  \<^bold>\<open>Theories, from the bottom up.\<close>
  \<^item> \<open>Prelude\<close>: strings of the languages involved (code units, bytes, code points), numbers as
    text, splitting and trimming. \<open>Stores\<close>: JavaScript and Go maps, and the locale of a keyed
    store that a list of changes is replayed into, interpreted on both. \<open>Encoding\<close>: UTF-16 and
    UTF-8 of a text. \<open>View\<close>: a rendered tree with its event handlers. \<open>Json\<close>: parsed JSON.
  \<^item> \<open>FlagTypes\<close> (\<^verbatim>\<open>types/flag.ts\<close>), \<open>Rollout\<close> (\<^verbatim>\<open>fnv1a32\<close>, \<^verbatim>\<open>isInRollout\<close>, the Go hashes),
    \<open>Evaluate\<close> (\<^verbatim>\<open>lib/evaluate.ts\<close>).
  \<^item> \<open>Repository\<close>, \<open>Service\<close>: the database with its constraints, the transactions, the service,
    the announcements and the handlers; \<open>AdminApi\<close>: the way of an admin request from the page to
    a handler and back.
  \<^item> \<open>SdkClient\<close>, \<open>SdkMachine\<close>: the SDK's fields and methods, asynchronous methods cut at each
    \<^verbatim>\<open>await\<close>; the inputs that can arrive, and the reachable states.
  \<^item> \<open>Backlog\<close>, \<open>Replica\<close>, \<open>Convergence\<close>, \<open>System\<close>: the contract of the reconcile endpoint as a locale,
    interpreted on the repository; a store that the log is replayed into as another, interpreted on
    the maps of both SDKs; what it means that a client is in step with the log; server, network
    and client together. \<open>Interleaving\<close>: transactions that overlap. \<open>Broker\<close>
    (\<^verbatim>\<open>internal/sse/broker.go\<close>): the fan-out of one backend, its bounded channels, and the
    handlers in any order. \<open>SseWire\<close>: the text of a stream as the broker writes it and the Go
    client reads it; \<open>GoClient\<close> (\<^verbatim>\<open>pkg/ffclient\<close>): the Go SDK, beside the control plane and
    against the browser SDK. \<open>JsonText\<close>: JSON as text; \<open>LivePath\<close> (\<^verbatim>\<open>internal/sse/wire.go\<close>): an announcement from
    the write to the Go client, as text on every step; \<open>ReplyText\<close>: the replies to both SDKs as text. \<open>Typing\<close>: the keys, percentages and versions of the flags in the log
    and in the clients.
  \<^item> \<open>Operations\<close> (\<^verbatim>\<open>internal/config\<close>, \<^verbatim>\<open>health_handler.go\<close>): the configuration, liveness and readiness;
    \<open>ClientAccess\<close> (\<^verbatim>\<open>middleware/auth.go\<close>, the client routes of \<^verbatim>\<open>cmd/server/main.go\<close>): the requests of
    the clients, their URLs and the key check; \<open>Front\<close> (\<^verbatim>\<open>middleware/logging.go\<close>, \<^verbatim>\<open>middleware/cors.go\<close>, the route
    table): what every request passes before its handler, and pages of other origins; \<open>Instruments\<close>
    (\<^verbatim>\<open>internal/metrics\<close>): the metrics beside what they count; \<open>StreamHandler\<close>: one connection of the broker with its
    ticker and idle timer; \<open>Drain\<close> (\<^verbatim>\<open>cmd/server/main.go\<close>): the end of a server process; \<open>Migrate\<close> (\<^verbatim>\<open>internal/migrate\<close>): replicas that migrate one database.
  \<^item> \<open>Guarded\<close>: overlapping updates that carry the version they were made on. \<open>Fleet\<close>, \<open>Chaos\<close>, \<open>Scenario\<close>
    (\<^verbatim>\<open>pkg/chaoskit\<close>, \<^verbatim>\<open>cmd/chaos\<close>): what the chaos tool watches and concludes, against the clients and the
    repository it watches, and its scenario of concurrent writers; \<open>LoadStats\<close> (\<^verbatim>\<open>loadgen.go\<close>): the percentiles of the load driver.
  \<^item> \<open>FlagForms\<close>, \<open>FlagViews\<close>, \<open>Explain\<close>, \<open>Teaching\<close>, \<open>Streams\<close>, \<open>Hooks\<close>, \<open>Pages\<close>: the forms, the list
    and the history, the explanation layer and the tour, the evaluation and rollout panels, the
    stream console and the version timeline, the data hooks, the pages of one flag.
  \<^item> \<open>FlipRun\<close>, \<open>ClusterHero\<close>, \<open>PropagationHero\<close>: the two panels that flip a demo flag and follow it
    through the cluster, their \<^verbatim>\<open>runFlip\<close> cut at its awaits into a step function; \<open>FleetPages\<close>: the
    cluster, health and resilience pages; \<open>Overview\<close>: the first page.
  \<^item> \<open>SdkHost\<close>: the interface of a component that holds an SDK client, as two locales, interpreted on
    the demo page (\<open>Demo\<close>, \<^verbatim>\<open>app/demo\<close>, \<^verbatim>\<open>components/demo\<close>) and on the failure lab of the playground
    (\<open>Playground\<close>, \<^verbatim>\<open>app/playground\<close>); \<open>Shell\<close>: navigation, layout, glossary and learning pages.
  \<^item> \<open>Primitives\<close>, \<open>Overlays\<close>, \<open>Wrappers\<close> (\<^verbatim>\<open>components/ui\<close>): the interface primitives as elements of their
    properties, with class names, and what they promise to the components that use them.

  \<^bold>\<open>How state and operations correspond.\<close> A class or a component with state is a record whose
  fields are its fields or \<^verbatim>\<open>useState\<close> cells; a method or handler is a function on the record; a
  component's \<^verbatim>\<open>return\<close> is a function from the state to a tree of elements, texts and handlers, where
  class names, icons and purely visual wrappers are left out; only the interface primitives, whose work
  they are, keep them. Errors are values of a sum
  or option type. Integers of the program are unbounded where the code compares them only, and words or
  explicit remainders where it computes on 32 bits.

  \<^bold>\<open>What the groups of lemmas show.\<close> Each operation of the repository preserves \<open>db_wf\<close>: unique
  keys, increasing versions below the sequence, and a log whose replay is the table. Each input of
  the SDK preserves \<open>client_inv\<close>. Each step of the system preserves \<open>sys_inv\<close>, of which \<open>in_step\<close> is the
  core: the client's flags are the log's state at the client's version. \<open>reconcile_loop_ends\<close> adds
  progress. The theories about the page relate what is shown to what is evaluated, and what is
  sent to what is stored. A component that holds a client shows its status and never a version ahead
  of it (\<open>sdk_host\<close>); the panels that follow a flip claim convergence only with an arrival of every
  node (\<open>cluster_inv\<close>, \<open>prop_inv\<close>).

  \<^bold>\<open>Bounds.\<close> A page of the backlog has at most 500 events, so \<open>m + 1\<close> rounds read \<open>500 m\<close> events; the
  loop of \<^verbatim>\<open>reconcile\<close> gives up after 10000 rounds, which is the bound on \<open>m\<close> in
  \<open>reconcile_converges\<close>, and the reason why it always ends. \<open>reconcile_loop\<close> takes the number of
  rounds as fuel, and the theorem says that any number above \<open>m\<close> is enough. The loop of the Go
  client counts down its own guard of 100000 rounds, which is enough for 50 million events
  (\<open>go_reconcile_converges\<close>). The reader of JSON takes one more than the
  length of the text as fuel, which is enough for every text that is printed (\<open>parse_json_text\<close>, \<open>read_object\<close>). No other
  function needs fuel.

  \<^bold>\<open>Not modelled.\<close> The text of JSON in the requests and replies of the page: values stand for what is decoded from it; Redis itself is a
  list of texts, of which the system lets any be lost, repeated and reordered. The query library, the
  router, the toaster and the components the interface primitives wrap are third-party; calls to them are
  recorded as effects or appear as elements. Animation, focus and scrolling. The opening of the
  pools at the start, tracing, the library behind the cross-origin headers (its documented behaviour is a
  hypothesis), the histograms of durations, log lines other than those of requests, the load and soak tools, and the scenarios of
  the chaos tool that stop, pause or restart containers.
\<close>

section \<open>The SDK and the control plane\<close>


text \<open>A run: a write, the bootstrap, another write, and its announcement.\<close>

definition sample_run :: sys where
  "sample_run =
     client_input (StreamUpdated 0 (js_num 2) (as_config (flag_one\<lparr>enabled := True, version := 2, updated_at := 5\<rparr>)))
      (server_op (OpToggle 5 (ascii ''1''))
        (client_input (BootstrapResp (Ok ([as_config flag_one], Some 1)))
          (client_input Init (sys_start server_one None))))"

lemmas run_eval = possible_def init_def client_input_def setStatus_def server_op_def ToggleFlag_def
  Toggle_def nextVersion_def toggle_tx_def row_by_id_def appendEvent_def replace_row_def
  publishFlagUpdate_def Publish_def bootstrap_response_def connectSSE_def closeStream_def
  reconcile_def h_GetAllFlags_def List_flags_def GetLatestVersion_def
  sys_start_def constructor_def server_one_def db_one_def flag_one_def Let_def

lemma toggled_run_reach:
  "sys_reach (server_op (OpToggle 5 (ascii ''1''))
        (client_input (BootstrapResp (Ok ([as_config flag_one], Some 1)))
          (client_input Init (sys_start server_one None))))"
proof -
  have "sys_reach (sys_start server_one None)" by (rule sys_init [OF server_one_inv])
  then have "sys_reach (client_input Init (sys_start server_one None))"
    by (rule sys_next) (rule sys_client, simp_all add: run_eval)
  then have "sys_reach (client_input (BootstrapResp (Ok ([as_config flag_one], Some 1)))
      (client_input Init (sys_start server_one None)))"
    by (rule sys_next) (rule sys_client, simp_all add: run_eval)
  then show ?thesis by (rule sys_next) (rule sys_write)
qed

lemma sample_run_reach: "sys_reach sample_run"
  unfolding sample_run_def
  by (rule sys_next [OF toggled_run_reach]) (rule sys_client, simp_all add: run_eval)


section \<open>Catching up\<close>

text \<open>A run in which the announcement of the second write is lost: the stream opens after it,
  and the client reconciles.\<close>

definition missed_run :: sys where
  "missed_run =
     client_input (StreamOpen 0)
      (server_op (OpToggle 5 (ascii ''1''))
        (client_input (BootstrapResp (Ok ([as_config flag_one], Some 1)))
          (client_input Init (sys_start server_one None))))"

lemma missed_run_reach: "sys_reach missed_run"
  unfolding missed_run_def
  by (rule sys_next [OF toggled_run_reach]) (rule sys_client, simp_all add: run_eval)

lemma missed_run_state:
  "rframe (sdk missed_run) = Some \<lparr>prevStatus = Connecting, changed = False, guard = 0\<rparr>"
  "up (sdb (srv missed_run))" "configVersion (sdk missed_run) = 1"
  "map ev_version (events (sdb (srv missed_run))) = [1, 2]"
  by (simp_all add: missed_run_def run_eval)



text \<open>C12: A client never holds a flag nobody wrote: each flag it holds is, field by field, the
  result of a committed write of that key, whose version is at most the client's.\<close>

theorem held_flags_were_committed:
  assumes "sys_reach y" "map_get (cflags (sdk y)) k = Some f"
  shows "\<exists>e \<in> set (events (sdb (srv y))). ev_version e = version f \<and> ev_version e \<le> configVersion (sdk y) \<and>
           flag_key e = k \<and> key f = k \<and> map_option as_config (payload_flag (payload e)) = Some f"
  by (rule client_flag_logged [OF assms])

theorem held_flags_were_committed_witness:
  "\<exists>e \<in> set (events (sdb (srv missed_run))). ev_version e = 1 \<and> flag_key e = ascii ''checkout'' \<and>
     map_option as_config (payload_flag (payload e)) = Some (as_config flag_one)"
proof -
  have "map_get (cflags (sdk missed_run)) (ascii ''checkout'') = Some (as_config flag_one)"
    by (simp add: missed_run_def run_eval bootstrap_flags_def as_config_def)
  from held_flags_were_committed [OF missed_run_reach this] show ?thesis
    by (force simp: as_config_def flag_one_def)
qed

text \<open>C13: Every flag a client ever holds has a key the service accepts, a percentage from 0 to 100 and a
  version from 1 to the client's own, provided the log the server started with had only such flags.\<close>

theorem held_flags_are_typed:
  assumes "sys_reach y" "log_typed (sdb (last (hist y)))" "map_get (cflags (sdk y)) k = Some f"
  shows "key f = k \<and> keyRegex (utf8 k) \<and> length (utf8 k) \<le> 64 \<and>
         0 \<le> rollout_percentage f \<and> rollout_percentage f \<le> 100 \<and> 1 \<le> version f \<and> version f \<le> configVersion (sdk y)"
  using held_config_typed [OF assms] by (auto simp: typed_config_def)

theorem held_flags_are_typed_witness:
  "keyRegex (utf8 (ascii ''checkout'')) \<and> map_get (cflags (sdk missed_run)) (ascii ''checkout'') = Some (as_config flag_one)"
proof -
  have held: "map_get (cflags (sdk missed_run)) (ascii ''checkout'') = Some (as_config flag_one)"
    by (simp add: missed_run_def run_eval bootstrap_flags_def as_config_def)
  have "last (hist missed_run) = server_one"
    by (simp add: missed_run_def run_eval bootstrap_flags_def)
  moreover have "log_typed (sdb server_one)"
    by (simp add: log_typed_def server_one_def db_one_def flag_one_def typed_config_def as_config_def ascii_def
        utf8_def utf8_char_def keyRegex_def key_byte_def)
  ultimately show ?thesis using held_flags_are_typed [OF missed_run_reach _ held] held by simp
qed

end
